(* ===== verification/FD_Prelude.thy ===== *)
theory FD_Prelude
  imports Main "HOL-Library.Word" "HOL-Library.Signed_Division" "HOL-Library.AList"
    "HOL-Library.Multiset"
begin

text \<open>
  Shared vocabulary of the development: Go errors as values, results as sums, fixed-width
  arithmetic written out on integers, the insertion sort that stands for Go's \<open>sort\<close>
  package, generic lemmas on lists and association lists, and the generic locale of
  systems that step from a start state under an invariant.
\<close>

section \<open>Collections of facts\<close>

named_theorems fd_inv \<open>preservation of a component's invariant by one operation\<close>
named_theorems fd_frame \<open>what an operation leaves unchanged\<close>

section \<open>Errors\<close>

text \<open>
  A Go error is a sentinel (\<open>var ErrX = errors.New(..)\<close>, compared by identity), a fresh
  formatted error, an error wrapped with \<open>%w\<close>, two errors wrapped at once
  (\<open>fmt.Errorf("%w: %w", a, b)\<close>) or a join. Formats and arguments are kept apart, so no
  text is lost and none is invented.
\<close>

datatype farg = FS string | FI int

datatype gerr =
    Sentinel string
  | Errf string "farg list"
  | Wrap string "farg list" gerr
  | Wrap2 gerr gerr
  | Joined "gerr list"

text \<open>\<open>errors.Is\<close> with a sentinel target.\<close>

fun is_err :: "string \<Rightarrow> gerr \<Rightarrow> bool" where
  "is_err t (Sentinel s) = (s = t)"
| "is_err t (Errf f as) = False"
| "is_err t (Wrap f as e) = is_err t e"
| "is_err t (Wrap2 a b) = (is_err t a \<or> is_err t b)"
| "is_err t (Joined es) = (\<exists>e \<in> set es. is_err t e)"

type_synonym 'a res = "gerr + 'a"

text \<open>\<open>context.Canceled\<close>.\<close>

definition CtxCanceled :: string where "CtxCanceled = ''context canceled''"

fun ok :: "'a res \<Rightarrow> bool" where
  "ok (Inl e) = False"
| "ok (Inr a) = True"

section \<open>Fixed-width integers\<close>

text \<open>
  Two's complement wrap-around of a 64-bit signed integer, on \<open>int\<close>, and Go's
  arithmetic on \<open>int64\<close>: addition, subtraction and multiplication wrap, division
  truncates towards zero.
\<close>

definition wrap64 :: "int \<Rightarrow> int" where
  "wrap64 x = (x + 2 ^ 63) mod 2 ^ 64 - 2 ^ 63"

definition int64 :: "int \<Rightarrow> bool" where
  "int64 x \<longleftrightarrow> - (2 ^ 63) \<le> x \<and> x < 2 ^ 63"

definition add64 :: "int \<Rightarrow> int \<Rightarrow> int" where "add64 a b = wrap64 (a + b)"
definition sub64 :: "int \<Rightarrow> int \<Rightarrow> int" where "sub64 a b = wrap64 (a - b)"
definition mul64 :: "int \<Rightarrow> int \<Rightarrow> int" where "mul64 a b = wrap64 (a * b)"
definition div64 :: "int \<Rightarrow> int \<Rightarrow> int" where "div64 a b = wrap64 (a sdiv b)"

lemma wrap64_id: "int64 x \<Longrightarrow> wrap64 x = x"
  by (simp add: wrap64_def int64_def)

lemma int64_wrap64 [simp, intro]: "int64 (wrap64 x)"
  by (simp add: wrap64_def int64_def)

lemma wrap64_wrap64 [simp]: "wrap64 (wrap64 x) = wrap64 x"
  by (rule wrap64_id) simp

lemma wrap64_add_left: "wrap64 (wrap64 a + b) = wrap64 (a + b)"
proof -
  have "((a + 2 ^ 63) mod 2 ^ 64 + b) mod 2 ^ 64 = (a + 2 ^ 63 + b) mod (2 ^ 64 :: int)"
    by (rule mod_add_left_eq)
  then show ?thesis by (simp add: wrap64_def add_ac)
qed

lemma wrap64_add_right: "wrap64 (a + wrap64 b) = wrap64 (a + b)"
  using wrap64_add_left [of b a] by (simp add: add.commute)

lemma add64_assoc: "add64 (add64 a b) c = add64 a (add64 b c)"
  by (simp add: add64_def wrap64_add_left wrap64_add_right add.assoc)

lemma add64_commute: "add64 a b = add64 b a"
  by (simp add: add64_def add.commute)

lemma add64_left_commute: "add64 a (add64 b c) = add64 b (add64 a c)"
  by (metis add64_assoc add64_commute)

lemmas add64_ac = add64_assoc add64_commute add64_left_commute

lemma add64_exact: "int64 (a + b) \<Longrightarrow> add64 a b = a + b"
  by (simp add: add64_def wrap64_id)

lemma sdiv_nonneg: "0 \<le> a \<Longrightarrow> 0 < b \<Longrightarrow> a sdiv b = a div (b :: int)"
  by (simp add: signed_divide_int_def sgn_if)

section \<open>Sorting\<close>

text \<open>
  \<open>sort.Slice\<close> and \<open>sort.SliceStable\<close> with a less function. The model is the stable
  insertion sort; where Go's unstable sort may order ties differently, the theorems only
  speak of the multiset and the order of the result.
\<close>

fun insert_by :: "('a \<Rightarrow> 'a \<Rightarrow> bool) \<Rightarrow> 'a \<Rightarrow> 'a list \<Rightarrow> 'a list" where
  "insert_by lt x [] = [x]"
| "insert_by lt x (y # ys) = (if lt y x then y # insert_by lt x ys else x # y # ys)"

fun sort_by :: "('a \<Rightarrow> 'a \<Rightarrow> bool) \<Rightarrow> 'a list \<Rightarrow> 'a list" where
  "sort_by lt [] = []"
| "sort_by lt (x # xs) = insert_by lt x (sort_by lt xs)"

lemma set_insert_by [simp]: "set (insert_by lt x ys) = insert x (set ys)"
  by (induction ys) auto

lemma mset_insert_by [simp]: "mset (insert_by lt x ys) = add_mset x (mset ys)"
  by (induction ys) auto

lemma mset_sort_by [simp]: "mset (sort_by lt xs) = mset xs"
  by (induction xs) auto

lemma set_sort_by [simp]: "set (sort_by lt xs) = set xs"
  by (induction xs) auto

lemma length_sort_by [simp]: "length (sort_by lt xs) = length xs"
  by (metis mset_sort_by size_mset)

text \<open>\<open>\<not> lt b a\<close> for every \<open>a\<close> before \<open>b\<close>: what Go promises of a sorted slice.\<close>

definition ordered :: "('a \<Rightarrow> 'a \<Rightarrow> bool) \<Rightarrow> 'a list \<Rightarrow> bool" where
  "ordered lt xs \<longleftrightarrow> sorted_wrt (\<lambda>a b. \<not> lt b a) xs"

definition strict_weak :: "('a \<Rightarrow> 'a \<Rightarrow> bool) \<Rightarrow> bool" where
  "strict_weak lt \<longleftrightarrow>
     (\<forall>a b. lt a b \<longrightarrow> \<not> lt b a) \<and> (\<forall>a b c. \<not> lt a b \<and> \<not> lt b c \<longrightarrow> \<not> lt a c)"

lemma ordered_insert_by:
  assumes "strict_weak lt" and "ordered lt ys"
  shows "ordered lt (insert_by lt x ys)"
  using assms(2)
proof (induction ys)
  case Nil
  then show ?case by (simp add: ordered_def)
next
  case (Cons y ys)
  have tr: "\<And>a b c. \<not> lt a b \<Longrightarrow> \<not> lt b c \<Longrightarrow> \<not> lt a c"
    and asym: "\<And>a b. lt a b \<Longrightarrow> \<not> lt b a"
    using assms(1) unfolding strict_weak_def by blast+
  show ?case
  proof (cases "lt y x")
    case True
    with Cons show ?thesis by (auto simp: ordered_def asym)
  next
    case False
    with Cons.prems show ?thesis by (auto simp: ordered_def dest: tr)
  qed
qed

lemma ordered_sort_by: "strict_weak lt \<Longrightarrow> ordered lt (sort_by lt xs)"
  by (induction xs) (auto simp: ordered_insert_by, simp add: ordered_def)

lemma sorted_le_last: "sorted xs \<Longrightarrow> x \<in> set xs \<Longrightarrow> x \<le> last xs"
  by (induction xs) auto

section \<open>Systems with steps\<close>

text \<open>
  The contract every stateful component offers: a start state and a step relation that
  keep an invariant. What a client gets is the invariant in every reachable state.
\<close>

inductive run_of :: "('s \<Rightarrow> 's \<Rightarrow> bool) \<Rightarrow> 's \<Rightarrow> 's \<Rightarrow> bool" for step where
  run_refl: "run_of step s s"
| run_step: "run_of step s t \<Longrightarrow> step t u \<Longrightarrow> run_of step s u"

locale step_system =
  fixes start :: "'s \<Rightarrow> bool"
    and step :: "'s \<Rightarrow> 's \<Rightarrow> bool"
    and inv :: "'s \<Rightarrow> bool"
  assumes inv_start: "start s \<Longrightarrow> inv s"
    and inv_step: "inv s \<Longrightarrow> step s t \<Longrightarrow> inv t"
begin

lemma inv_run: "run_of step s t \<Longrightarrow> inv s \<Longrightarrow> inv t"
  by (induction rule: run_of.induct) (auto intro: inv_step)

lemma inv_reachable: "start s \<Longrightarrow> run_of step s t \<Longrightarrow> inv t"
  by (blast intro: inv_run inv_start)

end

text \<open>
  Some systems also wind down: every step lowers a measure, so no schedule has more steps than the start's measure.
\<close>

locale winding_system = step_system start step inv
  for start :: "'s \<Rightarrow> bool" and step :: "'s \<Rightarrow> 's \<Rightarrow> bool" and inv :: "'s \<Rightarrow> bool" +
  fixes mu :: "'s \<Rightarrow> nat"
  assumes mu_step: "inv s \<Longrightarrow> step s t \<Longrightarrow> mu t < mu s"
begin

lemma winds_down: "inv s \<Longrightarrow> (step ^^ n) s t \<Longrightarrow> inv t \<and> n + mu t \<le> mu s"
proof (induction n arbitrary: t)
  case (Suc n)
  then obtain u where "(step ^^ n) s u" "step u t" by auto
  with Suc.IH [of u] Suc.prems(1) show ?case using inv_step [of u t] mu_step [of u t] by auto
qed simp

lemma steps_bounded: "start s \<Longrightarrow> (step ^^ n) s t \<Longrightarrow> n \<le> mu s"
  using winds_down [OF inv_start] by fastforce

end

section \<open>Association lists\<close>

text \<open>
  Go maps that the code ranges over or measures with \<open>len\<close> are association lists with
  distinct keys; maps that are only read and written by key are HOL maps.
\<close>

definition wf_al :: "('k \<times> 'v) list \<Rightarrow> bool" where
  "wf_al al \<longleftrightarrow> distinct (map fst al)"

lemma wf_al_Nil [simp]: "wf_al []"
  by (simp add: wf_al_def)

lemma wf_al_update [simp, intro]: "wf_al al \<Longrightarrow> wf_al (AList.update k v al)"
  by (simp add: wf_al_def distinct_update)

lemma wf_al_delete [simp, intro]: "wf_al al \<Longrightarrow> wf_al (AList.delete k al)"
  by (simp add: wf_al_def distinct_delete)

lemma set_update_sub: "set (AList.update k v ps) \<subseteq> insert (k, v) (set ps)"
  by (induction ps) auto

lemma length_delete_less: "map_of al k \<noteq> None \<Longrightarrow> length (AList.delete k al) < length al"
proof (induction al)
  case (Cons p al)
  obtain a b where p: "p = (a, b)" by (cases p)
  show ?case
  proof (cases "a = k")
    case True
    then show ?thesis using length_delete_le [of k al] by (simp add: p)
  next
    case False
    with Cons show ?thesis by (auto simp: p)
  qed
qed simp

lemma map_of_eq_None_keys: "map_of al k = None \<longleftrightarrow> k \<notin> fst ` set al"
  by (simp add: map_of_eq_None_iff)

end
