(* ===== verification/Go_Text.thy ===== *)
theory Go_Text
  imports FD_Prelude
begin

text \<open>
  Go strings as byte strings (\<open>string\<close>, a list of 8-bit characters) and the parts of the
  standard packages \<open>unicode/utf8\<close>, \<open>unicode\<close> and \<open>strings\<close> the services use: UTF-8
  decoding with replacement of invalid bytes, rune classes, \<open>TrimSpace\<close>, \<open>TrimFunc\<close>,
  \<open>Fields\<close>, \<open>ToLower\<close>, \<open>Join\<close>, \<open>HasPrefix\<close>, \<open>HasSuffix\<close> and friends.

  Rune classes follow the standard library's own split: code points up to U+00FF are
  decided by the Latin-1 property table, written out here; above it the library searches
  its generated Unicode range tables, which are the parameter \<open>unicode\<close>. White space
  (\<open>unicode.IsSpace\<close>) has a closed list in the library and is written out in full.
\<close>

section \<open>UTF-8\<close>

type_synonym rune = nat

abbreviation byte :: "char \<Rightarrow> nat" where "byte c \<equiv> of_char c"

definition rune_error :: rune where "rune_error = 0xFFFD"

definition cont :: "nat \<Rightarrow> bool" where "cont b \<longleftrightarrow> 0x80 \<le> b \<and> b \<le> 0xBF"

text \<open>\<open>utf8.DecodeRune\<close>: the rune and its width; an invalid byte is U+FFFD of width 1.\<close>

definition decode2 :: "nat \<Rightarrow> nat list \<Rightarrow> (rune \<times> nat) option" where
  "decode2 b0 bs =
     (case bs of b1 # _ \<Rightarrow>
        if 0xC2 \<le> b0 \<and> b0 \<le> 0xDF \<and> cont b1 then Some ((b0 - 0xC0) * 64 + (b1 - 0x80), 2) else None
      | [] \<Rightarrow> None)"

definition decode3 :: "nat \<Rightarrow> nat list \<Rightarrow> (rune \<times> nat) option" where
  "decode3 b0 bs =
     (case bs of b1 # b2 # _ \<Rightarrow>
        if 0xE0 \<le> b0 \<and> b0 \<le> 0xEF \<and> cont b1 \<and> cont b2
           \<and> (b0 = 0xE0 \<longrightarrow> 0xA0 \<le> b1) \<and> (b0 = 0xED \<longrightarrow> b1 \<le> 0x9F)
        then Some ((b0 - 0xE0) * 4096 + (b1 - 0x80) * 64 + (b2 - 0x80), 3) else None
      | _ \<Rightarrow> None)"

definition decode4 :: "nat \<Rightarrow> nat list \<Rightarrow> (rune \<times> nat) option" where
  "decode4 b0 bs =
     (case bs of b1 # b2 # b3 # _ \<Rightarrow>
        if 0xF0 \<le> b0 \<and> b0 \<le> 0xF4 \<and> cont b1 \<and> cont b2 \<and> cont b3
           \<and> (b0 = 0xF0 \<longrightarrow> 0x90 \<le> b1) \<and> (b0 = 0xF4 \<longrightarrow> b1 \<le> 0x8F)
        then Some ((b0 - 0xF0) * 262144 + (b1 - 0x80) * 4096 + (b2 - 0x80) * 64 + (b3 - 0x80), 4)
        else None
      | _ \<Rightarrow> None)"

definition decode_rune :: "char \<Rightarrow> string \<Rightarrow> rune \<times> nat" where
  "decode_rune c cs =
     (let b0 = byte c; bs = map byte (take 3 cs) in
      if b0 < 0x80 then (b0, 1)
      else case decode2 b0 bs of Some p \<Rightarrow> p
      | None \<Rightarrow> (case decode3 b0 bs of Some p \<Rightarrow> p
      | None \<Rightarrow> (case decode4 b0 bs of Some p \<Rightarrow> p
      | None \<Rightarrow> (rune_error, 1))))"

text \<open>A string as the runes a \<open>for range\<close> loop sees, each with the bytes it came from.\<close>

function segs :: "string \<Rightarrow> (rune \<times> string) list" where
  "segs [] = []"
| "segs (c # cs) =
     (let p = decode_rune c cs in (fst p, c # take (snd p - 1) cs) # segs (drop (snd p - 1) cs))"
  by pat_completeness auto
termination
  by (relation "measure length") auto

definition unsegs :: "(rune \<times> string) list \<Rightarrow> string" where
  "unsegs ss = concat (map snd ss)"

definition runes :: "string \<Rightarrow> rune list" where
  "runes s = map fst (segs s)"

lemma unsegs_segs [simp]: "unsegs (segs s) = s"
  by (induction s rule: segs.induct) (auto simp: unsegs_def Let_def)

lemma segs_nonempty_bytes: "(r, b) \<in> set (segs s) \<Longrightarrow> b \<noteq> []"
  by (induction s rule: segs.induct) (auto simp: Let_def)

lemma segs_eq_Nil [simp]: "segs s = [] \<longleftrightarrow> s = []"
  by (cases s) (auto simp: Let_def)

definition ascii :: "string \<Rightarrow> bool" where
  "ascii s \<longleftrightarrow> list_all (\<lambda>c. byte c < 0x80) s"

lemma segs_ascii: "ascii s \<Longrightarrow> segs s = map (\<lambda>c. (byte c, [c])) s"
  by (induction s) (auto simp: ascii_def decode_rune_def Let_def)

declare segs.simps(2) [simp del]

text \<open>\<open>utf8.AppendRune\<close>.\<close>

definition encode_rune :: "rune \<Rightarrow> string" where
  "encode_rune r0 =
     (let r = (if r0 > 0x10FFFF \<or> (0xD800 \<le> r0 \<and> r0 \<le> 0xDFFF) then rune_error else r0) in
      map char_of
       (if r < 0x80 then [r]
        else if r < 0x800 then [0xC0 + r div 64, 0x80 + r mod 64]
        else if r < 0x10000 then [0xE0 + r div 4096, 0x80 + r div 64 mod 64, 0x80 + r mod 64]
        else [0xF0 + r div 262144, 0x80 + r div 4096 mod 64, 0x80 + r div 64 mod 64, 0x80 + r mod 64]))"

section \<open>Rune classes\<close>

record unicode =
  uc_punct :: "rune \<Rightarrow> bool"
  uc_digit :: "rune \<Rightarrow> bool"
  uc_letter :: "rune \<Rightarrow> bool"
  uc_lower :: "rune \<Rightarrow> rune"
  uc_upper :: "rune \<Rightarrow> rune"

definition is_space :: "rune \<Rightarrow> bool" where
  "is_space r \<longleftrightarrow> r \<in> {9, 10, 11, 12, 13, 32, 0x85, 0xA0, 0x1680, 0x2028, 0x2029, 0x202F, 0x205F, 0x3000}
     \<or> (0x2000 \<le> r \<and> r \<le> 0x200A)"

definition latin1_punct :: "rune list" where
  "latin1_punct =
     [0x21, 0x22, 0x23, 0x25, 0x26, 0x27, 0x28, 0x29, 0x2A, 0x2C, 0x2D, 0x2E, 0x2F, 0x3A, 0x3B,
      0x3F, 0x40, 0x5B, 0x5C, 0x5D, 0x5F, 0x7B, 0x7D, 0xA1, 0xA7, 0xAB, 0xB6, 0xB7, 0xBB, 0xBF]"

definition is_punct :: "unicode \<Rightarrow> rune \<Rightarrow> bool" where
  "is_punct U r = (if r \<le> 0xFF then r \<in> set latin1_punct else uc_punct U r)"

definition is_digit :: "unicode \<Rightarrow> rune \<Rightarrow> bool" where
  "is_digit U r = (if r \<le> 0xFF then 0x30 \<le> r \<and> r \<le> 0x39 else uc_digit U r)"

definition is_letter :: "unicode \<Rightarrow> rune \<Rightarrow> bool" where
  "is_letter U r =
     (if r \<le> 0xFF
      then (0x41 \<le> r \<and> r \<le> 0x5A) \<or> (0x61 \<le> r \<and> r \<le> 0x7A) \<or> r = 0xAA \<or> r = 0xB5 \<or> r = 0xBA
           \<or> (0xC0 \<le> r \<and> r \<noteq> 0xD7 \<and> r \<noteq> 0xF7)
      else uc_letter U r)"

definition rune_lower :: "unicode \<Rightarrow> rune \<Rightarrow> rune" where
  "rune_lower U r =
     (if r \<le> 0xFF
      then if (0x41 \<le> r \<and> r \<le> 0x5A) \<or> (0xC0 \<le> r \<and> r \<le> 0xDE \<and> r \<noteq> 0xD7) then r + 32 else r
      else uc_lower U r)"

definition rune_upper :: "unicode \<Rightarrow> rune \<Rightarrow> rune" where
  "rune_upper U r =
     (if r \<le> 0xFF
      then if (0x61 \<le> r \<and> r \<le> 0x7A) \<or> (0xE0 \<le> r \<and> r \<le> 0xFE \<and> r \<noteq> 0xF7) then r - 32
           else if r = 0xB5 then 0x39C else if r = 0xFF then 0x178 else r
      else uc_upper U r)"

section \<open>Package strings\<close>

definition to_lower :: "unicode \<Rightarrow> string \<Rightarrow> string" where
  "to_lower U s = concat (map (\<lambda>r. encode_rune (rune_lower U r)) (runes s))"

definition to_upper :: "unicode \<Rightarrow> string \<Rightarrow> string" where
  "to_upper U s = concat (map (\<lambda>r. encode_rune (rune_upper U r)) (runes s))"

definition trim_left_func :: "(rune \<Rightarrow> bool) \<Rightarrow> (rune \<times> string) list \<Rightarrow> (rune \<times> string) list" where
  "trim_left_func f ss = dropWhile (f \<circ> fst) ss"

definition trim_right_func :: "(rune \<Rightarrow> bool) \<Rightarrow> (rune \<times> string) list \<Rightarrow> (rune \<times> string) list" where
  "trim_right_func f ss = rev (dropWhile (f \<circ> fst) (rev ss))"

definition trim_func :: "(rune \<Rightarrow> bool) \<Rightarrow> string \<Rightarrow> string" where
  "trim_func f s = unsegs (trim_right_func f (trim_left_func f (segs s)))"

definition trim_space :: "string \<Rightarrow> string" where
  "trim_space s = trim_func is_space s"

text \<open>\<open>strings.Fields\<close>: the maximal runs of non-space runes.\<close>

fun fields_aux :: "(rune \<times> string) list \<Rightarrow> string \<Rightarrow> string list" where
  "fields_aux [] acc = (if acc = [] then [] else [acc])"
| "fields_aux (p # ss) acc =
     (if is_space (fst p) then (if acc = [] then [] else [acc]) @ fields_aux ss []
      else fields_aux ss (acc @ snd p))"

definition fields :: "string \<Rightarrow> string list" where
  "fields s = fields_aux (segs s) []"

fun str_join :: "string list \<Rightarrow> string \<Rightarrow> string" where
  "str_join [] sep = []"
| "str_join [x] sep = x"
| "str_join (x # y # xs) sep = x @ sep @ str_join (y # xs) sep"

fun has_prefix :: "string \<Rightarrow> string \<Rightarrow> bool" where
  "has_prefix s [] = True"
| "has_prefix [] (p # ps) = False"
| "has_prefix (c # s) (p # ps) = (c = p \<and> has_prefix s ps)"

definition has_suffix :: "string \<Rightarrow> string \<Rightarrow> bool" where
  "has_suffix s t = has_prefix (rev s) (rev t)"

definition trim_prefix :: "string \<Rightarrow> string \<Rightarrow> string" where
  "trim_prefix s p = (if has_prefix s p then drop (length p) s else s)"

text \<open>\<open>strings.Cut\<close> at a one-byte separator: what precedes it, what follows, whether it was there.\<close>

fun cut_char :: "char \<Rightarrow> string \<Rightarrow> string \<times> string \<times> bool" where
  "cut_char d [] = ([], [], False)"
| "cut_char d (c # cs) =
     (if c = d then ([], cs, True)
      else (case cut_char d cs of (a, b, f) \<Rightarrow> (c # a, b, f)))"

text \<open>\<open>strings.Split\<close> at a one-byte separator.\<close>

fun split_char :: "char \<Rightarrow> string \<Rightarrow> string list" where
  "split_char d [] = [[]]"
| "split_char d (c # cs) =
     (if c = d then [] # split_char d cs
      else (case split_char d cs of [] \<Rightarrow> [[c]] | x # xs \<Rightarrow> (c # x) # xs))"

text \<open>Byte-wise lexicographic order, Go's \<open><\<close> on strings.\<close>

fun str_less :: "string \<Rightarrow> string \<Rightarrow> bool" where
  "str_less s [] = False"
| "str_less [] (d # t) = True"
| "str_less (c # s) (d # t) =
     (if byte c < byte d then True else if byte d < byte c then False else str_less s t)"

lemma has_prefix_iff: "has_prefix s p \<longleftrightarrow> (\<exists>t. s = p @ t)"
  by (induction s p rule: has_prefix.induct) auto

lemma str_less_asym: "str_less s t \<Longrightarrow> \<not> str_less t s"
  by (induction s t rule: str_less.induct) (auto split: if_splits)

lemma str_less_irrefl [simp]: "\<not> str_less s s"
  using str_less_asym by blast

lemma str_less_total: "\<not> str_less s t \<Longrightarrow> \<not> str_less t s \<Longrightarrow> s = t"
proof (induction s t rule: str_less.induct)
  case (1 s)
  then show ?case by (cases s) auto
next
  case (2 d t)
  then show ?case by simp
next
  case (3 c s d t)
  then show ?case by (auto split: if_splits simp: of_char_eq_iff)
qed

lemma str_less_trans: "str_less s t \<Longrightarrow> str_less t u \<Longrightarrow> str_less s u"
proof (induction s t arbitrary: u rule: str_less.induct)
  case (1 s)
  then show ?case by simp
next
  case (2 d t)
  then show ?case by (cases u) auto
next
  case (3 c s d t)
  then show ?case by (cases u) (auto split: if_splits)
qed

lemma strict_weak_str_less: "strict_weak str_less"
  unfolding strict_weak_def
  by (metis str_less_asym str_less_total str_less_trans)

lemma cut_char_True: "cut_char d s = (a, b, True) \<Longrightarrow> s = a @ d # b \<and> d \<notin> set a"
  by (induction d s arbitrary: a b rule: cut_char.induct) (auto split: if_splits prod.splits)

lemma unsegs_append [simp]: "unsegs (xs @ ys) = unsegs xs @ unsegs ys"
  by (simp add: unsegs_def)

lemma trim_func_Nil [simp]: "trim_func f [] = []"
  by (simp add: trim_func_def trim_left_func_def trim_right_func_def unsegs_def)

lemma trim_space_Nil [simp]: "trim_space [] = []"
  by (simp add: trim_space_def)

section \<open>Segments of segments\<close>

text \<open>Decoding is stable under cutting a string between two runes; so trimming twice is trimming once.\<close>

lemma decode2_prefix: "decode2 b (map byte (take 3 (u @ v))) = Some (r, n) \<Longrightarrow> n - 1 \<le> length u \<Longrightarrow>
   decode2 b (map byte (take 3 u)) = Some (r, n)"
  by (cases u) (auto simp: decode2_def split: if_splits list.splits)

lemma decode2_None: "decode2 b (map byte (take 3 (u @ v))) = None \<Longrightarrow> decode2 b (map byte (take 3 u)) = None"
  by (cases u) (auto simp: decode2_def split: if_splits list.splits)

lemma take3_cases: obtains "u = []" | a where "u = [a]" | a b where "u = [a, b]" | a b c w where "u = a # b # c # w"
  by (cases u rule: remdups_adj.cases; cases "tl (tl u)") auto

lemma decode3_prefix: "decode3 b (map byte (take 3 (u @ v))) = Some (r, n) \<Longrightarrow> n - 1 \<le> length u \<Longrightarrow>
   decode3 b (map byte (take 3 u)) = Some (r, n)"
  by (cases u rule: take3_cases) (auto simp: decode3_def split: if_splits list.splits)

lemma decode3_None: "decode3 b (map byte (take 3 (u @ v))) = None \<Longrightarrow> decode3 b (map byte (take 3 u)) = None"
  by (cases u rule: take3_cases) (auto simp: decode3_def split: if_splits list.splits)

lemma decode4_prefix: "decode4 b (map byte (take 3 (u @ v))) = Some (r, n) \<Longrightarrow> n - 1 \<le> length u \<Longrightarrow>
   decode4 b (map byte (take 3 u)) = Some (r, n)"
  by (cases u rule: take3_cases) (auto simp: decode4_def split: if_splits list.splits)

lemma decode4_None: "decode4 b (map byte (take 3 (u @ v))) = None \<Longrightarrow> decode4 b (map byte (take 3 u)) = None"
  by (cases u rule: take3_cases) (auto simp: decode4_def split: if_splits list.splits)

lemma decode_rune_prefix:
  assumes "decode_rune c (u @ v) = (r, n)" "n - 1 \<le> length u"
  shows "decode_rune c u = (r, n)"
proof (cases "decode2 (byte c) (map byte (take 3 (u @ v)))")
  case (Some p)
  with assms decode2_prefix [of "byte c" u v r n] show ?thesis by (auto simp: decode_rune_def Let_def split: if_splits)
next
  case N2: None
  note n2 = decode2_None [OF N2]
  show ?thesis
  proof (cases "decode3 (byte c) (map byte (take 3 (u @ v)))")
    case (Some p)
    with assms N2 n2 decode3_prefix [of "byte c" u v r n] show ?thesis
      by (auto simp: decode_rune_def Let_def split: if_splits)
  next
    case N3: None
    note n3 = decode3_None [OF N3]
    show ?thesis
    proof (cases "decode4 (byte c) (map byte (take 3 (u @ v)))")
      case (Some p)
      with assms N2 n2 N3 n3 decode4_prefix [of "byte c" u v r n] show ?thesis
        by (auto simp: decode_rune_def Let_def split: if_splits)
    next
      case None
      with assms N2 n2 N3 n3 decode4_None [OF None] show ?thesis
        by (auto simp: decode_rune_def Let_def split: if_splits)
    qed
  qed
qed

lemma unsegs_Cons [simp]: "unsegs (p # ps) = snd p @ unsegs ps"
  by (simp add: unsegs_def)

lemma segs_split: "segs s = xs @ ys \<Longrightarrow> segs (unsegs xs) = xs \<and> segs (unsegs ys) = ys"
proof (induction s arbitrary: xs rule: segs.induct)
  case 1
  then show ?case by (simp add: unsegs_def)
next
  case (2 c cs)
  show ?case
  proof (cases xs)
    case Nil
    with 2(2) show ?thesis by (metis append_Nil concat.simps(1) list.simps(8) segs.simps(1) unsegs_def unsegs_segs)
  next
    case (Cons p xs')
    obtain r n where d: "decode_rune c cs = (r, n)" by fastforce
    have e: "segs (c # cs) = (r, c # take (n - 1) cs) # segs (drop (n - 1) cs)"
      by (simp add: segs.simps(2) d Let_def)
    with 2(2) Cons have p: "p = (r, c # take (n - 1) cs)" and t: "segs (drop (n - 1) cs) = xs' @ ys" by auto
    have IH: "segs (unsegs xs') = xs'" "segs (unsegs ys) = ys"
      using 2(1) [of "decode_rune c cs" xs'] t d by auto
    have "drop (n - 1) cs = unsegs xs' @ unsegs ys" by (metis t unsegs_segs unsegs_append)
    then have cs: "cs = (take (n - 1) cs @ unsegs xs') @ unsegs ys" by (metis append_take_drop_id append.assoc)
    show ?thesis
    proof (cases "n - 1 \<le> length cs")
      case True
      have d': "decode_rune c (take (n - 1) cs @ unsegs xs') = (r, n)"
        using decode_rune_prefix [of c "take (n - 1) cs @ unsegs xs'" "unsegs ys" r n] d cs True by simp
      have "segs (unsegs xs) = (r, c # take (n - 1) (take (n - 1) cs @ unsegs xs')) # segs (drop (n - 1) (take (n - 1) cs @ unsegs xs'))"
        by (simp add: Cons p segs.simps(2) d' [simplified] Let_def)
      also have "\<dots> = xs" using True IH by (simp add: Cons p)
      finally show ?thesis using IH by simp
    next
      case False
      then have "unsegs xs' @ unsegs ys = []" using \<open>drop (n - 1) cs = _\<close> by simp
      then have "unsegs xs' = []" by simp
      with IH have "xs' = []" by simp
      have "segs (unsegs xs) = segs (c # cs)"
        using False by (simp add: Cons p \<open>xs' = []\<close> \<open>unsegs xs' = []\<close> [unfolded \<open>xs' = []\<close>])
      with IH show ?thesis using e False by (simp add: Cons p \<open>xs' = []\<close>)
    qed
  qed
qed

lemma rev_dropWhile_keeps: "\<not> g p \<Longrightarrow> \<exists>q. rev (dropWhile g (rev ps @ [p])) = p # q"
proof (cases "\<forall>x \<in> set ps. g x")
  case True
  assume "\<not> g p"
  moreover have "dropWhile g (rev ps @ [p]) = dropWhile g [p]" using True by (intro dropWhile_append2) simp
  ultimately show ?thesis by simp
next
  case False
  then obtain x where "x \<in> set (rev ps)" "\<not> g x" by auto
  then have "dropWhile g (rev ps @ [p]) = dropWhile g (rev ps) @ [p]" by (rule dropWhile_append1)
  then show ?thesis by simp
qed

lemma trim_func_idem [simp]: "trim_func f (trim_func f s) = trim_func f s"
proof -
  define t where "t = trim_right_func f (trim_left_func f (segs s))"
  obtain a b where "segs s = a @ t @ b"
  proof -
    have "segs s = takeWhile (f \<circ> fst) (segs s) @ trim_left_func f (segs s)"
      by (simp add: trim_left_func_def)
    moreover have "trim_left_func f (segs s) = t @ rev (takeWhile (f \<circ> fst) (rev (trim_left_func f (segs s))))"
      unfolding t_def trim_right_func_def by (metis rev_append rev_rev_ident takeWhile_dropWhile_id)
    ultimately show thesis using that by metis
  qed
  then have st: "segs (unsegs t) = t" using segs_split [of s a "t @ b"] segs_split [of "unsegs (t @ b)" t b] by simp
  have "trim_left_func f t = t"
  proof (cases "trim_left_func f (segs s)")
    case Nil
    then have "t = []" by (simp add: t_def trim_right_func_def)
    then show ?thesis by (simp add: trim_left_func_def)
  next
    case (Cons p ps)
    then have np: "\<not> f (fst p)" unfolding trim_left_func_def by (metis comp_apply hd_dropWhile list.sel(1) list.simps(3))
    have "t = rev (dropWhile (f \<circ> fst) (rev ps @ [p]))"
      by (simp add: t_def Cons trim_right_func_def)
    then obtain q where "t = p # q" using rev_dropWhile_keeps [of "f \<circ> fst" p ps] np by auto
    with np show ?thesis by (simp add: trim_left_func_def)
  qed
  moreover have "trim_right_func f t = t" by (simp add: t_def trim_right_func_def dropWhile_idem)
  moreover have "trim_func f s = unsegs t" by (simp add: trim_func_def t_def)
  moreover have "trim_func f (unsegs t) = unsegs (trim_right_func f (trim_left_func f (segs (unsegs t))))"
    by (rule trim_func_def)
  ultimately show ?thesis by (simp only: st)
qed

lemma trim_space_idem [simp]: "trim_space (trim_space s) = trim_space s"
  by (simp add: trim_space_def)

section \<open>ASCII strings\<close>

text \<open>On ASCII strings the operations act byte by byte.\<close>

named_theorems ascii_eval

definition char_lower :: "char \<Rightarrow> char" where
  "char_lower c =
     (if 0x41 \<le> byte c \<and> byte c \<le> 0x5A
      then (case c of Char b0 b1 b2 b3 b4 b5 b6 b7 \<Rightarrow> Char b0 b1 b2 b3 b4 True b6 b7) else c)"

lemma char_lower_code: "0x41 \<le> byte c \<Longrightarrow> byte c \<le> 0x5A \<Longrightarrow> char_of (byte c + 32) = char_lower c"
proof (cases c)
  case (Char b0 b1 b2 b3 b4 b5 b6 b7)
  assume a: "0x41 \<le> byte c" "byte c \<le> 0x5A"
  have "\<not> b5" using a by (cases b6; cases b7) (auto simp: Char of_bool_def split: if_splits)
  then have "byte (char_lower c) = byte c + 32" using a by (simp add: char_lower_def Char)
  then show ?thesis by (metis char_of_char)
qed

lemma ascii_Nil [ascii_eval, simp]: "ascii []"
  by (simp add: ascii_def)

lemma ascii_Cons [ascii_eval]: "ascii (c # s) \<longleftrightarrow> byte c < 0x80 \<and> ascii s"
  by (simp add: ascii_def)

lemma encode_rune_ascii: "r < 0x80 \<Longrightarrow> encode_rune r = [char_of r]"
  by (simp add: encode_rune_def)

lemma runes_ascii [ascii_eval]: "ascii s \<Longrightarrow> runes s = map of_char s"
  by (simp add: runes_def segs_ascii)

lemma to_lower_ascii [ascii_eval]: "ascii s \<Longrightarrow> to_lower U s = map char_lower s"
proof (induction s)
  case Nil
  then show ?case by (simp add: to_lower_def runes_def)
next
  case (Cons c s)
  have "to_lower U (c # s) = encode_rune (rune_lower U (byte c)) @ to_lower U s"
    using Cons.prems by (simp add: to_lower_def runes_ascii ascii_Cons)
  with Cons show ?case
    by (simp add: ascii_Cons rune_lower_def encode_rune_ascii char_lower_code) (simp add: char_lower_def)
qed

lemma trim_func_ascii [ascii_eval]:
  "ascii s \<Longrightarrow> trim_func f s = rev (dropWhile (\<lambda>c. f (byte c)) (rev (dropWhile (\<lambda>c. f (byte c)) s)))"
proof -
  assume a: "ascii s"
  have d: "dropWhile (f \<circ> fst) (map (\<lambda>c. (byte c, [c])) t) = map (\<lambda>c. (byte c, [c])) (dropWhile (\<lambda>c. f (byte c)) t)" for t
    by (simp add: dropWhile_map comp_def)
  have u: "unsegs (map (\<lambda>c. (byte c, [c])) t) = t" for t
    by (induction t) (simp_all add: unsegs_def)
  show ?thesis
    by (simp add: trim_func_def trim_left_func_def trim_right_func_def segs_ascii [OF a] d rev_map u)
qed

fun fields_bytes :: "string \<Rightarrow> string \<Rightarrow> string list" where
  "fields_bytes [] acc = (if acc = [] then [] else [acc])"
| "fields_bytes (c # cs) acc =
     (if is_space (byte c) then (if acc = [] then [] else [acc]) @ fields_bytes cs []
      else fields_bytes cs (acc @ [c]))"

lemma fields_ascii [ascii_eval]: "ascii s \<Longrightarrow> fields s = fields_bytes s []"
proof -
  assume a: "ascii s"
  have "fields_aux (map (\<lambda>c. (byte c, [c])) t) acc = fields_bytes t acc" for t acc
    by (induction t acc rule: fields_bytes.induct) simp_all
  with a show ?thesis by (simp add: fields_def segs_ascii)
qed

lemmas ascii_evals = ascii_eval char_lower_def is_space_def is_punct_def latin1_punct_def
  is_digit_def

section \<open>Decimal numerals\<close>

text \<open>\<open>strconv\<close> of a natural number.\<close>

fun dec_digits :: "nat \<Rightarrow> string" where
  "dec_digits n = (if n < 10 then [char_of (0x30 + n)] else dec_digits (n div 10) @ [char_of (0x30 + n mod 10)])"

declare dec_digits.simps [simp del]

lemma dec_digits_step: "10 \<le> n \<Longrightarrow> dec_digits n = dec_digits (n div 10) @ [char_of (0x30 + n mod 10)]"
  by (subst dec_digits.simps) simp

lemma dec_digits_one: "n < 10 \<Longrightarrow> dec_digits n = [char_of (0x30 + n)]"
  by (subst dec_digits.simps) simp

definition digit_char :: "char \<Rightarrow> bool" where
  "digit_char c \<longleftrightarrow> 0x30 \<le> byte c \<and> byte c \<le> 0x39"

lemma byte_digit: "k < 10 \<Longrightarrow> byte (char_of (0x30 + k :: nat)) = 0x30 + k"
  by simp

lemma dec_digits_chars: "c \<in> set (dec_digits n) \<Longrightarrow> digit_char c"
proof (induction n arbitrary: c rule: less_induct)
  case (less n)
  show ?case
  proof (cases "n < 10")
    case True
    with less.prems show ?thesis by (simp add: dec_digits_one digit_char_def)
  next
    case False
    with less.prems have "c \<in> set (dec_digits (n div 10)) \<or> c = char_of (0x30 + n mod 10)"
      by (auto simp: dec_digits_step)
    moreover have "digit_char (char_of (0x30 + n mod 10))" by (simp add: digit_char_def)
    ultimately show ?thesis using less.IH [of "n div 10" c] False by auto
  qed
qed

lemma dec_digits_ne [simp]: "dec_digits n \<noteq> []"
  by (cases "n < 10") (simp_all add: dec_digits_step dec_digits_one)

lemma dec_digits_length: "length (dec_digits n) = 1 \<longleftrightarrow> n < 10"
  by (cases "n < 10") (simp_all add: dec_digits_step dec_digits_one)

lemma dec_digits_inj: "dec_digits m = dec_digits n \<Longrightarrow> m = n"
proof (induction m arbitrary: n rule: less_induct)
  case (less m)
  have l: "m < 10 \<longleftrightarrow> n < 10" using less.prems dec_digits_length by metis
  show ?case
  proof (cases "m < 10")
    case True
    with l less.prems have "char_of (0x30 + m) = (char_of (0x30 + n) :: char)" by (simp add: dec_digits_one)
    then have "byte (char_of (0x30 + m)) = byte (char_of (0x30 + n))" by simp
    with True l show ?thesis by simp
  next
    case False
    with l less.prems have e: "dec_digits (m div 10) = dec_digits (n div 10)"
      "char_of (0x30 + m mod 10) = (char_of (0x30 + n mod 10) :: char)" by (simp_all add: dec_digits_step)
    have "m div 10 = n div 10" using less.IH [OF _ e(1)] False by simp
    moreover have "byte (char_of (0x30 + m mod 10)) = byte (char_of (0x30 + n mod 10))" using e(2) by simp
    then have "m mod 10 = n mod 10" by simp
    ultimately show ?thesis by (metis div_mult_mod_eq)
  qed
qed

end
