(* ===== verification/Go_Json.thy ===== *)
theory Go_Json
  imports Go_Text "HOL-Library.Log_Nat"
begin

text \<open>
  What the services use of \<open>encoding/json\<close> and of \<open>float64\<close>. A raw JSON text is its parse
  tree, or \<open>None\<close> when it is not valid JSON (an empty \<open>RawMessage\<close> included). Decoding into a
  struct walks the members of the object in their order: keys match case-insensitively, unknown
  members are skipped, a \<open>null\<close> leaves the field as it is, a later member overwrites an earlier
  one, and a value of the wrong type is the error that \<open>Unmarshal\<close> returns.

  A \<open>float64\<close> is the rational it denotes; every operation rounds to 53 bits, ties to even. The
  values the services add up (seconds of audio, milliseconds over 1000) stay far from overflow and
  from the subnormal range, which are left out.
\<close>

section \<open>JSON values and decoding\<close>

datatype json =
    JNull
  | JBool bool
  | JInt int            \<comment> \<open>a number literal without fraction or exponent\<close>
  | JNum rat            \<comment> \<open>any other number literal\<close>
  | JStr string
  | JArr "json list"
  | JObj "(string \<times> json) list"

definition json_type_error :: gerr where
  "json_type_error = Errf ''json: cannot unmarshal value into Go struct field'' []"

definition json_syntax_error :: gerr where
  "json_syntax_error = Errf ''json: syntax error'' []"

text \<open>The case folding under which object keys match the (ASCII) field names.\<close>

definition fold_rune :: "rune \<Rightarrow> rune" where
  "fold_rune r = (if 97 \<le> r \<and> r \<le> 122 then r - 32 else if r = 0x17F then 0x53
                  else if r = 0x212A then 0x4B else r)"

definition fold_name :: "string \<Rightarrow> rune list" where
  "fold_name s = map fold_rune (runes s)"

text \<open>Decoders of one field: the new field value from the old one.\<close>

fun dec_string :: "json \<Rightarrow> string \<Rightarrow> string res" where
  "dec_string (JStr s) old = Inr s"
| "dec_string JNull old = Inr old"
| "dec_string _ old = Inl json_type_error"

fun dec_bool :: "json \<Rightarrow> bool \<Rightarrow> bool res" where
  "dec_bool (JBool b) old = Inr b"
| "dec_bool JNull old = Inr old"
| "dec_bool _ old = Inl json_type_error"

fun dec_int64 :: "json \<Rightarrow> int \<Rightarrow> int res" where
  "dec_int64 (JInt n) old = (if int64 n then Inr n else Inl json_type_error)"
| "dec_int64 JNull old = Inr old"
| "dec_int64 _ old = Inl json_type_error"

definition float_fits :: "rat \<Rightarrow> bool" where
  "float_fits x \<longleftrightarrow> \<bar>x\<bar> < 2 ^ 1024 - 2 ^ 970"

section \<open>float64\<close>

text \<open>\<open>\<lfloor>log\<^sub>2 (n / d)\<rfloor>\<close> for positive \<open>n\<close> and \<open>d\<close>.\<close>

definition ilog2_ratio :: "int \<Rightarrow> int \<Rightarrow> int" where
  "ilog2_ratio n d =
     (let k = bitlen n - bitlen d in
      if (if 0 \<le> k then n < 2 ^ nat k * d else n * 2 ^ nat (- k) < d) then k - 1 else k)"

definition pow2 :: "int \<Rightarrow> rat" where
  "pow2 k = (if 0 \<le> k then 2 ^ nat k else 1 / 2 ^ nat (- k))"

definition round_even :: "rat \<Rightarrow> int" where
  "round_even q =
     (let f = \<lfloor>q\<rfloor>; r = q - of_int f in
      if r < 1 / 2 then f else if 1 / 2 < r then f + 1 else if even f then f else f + 1)"

definition rnd64 :: "rat \<Rightarrow> rat" where
  "rnd64 x =
     (if x = 0 then 0
      else (case quotient_of \<bar>x\<bar> of (n, d) \<Rightarrow>
        let s = pow2 (52 - ilog2_ratio n d) in sgn x * (of_int (round_even (\<bar>x\<bar> * s)) / s)))"

definition fadd :: "rat \<Rightarrow> rat \<Rightarrow> rat" where "fadd x y = rnd64 (x + y)"
definition fdiv :: "rat \<Rightarrow> rat \<Rightarrow> rat" where "fdiv x y = rnd64 (x / y)"
definition f_of_int :: "int \<Rightarrow> rat" where "f_of_int n = rnd64 (of_int n)"

lemma rnd64_0 [simp]: "rnd64 0 = 0"
  by (simp add: rnd64_def)

lemma fadd_commute: "fadd x y = fadd y x"
  by (simp add: fadd_def add.commute)

fun dec_float :: "json \<Rightarrow> rat \<Rightarrow> rat res" where
  "dec_float (JInt n) old = (if float_fits (of_int n) then Inr (rnd64 (of_int n)) else Inl json_type_error)"
| "dec_float (JNum x) old = (if float_fits x then Inr (rnd64 x) else Inl json_type_error)"
| "dec_float JNull old = Inr old"
| "dec_float _ old = Inl json_type_error"

section \<open>Structs\<close>

text \<open>
  A struct decoder is the list of its fields: the name and how a JSON value changes the struct.
\<close>

type_synonym 'p fields = "(string \<times> (json \<Rightarrow> 'p \<Rightarrow> 'p res)) list"

definition field_for :: "'p fields \<Rightarrow> string \<Rightarrow> (json \<Rightarrow> 'p \<Rightarrow> 'p res) option" where
  "field_for fs k = map_option snd (find (\<lambda>f. fold_name (fst f) = fold_name k) fs)"

fun dec_members :: "'p fields \<Rightarrow> (string \<times> json) list \<Rightarrow> 'p \<Rightarrow> 'p res" where
  "dec_members fs [] p = Inr p"
| "dec_members fs ((k, v) # ms) p =
     (case field_for fs k of
        None \<Rightarrow> dec_members fs ms p
      | Some d \<Rightarrow> (case d v p of Inl e \<Rightarrow> Inl e | Inr p' \<Rightarrow> dec_members fs ms p'))"

fun dec_struct :: "'p fields \<Rightarrow> json \<Rightarrow> 'p \<Rightarrow> 'p res" where
  "dec_struct fs (JObj ms) p = dec_members fs ms p"
| "dec_struct fs JNull p = Inr p"
| "dec_struct fs _ p = Inl json_type_error"

text \<open>\<open>json.Unmarshal\<close> of a raw message into a struct that starts from its zero value.\<close>

definition unmarshal :: "'p fields \<Rightarrow> json option \<Rightarrow> 'p \<Rightarrow> 'p res" where
  "unmarshal fs raw p = (case raw of None \<Rightarrow> Inl json_syntax_error | Some j \<Rightarrow> dec_struct fs j p)"

definition fld_string :: "string \<Rightarrow> ('p \<Rightarrow> string) \<Rightarrow> (string \<Rightarrow> 'p \<Rightarrow> 'p) \<Rightarrow> string \<times> (json \<Rightarrow> 'p \<Rightarrow> 'p res)" where
  "fld_string k get put = (k, \<lambda>j p. map_sum id (\<lambda>v. put v p) (dec_string j (get p)))"

definition fld_bool :: "string \<Rightarrow> ('p \<Rightarrow> bool) \<Rightarrow> (bool \<Rightarrow> 'p \<Rightarrow> 'p) \<Rightarrow> string \<times> (json \<Rightarrow> 'p \<Rightarrow> 'p res)" where
  "fld_bool k get put = (k, \<lambda>j p. map_sum id (\<lambda>v. put v p) (dec_bool j (get p)))"

definition fld_int :: "string \<Rightarrow> ('p \<Rightarrow> int) \<Rightarrow> (int \<Rightarrow> 'p \<Rightarrow> 'p) \<Rightarrow> string \<times> (json \<Rightarrow> 'p \<Rightarrow> 'p res)" where
  "fld_int k get put = (k, \<lambda>j p. map_sum id (\<lambda>v. put v p) (dec_int64 j (get p)))"

definition fld_float :: "string \<Rightarrow> ('p \<Rightarrow> rat) \<Rightarrow> (rat \<Rightarrow> 'p \<Rightarrow> 'p) \<Rightarrow> string \<times> (json \<Rightarrow> 'p \<Rightarrow> 'p res)" where
  "fld_float k get put = (k, \<lambda>j p. map_sum id (\<lambda>v. put v p) (dec_float j (get p)))"

definition fld_raw :: "string \<Rightarrow> (json option \<Rightarrow> 'p \<Rightarrow> 'p) \<Rightarrow> string \<times> (json \<Rightarrow> 'p \<Rightarrow> 'p res)" where
  "fld_raw k put = (k, \<lambda>j p. Inr (put (Some j) p))"

definition fld_struct :: "string \<Rightarrow> 'q fields \<Rightarrow> ('p \<Rightarrow> 'q) \<Rightarrow> ('q \<Rightarrow> 'p \<Rightarrow> 'p) \<Rightarrow> string \<times> (json \<Rightarrow> 'p \<Rightarrow> 'p res)" where
  "fld_struct k fs get put = (k, \<lambda>j p. map_sum id (\<lambda>v. put v p) (dec_struct fs j (get p)))"

lemmas fld_defs = fld_string_def fld_bool_def fld_int_def fld_float_def fld_raw_def fld_struct_def

end
