(* ===== verification/Events.thy ===== *)
theory Events
  imports Go_Json
begin

text \<open>
  \<open>internal/event\<close>: the envelope of every business event (\<open>event.go\<close>), the payload catalog
  (\<open>payloads.go\<close>) with the decoder of each payload the services read, and the constructor
  \<open>New\<close>. Instants (\<open>time.Time\<close>) are nanoseconds since the zero time, so \<open>IsZero\<close> is \<open>t = 0\<close>.
  A JSON body produced by \<open>json.Marshal\<close> enters \<open>New\<close> as its parse tree, or as the error.
\<close>

type_synonym gotime = int

definition is_zero :: "gotime \<Rightarrow> bool" where "is_zero t \<longleftrightarrow> t = 0"

section \<open>The catalog\<close>

text \<open>The v1 catalog; \<open>TypeOther\<close> is any string outside it.\<close>

datatype event_type =
    TypeCallStarted
  | TypeCallAnswered
  | TypeCallEnded
  | TypeConsentCaptured
  | TypeLanguageDetected
  | TypeLanguageSwitched
  | TypeNodeEntered
  | TypeNodeExited
  | TypeSTTFinal
  | TypeAgentTurnCompleted
  | TypeToolInvoked
  | TypeToolCompleted
  | TypeVarAssigned
  | TypeDTMFReceived
  | TypeTransferInitiated
  | TypeTransferAnswered
  | TypeRecordingStarted
  | TypeErrorRaised
  | TypeOther string

fun type_name :: "event_type \<Rightarrow> string" where
  "type_name TypeCallStarted = ''call.started''"
| "type_name TypeCallAnswered = ''call.answered''"
| "type_name TypeCallEnded = ''call.ended''"
| "type_name TypeConsentCaptured = ''consent.captured''"
| "type_name TypeLanguageDetected = ''language.detected''"
| "type_name TypeLanguageSwitched = ''language.switched''"
| "type_name TypeNodeEntered = ''node.entered''"
| "type_name TypeNodeExited = ''node.exited''"
| "type_name TypeSTTFinal = ''stt.final''"
| "type_name TypeAgentTurnCompleted = ''agent.turn.completed''"
| "type_name TypeToolInvoked = ''tool.invoked''"
| "type_name TypeToolCompleted = ''tool.completed''"
| "type_name TypeVarAssigned = ''var.assigned''"
| "type_name TypeDTMFReceived = ''dtmf.received''"
| "type_name TypeTransferInitiated = ''transfer.initiated''"
| "type_name TypeTransferAnswered = ''transfer.answered''"
| "type_name TypeRecordingStarted = ''recording.started''"
| "type_name TypeErrorRaised = ''error.raised''"
| "type_name (TypeOther s) = s"

type_synonym go_locale = string

definition LocaleENCA :: go_locale where "LocaleENCA = ''en-CA''"
definition LocaleFRCA :: go_locale where "LocaleFRCA = ''fr-CA''"

lemma locales_differ [simp]: "LocaleENCA \<noteq> LocaleFRCA" "LocaleFRCA \<noteq> LocaleENCA"
    "LocaleENCA \<noteq> []" "LocaleFRCA \<noteq> []"
  by (simp_all add: LocaleENCA_def LocaleFRCA_def)

datatype redaction_kind = KindCard | KindSIN | KindPostalCode | KindDOB | KindOther string

fun kind_name :: "redaction_kind \<Rightarrow> string" where
  "kind_name KindCard = ''card''"
| "kind_name KindSIN = ''sin''"
| "kind_name KindPostalCode = ''postal_code''"
| "kind_name KindDOB = ''dob''"
| "kind_name (KindOther s) = s"

record redaction =
  rd_start :: int
  rd_end :: int
  rd_kind :: redaction_kind
  rd_vault :: string

record envelope =
  EventID :: string
  CallID :: string
  Seq :: "64 word"
  TS :: gotime
  TenantID :: string
  FlowID :: string
  FlowVersion :: int
  Type :: event_type
  NodeID :: string
  Payload :: "json option"
  Redactions :: "redaction list"

section \<open>Payloads\<close>

record call_started =
  cs_from :: string
  cs_to :: string
  cs_mode :: string

definition call_started_fields :: "call_started fields" where
  "call_started_fields =
     [fld_string ''from'' cs_from (\<lambda>v. cs_from_update (\<lambda>_. v)),
      fld_string ''to'' cs_to (\<lambda>v. cs_to_update (\<lambda>_. v)),
      fld_string ''mode'' cs_mode (\<lambda>v. cs_mode_update (\<lambda>_. v))]"

definition call_started0 :: call_started where
  "call_started0 = \<lparr>cs_from = [], cs_to = [], cs_mode = []\<rparr>"

definition ModeOverflow :: string where "ModeOverflow = ''overflow''"
definition ModeAlwaysAI :: string where "ModeAlwaysAI = ''always_ai''"

definition EndCompleted :: string where "EndCompleted = ''completed''"
definition EndCallerHangup :: string where "EndCallerHangup = ''caller_hangup''"
definition EndTransferred :: string where "EndTransferred = ''transferred''"
definition EndVoicemail :: string where "EndVoicemail = ''voicemail''"
definition EndError :: string where "EndError = ''error''"

record call_ended =
  ce_reason :: string
  ce_duration_ms :: int

definition call_ended_fields :: "call_ended fields" where
  "call_ended_fields =
     [fld_string ''reason'' ce_reason (\<lambda>v. ce_reason_update (\<lambda>_. v)),
      fld_int ''durationMs'' ce_duration_ms (\<lambda>v. ce_duration_ms_update (\<lambda>_. v))]"

definition call_ended0 :: call_ended where
  "call_ended0 = \<lparr>ce_reason = [], ce_duration_ms = 0\<rparr>"

record consent_captured =
  cc_granted :: bool
  cc_method :: string

definition consent_captured_fields :: "consent_captured fields" where
  "consent_captured_fields =
     [fld_bool ''granted'' cc_granted (\<lambda>v. cc_granted_update (\<lambda>_. v)),
      fld_string ''method'' cc_method (\<lambda>v. cc_method_update (\<lambda>_. v))]"

definition consent_captured0 :: consent_captured where
  "consent_captured0 = \<lparr>cc_granted = False, cc_method = []\<rparr>"

record language_detected =
  ld_locale :: go_locale
  ld_confidence :: rat

definition language_detected_fields :: "language_detected fields" where
  "language_detected_fields =
     [fld_string ''locale'' ld_locale (\<lambda>v. ld_locale_update (\<lambda>_. v)),
      fld_float ''confidence'' ld_confidence (\<lambda>v. ld_confidence_update (\<lambda>_. v))]"

definition language_detected0 :: language_detected where
  "language_detected0 = \<lparr>ld_locale = [], ld_confidence = 0\<rparr>"

record language_switched =
  ls_from :: go_locale
  ls_to :: go_locale

definition language_switched_fields :: "language_switched fields" where
  "language_switched_fields =
     [fld_string ''from'' ls_from (\<lambda>v. ls_from_update (\<lambda>_. v)),
      fld_string ''to'' ls_to (\<lambda>v. ls_to_update (\<lambda>_. v))]"

definition language_switched0 :: language_switched where
  "language_switched0 = \<lparr>ls_from = [], ls_to = []\<rparr>"

record stt_final =
  sf_text :: string
  sf_locale :: go_locale
  sf_confidence :: rat
  sf_audio_ms :: int
  sf_vad_end_to_final_ms :: int

definition stt_final_fields :: "stt_final fields" where
  "stt_final_fields =
     [fld_string ''text'' sf_text (\<lambda>v. sf_text_update (\<lambda>_. v)),
      fld_string ''locale'' sf_locale (\<lambda>v. sf_locale_update (\<lambda>_. v)),
      fld_float ''confidence'' sf_confidence (\<lambda>v. sf_confidence_update (\<lambda>_. v)),
      fld_int ''audioMs'' sf_audio_ms (\<lambda>v. sf_audio_ms_update (\<lambda>_. v)),
      fld_int ''vadEndToFinalMs'' sf_vad_end_to_final_ms (\<lambda>v. sf_vad_end_to_final_ms_update (\<lambda>_. v))]"

definition stt_final0 :: stt_final where
  "stt_final0 = \<lparr>sf_text = [], sf_locale = [], sf_confidence = 0, sf_audio_ms = 0, sf_vad_end_to_final_ms = 0\<rparr>"

record turn_latency =
  tl_vad_end_to_stt_final_ms :: int
  tl_stt_final_to_llm_first_token_ms :: int
  tl_llm_first_token_to_tts_first_chunk_ms :: int
  tl_perceived_ms :: int

definition turn_latency_fields :: "turn_latency fields" where
  "turn_latency_fields =
     [fld_int ''vadEndToSttFinalMs'' tl_vad_end_to_stt_final_ms
        (\<lambda>v. tl_vad_end_to_stt_final_ms_update (\<lambda>_. v)),
      fld_int ''sttFinalToLlmFirstTokenMs'' tl_stt_final_to_llm_first_token_ms
        (\<lambda>v. tl_stt_final_to_llm_first_token_ms_update (\<lambda>_. v)),
      fld_int ''llmFirstTokenToTtsFirstChunkMs'' tl_llm_first_token_to_tts_first_chunk_ms
        (\<lambda>v. tl_llm_first_token_to_tts_first_chunk_ms_update (\<lambda>_. v)),
      fld_int ''perceivedMs'' tl_perceived_ms (\<lambda>v. tl_perceived_ms_update (\<lambda>_. v))]"

definition turn_latency0 :: turn_latency where
  "turn_latency0 =
     \<lparr>tl_vad_end_to_stt_final_ms = 0, tl_stt_final_to_llm_first_token_ms = 0,
      tl_llm_first_token_to_tts_first_chunk_ms = 0, tl_perceived_ms = 0\<rparr>"

record agent_turn_completed =
  at_text :: string
  at_interrupted :: bool
  at_llm_tokens_in :: int
  at_llm_tokens_out :: int
  at_tts_chars :: int
  at_latency :: turn_latency

definition agent_turn_completed_fields :: "agent_turn_completed fields" where
  "agent_turn_completed_fields =
     [fld_string ''text'' at_text (\<lambda>v. at_text_update (\<lambda>_. v)),
      fld_bool ''interrupted'' at_interrupted (\<lambda>v. at_interrupted_update (\<lambda>_. v)),
      fld_int ''llmTokensIn'' at_llm_tokens_in (\<lambda>v. at_llm_tokens_in_update (\<lambda>_. v)),
      fld_int ''llmTokensOut'' at_llm_tokens_out (\<lambda>v. at_llm_tokens_out_update (\<lambda>_. v)),
      fld_int ''ttsChars'' at_tts_chars (\<lambda>v. at_tts_chars_update (\<lambda>_. v)),
      fld_struct ''latency'' turn_latency_fields at_latency (\<lambda>v. at_latency_update (\<lambda>_. v))]"

definition agent_turn_completed0 :: agent_turn_completed where
  "agent_turn_completed0 =
     \<lparr>at_text = [], at_interrupted = False, at_llm_tokens_in = 0, at_llm_tokens_out = 0,
      at_tts_chars = 0, at_latency = turn_latency0\<rparr>"

record var_assigned =
  va_name :: string
  va_value :: "json option"

definition var_assigned_fields :: "var_assigned fields" where
  "var_assigned_fields =
     [fld_string ''name'' va_name (\<lambda>v. va_name_update (\<lambda>_. v)),
      fld_raw ''value'' (\<lambda>v. va_value_update (\<lambda>_. v))]"

definition var_assigned0 :: var_assigned where
  "var_assigned0 = \<lparr>va_name = [], va_value = None\<rparr>"

definition TransferEmergency :: string where "TransferEmergency = ''emergency''"
definition TransferKeyword :: string where "TransferKeyword = ''keyword''"
definition TransferDegradation :: string where "TransferDegradation = ''degradation''"
definition TransferCallerRequest :: string where "TransferCallerRequest = ''caller_request''"

record error_raised =
  er_code :: string
  er_message :: string
  er_stage :: string

definition error_raised_fields :: "error_raised fields" where
  "error_raised_fields =
     [fld_string ''code'' er_code (\<lambda>v. er_code_update (\<lambda>_. v)),
      fld_string ''message'' er_message (\<lambda>v. er_message_update (\<lambda>_. v)),
      fld_string ''stage'' er_stage (\<lambda>v. er_stage_update (\<lambda>_. v))]"

definition error_raised0 :: error_raised where
  "error_raised0 = \<lparr>er_code = [], er_message = [], er_stage = []\<rparr>"

section \<open>New\<close>

text \<open>
  \<open>New\<close> with the ULID drawn for the event and the outcome of \<open>json.Marshal payload\<close> as
  arguments. A marshalled body is valid JSON, so the payload is \<open>Some\<close>.
\<close>

definition New ::
  "string \<Rightarrow> string \<Rightarrow> 64 word \<Rightarrow> gotime \<Rightarrow> string \<Rightarrow> string \<Rightarrow> int \<Rightarrow> event_type \<Rightarrow> string \<Rightarrow> json res
   \<Rightarrow> redaction list \<Rightarrow> envelope res" where
  "New event_id call_id seq ts tenant_id flow_id flow_version typ node_id marshalled redactions =
     (case marshalled of
        Inl e \<Rightarrow> Inl (Wrap ''marshal %s payload: %w'' [FS (type_name typ)] e)
      | Inr body \<Rightarrow> Inr \<lparr>EventID = event_id, CallID = call_id, Seq = seq, TS = ts, TenantID = tenant_id,
                        FlowID = flow_id, FlowVersion = flow_version, Type = typ, NodeID = node_id,
                        Payload = Some body, Redactions = redactions\<rparr>)"

end
