(* ===== verification/Fold.thy ===== *)
theory Fold
  imports Events
begin

text \<open>
  \<open>internal/event/fold.go\<close>: the deterministic fold of a call's event stream into a snapshot.
  \<open>apply_event\<close> is the method \<open>apply\<close>, \<open>fold_loop\<close> the loop of \<open>Fold\<close> over the sorted copy.
  The lemmas characterise the events the loop keeps (one per sequence number, the one with the
  least event id), which gives the independence of arrival order and duplication.
\<close>

section \<open>Snapshot\<close>

datatype call_status =
    StatusUnknown
  | StatusStarted
  | StatusAnswered
  | StatusTransferring
  | StatusTransferred
  | StatusEnded
  | StatusOther string

datatype speaker = SpeakerCaller | SpeakerAgent | SpeakerOther string

text \<open>The underlying strings; \<open>StatusOther\<close> and \<open>SpeakerOther\<close> are the strings that no constant has.\<close>

fun status_name :: "call_status \<Rightarrow> string" where
  "status_name StatusUnknown = []"
| "status_name StatusStarted = ''started''"
| "status_name StatusAnswered = ''answered''"
| "status_name StatusTransferring = ''transferring''"
| "status_name StatusTransferred = ''transferred''"
| "status_name StatusEnded = ''ended''"
| "status_name (StatusOther s) = s"

fun speaker_name :: "speaker \<Rightarrow> string" where
  "speaker_name SpeakerCaller = ''caller''"
| "speaker_name SpeakerAgent = ''agent''"
| "speaker_name (SpeakerOther s) = s"

record transcript_entry =
  te_seq :: "64 word"
  te_ts :: gotime
  te_speaker :: speaker
  te_text :: string
  te_redactions :: "redaction list"
  te_interrupted :: bool

record budget =
  bg_stage :: string
  bg_error_count :: int

record usage =
  CallMinutes :: int
  STTSeconds :: rat
  LLMTokensIn :: int
  LLMTokensOut :: int
  TTSChars :: int

definition usage0 :: usage where
  "usage0 = \<lparr>CallMinutes = 0, STTSeconds = 0, LLMTokensIn = 0, LLMTokensOut = 0, TTSChars = 0\<rparr>"

record call_snapshot =
  sn_call_id :: string
  sn_tenant_id :: string
  sn_flow_id :: string
  sn_flow_version :: int
  sn_status :: call_status
  sn_started_at :: gotime
  sn_ended_at :: gotime
  sn_end_reason :: string
  sn_consent_captured :: bool
  sn_consent_granted :: bool
  sn_recording :: bool
  sn_locale :: go_locale
  sn_locale_history :: "go_locale list"
  sn_cursor :: string
  sn_path :: "string list"
  sn_vars :: "string \<rightharpoonup> json option"
  sn_transcript :: "transcript_entry list"
  sn_turn_latencies :: "turn_latency list"
  sn_budget :: budget
  sn_usage :: usage
  sn_last_seq :: "64 word"

definition snapshot0 :: call_snapshot where
  "snapshot0 =
     \<lparr>sn_call_id = [], sn_tenant_id = [], sn_flow_id = [], sn_flow_version = 0,
      sn_status = StatusUnknown, sn_started_at = 0, sn_ended_at = 0, sn_end_reason = [],
      sn_consent_captured = False, sn_consent_granted = False, sn_recording = False,
      sn_locale = [], sn_locale_history = [], sn_cursor = [], sn_path = [],
      sn_vars = Map.empty, sn_transcript = [], sn_turn_latencies = [],
      sn_budget = \<lparr>bg_stage = ''normal'', bg_error_count = 0\<rparr>, sn_usage = usage0, sn_last_seq = 0\<rparr>"

section \<open>Applying one event\<close>

text \<open>Billed whole minutes, rounding up.\<close>

definition ceil_minutes :: "int \<Rightarrow> int" where
  "ceil_minutes duration_ms =
     (if duration_ms \<le> 0 then 0 else div64 (add64 duration_ms 59999) 60000)"

definition unmarshal_payload :: "envelope \<Rightarrow> 'p fields \<Rightarrow> 'p \<Rightarrow> 'p res" where
  "unmarshal_payload ev fs p0 =
     map_sum (Wrap ''fold %s seq %d: unmarshal payload: %w'' [FS (type_name (Type ev)), FI (uint (Seq ev))]) id
       (unmarshal fs (Payload ev) p0)"

definition set_identity :: "envelope \<Rightarrow> call_snapshot \<Rightarrow> call_snapshot" where
  "set_identity ev s =
     (if sn_call_id s = []
      then s\<lparr>sn_call_id := CallID ev, sn_tenant_id := TenantID ev, sn_flow_id := FlowID ev,
             sn_flow_version := FlowVersion ev\<rparr>
      else s)"

definition add_turn_usage :: "agent_turn_completed \<Rightarrow> usage \<Rightarrow> usage" where
  "add_turn_usage p u =
     u\<lparr>LLMTokensIn := add64 (LLMTokensIn u) (at_llm_tokens_in p),
       LLMTokensOut := add64 (LLMTokensOut u) (at_llm_tokens_out p),
       TTSChars := add64 (TTSChars u) (at_tts_chars p)\<rparr>"

definition apply_event :: "envelope \<Rightarrow> call_snapshot \<Rightarrow> call_snapshot res" where
  "apply_event ev s0 =
     (let s = set_identity ev s0 in
      case Type ev of
        TypeCallStarted \<Rightarrow> Inr (s\<lparr>sn_status := StatusStarted, sn_started_at := TS ev\<rparr>)
      | TypeCallAnswered \<Rightarrow> Inr (s\<lparr>sn_status := StatusAnswered\<rparr>)
      | TypeCallEnded \<Rightarrow>
          (case unmarshal_payload ev call_ended_fields call_ended0 of Inl e \<Rightarrow> Inl e
           | Inr p \<Rightarrow> Inr (s\<lparr>sn_status := StatusEnded, sn_ended_at := TS ev, sn_end_reason := ce_reason p,
                            sn_usage := (sn_usage s)\<lparr>CallMinutes := ceil_minutes (ce_duration_ms p)\<rparr>\<rparr>))
      | TypeConsentCaptured \<Rightarrow>
          (case unmarshal_payload ev consent_captured_fields consent_captured0 of Inl e \<Rightarrow> Inl e
           | Inr p \<Rightarrow> Inr (s\<lparr>sn_consent_captured := True, sn_consent_granted := cc_granted p\<rparr>))
      | TypeLanguageDetected \<Rightarrow>
          (case unmarshal_payload ev language_detected_fields language_detected0 of Inl e \<Rightarrow> Inl e
           | Inr p \<Rightarrow> Inr (s\<lparr>sn_locale := ld_locale p, sn_locale_history := sn_locale_history s @ [ld_locale p]\<rparr>))
      | TypeLanguageSwitched \<Rightarrow>
          (case unmarshal_payload ev language_switched_fields language_switched0 of Inl e \<Rightarrow> Inl e
           | Inr p \<Rightarrow> Inr (s\<lparr>sn_locale := ls_to p, sn_locale_history := sn_locale_history s @ [ls_to p]\<rparr>))
      | TypeNodeEntered \<Rightarrow> Inr (s\<lparr>sn_cursor := NodeID ev, sn_path := sn_path s @ [NodeID ev]\<rparr>)
      | TypeNodeExited \<Rightarrow> Inr s
      | TypeSTTFinal \<Rightarrow>
          (case unmarshal_payload ev stt_final_fields stt_final0 of Inl e \<Rightarrow> Inl e
           | Inr p \<Rightarrow> Inr (s\<lparr>sn_transcript := sn_transcript s @
                              [\<lparr>te_seq = Seq ev, te_ts = TS ev, te_speaker = SpeakerCaller, te_text = sf_text p,
                                te_redactions = Redactions ev, te_interrupted = False\<rparr>],
                            sn_usage := (sn_usage s)\<lparr>STTSeconds :=
                              fadd (STTSeconds (sn_usage s)) (fdiv (f_of_int (sf_audio_ms p)) 1000)\<rparr>\<rparr>))
      | TypeAgentTurnCompleted \<Rightarrow>
          (case unmarshal_payload ev agent_turn_completed_fields agent_turn_completed0 of Inl e \<Rightarrow> Inl e
           | Inr p \<Rightarrow> Inr (s\<lparr>sn_transcript := sn_transcript s @
                              [\<lparr>te_seq = Seq ev, te_ts = TS ev, te_speaker = SpeakerAgent, te_text = at_text p,
                                te_redactions = Redactions ev, te_interrupted = at_interrupted p\<rparr>],
                            sn_turn_latencies := sn_turn_latencies s @ [at_latency p],
                            sn_usage := add_turn_usage p (sn_usage s)\<rparr>))
      | TypeToolInvoked \<Rightarrow> Inr s
      | TypeToolCompleted \<Rightarrow> Inr s
      | TypeDTMFReceived \<Rightarrow> Inr s
      | TypeVarAssigned \<Rightarrow>
          (case unmarshal_payload ev var_assigned_fields var_assigned0 of Inl e \<Rightarrow> Inl e
           | Inr p \<Rightarrow> Inr (s\<lparr>sn_vars := (sn_vars s)(va_name p \<mapsto> va_value p)\<rparr>))
      | TypeTransferInitiated \<Rightarrow> Inr (s\<lparr>sn_status := StatusTransferring\<rparr>)
      | TypeTransferAnswered \<Rightarrow> Inr (s\<lparr>sn_status := StatusTransferred\<rparr>)
      | TypeRecordingStarted \<Rightarrow> Inr (s\<lparr>sn_recording := True\<rparr>)
      | TypeErrorRaised \<Rightarrow>
          (case unmarshal_payload ev error_raised_fields error_raised0 of Inl e \<Rightarrow> Inl e
           | Inr p \<Rightarrow> Inr (s\<lparr>sn_budget :=
                \<lparr>bg_stage = (if er_stage p \<noteq> [] then er_stage p else bg_stage (sn_budget s)),
                 bg_error_count = add64 (bg_error_count (sn_budget s)) 1\<rparr>\<rparr>))
      | TypeOther _ \<Rightarrow> Inr s)"

section \<open>Fold\<close>

definition ev_less :: "envelope \<Rightarrow> envelope \<Rightarrow> bool" where
  "ev_less a b =
     (if Seq a \<noteq> Seq b then Seq a < Seq b else str_less (EventID a) (EventID b))"

fun fold_loop :: "64 word \<Rightarrow> envelope list \<Rightarrow> call_snapshot \<Rightarrow> call_snapshot res" where
  "fold_loop last_applied [] snap = Inr snap"
| "fold_loop last_applied (ev # evs) snap =
     (if Seq ev = last_applied \<and> last_applied \<noteq> 0 then fold_loop last_applied evs snap
      else (case apply_event ev snap of
              Inl e \<Rightarrow> Inl e
            | Inr s \<Rightarrow> fold_loop (Seq ev) evs (s\<lparr>sn_last_seq := Seq ev\<rparr>)))"

definition Fold :: "envelope list \<Rightarrow> call_snapshot res" where
  "Fold events = fold_loop 0 (sort_by ev_less events) snapshot0"

section \<open>The events the loop applies\<close>

text \<open>The loop is a plain fold over the events it does not skip.\<close>

fun dedup_seq :: "64 word \<Rightarrow> envelope list \<Rightarrow> envelope list" where
  "dedup_seq l [] = []"
| "dedup_seq l (ev # evs) =
     (if Seq ev = l \<and> l \<noteq> 0 then dedup_seq l evs else ev # dedup_seq (Seq ev) evs)"

fun apply_all :: "envelope list \<Rightarrow> call_snapshot \<Rightarrow> call_snapshot res" where
  "apply_all [] s = Inr s"
| "apply_all (ev # evs) s =
     (case apply_event ev s of Inl e \<Rightarrow> Inl e | Inr t \<Rightarrow> apply_all evs (t\<lparr>sn_last_seq := Seq ev\<rparr>))"

lemma fold_loop_dedup: "fold_loop l evs s = apply_all (dedup_seq l evs) s"
  by (induction l evs s rule: fold_loop.induct) (auto split: sum.splits)

definition kept :: "envelope list \<Rightarrow> envelope list" where
  "kept evs = dedup_seq 0 (sort_by ev_less evs)"

lemma Fold_kept: "Fold evs = apply_all (kept evs) snapshot0"
  by (simp add: Fold_def kept_def fold_loop_dedup)

text \<open>Streams as producers emit them: sequence numbers start at 1 and an event id names one event.\<close>

definition proper_stream :: "envelope set \<Rightarrow> bool" where
  "proper_stream E \<longleftrightarrow> (\<forall>e \<in> E. Seq e \<noteq> 0) \<and>
     (\<forall>e \<in> E. \<forall>e' \<in> E. Seq e = Seq e' \<and> EventID e = EventID e' \<longrightarrow> e = e')"

lemma ev_less_asym: "ev_less a b \<Longrightarrow> \<not> ev_less b a"
  by (auto simp: ev_less_def str_less_asym split: if_splits)

lemma ev_less_neg_trans:
  assumes "\<not> ev_less a b" and "\<not> ev_less b c"
  shows "\<not> ev_less a c"
proof -
  have tr: "\<And>x y z. \<not> str_less x y \<Longrightarrow> \<not> str_less y z \<Longrightarrow> \<not> str_less x z"
    using strict_weak_str_less unfolding strict_weak_def by blast
  show ?thesis
    using assms tr [of "EventID a" "EventID b" "EventID c"]
    by (auto simp: ev_less_def split: if_splits)
qed

lemma strict_weak_ev_less: "strict_weak ev_less"
  unfolding strict_weak_def by (blast dest: ev_less_asym ev_less_neg_trans)

lemma ordered_seq_le:
  "ordered ev_less (e # es) \<Longrightarrow> x \<in> set es \<Longrightarrow> Seq e \<le> Seq x"
  by (force simp: ordered_def ev_less_def split: if_splits)

lemma ordered_Cons: "ordered ev_less (e # es) \<Longrightarrow> ordered ev_less es"
  by (simp add: ordered_def)

text \<open>In an ordered list of non-zero sequence numbers the kept numbers rise strictly.\<close>

lemma dedup_seq_strict:
  assumes "ordered ev_less evs" and "\<forall>e \<in> set evs. Seq e \<noteq> 0 \<and> l \<le> Seq e"
  shows "sorted_wrt (<) (map Seq (dedup_seq l evs)) \<and>
         (\<forall>e \<in> set (dedup_seq l evs). l \<le> Seq e \<and> (l \<noteq> 0 \<longrightarrow> l < Seq e))"
  using assms
proof (induction l evs rule: dedup_seq.induct)
  case (1 l)
  then show ?case by simp
next
  case (2 l ev evs)
  note ord = ordered_Cons [OF "2.prems"(1)]
  show ?case
  proof (cases "Seq ev = l \<and> l \<noteq> 0")
    case True
    with "2.IH"(1) "2.prems" ord show ?thesis by auto
  next
    case False
    have "\<forall>e \<in> set evs. Seq e \<noteq> 0 \<and> Seq ev \<le> Seq e"
      using "2.prems" ordered_seq_le by auto
    with "2.IH"(2) False ord
    have IH: "sorted_wrt (<) (map Seq (dedup_seq (Seq ev) evs))"
      "\<forall>e \<in> set (dedup_seq (Seq ev) evs). Seq ev \<le> Seq e \<and> (Seq ev \<noteq> 0 \<longrightarrow> Seq ev < Seq e)"
      by auto
    have nz: "Seq ev \<noteq> 0" and le: "l \<le> Seq ev" using "2.prems"(2) by auto
    have lt: "l \<noteq> 0 \<longrightarrow> l < Seq ev" using False le by (auto simp: order.order_iff_strict)
    show ?thesis using False IH nz le lt by auto
  qed
qed

text \<open>What is kept of each number is the event with the least id.\<close>

definition least_of :: "envelope set \<Rightarrow> envelope \<Rightarrow> bool" where
  "least_of E e \<longleftrightarrow> e \<in> E \<and> (\<forall>x \<in> E. Seq x = Seq e \<longrightarrow> \<not> str_less (EventID x) (EventID e))"

lemma ordered_head_id:
  "ordered ev_less (e # es) \<Longrightarrow> x \<in> set es \<Longrightarrow> Seq x = Seq e \<Longrightarrow> \<not> str_less (EventID x) (EventID e)"
  by (force simp: ordered_def ev_less_def)

lemma set_dedup_seq:
  assumes "ordered ev_less evs" and "\<forall>e \<in> set evs. Seq e \<noteq> 0 \<and> l \<le> Seq e"
    and "\<forall>e \<in> set evs. \<forall>e' \<in> set evs. Seq e = Seq e' \<and> EventID e = EventID e' \<longrightarrow> e = e'"
  shows "set (dedup_seq l evs) = {e. least_of (set evs) e \<and> Seq e \<noteq> l}"
  using assms
proof (induction l evs rule: dedup_seq.induct)
  case (1 l)
  then show ?case by (simp add: least_of_def)
next
  case (2 l ev evs)
  note ord = ordered_Cons [OF "2.prems"(1)]
  have ge: "\<forall>x \<in> set evs. Seq ev \<le> Seq x" using "2.prems"(1) ordered_seq_le by blast
  have hd_id: "\<And>x. x \<in> set evs \<Longrightarrow> Seq x = Seq ev \<Longrightarrow> \<not> str_less (EventID x) (EventID ev)"
    using ordered_head_id [OF "2.prems"(1)] by blast
  have head: "least_of (set (ev # evs)) ev" using hd_id by (auto simp: least_of_def)
  have uniq: "\<And>e. least_of (set (ev # evs)) e \<Longrightarrow> Seq e = Seq ev \<Longrightarrow> e = ev"
    using hd_id "2.prems"(3) str_less_total
    by (metis least_of_def list.set_intros(1) set_ConsD)
  have tail: "\<And>e. Seq e \<noteq> Seq ev \<Longrightarrow> least_of (set (ev # evs)) e = least_of (set evs) e"
    by (auto simp: least_of_def)
  show ?case
  proof (cases "Seq ev = l \<and> l \<noteq> 0")
    case True
    with "2.IH"(1) "2.prems" ord have "set (dedup_seq l evs) = {e. least_of (set evs) e \<and> Seq e \<noteq> l}"
      by auto
    with True tail show ?thesis by auto
  next
    case False
    have nl: "Seq ev \<noteq> l" using False "2.prems"(2) by auto
    have "\<forall>e \<in> set evs. Seq e \<noteq> 0 \<and> Seq ev \<le> Seq e" using "2.prems"(2) ge by auto
    with "2.IH"(2) False ord "2.prems"(3)
    have IH: "set (dedup_seq (Seq ev) evs) = {e. least_of (set evs) e \<and> Seq e \<noteq> Seq ev}" by auto
    have gel: "\<And>e. e \<in> set evs \<Longrightarrow> Seq e \<noteq> Seq ev \<Longrightarrow> Seq e \<noteq> l"
      using ge nl "2.prems"(2) by (metis list.set_intros(1) order.antisym)
    have "e \<in> set (ev # dedup_seq (Seq ev) evs) \<longleftrightarrow> least_of (set (ev # evs)) e \<and> Seq e \<noteq> l" for e
    proof (cases "Seq e = Seq ev")
      case True
      with IH head uniq nl show ?thesis by auto
    next
      case ne: False
      have "least_of (set evs) e \<Longrightarrow> Seq e \<noteq> l" using gel ne by (simp add: least_of_def)
      with ne IH tail [OF ne] show ?thesis by auto
    qed
    with False show ?thesis by auto
  qed
qed

lemma kept_sorted: "proper_stream (set evs) \<Longrightarrow> sorted_wrt (<) (map Seq (kept evs))"
  using dedup_seq_strict [OF ordered_sort_by [OF strict_weak_ev_less], of evs 0]
  by (simp add: kept_def proper_stream_def)

lemma set_kept: "proper_stream (set evs) \<Longrightarrow> set (kept evs) = {e. least_of (set evs) e}"
proof -
  assume p: "proper_stream (set evs)"
  then have "set (kept evs) = {e. least_of (set evs) e \<and> Seq e \<noteq> 0}"
    unfolding kept_def
    using set_dedup_seq [OF ordered_sort_by [OF strict_weak_ev_less], of evs 0]
    by (simp add: proper_stream_def)
  with p show ?thesis by (auto simp: proper_stream_def least_of_def)
qed

lemma sorted_seq_unique:
  assumes "sorted_wrt (<) (map Seq xs)" and "sorted_wrt (<) (map Seq ys)" and "set xs = set ys"
  shows "xs = ys"
proof -
  have dx: "distinct (map Seq xs)" and dy: "distinct (map Seq ys)"
    using assms by (auto simp: strict_sorted_iff)
  have "map Seq xs = map Seq ys"
    using assms by (intro strict_sorted_equal) simp_all
  moreover have "inj_on Seq (set xs \<union> set ys)"
    using dx assms(3) by (simp add: distinct_map)
  ultimately show ?thesis using map_inj_on by blast
qed

lemma kept_cong:
  "proper_stream (set evs) \<Longrightarrow> set evs = set evs' \<Longrightarrow> kept evs = kept evs'"
  by (rule sorted_seq_unique) (auto simp: kept_sorted set_kept)


section \<open>What one event changes\<close>

lemmas apply_splits = event_type.splits sum.splits

lemma set_identity_frame [simp]:
  "sn_status (set_identity ev s) = sn_status s" "sn_transcript (set_identity ev s) = sn_transcript s"
  "sn_usage (set_identity ev s) = sn_usage s" "sn_last_seq (set_identity ev s) = sn_last_seq s"
  "sn_recording (set_identity ev s) = sn_recording s" "sn_budget (set_identity ev s) = sn_budget s"
  "sn_consent_captured (set_identity ev s) = sn_consent_captured s"
  "sn_vars (set_identity ev s) = sn_vars s" "sn_path (set_identity ev s) = sn_path s"
  "sn_cursor (set_identity ev s) = sn_cursor s" "sn_locale (set_identity ev s) = sn_locale s"
  "sn_locale_history (set_identity ev s) = sn_locale_history s"
  by (simp_all add: set_identity_def)

definition speaks :: "envelope \<Rightarrow> bool" where
  "speaks ev \<longleftrightarrow> Type ev = TypeSTTFinal \<or> Type ev = TypeAgentTurnCompleted"

lemma apply_event_transcript:
  "apply_event ev s = Inr t \<Longrightarrow>
   map te_seq (sn_transcript t) = map te_seq (sn_transcript s) @ (if speaks ev then [Seq ev] else [])"
  by (auto simp: apply_event_def Let_def speaks_def split: apply_splits)

text \<open>Whether an event's payload decodes; it does not depend on the snapshot.\<close>

definition decodes :: "envelope \<Rightarrow> bool" where
  "decodes ev \<longleftrightarrow> ok (apply_event ev snapshot0)"

lemma apply_event_ok: "ok (apply_event ev s) = decodes ev"
  by (simp add: decodes_def apply_event_def Let_def split: apply_splits)

lemma apply_all_ok: "ok (apply_all evs s) \<longleftrightarrow> (\<forall>ev \<in> set evs. decodes ev)"
proof (induction evs arbitrary: s)
  case (Cons ev evs)
  show ?case
    using Cons.IH apply_event_ok [of ev s] by (cases "apply_event ev s") auto
qed simp

lemma set_identity_tenant: "sn_tenant_id (set_identity ev s) \<in> {sn_tenant_id s, TenantID ev}"
  by (simp add: set_identity_def)

lemma apply_event_identity:
  "apply_event ev s = Inr s' \<Longrightarrow>
   sn_call_id s' = sn_call_id (set_identity ev s) \<and> sn_tenant_id s' = sn_tenant_id (set_identity ev s)"
  by (auto simp: apply_event_def Let_def split: event_type.splits sum.splits)

lemma kept_nonempty: "evs \<noteq> [] \<Longrightarrow> \<exists>e es. kept evs = e # es \<and> set (kept evs) \<subseteq> set evs"
proof -
  assume "evs \<noteq> []"
  then obtain e es where se: "sort_by ev_less evs = e # es" by (metis set_sort_by set_empty neq_Nil_conv)
  have "set (dedup_seq l xs) \<subseteq> set xs" for l xs by (induction l xs rule: dedup_seq.induct) auto
  then have "set (kept evs) \<subseteq> set evs" unfolding kept_def by (metis set_sort_by)
  with se show ?thesis by (simp add: kept_def)
qed

lemma apply_event_error: "apply_event ev s = Inl e \<longleftrightarrow> apply_event ev t = Inl e"
  by (simp add: apply_event_def Let_def split: apply_splits)

lemma first_Cons:
  "(\<exists>pre y post. x # xs = pre @ y # post \<and> (\<forall>z \<in> set pre. P z) \<and> Q y) \<longleftrightarrow>
     Q x \<or> P x \<and> (\<exists>pre y post. xs = pre @ y # post \<and> (\<forall>z \<in> set pre. P z) \<and> Q y)" (is "?L \<longleftrightarrow> ?R")
proof
  assume ?L
  then obtain pre y post where "x # xs = pre @ y # post" "\<forall>z \<in> set pre. P z" "Q y" by blast
  then show ?R by (cases pre) auto
next
  assume ?R
  then show ?L
  proof
    assume "Q x"
    then show ?L by (intro exI [of _ "[]"] exI [of _ x] exI [of _ xs]) simp
  next
    assume "P x \<and> (\<exists>pre y post. xs = pre @ y # post \<and> (\<forall>z \<in> set pre. P z) \<and> Q y)"
    then obtain pre y post where "P x" "xs = pre @ y # post" "\<forall>z \<in> set pre. P z" "Q y" by blast
    then show ?L by (intro exI [of _ "x # pre"] exI [of _ y] exI [of _ post]) simp
  qed
qed

lemma apply_all_error:
  "apply_all evs s = Inl e \<longleftrightarrow>
     (\<exists>pre ev post. evs = pre @ ev # post \<and> (\<forall>x \<in> set pre. decodes x) \<and> (\<forall>t. apply_event ev t = Inl e))"
proof (induction evs arbitrary: s)
  case (Cons x evs)
  show ?case
  proof (cases "apply_event x s")
    case (Inl f)
    then have "\<not> decodes x" "(\<forall>t. apply_event x t = Inl e) \<longleftrightarrow> f = e"
      using apply_event_ok [of x s] apply_event_error [of x s] by auto
    then show ?thesis unfolding first_Cons by (simp add: Inl)
  next
    case (Inr t)
    then have "decodes x" "(\<forall>t. apply_event x t = Inl e) = False" using apply_event_ok [of x s] by (auto intro!: exI [of _ s])
    then show ?thesis unfolding first_Cons by (simp only: Inr Cons.IH apply_all.simps sum.case if_True simp_thms)
  qed
qed simp

lemma apply_all_last_seq:
  "apply_all evs s = Inr t \<Longrightarrow> sn_last_seq t = (if evs = [] then sn_last_seq s else Seq (last evs))"
proof (induction evs arbitrary: s)
  case (Cons ev evs)
  then obtain u where u: "apply_all evs (u\<lparr>sn_last_seq := Seq ev\<rparr>) = Inr t"
    by (auto split: sum.splits)
  show ?case using Cons.IH [OF u] by simp
qed simp

lemma apply_all_transcript:
  "apply_all evs s = Inr t \<Longrightarrow>
   map te_seq (sn_transcript t) = map te_seq (sn_transcript s) @ map Seq (filter speaks evs)"
proof (induction evs arbitrary: s)
  case (Cons ev evs)
  then obtain u where u: "apply_event ev s = Inr u"
    "apply_all evs (u\<lparr>sn_last_seq := Seq ev\<rparr>) = Inr t" by (auto split: sum.splits)
  show ?case using Cons.IH [OF u(2)] apply_event_transcript [OF u(1)] by simp
qed simp

text \<open>The agent-turn payload of an event, and the tokens it bills.\<close>

definition turn_of :: "envelope \<Rightarrow> agent_turn_completed" where
  "turn_of ev =
     (if Type ev = TypeAgentTurnCompleted
      then (case unmarshal_payload ev agent_turn_completed_fields agent_turn_completed0 of
              Inl _ \<Rightarrow> agent_turn_completed0 | Inr p \<Rightarrow> p)
      else agent_turn_completed0)"

lemma apply_event_tokens:
  assumes "apply_event ev s = Inr t" and "int64 (LLMTokensOut (sn_usage s))"
  shows "LLMTokensOut (sn_usage t) = add64 (LLMTokensOut (sn_usage s)) (at_llm_tokens_out (turn_of ev))"
proof -
  have "add64 (LLMTokensOut (sn_usage s)) 0 = LLMTokensOut (sn_usage s)"
    using assms(2) by (simp add: add64_def wrap64_id)
  with assms(1) show ?thesis
    by (cases "Type ev")
      (auto simp: apply_event_def Let_def turn_of_def add_turn_usage_def agent_turn_completed0_def
        split: sum.splits)
qed

lemma int64_add64 [simp, intro]: "int64 (add64 a b)"
  by (simp add: add64_def)

lemma apply_all_tokens:
  "apply_all evs s = Inr t \<Longrightarrow> int64 (LLMTokensOut (sn_usage s)) \<Longrightarrow>
   LLMTokensOut (sn_usage t) =
     wrap64 (LLMTokensOut (sn_usage s) + (\<Sum>ev \<leftarrow> evs. at_llm_tokens_out (turn_of ev)))"
proof (induction evs arbitrary: s)
  case Nil
  then show ?case by (simp add: wrap64_id)
next
  case (Cons ev evs)
  then obtain u where u: "apply_event ev s = Inr u"
    "apply_all evs (u\<lparr>sn_last_seq := Seq ev\<rparr>) = Inr t" by (auto split: sum.splits)
  have tok: "LLMTokensOut (sn_usage u) =
      add64 (LLMTokensOut (sn_usage s)) (at_llm_tokens_out (turn_of ev))"
    by (rule apply_event_tokens [OF u(1) Cons.prems(2)])
  then have "int64 (LLMTokensOut (sn_usage u))" by simp
  with Cons.IH [OF u(2)] tok show ?case
    by (simp add: add64_def wrap64_add_left add.assoc)
qed

lemma last_seq_Max:
  assumes "proper_stream (set evs)" and "evs \<noteq> []"
  shows "kept evs \<noteq> []" and "Seq (last (kept evs)) = Max (Seq ` set evs)"
proof -
  let ?k = "kept evs"
  have sub: "set ?k \<subseteq> set evs" using set_kept [OF assms(1)] by (auto simp: least_of_def)
  have cover: "\<exists>k \<in> set ?k. Seq k = Seq e" if e: "e \<in> set evs" for e
  proof -
    let ?S = "{x \<in> set evs. Seq x = Seq e}"
    let ?ids = "sort_by str_less (map EventID (filter (\<lambda>x. Seq x = Seq e) evs))"
    have ne: "?ids \<noteq> []"
    proof
      assume "?ids = []"
      then have "length ?ids = 0" by simp
      then have "\<forall>x \<in> set evs. Seq x \<noteq> Seq e" by (simp add: filter_empty_conv)
      with e show False by blast
    qed
    then obtain i js where ids: "?ids = i # js" by (cases ?ids) auto
    have "ordered str_less (i # js)" using ordered_sort_by [OF strict_weak_str_less] ids by metis
    then have least: "\<forall>j \<in> set js. \<not> str_less j i" by (simp add: ordered_def)
    have mem: "set (i # js) = EventID ` ?S" by (simp flip: ids)
    then have "i \<in> EventID ` ?S" by (metis list.set_intros(1))
    then obtain x where x: "x \<in> set evs" "Seq x = Seq e" "EventID x = i" by blast
    have "\<forall>y \<in> set evs. Seq y = Seq x \<longrightarrow> \<not> str_less (EventID y) (EventID x)"
    proof (intro ballI impI)
      fix y assume "y \<in> set evs" "Seq y = Seq x"
      then have "EventID y \<in> set (i # js)" using mem x by auto
      then show "\<not> str_less (EventID y) (EventID x)" using least x by auto
    qed
    then have "x \<in> set ?k" using set_kept [OF assms(1)] x by (auto simp: least_of_def)
    with x show ?thesis by blast
  qed
  obtain e where "e \<in> set evs" using assms(2) by (cases evs) auto
  with cover show ne: "?k \<noteq> []" by fastforce
  have sw: "sorted_wrt (<) (map Seq ?k)" by (rule kept_sorted [OF assms(1)])
  have le: "Seq k \<le> Seq (last ?k)" if "k \<in> set ?k" for k
  proof -
    have "sorted (map Seq ?k)" using sw by (simp add: strict_sorted_iff)
    then have "Seq k \<le> last (map Seq ?k)"
      using that by (simp add: sorted_le_last)
    then show ?thesis using ne by (simp add: last_map)
  qed
  show "Seq (last ?k) = Max (Seq ` set evs)"
  proof (rule Max_eqI [symmetric])
    show "finite (Seq ` set evs)" by simp
    show "Seq (last ?k) \<in> Seq ` set evs" using sub last_in_set [OF ne] by (intro imageI) blast
    fix y assume "y \<in> Seq ` set evs"
    then show "y \<le> Seq (last ?k)" using cover le by force
  qed
qed

lemma ceil_minutes_exact:
  assumes "0 < d" and "d \<le> 2 ^ 63 - 1 - 59999"
  shows "ceil_minutes d = (d + 59999) div 60000"
proof -
  have "int64 (d + 59999)" using assms by (simp add: int64_def)
  moreover have "int64 ((d + 59999) div 60000)"
    using assms by (simp add: int64_def div_le_dividend) linarith
  ultimately show ?thesis
    using assms by (simp add: ceil_minutes_def div64_def add64_exact sdiv_nonneg wrap64_id)
qed

section \<open>Properties\<close>

text \<open>
  C4: the fold is a function of the set of events. For streams as producers emit them
  (sequence numbers from 1, an event id naming one event) any two deliveries of the same events,
  in any order and with any duplication, fold to the same snapshot or the same error.
\<close>

theorem fold_order_independent:
  assumes "proper_stream (set evs)" and "set evs = set evs'"
  shows "Fold evs = Fold evs'"
  using kept_cong [OF assms] by (simp add: Fold_kept)

definition ev_demo :: "64 word \<Rightarrow> string \<Rightarrow> event_type \<Rightarrow> json \<Rightarrow> envelope" where
  "ev_demo n i ty p =
     \<lparr>EventID = i, CallID = ''c1'', Seq = n, TS = 7, TenantID = ''t1'', FlowID = [], FlowVersion = 0,
      Type = ty, NodeID = [], Payload = Some p, Redactions = []\<rparr>"

theorem fold_order_independent_witness:
  "Fold [ev_demo 2 ''b'' TypeCallAnswered JNull, ev_demo 1 ''a'' TypeCallStarted JNull,
         ev_demo 2 ''b'' TypeCallAnswered JNull] =
   Fold [ev_demo 1 ''a'' TypeCallStarted JNull, ev_demo 2 ''b'' TypeCallAnswered JNull]"
  by (rule fold_order_independent) (auto simp: proper_stream_def ev_demo_def)

text \<open>
  A fold fails exactly when one of the events it keeps has a payload its type cannot decode;
  skipped duplicates and unknown types never make it fail.
\<close>

theorem fold_error_iff: "ok (Fold evs) \<longleftrightarrow> (\<forall>ev \<in> set (kept evs). decodes ev)"
  by (simp add: Fold_kept apply_all_ok)

theorem fold_error_iff_witness:
  "ok (Fold [ev_demo 1 ''a'' TypeCallStarted JNull]) \<and>
   \<not> ok (Fold [ev_demo 1 ''a'' TypeCallStarted JNull, ev_demo 2 ''b'' TypeCallEnded (JInt 3)])"
proof -
  have bad: "\<not> decodes (ev_demo 2 ''b'' TypeCallEnded (JInt 3))"
    by (simp add: decodes_def apply_event_def ev_demo_def unmarshal_payload_def unmarshal_def )
  have good: "decodes (ev_demo 1 ''a'' TypeCallStarted JNull)"
    by (simp add: decodes_def apply_event_def ev_demo_def)
  show ?thesis
    using bad good fold_error_iff [of "[ev_demo 1 ''a'' TypeCallStarted JNull]"]
      fold_error_iff [of "[ev_demo 1 ''a'' TypeCallStarted JNull, ev_demo 2 ''b'' TypeCallEnded (JInt 3)]"]
    by (simp add: kept_def ev_demo_def)
qed



text \<open>
  \<open>LastSeq\<close> of a snapshot is the highest sequence number of the stream it was folded from,
  which is what a live consumer may use as its dedup floor.
\<close>

theorem fold_last_seq_is_max:
  assumes "proper_stream (set evs)" and "evs \<noteq> []" and "Fold evs = Inr s"
  shows "sn_last_seq s = Max (Seq ` set evs)"
  using apply_all_last_seq [of "kept evs" snapshot0 s] assms last_seq_Max [OF assms(1,2)]
  by (simp add: Fold_kept)

theorem fold_last_seq_is_max_witness:
  "\<exists>s. Fold [ev_demo 1 ''a'' TypeCallStarted JNull] = Inr s \<and> sn_last_seq s = 1"
proof -
  have f: "Fold [ev_demo 1 ''a'' TypeCallStarted JNull]
      = Inr ((set_identity (ev_demo 1 ''a'' TypeCallStarted JNull) snapshot0)
               \<lparr>sn_status := StatusStarted, sn_started_at := 7, sn_last_seq := 1\<rparr>)"
    by (simp add: Fold_def apply_event_def ev_demo_def)
  have "proper_stream (set [ev_demo 1 ''a'' TypeCallStarted JNull])"
    by (simp add: proper_stream_def ev_demo_def)
  from fold_last_seq_is_max [OF this _ f] f show ?thesis by (auto simp: ev_demo_def)
qed

text \<open>
  The transcript of a folded call holds one entry for each kept caller or agent turn, in
  strictly rising sequence order: no turn is repeated, lost or out of place.
\<close>

theorem fold_transcript_in_order:
  assumes "proper_stream (set evs)" and "Fold evs = Inr s"
  shows "sorted_wrt (<) (map te_seq (sn_transcript s)) \<and>
         set (map te_seq (sn_transcript s)) = Seq ` {e. least_of (set evs) e \<and> speaks e}"
proof -
  have t: "map te_seq (sn_transcript s) = map Seq (filter speaks (kept evs))"
    using apply_all_transcript [of "kept evs" snapshot0 s] assms(2)
    by (simp add: Fold_kept snapshot0_def)
  have "sorted_wrt (<) (map Seq (filter speaks (kept evs)))"
    using kept_sorted [OF assms(1)] by (simp add: sorted_wrt_map sorted_wrt_filter)
  with t set_kept [OF assms(1)] show ?thesis by auto
qed

theorem fold_transcript_in_order_witness:
  "\<exists>s. Fold [ev_demo 3 ''a'' TypeSTTFinal JNull] = Inr s \<and>
       sorted_wrt (<) (map te_seq (sn_transcript s))"
proof -
  have "ok (Fold [ev_demo 3 ''a'' TypeSTTFinal JNull])"
    by (simp add: Fold_def apply_event_def ev_demo_def unmarshal_payload_def unmarshal_def)
  then obtain s where s: "Fold [ev_demo 3 ''a'' TypeSTTFinal JNull] = Inr s"
    by (cases "Fold [ev_demo 3 ''a'' TypeSTTFinal JNull]") auto
  have "proper_stream (set [ev_demo 3 ''a'' TypeSTTFinal JNull])"
    by (simp add: proper_stream_def ev_demo_def)
  from fold_transcript_in_order [OF this s] s show ?thesis by blast
qed

text \<open>
  The LLM output tokens billed for a call are the sum over the kept agent turns, in 64-bit
  arithmetic: a redelivered turn is never billed twice.
\<close>

theorem fold_tokens_are_summed_once:
  assumes "Fold evs = Inr s"
  shows "LLMTokensOut (sn_usage s) = wrap64 (\<Sum>ev \<leftarrow> kept evs. at_llm_tokens_out (turn_of ev))"
  using apply_all_tokens [of "kept evs" snapshot0 s] assms
  by (simp add: Fold_kept snapshot0_def usage0_def int64_def)

theorem fold_tokens_are_summed_once_witness:
  "\<exists>s. Fold [] = Inr s \<and> LLMTokensOut (sn_usage s) = 0"
proof -
  have f: "Fold [] = Inr snapshot0" by (simp add: Fold_def)
  from fold_tokens_are_summed_once [OF f] f show ?thesis by (simp add: kept_def wrap64_def)
qed

text \<open>
  Billed minutes round up: for every duration a call can have (up to the point where
  adding 59 999 overflows), the billed minutes are the least whole number of minutes that covers it.
\<close>

theorem ceil_minutes_rounds_up:
  assumes "0 < d" and "d \<le> 2 ^ 63 - 1 - 59999"
  shows "d \<le> 60000 * ceil_minutes d \<and> 60000 * (ceil_minutes d - 1) < d"
proof -
  have gen: "d \<le> 60000 * q \<and> 60000 * (q - 1) < d"
    if "60000 * q + m = d + 59999" "0 \<le> m" "m < 60000" for q m :: int
  proof
    show "d \<le> 60000 * q" using that(1,3) by simp
    show "60000 * (q - 1) < d" using that(1,2) by simp
  qed
  have "d \<le> 60000 * ((d + 59999) div 60000) \<and> 60000 * ((d + 59999) div 60000 - 1) < d"
    by (rule gen [OF mult_div_mod_eq pos_mod_sign pos_mod_bound]) simp_all
  then show ?thesis unfolding ceil_minutes_exact [OF assms] by blast
qed

theorem ceil_minutes_rounds_up_witness: "(61000 :: int) \<le> 60000 * ceil_minutes 61000"
  using ceil_minutes_rounds_up [of 61000] by simp

definition err_count :: "call_snapshot res \<Rightarrow> int option" where
  "err_count r = (case r of Inl e \<Rightarrow> None | Inr s \<Rightarrow> Some (bg_error_count (sn_budget s)))"

text \<open>
  Events with sequence number 0 escape the deduplication: the same error event delivered
  twice is counted twice, while with any other number it is counted once.
\<close>

theorem fold_seq_zero_counted_twice:
  "err_count (Fold [ev_demo 0 ''a'' TypeErrorRaised JNull, ev_demo 0 ''a'' TypeErrorRaised JNull]) = Some 2 \<and>
   err_count (Fold [ev_demo 1 ''a'' TypeErrorRaised JNull, ev_demo 1 ''a'' TypeErrorRaised JNull]) = Some 1"
  by code_simp

end
