(* ===== verification/Ladder.thy ===== *)
theory Ladder
  imports FD_Prelude
begin

text \<open>
  \<open>internal/degrade/level.go\<close>: the degradation ladder of one call. A ladder is its level and the
  record of the calls made to its observer; each method is one function. The levels are ordered
  as in the source (an instance of \<open>linorder\<close>).
\<close>

datatype level = Normal | Fast | Scripted | Transfer | Voicemail

fun level_num :: "level \<Rightarrow> nat" where
  "level_num Normal = 0"
| "level_num Fast = 1"
| "level_num Scripted = 2"
| "level_num Transfer = 3"
| "level_num Voicemail = 4"

fun level_string :: "level \<Rightarrow> string" where
  "level_string Normal = ''degNormal''"
| "level_string Fast = ''degFast''"
| "level_string Scripted = ''degScripted''"
| "level_string Transfer = ''degTransfer''"
| "level_string Voicemail = ''degVoicemail''"

lemma level_num_inj: "level_num a = level_num b \<Longrightarrow> a = b"
  by (cases a; cases b) simp_all

instantiation level :: linorder
begin

definition less_eq_level :: "level \<Rightarrow> level \<Rightarrow> bool" where
  "less_eq_level a b = (level_num a \<le> level_num b)"

definition less_level :: "level \<Rightarrow> level \<Rightarrow> bool" where
  "less_level a b = (level_num a < level_num b)"

instance
  by standard (auto simp: less_eq_level_def less_level_def dest: level_num_inj)

end

lemmas level_order = less_eq_level_def less_level_def

fun next_level :: "level \<Rightarrow> level" where
  "next_level Normal = Fast"
| "next_level Fast = Scripted"
| "next_level Scripted = Transfer"
| "next_level Transfer = Voicemail"
| "next_level Voicemail = Voicemail"

fun prev_level :: "level \<Rightarrow> level" where
  "prev_level Normal = Normal"
| "prev_level Fast = Normal"
| "prev_level Scripted = Fast"
| "prev_level Transfer = Scripted"
| "prev_level Voicemail = Transfer"

record ladder =
  lad_level :: level
  lad_observed :: bool
  lad_log :: "(level \<times> level \<times> string) list"

definition NewLadder :: "bool \<Rightarrow> ladder" where
  "NewLadder on_change = \<lparr>lad_level = Normal, lad_observed = on_change, lad_log = []\<rparr>"

definition set_level :: "level \<Rightarrow> string \<Rightarrow> ladder \<Rightarrow> level \<times> ladder" where
  "set_level to reason l =
     (to, l\<lparr>lad_level := to,
            lad_log := (if lad_observed l then lad_log l @ [(lad_level l, to, reason)] else lad_log l)\<rparr>)"

definition Escalate :: "string \<Rightarrow> ladder \<Rightarrow> level \<times> ladder" where
  "Escalate reason l =
     (if lad_level l \<ge> Voicemail then (lad_level l, l)
      else set_level (next_level (lad_level l)) reason l)"

definition EscalateTo :: "level \<Rightarrow> string \<Rightarrow> ladder \<Rightarrow> level \<times> ladder" where
  "EscalateTo m reason l =
     (if lad_level l \<ge> m then (lad_level l, l) else set_level m reason l)"

definition Relax :: "string \<Rightarrow> ladder \<Rightarrow> level \<times> ladder" where
  "Relax reason l =
     (if lad_level l = Normal then (lad_level l, l)
      else set_level (prev_level (lad_level l)) reason l)"

datatype ladder_op = OpEscalate string | OpEscalateTo level string | OpRelax string

fun ladder_do :: "ladder_op \<Rightarrow> ladder \<Rightarrow> level \<times> ladder" where
  "ladder_do (OpEscalate r) l = Escalate r l"
| "ladder_do (OpEscalateTo m r) l = EscalateTo m r l"
| "ladder_do (OpRelax r) l = Relax r l"

definition ladder_step :: "ladder \<Rightarrow> ladder \<Rightarrow> bool" where
  "ladder_step l l' \<longleftrightarrow> (\<exists>op. l' = snd (ladder_do op l))"

section \<open>The observer sees a path\<close>

fun path_from :: "level \<Rightarrow> (level \<times> level \<times> string) list \<Rightarrow> level option" where
  "path_from a [] = Some a"
| "path_from a ((b, c, r) # es) = (if a = b \<and> b \<noteq> c then path_from c es else None)"

lemma path_from_append:
  "path_from a (xs @ ys) = (case path_from a xs of None \<Rightarrow> None | Some b \<Rightarrow> path_from b ys)"
  by (induction a xs rule: path_from.induct) auto

definition ladder_inv :: "ladder \<Rightarrow> bool" where
  "ladder_inv l \<longleftrightarrow> (lad_observed l \<longrightarrow> path_from Normal (lad_log l) = Some (lad_level l))"

lemma level_le_Voicemail [simp]: "l \<le> Voicemail" "Normal \<le> l"
  by (cases l; simp add: level_order)+

lemma next_level_neq: "\<not> l \<ge> Voicemail \<Longrightarrow> next_level l \<noteq> l"
  by (cases l) (simp_all add: level_order)

lemma prev_level_neq: "l \<noteq> Normal \<Longrightarrow> prev_level l \<noteq> l"
  by (cases l) simp_all

lemma set_level_inv: "ladder_inv l \<Longrightarrow> to \<noteq> lad_level l \<Longrightarrow> ladder_inv (snd (set_level to r l))"
  by (auto simp: ladder_inv_def set_level_def path_from_append)

lemma ladder_do_inv [fd_inv]: "ladder_inv l \<Longrightarrow> ladder_inv (snd (ladder_do op l))"
proof (cases op)
  case (OpEscalate r)
  then show "ladder_inv l \<Longrightarrow> ?thesis"
    using next_level_neq [of "lad_level l"] by (auto simp: Escalate_def intro: set_level_inv)
next
  case (OpEscalateTo m r)
  then show "ladder_inv l \<Longrightarrow> ?thesis"
    by (auto simp: EscalateTo_def intro: set_level_inv)
next
  case (OpRelax r)
  then show "ladder_inv l \<Longrightarrow> ?thesis"
    using prev_level_neq [of "lad_level l"] by (auto simp: Relax_def intro: set_level_inv)
qed

lemma NewLadder_inv: "ladder_inv (NewLadder c)"
  by (simp add: ladder_inv_def NewLadder_def)

interpretation lad: step_system "\<lambda>l. \<exists>c. l = NewLadder c" ladder_step ladder_inv
  by unfold_locales (auto simp: ladder_step_def NewLadder_inv ladder_do_inv)

lemma ladder_do_observed [fd_frame]: "lad_observed (snd (ladder_do op l)) = lad_observed l"
  by (cases op) (simp_all add: Escalate_def EscalateTo_def Relax_def set_level_def)

lemma ladder_run_observed [fd_frame]: "run_of ladder_step l l' \<Longrightarrow> lad_observed l' = lad_observed l"
  by (induction rule: run_of.induct) (auto simp: ladder_step_def ladder_do_observed)

section \<open>Properties\<close>

text \<open>
  An escalation goes exactly one step down and stops at voicemail, an escalation to a
  level never moves the call back up, and relaxing goes at most one step back; each returns the
  level the ladder is then at.
\<close>

theorem ladder_moves:
  "fst (Escalate r l) = lad_level (snd (Escalate r l))
   \<and> level_num (fst (Escalate r l)) = min 4 (level_num (lad_level l) + 1)
   \<and> fst (EscalateTo m r l) = lad_level (snd (EscalateTo m r l))
   \<and> fst (EscalateTo m r l) = max m (lad_level l)
   \<and> fst (Relax r l) = lad_level (snd (Relax r l))
   \<and> level_num (fst (Relax r l)) = level_num (lad_level l) - 1"
  by (cases "lad_level l"; cases m)
    (simp_all add: Escalate_def EscalateTo_def Relax_def set_level_def level_order max_def)

text \<open>
  Whatever the call does to an observed ladder, the transitions its observer was told form
  one path of real changes from normal to the current level: no transition is missed or repeated.
\<close>

theorem ladder_log_is_path:
  assumes "run_of ladder_step (NewLadder True) l"
  shows "path_from Normal (lad_log l) = Some (lad_level l)"
proof -
  have "ladder_inv l" using lad.inv_reachable [OF _ assms] by blast
  moreover have "lad_observed l" using ladder_run_observed [OF assms] by (simp add: NewLadder_def)
  ultimately show ?thesis by (simp add: ladder_inv_def)
qed

theorem ladder_log_is_path_witness:
  "path_from Normal [(Normal, Fast, ''stt'')] = Some Fast"
proof -
  let ?l = "snd (Escalate ''stt'' (NewLadder True))"
  have "ladder_step (NewLadder True) ?l"
    unfolding ladder_step_def by (rule exI [of _ "OpEscalate ''stt''"]) simp
  then have "run_of ladder_step (NewLadder True) ?l" by (blast intro: run_of.intros)
  from ladder_log_is_path [OF this] show ?thesis
    by (simp add: Escalate_def NewLadder_def set_level_def level_order)
qed

end
