(* ===== verification/Breaker.thy ===== *)
theory Breaker
  imports FD_Prelude
begin

text \<open>
  \<open>internal/degrade/breaker.go\<close>: the circuit breaker of one provider and the registry that hands
  it out by name. Each method is a function of the clock reading (where the method reads the
  clock) and the breaker; the mutex makes each of them one atomic step.
\<close>

datatype breaker_state = BreakerClosed | BreakerOpen | BreakerHalfOpen

fun breaker_state_string :: "breaker_state \<Rightarrow> string" where
  "breaker_state_string BreakerClosed = ''closed''"
| "breaker_state_string BreakerOpen = ''open''"
| "breaker_state_string BreakerHalfOpen = ''half_open''"

record breaker =
  br_max_failures :: int
  br_probe_every :: int
  br_state :: breaker_state
  br_failures :: int
  br_opened_at :: int
  br_probing :: bool

type_synonym breaker_option = "breaker \<Rightarrow> breaker"

definition WithMaxFailures :: "int \<Rightarrow> breaker_option" where
  "WithMaxFailures n b = b\<lparr>br_max_failures := n\<rparr>"

definition WithProbeInterval :: "int \<Rightarrow> breaker_option" where
  "WithProbeInterval d b = b\<lparr>br_probe_every := d\<rparr>"

definition NewBreaker :: "breaker_option list \<Rightarrow> breaker" where
  "NewBreaker opts =
     fold (\<lambda>f b. f b) opts
       \<lparr>br_max_failures = 3, br_probe_every = 5000000000, br_state = BreakerClosed, br_failures = 0,
        br_opened_at = 0, br_probing = False\<rparr>"

definition Allow :: "int \<Rightarrow> breaker \<Rightarrow> bool \<times> breaker" where
  "Allow now b =
     (case br_state b of
        BreakerClosed \<Rightarrow> (True, b)
      | BreakerHalfOpen \<Rightarrow> (False, b)
      | BreakerOpen \<Rightarrow>
          if now - br_opened_at b < br_probe_every b then (False, b)
          else (True, b\<lparr>br_state := BreakerHalfOpen, br_probing := True\<rparr>))"

definition Success :: "breaker \<Rightarrow> breaker" where
  "Success b = b\<lparr>br_state := BreakerClosed, br_failures := 0, br_probing := False\<rparr>"

definition Failure :: "int \<Rightarrow> breaker \<Rightarrow> breaker" where
  "Failure now b =
     (case br_state b of
        BreakerHalfOpen \<Rightarrow> b\<lparr>br_state := BreakerOpen, br_opened_at := now, br_probing := False\<rparr>
      | BreakerClosed \<Rightarrow>
          (let n = add64 (br_failures b) 1 in
           if n \<ge> br_max_failures b
           then b\<lparr>br_failures := n, br_state := BreakerOpen, br_opened_at := now\<rparr>
           else b\<lparr>br_failures := n\<rparr>)
      | BreakerOpen \<Rightarrow> b)"

datatype breaker_op = OpAllow int | OpSuccess | OpFailure int

fun breaker_do :: "breaker_op \<Rightarrow> breaker \<Rightarrow> bool \<times> breaker" where
  "breaker_do (OpAllow now) b = Allow now b"
| "breaker_do OpSuccess b = (False, Success b)"
| "breaker_do (OpFailure now) b = (False, Failure now b)"

text \<open>A run of operations: the final breaker and, for each operation, whether it admitted an attempt.\<close>

fun breaker_run :: "breaker_op list \<Rightarrow> breaker \<Rightarrow> bool list \<times> breaker" where
  "breaker_run [] b = ([], b)"
| "breaker_run (op # ops) b =
     (case breaker_do op b of (r, b') \<Rightarrow> (case breaker_run ops b' of (rs, b'') \<Rightarrow> (r # rs, b'')))"

definition breaker_step :: "breaker \<Rightarrow> breaker \<Rightarrow> bool" where
  "breaker_step b b' \<longleftrightarrow> (\<exists>op. b' = snd (breaker_do op b))"

definition breaker_inv :: "breaker \<Rightarrow> bool" where
  "breaker_inv b \<longleftrightarrow> (br_probing b \<longleftrightarrow> br_state b = BreakerHalfOpen)"

lemmas breaker_ops = Allow_def Success_def Failure_def

lemma breaker_do_inv [fd_inv]: "breaker_inv b \<Longrightarrow> breaker_inv (snd (breaker_do op b))"
  by (cases op) (auto simp: breaker_inv_def breaker_ops Let_def split: breaker_state.splits)

definition fresh_breaker :: "breaker \<Rightarrow> bool" where
  "fresh_breaker b \<longleftrightarrow> br_state b = BreakerClosed \<and> br_failures b = 0 \<and> \<not> br_probing b"

lemma fresh_breaker_inv: "fresh_breaker b \<Longrightarrow> breaker_inv b"
  by (simp add: fresh_breaker_def breaker_inv_def)

interpretation brk: step_system fresh_breaker breaker_step breaker_inv
  by unfold_locales (auto simp: breaker_step_def fresh_breaker_inv breaker_do_inv)

lemma breaker_run_Cons:
  "breaker_run (op # ops) b =
     (fst (breaker_do op b) # fst (breaker_run ops (snd (breaker_do op b))),
      snd (breaker_run ops (snd (breaker_do op b))))"
  by (simp add: case_prod_beta)

declare breaker_run.simps(2) [simp del]
declare breaker_run_Cons [simp]

text \<open>One failure of a closed breaker, below the limit and at it.\<close>

lemma Failure_below:
  "br_state b = BreakerClosed \<Longrightarrow> add64 (br_failures b) 1 = k \<Longrightarrow> k < br_max_failures b \<Longrightarrow>
   Failure now b = b\<lparr>br_failures := k\<rparr>"
  by (simp add: Failure_def Let_def)

lemma Failure_at_limit:
  "br_state b = BreakerClosed \<Longrightarrow> add64 (br_failures b) 1 = k \<Longrightarrow> br_max_failures b \<le> k \<Longrightarrow>
   Failure now b = b\<lparr>br_failures := k, br_state := BreakerOpen, br_opened_at := now\<rparr>"
  by (simp add: Failure_def Let_def)

section \<open>Runs\<close>

definition only_allows :: "breaker_op list \<Rightarrow> bool" where
  "only_allows ops \<longleftrightarrow> list_all (\<lambda>op. case op of OpAllow _ \<Rightarrow> True | _ \<Rightarrow> False) ops"

lemma half_open_denies:
  "br_state b = BreakerHalfOpen \<Longrightarrow> only_allows ops \<Longrightarrow>
   breaker_run ops b = (replicate (length ops) False, b)"
  by (induction ops) (auto simp: only_allows_def Allow_def split: breaker_op.splits)

lemma open_one_probe:
  "br_state b = BreakerOpen \<Longrightarrow> only_allows ops \<Longrightarrow>
   length (filter id (fst (breaker_run ops b))) \<le> 1"
proof (induction ops)
  case (Cons op ops)
  obtain now where op: "op = OpAllow now" using Cons.prems(2) by (cases op) (auto simp: only_allows_def)
  have rest: "only_allows ops" using Cons.prems(2) by (simp add: only_allows_def)
  show ?case
  proof (cases "now - br_opened_at b < br_probe_every b")
    case True
    then show ?thesis
      using Cons.IH [OF Cons.prems(1) rest] Cons.prems(1) op by (simp add: Allow_def)
  next
    case False
    let ?b = "b\<lparr>br_state := BreakerHalfOpen, br_probing := True\<rparr>"
    have "breaker_run ops ?b = (replicate (length ops) False, ?b)"
      by (rule half_open_denies) (simp_all add: rest)
    with False show ?thesis using Cons.prems(1) op by (simp add: Allow_def)
  qed
qed simp

text \<open>Consecutive failures of a closed breaker.\<close>

lemma failures_below:
  assumes "br_state b = BreakerClosed" and "0 \<le> br_failures b" and "br_max_failures b < 2 ^ 62"
    and "br_failures b + int n < br_max_failures b"
  shows "br_state ((Failure now ^^ n) b) = BreakerClosed \<and>
         br_failures ((Failure now ^^ n) b) = br_failures b + int n \<and>
         br_max_failures ((Failure now ^^ n) b) = br_max_failures b"
  using assms(4)
proof (induction n)
  case 0
  then show ?case using assms(1) by simp
next
  case (Suc n)
  then have IH: "br_state ((Failure now ^^ n) b) = BreakerClosed"
    "br_failures ((Failure now ^^ n) b) = br_failures b + int n"
    "br_max_failures ((Failure now ^^ n) b) = br_max_failures b" by simp_all
  have "add64 (br_failures b + int n) 1 = br_failures b + int n + 1"
    using assms(2,3) Suc.prems by (intro add64_exact) (simp add: int64_def)
  with IH Suc.prems
  have "Failure now ((Failure now ^^ n) b) = ((Failure now ^^ n) b)\<lparr>br_failures := br_failures b + int n + 1\<rparr>"
    by (intro Failure_below) simp_all
  with IH show ?case by simp
qed

section \<open>Registry\<close>

record registry =
  rg_opts :: "breaker_option list"
  rg_breakers :: "string \<rightharpoonup> breaker"

definition NewRegistry :: "breaker_option list \<Rightarrow> registry" where
  "NewRegistry opts = \<lparr>rg_opts = opts, rg_breakers = Map.empty\<rparr>"

text \<open>
  \<open>For\<close> creates the named breaker on first use; the pointer it returns is the name, so an
  operation on it is an update of that name's entry.
\<close>

definition reg_For :: "string \<Rightarrow> registry \<Rightarrow> registry" where
  "reg_For p r =
     (case rg_breakers r p of
        Some _ \<Rightarrow> r
      | None \<Rightarrow> r\<lparr>rg_breakers := (rg_breakers r)(p \<mapsto> NewBreaker (rg_opts r))\<rparr>)"

definition reg_breaker :: "string \<Rightarrow> registry \<Rightarrow> breaker" where
  "reg_breaker p r =
     (case rg_breakers (reg_For p r) p of Some b \<Rightarrow> b | None \<Rightarrow> NewBreaker (rg_opts r))"

definition reg_do :: "string \<Rightarrow> breaker_op \<Rightarrow> registry \<Rightarrow> bool \<times> registry" where
  "reg_do p op r =
     (case breaker_do op (reg_breaker p r) of (admitted, b) \<Rightarrow>
        (admitted, (reg_For p r)\<lparr>rg_breakers := (rg_breakers (reg_For p r))(p \<mapsto> b)\<rparr>))"

definition reg_States :: "registry \<Rightarrow> string \<rightharpoonup> breaker_state" where
  "reg_States r = (\<lambda>p. map_option br_state (rg_breakers r p))"

lemma reg_breaker_after_do: "reg_breaker p (snd (reg_do p op r)) = snd (breaker_do op (reg_breaker p r))"
  by (simp add: reg_do_def reg_breaker_def reg_For_def split: prod.splits option.splits)

lemma reg_do_other: "q \<noteq> p \<Longrightarrow> reg_breaker q (snd (reg_do p op r)) = reg_breaker q r"
  by (simp add: reg_do_def reg_breaker_def reg_For_def split: prod.splits option.splits)

section \<open>Properties\<close>



text \<open>
  A closed breaker tolerates fewer than its limit of consecutive failures and opens on the
  one that reaches it.
\<close>

theorem breaker_opens_at_limit:
  assumes "fresh_breaker b" and "0 < br_max_failures b" and "br_max_failures b < 2 ^ 62"
  shows "(int n < br_max_failures b \<longrightarrow> br_state ((Failure now ^^ n) b) = BreakerClosed) \<and>
         br_state ((Failure now ^^ nat (br_max_failures b)) b) = BreakerOpen"
proof -
  have b: "br_state b = BreakerClosed" "br_failures b = 0" using assms(1) by (auto simp: fresh_breaker_def)
  let ?m = "nat (br_max_failures b - 1)"
  have m: "nat (br_max_failures b) = Suc ?m" using assms(2) by simp
  have f: "br_state ((Failure now ^^ ?m) b) = BreakerClosed"
    "br_failures ((Failure now ^^ ?m) b) = br_max_failures b - 1"
    "br_max_failures ((Failure now ^^ ?m) b) = br_max_failures b"
    using failures_below [of b ?m now] b assms by auto
  have "add64 (br_max_failures b - 1) 1 = br_max_failures b"
    using assms by (subst add64_exact) (simp_all add: int64_def)
  with f have "Failure now ((Failure now ^^ ?m) b) =
      ((Failure now ^^ ?m) b)\<lparr>br_failures := br_max_failures b, br_state := BreakerOpen, br_opened_at := now\<rparr>"
    by (intro Failure_at_limit) simp_all
  then have "br_state ((Failure now ^^ Suc ?m) b) = BreakerOpen" by simp
  moreover have "int n < br_max_failures b \<longrightarrow> br_state ((Failure now ^^ n) b) = BreakerClosed"
    using failures_below [of b n now] b assms by auto
  ultimately show ?thesis by (simp only: m)
qed

theorem breaker_opens_at_limit_witness:
  "br_state ((Failure 9 ^^ 2) (NewBreaker [])) = BreakerClosed \<and>
   br_state ((Failure 9 ^^ 3) (NewBreaker [])) = BreakerOpen"
proof -
  have h: "fresh_breaker (NewBreaker [])" "0 < br_max_failures (NewBreaker [])"
    "br_max_failures (NewBreaker []) < 2 ^ 62"
    by (simp_all add: NewBreaker_def fresh_breaker_def)
  have "br_max_failures (NewBreaker []) = 3" by (simp add: NewBreaker_def)
  with breaker_opens_at_limit [OF h, of 2 9] show ?thesis by simp
qed

text \<open>
  A probe that never reports blocks its provider for good: once half-open, a breaker that
  sees neither \<open>Success\<close> nor \<open>Failure\<close> refuses every later attempt, however late.
\<close>

theorem breaker_lost_probe_blocks:
  assumes "br_state b = BreakerOpen" and "br_probe_every b \<le> t - br_opened_at b" and "only_allows ops"
  shows "fst (breaker_run (OpAllow t # ops) b) = True # replicate (length ops) False"
proof -
  let ?b = "b\<lparr>br_state := BreakerHalfOpen, br_probing := True\<rparr>"
  have "breaker_run ops ?b = (replicate (length ops) False, ?b)"
    by (rule half_open_denies) (simp_all add: assms(3))
  with assms(1,2) show ?thesis by (simp add: Allow_def)
qed

theorem breaker_lost_probe_blocks_witness:
  "fst (breaker_run [OpAllow 5000000000, OpAllow 999999999999] (Failure 0 (NewBreaker [WithMaxFailures 1])))
   = [True, False]"
  using breaker_lost_probe_blocks [of "Failure 0 (NewBreaker [WithMaxFailures 1])" 5000000000 "[OpAllow 999999999999]"]
  by (simp add: only_allows_def NewBreaker_def WithMaxFailures_def Failure_def add64_def wrap64_def)

text \<open>
  The registry keeps one breaker per provider: an operation through the registry acts on
  the named provider's breaker and leaves every other provider's breaker as it was.
\<close>

theorem registry_isolates_providers:
  "reg_breaker p (snd (reg_do p op r)) = snd (breaker_do op (reg_breaker p r))
   \<and> (q \<noteq> p \<longrightarrow> reg_breaker q (snd (reg_do p op r)) = reg_breaker q r)"
  by (simp add: reg_breaker_after_do reg_do_other)

theorem registry_isolates_providers_witness:
  "reg_breaker ''b'' (snd (reg_do ''a'' (OpFailure 1) (NewRegistry []))) = reg_breaker ''b'' (NewRegistry [])"
  using registry_isolates_providers [of "''a''" "OpFailure 1" "NewRegistry []" "''b''"] by simp

end
