(* ===== verification/Hedge.thy ===== *)
theory Hedge
  imports Breaker
begin

text \<open>
  \<open>internal/degrade/hedge.go\<close>: the race of a primary and a secondary LLM provider. The state holds
  what the main loop of \<open>Complete\<close> owns (how many attempts were launched, the errors seen, the
  result once it returned) and where the two attempt goroutines are: spawned, past their breaker
  and inside the provider, or with a result in the channel. Each select branch and each goroutine
  half is one function; \<open>hedge_do\<close> adds when it can happen, so any interleaving is a list of moves.
  The providers, the clock and the context are the arguments of the moves.
\<close>

definition ErrAllProvidersFailed :: gerr where
  "ErrAllProvidersFailed = Sentinel ''degrade: all providers failed''"

datatype provider = Primary | Secondary

record hedge =
  hg_breakers :: "registry option"
  hg_primary_name :: string
  hg_secondary_name :: string
  hg_after :: int                  \<comment> \<open>when the timer fires, nanoseconds after the start\<close>
  hg_on_hedge :: bool              \<comment> \<open>whether there is a hook\<close>
  hg_launched :: nat
  hg_spawned :: "provider list"
  hg_running :: "provider list"
  hg_results :: "string res list"
  hg_timer :: bool
  hg_secondary_started :: bool
  hg_errs :: "gerr list"
  hg_hooked :: nat
  hg_outcome :: "string res option"

fun hg_name :: "provider \<Rightarrow> hedge \<Rightarrow> string" where
  "hg_name Primary h = hg_primary_name h"
| "hg_name Secondary h = hg_secondary_name h"

datatype hedge_option = WithHedgeAfter int | WithBreakers registry string string | WithOnHedge

fun apply_hedge_option :: "hedge_option \<Rightarrow> hedge \<Rightarrow> hedge" where
  "apply_hedge_option (WithHedgeAfter d) h = h\<lparr>hg_after := d\<rparr>"
| "apply_hedge_option (WithBreakers r pname sname) h =
     h\<lparr>hg_breakers := Some r, hg_primary_name := pname, hg_secondary_name := sname\<rparr>"
| "apply_hedge_option WithOnHedge h = h\<lparr>hg_on_hedge := True\<rparr>"

definition NewHedge :: "hedge_option list \<Rightarrow> hedge" where
  "NewHedge opts = fold apply_hedge_option opts
     \<lparr>hg_breakers = None, hg_primary_name = ''llm-primary'', hg_secondary_name = ''llm-secondary'', hg_after = 700 * 10 ^ 6,
      hg_on_hedge = False, hg_launched = 0, hg_spawned = [], hg_running = [], hg_results = [], hg_timer = False,
      hg_secondary_started = False, hg_errs = [], hg_hooked = 0, hg_outcome = None\<rparr>"

text \<open>Options configure; they do not run.\<close>

lemma apply_hedge_options [simp]:
  "hg_launched (fold apply_hedge_option opts h) = hg_launched h" "hg_spawned (fold apply_hedge_option opts h) = hg_spawned h"
  "hg_running (fold apply_hedge_option opts h) = hg_running h" "hg_results (fold apply_hedge_option opts h) = hg_results h"
  "hg_timer (fold apply_hedge_option opts h) = hg_timer h" "hg_errs (fold apply_hedge_option opts h) = hg_errs h"
  "hg_secondary_started (fold apply_hedge_option opts h) = hg_secondary_started h"
  "hg_outcome (fold apply_hedge_option opts h) = hg_outcome h"
proof -
  have "hg_launched (apply_hedge_option x h) = hg_launched h \<and> hg_spawned (apply_hedge_option x h) = hg_spawned h \<and>
      hg_running (apply_hedge_option x h) = hg_running h \<and> hg_results (apply_hedge_option x h) = hg_results h \<and>
      hg_timer (apply_hedge_option x h) = hg_timer h \<and> hg_errs (apply_hedge_option x h) = hg_errs h \<and>
      hg_secondary_started (apply_hedge_option x h) = hg_secondary_started h \<and>
      hg_outcome (apply_hedge_option x h) = hg_outcome h" for x h by (cases x) simp_all
  then show "hg_launched (fold apply_hedge_option opts h) = hg_launched h" "hg_spawned (fold apply_hedge_option opts h) = hg_spawned h"
    "hg_running (fold apply_hedge_option opts h) = hg_running h" "hg_results (fold apply_hedge_option opts h) = hg_results h"
    "hg_timer (fold apply_hedge_option opts h) = hg_timer h" "hg_errs (fold apply_hedge_option opts h) = hg_errs h"
    "hg_secondary_started (fold apply_hedge_option opts h) = hg_secondary_started h"
    "hg_outcome (fold apply_hedge_option opts h) = hg_outcome h"
    by (induction opts arbitrary: h) simp_all
qed

definition launch :: "provider \<Rightarrow> hedge \<Rightarrow> hedge" where
  "launch p h = h\<lparr>hg_launched := hg_launched h + 1, hg_spawned := hg_spawned h @ [p]\<rparr>"

text \<open>Entry of \<open>Complete\<close>: the primary is launched and the hedge timer armed.\<close>

definition hedge_start :: "hedge \<Rightarrow> hedge" where
  "hedge_start h = (launch Primary h)\<lparr>hg_timer := True\<rparr>"

text \<open>The goroutine up to the provider call: it asks its breaker first.\<close>

definition attempt_begin :: "provider \<Rightarrow> int \<Rightarrow> hedge \<Rightarrow> hedge" where
  "attempt_begin p now h =
     (let h = h\<lparr>hg_spawned := remove1 p (hg_spawned h)\<rparr> in
      case hg_breakers h of
        None \<Rightarrow> h\<lparr>hg_running := hg_running h @ [p]\<rparr>
      | Some r \<Rightarrow>
          (case reg_do (hg_name p h) (OpAllow now) r of (admitted, r') \<Rightarrow>
             if admitted then h\<lparr>hg_breakers := Some r', hg_running := hg_running h @ [p]\<rparr>
             else h\<lparr>hg_breakers := Some r',
                    hg_results := hg_results h @ [Inl (Errf ''degrade: breaker open for %s'' [FS (hg_name p h)])]\<rparr>))"

text \<open>The goroutine after the provider answered: success or failure goes to the breaker, a
  cancellation goes nowhere.\<close>

definition report :: "string \<Rightarrow> int \<Rightarrow> string res \<Rightarrow> registry \<Rightarrow> registry" where
  "report name now r reg =
     (case r of
        Inr _ \<Rightarrow> snd (reg_do name OpSuccess reg)
      | Inl e \<Rightarrow> if \<not> is_err CtxCanceled e then snd (reg_do name (OpFailure now) reg) else reg)"

definition attempt_end :: "provider \<Rightarrow> int \<Rightarrow> string res \<Rightarrow> hedge \<Rightarrow> hedge" where
  "attempt_end p now r h =
     h\<lparr>hg_running := remove1 p (hg_running h),
       hg_breakers := map_option (report (hg_name p h) now r) (hg_breakers h),
       hg_results := hg_results h @ [r]\<rparr>"

definition on_timer :: "hedge \<Rightarrow> hedge" where
  "on_timer h0 =
     (let h = h0\<lparr>hg_timer := False\<rparr> in
      if \<not> hg_secondary_started h
      then launch Secondary (h\<lparr>hg_secondary_started := True, hg_hooked := hg_hooked h + (if hg_on_hedge h then 1 else 0)\<rparr>)
      else h)"

definition on_result :: "string res \<Rightarrow> hedge \<Rightarrow> hedge" where
  "on_result r h =
     (case r of
        Inr text \<Rightarrow> h\<lparr>hg_outcome := Some (Inr text)\<rparr>
      | Inl e \<Rightarrow>
          let h = h\<lparr>hg_errs := hg_errs h @ [e]\<rparr> in
          if \<not> hg_secondary_started h then launch Secondary (h\<lparr>hg_secondary_started := True\<rparr>)
          else if length (hg_errs h) = hg_launched h
          then h\<lparr>hg_outcome := Some (Inl (Wrap2 ErrAllProvidersFailed (Joined (hg_errs h))))\<rparr>
          else h)"

datatype hedge_move =
    MvBegin provider int
  | MvEnd provider int "string res"
  | MvTimer
  | MvResult
  | MvCtxDone

fun hedge_do :: "hedge_move \<Rightarrow> hedge \<Rightarrow> hedge option" where
  "hedge_do (MvBegin p now) h = (if p \<in> set (hg_spawned h) then Some (attempt_begin p now h) else None)"
| "hedge_do (MvEnd p now r) h = (if p \<in> set (hg_running h) then Some (attempt_end p now r h) else None)"
| "hedge_do MvTimer h = (if hg_outcome h = None \<and> hg_timer h then Some (on_timer h) else None)"
| "hedge_do MvResult h =
     (case hg_results h of
        r # rs \<Rightarrow> if hg_outcome h = None then Some (on_result r (h\<lparr>hg_results := rs\<rparr>)) else None
      | [] \<Rightarrow> None)"
| "hedge_do MvCtxDone h =
     (if hg_outcome h = None then Some (h\<lparr>hg_outcome := Some (Inl (Sentinel CtxCanceled))\<rparr>) else None)"

definition hedge_step :: "hedge \<Rightarrow> hedge \<Rightarrow> bool" where
  "hedge_step h h' \<longleftrightarrow> (\<exists>m. hedge_do m h = Some h')"

fun hedge_run :: "hedge_move list \<Rightarrow> hedge \<Rightarrow> hedge option" where
  "hedge_run [] h = Some h"
| "hedge_run (m # ms) h = (case hedge_do m h of None \<Rightarrow> None | Some h' \<Rightarrow> hedge_run ms h')"

section \<open>Accounting of attempts\<close>

definition outstanding :: "hedge \<Rightarrow> nat" where
  "outstanding h = length (hg_spawned h) + length (hg_running h) + length (hg_results h)"

definition won :: "hedge \<Rightarrow> nat" where
  "won h = (case hg_outcome h of Some (Inr _) \<Rightarrow> 1 | _ \<Rightarrow> 0)"

definition all_failed :: "hedge \<Rightarrow> bool" where
  "all_failed h \<longleftrightarrow> (\<exists>es. hg_outcome h = Some (Inl (Wrap2 ErrAllProvidersFailed es)))"

definition hedge_inv :: "hedge \<Rightarrow> bool" where
  "hedge_inv h \<longleftrightarrow>
     hg_launched h = (if hg_secondary_started h then 2 else 1) \<and>
     outstanding h + length (hg_errs h) + won h = hg_launched h \<and>
     (hg_errs h \<noteq> [] \<longrightarrow> hg_secondary_started h) \<and>
     (hg_outcome h = None \<longrightarrow> length (hg_errs h) < hg_launched h) \<and>
     (all_failed h \<longrightarrow> length (hg_errs h) = 2)"

definition hedge_initial :: "hedge \<Rightarrow> bool" where
  "hedge_initial h \<longleftrightarrow> (\<exists>opts. h = hedge_start (NewHedge opts))"

lemmas hedge_acct = hedge_inv_def outstanding_def won_def all_failed_def

lemma attempt_begin_counts:
  assumes "p \<in> set (hg_spawned h)"
  shows "outstanding (attempt_begin p now h) = outstanding h"
    and "hg_launched (attempt_begin p now h) = hg_launched h"
    and "hg_errs (attempt_begin p now h) = hg_errs h"
    and "hg_outcome (attempt_begin p now h) = hg_outcome h"
    and "hg_secondary_started (attempt_begin p now h) = hg_secondary_started h"
  using assms length_pos_if_in_set [OF assms]
  by (auto simp: attempt_begin_def outstanding_def Let_def length_remove1 split: option.splits prod.splits)

lemma attempt_end_counts:
  assumes "p \<in> set (hg_running h)"
  shows "outstanding (attempt_end p now r h) = outstanding h"
    and "hg_launched (attempt_end p now r h) = hg_launched h"
    and "hg_errs (attempt_end p now r h) = hg_errs h"
    and "hg_outcome (attempt_end p now r h) = hg_outcome h"
    and "hg_secondary_started (attempt_end p now r h) = hg_secondary_started h"
  using assms length_pos_if_in_set [OF assms]
  by (auto simp: attempt_end_def outstanding_def length_remove1)

lemma on_timer_inv: "hedge_inv h \<Longrightarrow> hg_outcome h = None \<Longrightarrow> hedge_inv (on_timer h)"
  by (auto simp: hedge_acct on_timer_def launch_def Let_def)

lemma on_result_inv:
  assumes "hedge_inv h" and "hg_outcome h = None" and "hg_results h = r # rs"
  shows "hedge_inv (on_result r (h\<lparr>hg_results := rs\<rparr>))"
proof (cases r)
  case (Inl e)
  show ?thesis
  proof (cases "hg_secondary_started h")
    case True
    with assms Inl show ?thesis
      by (cases "hg_errs h") (auto simp: hedge_acct on_result_def Let_def)
  next
    case False
    with assms Inl show ?thesis by (auto simp: hedge_acct on_result_def launch_def Let_def)
  qed
next
  case (Inr t)
  with assms show ?thesis by (auto simp: hedge_acct on_result_def)
qed

lemma hedge_do_inv [fd_inv]: "hedge_inv h \<Longrightarrow> hedge_do m h = Some h' \<Longrightarrow> hedge_inv h'"
proof (cases m)
  case (MvBegin p now)
  then show "hedge_inv h \<Longrightarrow> hedge_do m h = Some h' \<Longrightarrow> ?thesis"
    using attempt_begin_counts [of p h now]
    by (auto simp: hedge_inv_def won_def all_failed_def split: if_splits)
next
  case (MvEnd p now r)
  then show "hedge_inv h \<Longrightarrow> hedge_do m h = Some h' \<Longrightarrow> ?thesis"
    using attempt_end_counts [of p h now r]
    by (auto simp: hedge_inv_def won_def all_failed_def split: if_splits)
next
  case MvTimer
  then show "hedge_inv h \<Longrightarrow> hedge_do m h = Some h' \<Longrightarrow> ?thesis"
    by (auto simp: on_timer_inv split: if_splits)
next
  case MvResult
  then show "hedge_inv h \<Longrightarrow> hedge_do m h = Some h' \<Longrightarrow> ?thesis"
    by (auto simp: on_result_inv split: if_splits list.splits)
next
  case MvCtxDone
  then show "hedge_inv h \<Longrightarrow> hedge_do m h = Some h' \<Longrightarrow> ?thesis"
    by (auto simp: hedge_acct split: if_splits)
qed

lemma hedge_initial_inv: "hedge_initial h \<Longrightarrow> hedge_inv h"
  by (auto simp: hedge_initial_def hedge_start_def launch_def NewHedge_def hedge_acct)

text \<open>The moves a race has left: each attempt begins, ends and is read; the timer and the outcome happen once.\<close>

definition hedge_mu :: "hedge \<Rightarrow> nat" where
  "hedge_mu h = 4 * (2 - hg_launched h) + 3 * length (hg_spawned h) + 2 * length (hg_running h) + length (hg_results h) +
     (if hg_timer h then 1 else 0) + (if hg_outcome h = None then 1 else 0)"

lemma removed: "p \<in> set ps \<Longrightarrow> Suc (length (remove1 p ps)) = length ps"
  using length_pos_if_in_set [of p ps] by (simp add: length_remove1)

lemma hedge_mu_step:
  assumes "hedge_inv h" and "hedge_step h h'"
  shows "hedge_mu h' < hedge_mu h"
proof -
  obtain mv where mv: "hedge_do mv h = Some h'" using assms(2) by (auto simp: hedge_step_def)
  have l: "hg_launched h = (if hg_secondary_started h then 2 else 1)" using assms(1) by (simp add: hedge_inv_def)
  show ?thesis
  proof (cases mv)
    case (MvBegin p now)
    with mv removed [of p "hg_spawned h"] show ?thesis
      by (auto simp: hedge_mu_def attempt_begin_def Let_def split: if_splits option.splits prod.splits)
  next
    case (MvEnd p now r)
    with mv removed [of p "hg_running h"] show ?thesis by (auto simp: hedge_mu_def attempt_end_def split: if_splits)
  next
    case MvTimer
    with mv l show ?thesis by (auto simp: hedge_mu_def on_timer_def launch_def Let_def split: if_splits)
  next
    case MvResult
    then obtain r rs where r: "hg_results h = r # rs" "hg_outcome h = None" "h' = on_result r (h\<lparr>hg_results := rs\<rparr>)"
      using mv by (auto split: list.splits if_splits)
    with l show ?thesis
      by (cases r) (auto simp: hedge_mu_def on_result_def launch_def Let_def)
  next
    case MvCtxDone
    with mv show ?thesis by (auto simp: hedge_mu_def split: if_splits)
  qed
qed

interpretation hdg: winding_system hedge_initial hedge_step hedge_inv hedge_mu
  by unfold_locales (auto simp: hedge_step_def hedge_initial_inv hedge_mu_step intro: hedge_do_inv)

lemma hedge_run_steps: "hedge_run ms h = Some h' \<Longrightarrow> (hedge_step ^^ length ms) h h'"
proof (induction ms arbitrary: h)
  case (Cons m ms)
  then obtain g where g: "hedge_do m h = Some g" "hedge_run ms g = Some h'" by (auto split: option.splits)
  then have "hedge_step h g" by (auto simp: hedge_step_def)
  from relpowp_Suc_I2 [OF this Cons.IH [OF g(2)]] show ?case by simp
qed simp

lemma hedge_run_run_of: "hedge_run ms h = Some h' \<Longrightarrow> run_of hedge_step h0 h \<Longrightarrow> run_of hedge_step h0 h'"
proof (induction ms arbitrary: h)
  case (Cons m ms)
  then obtain g where g: "hedge_do m h = Some g" "hedge_run ms g = Some h'" by (auto split: option.splits)
  then have "run_of hedge_step h0 g" using Cons.prems(2) run_step by (fastforce simp: hedge_step_def)
  with g(2) show ?case by (rule Cons.IH)
qed simp

section \<open>Properties\<close>

text \<open>
  C5: while the race has no result an attempt is still on its way (spawned, inside its provider
  or with its result in the channel), and once one attempt failed the secondary has been launched:
  the caller never waits for nothing, and never waits out the hedge timer after a failure. The
  results channel never holds more than the two results it has room for.
\<close>

theorem hedge_never_stuck:
  assumes "hedge_initial h0" and "run_of hedge_step h0 h"
  shows "(hg_outcome h = None \<longrightarrow> hg_spawned h \<noteq> [] \<or> hg_running h \<noteq> [] \<or> hg_results h \<noteq> [])
         \<and> (hg_errs h \<noteq> [] \<longrightarrow> hg_secondary_started h) \<and> length (hg_results h) \<le> 2"
proof -
  have "hedge_inv h" using assms by (rule hdg.inv_reachable)
  then show ?thesis by (auto simp: hedge_acct split: if_splits)
qed

theorem hedge_never_stuck_witness:
  "\<exists>h. hedge_run [MvBegin Primary 0, MvEnd Primary 1 (Inl (Errf ''boom'' [])), MvResult]
          (hedge_start (NewHedge [])) = Some h \<and> hg_spawned h = [Secondary] \<and>
       (hg_spawned h \<noteq> [] \<or> hg_running h \<noteq> [] \<or> hg_results h \<noteq> [])"
proof -
  let ?h0 = "hedge_start (NewHedge [])"
  let ?ms = "[MvBegin Primary 0, MvEnd Primary 1 (Inl (Errf ''boom'' [])), MvResult]"
  obtain h where h: "hedge_run ?ms ?h0 = Some h" "hg_outcome h = None" "hg_spawned h = [Secondary]"
    by (simp add: hedge_start_def launch_def NewHedge_def attempt_begin_def attempt_end_def on_result_def)
  have "hedge_initial ?h0" by (auto simp: hedge_initial_def)
  moreover have "run_of hedge_step ?h0 h" using h(1) run_refl by (rule hedge_run_run_of)
  ultimately show ?thesis using hedge_never_stuck [of ?h0 h] h by blast
qed

text \<open>
  The race gives up with \<open>ErrAllProvidersFailed\<close> only when both providers were launched
  and both failed; no attempt is left running then.
\<close>

theorem hedge_gives_up_after_both:
  assumes "hedge_initial h0" and "run_of hedge_step h0 h" and "all_failed h"
  shows "hg_launched h = 2 \<and> length (hg_errs h) = 2 \<and> outstanding h = 0"
proof -
  have "hedge_inv h" using assms(1,2) by (rule hdg.inv_reachable)
  with assms(3) show ?thesis by (auto simp: hedge_inv_def split: if_splits)
qed

definition both_fail :: "hedge_move list" where
  "both_fail =
     [MvBegin Primary 0, MvTimer, MvBegin Secondary 1, MvEnd Secondary 2 (Inl (Errf ''b'' [])),
      MvEnd Primary 3 (Inl (Errf ''a'' [])), MvResult, MvResult]"

theorem hedge_gives_up_after_both_witness:
  "\<exists>h. hedge_run both_fail (hedge_start (NewHedge [])) = Some h \<and> all_failed h \<and> outstanding h = 0"
proof -
  let ?h0 = "hedge_start (NewHedge [])"
  obtain h where h: "hedge_run both_fail ?h0 = Some h" "all_failed h"
    by (simp add: both_fail_def hedge_start_def launch_def NewHedge_def attempt_begin_def attempt_end_def
        on_result_def on_timer_def all_failed_def)
  have "hedge_initial ?h0" by (auto simp: hedge_initial_def)
  moreover have "run_of hedge_step ?h0 h" using h(1) run_refl by (rule hedge_run_run_of)
  ultimately show ?thesis using hedge_gives_up_after_both [of ?h0 h] h by blast
qed

text \<open>
  C40: every race ends. Whatever the providers, the clock and the goroutines do, and in whatever order, a race makes at
  most nine moves; and when nothing can move but the caller's cancellation, the race has its result and both
  goroutines are gone.
\<close>

theorem hedge_always_finishes:
  assumes "hedge_initial h0" and "hedge_run ms h0 = Some h"
  shows "length ms \<le> 9 \<and>
     ((\<forall>mv. mv \<noteq> MvCtxDone \<longrightarrow> hedge_do mv h = None) \<longrightarrow>
        hg_outcome h \<noteq> None \<and> hg_spawned h = [] \<and> hg_running h = [])"
proof -
  have "hedge_mu h0 = 9" using assms(1)
    by (auto simp: hedge_initial_def hedge_start_def launch_def NewHedge_def hedge_mu_def)
  moreover have "length ms \<le> hedge_mu h0" by (rule hdg.steps_bounded [OF assms(1) hedge_run_steps [OF assms(2)]])
  moreover have i: "hedge_inv h" by (rule hdg.inv_reachable [OF assms(1) hedge_run_run_of [OF assms(2) run_refl]])
  moreover have "hg_outcome h \<noteq> None \<and> hg_spawned h = [] \<and> hg_running h = []"
    if quiet: "\<forall>mv. mv \<noteq> MvCtxDone \<longrightarrow> hedge_do mv h = None"
  proof -
    have "hg_spawned h = []" using quiet [rule_format, of "MvBegin (hd (hg_spawned h)) 0"] by (cases "hg_spawned h") auto
    moreover have "hg_running h = []" using quiet [rule_format, of "MvEnd (hd (hg_running h)) 0 (Inr [])"] by (cases "hg_running h") auto
    moreover have "hg_results h = [] \<or> hg_outcome h \<noteq> None"
      using quiet [rule_format, of MvResult] by (auto split: list.splits if_splits)
    ultimately show ?thesis using i by (auto simp: hedge_acct split: if_splits)
  qed
  ultimately show ?thesis by simp
qed

theorem hedge_always_finishes_witness:
  "\<exists>h. hedge_run both_fail (hedge_start (NewHedge [])) = Some h \<and> length both_fail \<le> 9 \<and>
     hg_outcome h \<noteq> None \<and> hg_spawned h = [] \<and> hg_running h = []"
proof -
  let ?h0 = "hedge_start (NewHedge [])"
  obtain h where h: "hedge_run both_fail ?h0 = Some h" "hg_spawned h = []" "hg_running h = []" "hg_results h = []" "\<not> hg_timer h"
    by (simp add: both_fail_def hedge_start_def launch_def NewHedge_def attempt_begin_def attempt_end_def
        on_result_def on_timer_def)
  have "hedge_initial ?h0" by (auto simp: hedge_initial_def)
  moreover have "\<forall>mv. mv \<noteq> MvCtxDone \<longrightarrow> hedge_do mv h = None"
  proof (intro allI impI)
    fix mv assume "mv \<noteq> MvCtxDone"
    then show "hedge_do mv h = None" using h by (cases mv) simp_all
  qed
  ultimately show ?thesis using hedge_always_finishes [of ?h0 both_fail h] h by blast
qed

text \<open>
  A probe that loses the race is cancelled without a report, so its breaker stays half-open
  and refuses every later attempt on that provider: a recovered primary is never used again.
\<close>

theorem hedge_cancelled_probe_blocks_provider:
  assumes "hg_breakers h = Some r" and "br_state (reg_breaker (hg_name p h) r) = BreakerHalfOpen"
    and "is_err CtxCanceled e" and "only_allows ops"
  shows "\<exists>r'. hg_breakers (attempt_end p now (Inl e) h) = Some r' \<and>
              fst (breaker_run ops (reg_breaker (hg_name p h) r')) = replicate (length ops) False"
  using assms half_open_denies [OF assms(2,4)] by (simp add: attempt_end_def report_def)

definition lost_probe_registry :: registry where
  "lost_probe_registry = snd (reg_do ''p'' (OpFailure 0) (NewRegistry [WithMaxFailures 1]))"

definition lost_probe :: "hedge_move list" where
  "lost_probe = [MvBegin Primary 6000000000, MvTimer, MvBegin Secondary 6700000000,
                 MvEnd Secondary 6900000000 (Inr ''hello''), MvResult]"

theorem hedge_cancelled_probe_blocks_provider_witness:
  "\<exists>h r'. hedge_run lost_probe (hedge_start (NewHedge [WithBreakers lost_probe_registry ''p'' ''s''])) = Some h \<and>
      hg_outcome h = Some (Inr ''hello'') \<and> hg_running h = [Primary] \<and>
      hg_breakers (attempt_end Primary 7000000000 (Inl (Sentinel CtxCanceled)) h) = Some r' \<and>
      fst (breaker_run [OpAllow 99000000000] (reg_breaker ''p'' r')) = [False]"
proof -
  let ?h0 = "hedge_start (NewHedge [WithBreakers lost_probe_registry ''p'' ''s''])"
  obtain h r where h: "hedge_run lost_probe ?h0 = Some h" "hg_outcome h = Some (Inr ''hello'')"
    "hg_running h = [Primary]" "hg_breakers h = Some r" "hg_primary_name h = ''p''"
    "br_state (reg_breaker ''p'' r) = BreakerHalfOpen"
    by (simp add: lost_probe_def lost_probe_registry_def hedge_start_def launch_def NewHedge_def
        attempt_begin_def attempt_end_def on_result_def on_timer_def report_def reg_do_def reg_For_def
        reg_breaker_def NewRegistry_def NewBreaker_def WithMaxFailures_def Allow_def Success_def
        Failure_def add64_def wrap64_def)
  have "only_allows [OpAllow 99000000000]" by (simp add: only_allows_def)
  moreover have "is_err CtxCanceled (Sentinel CtxCanceled)" by simp
  ultimately show ?thesis
    using hedge_cancelled_probe_blocks_provider
      [of h r Primary "Sentinel CtxCanceled" "[OpAllow 99000000000]" 7000000000] h by auto
qed

end
