(* ===== verification/SttRing.thy ===== *)
theory SttRing
  imports FD_Prelude
begin

text \<open>
  \<open>internal/degrade/sttring.go\<close>: the ring buffer in front of the speech recogniser. The
  recogniser connections are outside the program, so what they answer is a parameter: whether the
  \<open>n\<close>-th dial succeeds, whether the \<open>n\<close>-th frame sent is accepted, whether the \<open>n\<close>-th sleep
  runs to its end. The state counts these calls and records, beside the fields of \<open>STTRing\<close>, the
  frames the connections accepted, in order, and the waits that were slept.
\<close>

definition ErrSTTUnavailable :: gerr where
  "ErrSTTUnavailable = Sentinel ''degrade: stt unavailable after reconnects and fallback''"

definition sttReconnectDelays :: "int list" where
  "sttReconnectDelays = [0, 80, 200]"

record stt_world =
  w_dial :: "nat \<Rightarrow> nat \<Rightarrow> gerr option"     \<comment> \<open>provider, number of the dial\<close>
  w_send :: "nat \<Rightarrow> gerr option"              \<comment> \<open>number of the send\<close>
  w_sleep :: "nat \<Rightarrow> gerr option"             \<comment> \<open>number of the sleep\<close>

record 'f stt_ring =
  sr_factories :: nat
  sr_capacity :: int
  sr_conn :: "nat option"
  sr_buf :: "'f list"
  sr_reconnect :: nat
  sr_sends :: nat
  sr_accepted :: "'f list"
  sr_slept :: "int list"
  sr_closed :: "nat list"

definition WithRingCapacity :: "int \<Rightarrow> 'f stt_ring \<Rightarrow> 'f stt_ring" where
  "WithRingCapacity frames r = r\<lparr>sr_capacity := frames\<rparr>"

definition NewSTTRing :: "nat \<Rightarrow> ('f stt_ring \<Rightarrow> 'f stt_ring) list \<Rightarrow> 'f stt_ring" where
  "NewSTTRing factories opts = fold id opts
     \<lparr>sr_factories = factories, sr_capacity = 500, sr_conn = None, sr_buf = [], sr_reconnect = 0,
      sr_sends = 0, sr_accepted = [], sr_slept = [], sr_closed = []\<rparr>"

text \<open>\<open>push\<close>: evict the oldest frame of a full ring; slicing an empty ring panics (\<open>None\<close>).\<close>

definition ring_push :: "'f \<Rightarrow> 'f stt_ring \<Rightarrow> 'f stt_ring option" where
  "ring_push f r =
     (if sr_capacity r \<le> int (length (sr_buf r))
      then (case sr_buf r of [] \<Rightarrow> None | _ # b \<Rightarrow> Some (r\<lparr>sr_buf := b @ [f]\<rparr>))
      else Some (r\<lparr>sr_buf := sr_buf r @ [f]\<rparr>))"

text \<open>\<open>flush\<close>: deliver in order; a refused frame and those behind it stay.\<close>

fun flush_loop :: "stt_world \<Rightarrow> nat \<Rightarrow> 'f list \<Rightarrow> 'f list \<times> 'f list \<times> nat \<times> gerr option" where
  "flush_loop w n [] = ([], [], n, None)"
| "flush_loop w n (f # fs) =
     (case w_send w n of
        Some e \<Rightarrow> ([], f # fs, Suc n, Some e)
      | None \<Rightarrow> (case flush_loop w (Suc n) fs of (acc, rest, n', e) \<Rightarrow> (f # acc, rest, n', e)))"

definition ring_flush :: "stt_world \<Rightarrow> 'f stt_ring \<Rightarrow> gerr option \<times> 'f stt_ring" where
  "ring_flush w r =
     (case flush_loop w (sr_sends r) (sr_buf r) of (acc, rest, n, e) \<Rightarrow>
        (e, r\<lparr>sr_buf := rest, sr_sends := n, sr_accepted := sr_accepted r @ acc\<rparr>))"

definition drop_conn :: "'f stt_ring \<Rightarrow> 'f stt_ring" where
  "drop_conn r =
     (case sr_conn r of None \<Rightarrow> r | Some c \<Rightarrow> r\<lparr>sr_conn := None, sr_closed := sr_closed r @ [c]\<rparr>)"

text \<open>\<open>dial\<close>: the nested loops over providers and the fixed schedule, as one list of attempts.\<close>

definition dial_plan :: "nat \<Rightarrow> (nat \<times> int) list" where
  "dial_plan n = concat (map (\<lambda>f. map (\<lambda>d. (f, d)) sttReconnectDelays) [0..<n])"

fun dial_loop :: "stt_world \<Rightarrow> (nat \<times> int) list \<Rightarrow> gerr list \<Rightarrow> 'f stt_ring \<Rightarrow> gerr option \<times> 'f stt_ring" where
  "dial_loop w [] errs r = (Some (Wrap2 ErrSTTUnavailable (Joined errs)), r)"
| "dial_loop w ((fac, delay) # ps) errs r =
     (case (if 0 < delay then w_sleep w (length (sr_slept r)) else None) of
        Some e \<Rightarrow> (Some e, r\<lparr>sr_slept := sr_slept r @ [delay]\<rparr>)
      | None \<Rightarrow>
          let r = (if 0 < delay then r\<lparr>sr_slept := sr_slept r @ [delay]\<rparr> else r);
              k = sr_reconnect r;
              r = r\<lparr>sr_reconnect := Suc k\<rparr> in
          (case w_dial w fac k of
             None \<Rightarrow> (None, r\<lparr>sr_conn := Some k\<rparr>)
           | Some e \<Rightarrow> dial_loop w ps (errs @ [e]) r))"

definition ring_dial :: "stt_world \<Rightarrow> 'f stt_ring \<Rightarrow> gerr option \<times> 'f stt_ring" where
  "ring_dial w r = dial_loop w (dial_plan (sr_factories r)) [] r"

text \<open>\<open>Send\<close> after the push: connect if needed, deliver the backlog, reconnect once and replay.\<close>

definition ring_replay :: "stt_world \<Rightarrow> 'f stt_ring \<Rightarrow> gerr option \<times> 'f stt_ring" where
  "ring_replay w r =
     (case ring_dial w (drop_conn r) of
        (Some e, r) \<Rightarrow> (Some e, r)
      | (None, r) \<Rightarrow>
          (case ring_flush w r of
             (Some e, r) \<Rightarrow> (Some (Wrap2 ErrSTTUnavailable (Wrap ''replay failed: %w'' [] e)), drop_conn r)
           | (None, r) \<Rightarrow> (None, r)))"

definition ring_deliver :: "stt_world \<Rightarrow> 'f stt_ring \<Rightarrow> gerr option \<times> 'f stt_ring" where
  "ring_deliver w r =
     (case ring_flush w r of
        (None, r) \<Rightarrow> (None, r)
      | (Some _, r) \<Rightarrow> ring_replay w r)"

definition ring_Send :: "stt_world \<Rightarrow> 'f \<Rightarrow> 'f stt_ring \<Rightarrow> (gerr option \<times> 'f stt_ring) option" where
  "ring_Send w f r =
     (case ring_push f r of
        None \<Rightarrow> None
      | Some r \<Rightarrow>
          Some (if sr_conn r = None
                then (case ring_dial w r of
                        (Some e, r) \<Rightarrow> (Some e, r)
                      | (None, r) \<Rightarrow> ring_deliver w r)
                else ring_deliver w r))"

definition ring_Close :: "'f stt_ring \<Rightarrow> 'f stt_ring" where
  "ring_Close r = drop_conn r"

definition ring_Reconnects :: "'f stt_ring \<Rightarrow> nat" where "ring_Reconnects r = sr_reconnect r"
definition ring_Buffered :: "'f stt_ring \<Rightarrow> nat" where "ring_Buffered r = length (sr_buf r)"

section \<open>Frames are delivered or kept\<close>

text \<open>The frames in order: those some connection accepted, then those still in the ring.\<close>

definition ring_line :: "'f stt_ring \<Rightarrow> 'f list" where
  "ring_line r = sr_accepted r @ sr_buf r"

lemma flush_loop_split:
  "flush_loop w n fs = (acc, rest, n', e) \<Longrightarrow> acc @ rest = fs \<and> (e = None \<longleftrightarrow> rest = [])"
  by (induction w n fs arbitrary: acc rest n' e rule: flush_loop.induct)
    (auto split: option.splits prod.splits)

lemma ring_flush_line:
  assumes "ring_flush w r = (e, r')"
  shows "ring_line r' = ring_line r" and "e = None \<longleftrightarrow> sr_buf r' = []" and "sr_capacity r' = sr_capacity r"
    and "length (sr_buf r') \<le> length (sr_buf r)"
proof -
  obtain acc rest n e' where fl: "flush_loop w (sr_sends r) (sr_buf r) = (acc, rest, n, e')"
    by (metis prod_cases4)
  with flush_loop_split [OF fl] assms
  show "ring_line r' = ring_line r" "e = None \<longleftrightarrow> sr_buf r' = []" "sr_capacity r' = sr_capacity r"
    by (auto simp: ring_flush_def ring_line_def)
  show "length (sr_buf r') \<le> length (sr_buf r)"
  proof -
    have "length acc + length rest = length (sr_buf r)"
      using flush_loop_split [OF fl] by (metis length_append)
    with fl assms show ?thesis by (auto simp: ring_flush_def)
  qed
qed

lemma drop_conn_line [simp]:
  "ring_line (drop_conn r) = ring_line r" "sr_buf (drop_conn r) = sr_buf r"
  "sr_capacity (drop_conn r) = sr_capacity r" "sr_reconnect (drop_conn r) = sr_reconnect r"
  "sr_factories (drop_conn r) = sr_factories r" "sr_slept (drop_conn r) = sr_slept r"
  by (simp_all add: drop_conn_def ring_line_def split: option.splits)

text \<open>
  A dial never touches the frames; it makes at most the planned dials and sleeps only planned waits.
\<close>

definition dial_effect :: "(nat \<times> int) list \<Rightarrow> 'f stt_ring \<Rightarrow> 'f stt_ring \<Rightarrow> bool" where
  "dial_effect ps r r' \<longleftrightarrow>
     ring_line r' = ring_line r \<and> sr_buf r' = sr_buf r \<and> sr_capacity r' = sr_capacity r \<and>
     sr_factories r' = sr_factories r \<and> sr_reconnect r' \<le> sr_reconnect r + length ps \<and>
     (\<exists>ds. sr_slept r' = sr_slept r @ ds \<and> sum_list ds \<le> sum_list (map snd ps) \<and> set ds \<subseteq> snd ` set ps)"

lemma dial_loop_effect:
  "dial_loop w ps errs r = (e, r') \<Longrightarrow> \<forall>p \<in> set ps. 0 \<le> snd p \<Longrightarrow> dial_effect ps r r'"
proof (induction ps arbitrary: errs r)
  case Nil
  then show ?case by (simp add: dial_effect_def)
next
  case (Cons p ps)
  obtain fac d where p: "p = (fac, d)" by (cases p)
  have nn: "0 \<le> d" "0 \<le> sum_list (map snd ps)"
    using Cons.prems(2) p by (auto intro!: sum_list_nonneg)
  let ?sl = "if 0 < d then w_sleep w (length (sr_slept r)) else None"
  let ?r1 = "if 0 < d then r\<lparr>sr_slept := sr_slept r @ [d]\<rparr> else r"
  let ?r2 = "?r1\<lparr>sr_reconnect := Suc (sr_reconnect ?r1)\<rparr>"
  show ?case
  proof (cases ?sl)
    case (Some x)
    with Cons.prems(1) p have "r' = r\<lparr>sr_slept := sr_slept r @ [d]\<rparr>" by simp
    with p nn show ?thesis by (simp add: dial_effect_def ring_line_def)
  next
    case sl: None
    show ?thesis
    proof (cases "w_dial w fac (sr_reconnect ?r1)")
      case None
      with Cons.prems(1) p sl have "r' = ?r2\<lparr>sr_conn := Some (sr_reconnect ?r1)\<rparr>"
        by (simp add: Let_def)
      with p nn show ?thesis by (simp add: dial_effect_def ring_line_def)
    next
      case (Some x)
      with Cons.prems(1) p sl have "dial_loop w ps (errs @ [x]) ?r2 = (e, r')" by (simp add: Let_def)
      with Cons.IH Cons.prems(2) have IH: "dial_effect ps ?r2 r'" by simp
      then obtain ds where "sr_slept r' = sr_slept ?r2 @ ds" "sum_list ds \<le> sum_list (map snd ps)"
        "set ds \<subseteq> snd ` set ps" by (auto simp: dial_effect_def)
      moreover from this have "\<exists>ds'. sr_slept r' = sr_slept r @ ds' \<and>
          sum_list ds' \<le> d + sum_list (map snd ps) \<and> set ds' \<subseteq> insert d (snd ` set ps)"
        using nn by (intro exI [of _ "if 0 < d then d # ds else ds"]) auto
      moreover have "ring_line ?r2 = ring_line r" by (simp add: ring_line_def)
      ultimately show ?thesis using IH p by (simp add: dial_effect_def split: if_splits)
    qed
  qed
qed

lemma dial_plan_facts:
  "length (dial_plan n) = 3 * n" "sum_list (map snd (dial_plan n)) = 280 * int n"
  "set (map snd (dial_plan n)) \<subseteq> {0, 80, 200}" "\<forall>p \<in> set (dial_plan n). 0 \<le> snd p"
  by (induction n) (auto simp: dial_plan_def sttReconnectDelays_def)

lemma ring_dial_effect: "ring_dial w r = (e, r') \<Longrightarrow> dial_effect (dial_plan (sr_factories r)) r r'"
  unfolding ring_dial_def by (rule dial_loop_effect) (simp_all add: dial_plan_facts)

lemma ring_dial_frame:
  "ring_dial w r = (e, r') \<Longrightarrow>
   ring_line r' = ring_line r \<and> sr_buf r' = sr_buf r \<and> sr_capacity r' = sr_capacity r"
  by (drule ring_dial_effect) (simp add: dial_effect_def)

definition same_line :: "'f stt_ring \<Rightarrow> gerr option \<times> 'f stt_ring \<Rightarrow> bool" where
  "same_line r p \<longleftrightarrow> ring_line (snd p) = ring_line r \<and> length (sr_buf (snd p)) \<le> length (sr_buf r)
     \<and> sr_capacity (snd p) = sr_capacity r \<and> (fst p = None \<longrightarrow> sr_buf (snd p) = [])"

lemma ring_replay_line: "same_line r (ring_replay w r)"
proof -
  obtain e1 r1 where d: "ring_dial w (drop_conn r) = (e1, r1)" by fastforce
  obtain e2 r2 where f: "ring_flush w r1 = (e2, r2)" by fastforce
  show ?thesis
    using ring_dial_frame [OF d] ring_flush_line [OF f] d f
    by (cases e1; cases e2) (auto simp: ring_replay_def same_line_def)
qed

lemma ring_deliver_line: "same_line r (ring_deliver w r)"
proof -
  obtain e1 r1 where f: "ring_flush w r = (e1, r1)" by fastforce
  show ?thesis
    using ring_flush_line [OF f] f ring_replay_line [of r1 w]
    by (cases e1) (auto simp: ring_deliver_def same_line_def)
qed

lemma ring_Send_line:
  assumes "ring_push f r = Some r0" and "ring_Send w f r = Some p"
  shows "same_line r0 p"
proof (cases "sr_conn r0 = None")
  case True
  obtain e1 r1 where d: "ring_dial w r0 = (e1, r1)" by fastforce
  show ?thesis
    using assms True d ring_dial_frame [OF d] ring_deliver_line [of r1 w]
    by (cases e1) (auto simp: ring_Send_def same_line_def)
next
  case False
  then have "p = ring_deliver w r0" using assms by (auto simp: ring_Send_def)
  then show ?thesis using ring_deliver_line [of r0 w] by simp
qed

lemma ring_push_ok: "0 < sr_capacity r \<Longrightarrow> \<exists>r0. ring_push f r = Some r0"
  by (auto simp: ring_push_def split: list.splits)

lemma ring_push_buf:
  "ring_push f r = Some r0 \<Longrightarrow>
   sr_buf r0 = (if sr_capacity r \<le> int (length (sr_buf r)) then tl (sr_buf r) else sr_buf r) @ [f]
   \<and> sr_accepted r0 = sr_accepted r \<and> sr_capacity r0 = sr_capacity r"
  by (auto simp: ring_push_def split: if_splits list.splits)

section \<open>Properties\<close>

text \<open>
  C9: no frame is lost or reordered by an outage. Whatever the recognisers answer, after
  \<open>Send\<close> the frames accepted so far followed by the frames still in the ring are the line as it
  was with the new frame at its end, save the oldest frame a full ring evicts; and \<open>Send\<close>
  reports success only when nothing is left to replay.
\<close>

theorem ring_keeps_every_frame:
  assumes "0 < sr_capacity r" and "int (length (sr_buf r)) \<le> sr_capacity r"
  shows "\<exists>err r'. ring_Send w f r = Some (err, r') \<and>
     ring_line r' =
       sr_accepted r @ (if int (length (sr_buf r)) = sr_capacity r then tl (sr_buf r) else sr_buf r) @ [f] \<and>
     int (length (sr_buf r')) \<le> sr_capacity r' \<and> sr_capacity r' = sr_capacity r \<and>
     (err = None \<longrightarrow> sr_buf r' = [])"
proof -
  obtain r0 where r0: "ring_push f r = Some r0" using ring_push_ok [OF assms(1)] by blast
  then obtain p where p: "ring_Send w f r = Some p" by (simp add: ring_Send_def)
  obtain err r' where q: "p = (err, r')" by (cases p)
  have "int (length (sr_buf r0)) \<le> sr_capacity r"
    using ring_push_buf [OF r0] assms by (auto split: if_splits)
  moreover have "ring_line r0 =
      sr_accepted r @ (if int (length (sr_buf r)) = sr_capacity r then tl (sr_buf r) else sr_buf r) @ [f]"
    using ring_push_buf [OF r0] assms by (auto simp: ring_line_def split: if_splits)
  ultimately show ?thesis
    using ring_Send_line [OF r0 p] p q ring_push_buf [OF r0] by (auto simp: same_line_def)
qed

theorem ring_keeps_every_frame_witness:
  "\<exists>err r'. ring_Send \<lparr>w_dial = \<lambda>_ _. None, w_send = \<lambda>_. None, w_sleep = \<lambda>_. None\<rparr> (7 :: nat)
      (NewSTTRing 1 [WithRingCapacity 2]) = Some (err, r') \<and> ring_line r' = [7]"
  using ring_keeps_every_frame
    [of "NewSTTRing 1 [WithRingCapacity 2] :: nat stt_ring" "\<lparr>w_dial = \<lambda>_ _. None, w_send = \<lambda>_. None, w_sleep = \<lambda>_. None\<rparr>" 7]
  by (auto simp: NewSTTRing_def WithRingCapacity_def)

text \<open>
  Reconnecting is bounded: one dial makes at most three attempts per provider and sleeps
  only the waits of the fixed 0/80/200 ms schedule, 280 ms per provider in all; it never backs off
  exponentially.
\<close>

theorem dial_is_bounded:
  assumes "ring_dial w r = (e, r')"
  shows "sr_reconnect r' \<le> sr_reconnect r + 3 * sr_factories r \<and>
         (\<exists>ds. sr_slept r' = sr_slept r @ ds \<and> set ds \<subseteq> {0, 80, 200} \<and>
               sum_list ds \<le> 280 * int (sr_factories r))"
  using ring_dial_effect [OF assms] dial_plan_facts [of "sr_factories r"]
  by (fastforce simp: dial_effect_def)

definition dead_world :: stt_world where
  "dead_world = \<lparr>w_dial = \<lambda>_ _. Some (Errf ''refused'' []), w_send = \<lambda>_. None, w_sleep = \<lambda>_. None\<rparr>"

theorem dial_is_bounded_witness:
  "sr_reconnect (snd (ring_dial dead_world (NewSTTRing 2 [WithRingCapacity 5] :: nat stt_ring))) = 6 \<and>
   sr_reconnect (snd (ring_dial dead_world (NewSTTRing 2 [WithRingCapacity 5] :: nat stt_ring))) \<le> 0 + 3 * 2"
proof -
  let ?r = "NewSTTRing 2 [WithRingCapacity 5] :: nat stt_ring"
  have "sr_reconnect (snd (ring_dial dead_world ?r)) \<le> sr_reconnect ?r + 3 * sr_factories ?r"
    using dial_is_bounded [of dead_world ?r "fst (ring_dial dead_world ?r)" "snd (ring_dial dead_world ?r)"]
    by simp
  moreover have "sr_reconnect (snd (ring_dial dead_world ?r)) = 6"
    by (simp add: ring_dial_def dial_plan_def sttReconnectDelays_def NewSTTRing_def WithRingCapacity_def dead_world_def
        upt_rec numeral_2_eq_2)
  ultimately show ?thesis by (simp add: NewSTTRing_def WithRingCapacity_def)
qed

end
