(* ===== verification/Media.thy ===== *)
theory Media
  imports Complex_Main FD_Prelude
begin

text \<open>
  \<open>internal/media\<close>: 20 ms frames, the energy meter of barge-in level 1 (\<open>energy.go\<close>) and the
  jitter buffer (\<open>jitter.go\<close>). The square root and the logarithm of \<open>EnergyDBFS\<close> are those of the
  math library, a parameter \<open>db\<close>: the level in dBFS of a non-zero sum of squares over a number of
  samples.
\<close>

definition FrameMs :: int where "FrameMs = 20"
definition SamplesPerFrame :: nat where "SamplesPerFrame = 160"

record frame =
  fr_seq :: "64 word"
  fr_samples :: "16 word list"

definition SilenceDBFS :: rat where "SilenceDBFS = -120"

definition energy_dbfs :: "(int \<Rightarrow> nat \<Rightarrow> rat) \<Rightarrow> frame \<Rightarrow> rat" where
  "energy_dbfs db f =
     (if fr_samples f = [] then SilenceDBFS
      else let sum = sum_list (map (\<lambda>s. sint s * sint s) (fr_samples f)) in
           if sum \<le> 0 then SilenceDBFS else db sum (length (fr_samples f)))"

definition Silence :: "64 word \<Rightarrow> frame" where
  "Silence sq = \<lparr>fr_seq = sq, fr_samples = replicate SamplesPerFrame 0\<rparr>"

section \<open>Meter\<close>

record meter =
  mt_threshold :: rat
  mt_onset :: int
  mt_hangover :: int
  mt_above :: int
  mt_quiet :: int
  mt_speaking :: bool

definition WithThresholdDBFS :: "rat \<Rightarrow> meter \<Rightarrow> meter" where
  "WithThresholdDBFS d m = m\<lparr>mt_threshold := d\<rparr>"
definition WithOnsetFrames :: "int \<Rightarrow> meter \<Rightarrow> meter" where
  "WithOnsetFrames n m = m\<lparr>mt_onset := n\<rparr>"
definition WithHangoverFrames :: "int \<Rightarrow> meter \<Rightarrow> meter" where
  "WithHangoverFrames n m = m\<lparr>mt_hangover := n\<rparr>"

definition NewMeter :: "(meter \<Rightarrow> meter) list \<Rightarrow> meter" where
  "NewMeter opts =
     fold (\<lambda>f m. f m) opts
       \<lparr>mt_threshold = -25, mt_onset = 3, mt_hangover = 10, mt_above = 0, mt_quiet = 0, mt_speaking = False\<rparr>"

definition meter_process :: "(int \<Rightarrow> nat \<Rightarrow> rat) \<Rightarrow> frame \<Rightarrow> meter \<Rightarrow> bool \<times> meter" where
  "meter_process db f m =
     (if energy_dbfs db f \<ge> mt_threshold m
      then let m = m\<lparr>mt_above := mt_above m + 1, mt_quiet := 0\<rparr>;
               m = (if mt_above m \<ge> mt_onset m then m\<lparr>mt_speaking := True\<rparr> else m)
           in (mt_speaking m, m)
      else let m = m\<lparr>mt_above := 0\<rparr>;
               m = (if mt_speaking m
                    then let m = m\<lparr>mt_quiet := mt_quiet m + 1\<rparr> in
                         if mt_quiet m \<ge> mt_hangover m then m\<lparr>mt_speaking := False, mt_quiet := 0\<rparr> else m
                    else m)
           in (mt_speaking m, m))"

fun meter_run :: "(int \<Rightarrow> nat \<Rightarrow> rat) \<Rightarrow> frame list \<Rightarrow> meter \<Rightarrow> meter" where
  "meter_run db [] m = m"
| "meter_run db (f # fs) m = meter_run db fs (snd (meter_process db f m))"

definition loud :: "(int \<Rightarrow> nat \<Rightarrow> rat) \<Rightarrow> rat \<Rightarrow> frame \<Rightarrow> bool" where
  "loud db d f \<longleftrightarrow> energy_dbfs db f \<ge> d"

definition trailing :: "('a \<Rightarrow> bool) \<Rightarrow> 'a list \<Rightarrow> int" where
  "trailing P xs = int (length (takeWhile P (rev xs)))"

lemma trailing_snoc [simp]: "trailing P (xs @ [x]) = (if P x then trailing P xs + 1 else 0)"
  by (simp add: trailing_def)

lemma trailing_Nil [simp]: "trailing P [] = 0"
  by (simp add: trailing_def)

lemma trailing_nonneg [simp]: "0 \<le> trailing P xs"
  by (simp add: trailing_def)

definition meter_inv :: "(int \<Rightarrow> nat \<Rightarrow> rat) \<Rightarrow> frame list \<Rightarrow> meter \<Rightarrow> bool" where
  "meter_inv db hist m \<longleftrightarrow>
     mt_above m = trailing (loud db (mt_threshold m)) hist \<and>
     (mt_speaking m \<longrightarrow> mt_quiet m \<le> trailing (\<lambda>f. \<not> loud db (mt_threshold m) f) hist) \<and>
     (\<not> mt_speaking m \<longrightarrow> mt_quiet m = 0)"

lemma meter_process_config:
  "mt_threshold (snd (meter_process db f m)) = mt_threshold m"
  "mt_onset (snd (meter_process db f m)) = mt_onset m"
  "mt_hangover (snd (meter_process db f m)) = mt_hangover m"
  "fst (meter_process db f m) = mt_speaking (snd (meter_process db f m))"
  by (simp_all add: meter_process_def Let_def)

lemma meter_process_inv [fd_inv]:
  "meter_inv db hist m \<Longrightarrow> meter_inv db (hist @ [f]) (snd (meter_process db f m))"
  by (auto simp: meter_inv_def meter_process_def Let_def loud_def)

lemma meter_run_inv: "meter_inv db hist m \<Longrightarrow> meter_inv db (hist @ fs) (meter_run db fs m)"
proof (induction fs arbitrary: hist m)
  case (Cons f fs)
  from Cons.IH [OF meter_process_inv [OF Cons.prems]] show ?case by simp
qed simp

lemma meter_run_config:
  "mt_threshold (meter_run db fs m) = mt_threshold m" "mt_onset (meter_run db fs m) = mt_onset m"
  "mt_hangover (meter_run db fs m) = mt_hangover m"
  by (induction fs arbitrary: m) (simp_all add: meter_process_config)

lemma meter_switch:
  assumes "meter_inv db hist m"
  shows "\<not> mt_speaking m \<Longrightarrow> fst (meter_process db f m) \<Longrightarrow>
           mt_onset m \<le> trailing (loud db (mt_threshold m)) (hist @ [f])"
    and "mt_speaking m \<Longrightarrow> \<not> fst (meter_process db f m) \<Longrightarrow>
           mt_hangover m \<le> trailing (\<lambda>f. \<not> loud db (mt_threshold m) f) (hist @ [f])"
    and "loud db (mt_threshold m) f \<Longrightarrow> mt_onset m \<le> trailing (loud db (mt_threshold m)) (hist @ [f]) \<Longrightarrow>
           fst (meter_process db f m)"
  using assms by (auto simp: meter_inv_def meter_process_def Let_def loud_def split: if_splits)

lemma NewMeter_fields:
  "NewMeter [WithThresholdDBFS d, WithOnsetFrames n, WithHangoverFrames h] =
     \<lparr>mt_threshold = d, mt_onset = n, mt_hangover = h, mt_above = 0, mt_quiet = 0, mt_speaking = False\<rparr>"
  by (simp add: NewMeter_def WithThresholdDBFS_def WithOnsetFrames_def WithHangoverFrames_def)

lemma meter_run_from_new:
  "meter_inv db fs (meter_run db fs (NewMeter [WithThresholdDBFS d, WithOnsetFrames n, WithHangoverFrames h]))"
proof -
  have "meter_inv db [] (NewMeter [WithThresholdDBFS d, WithOnsetFrames n, WithHangoverFrames h])"
    by (simp add: NewMeter_fields meter_inv_def)
  from meter_run_inv [OF this, of fs] show ?thesis by simp
qed

text \<open>
  The energy meter switches to speech only when the last onset-many frames were all at or
  above the threshold, does switch then, and leaves speech only when the last hangover-many
  frames were all below it.
\<close>

theorem meter_hysteresis:
  assumes "m = meter_run db fs (NewMeter [WithThresholdDBFS d, WithOnsetFrames n, WithHangoverFrames h])"
  shows "(\<not> mt_speaking m \<and> fst (meter_process db f m) \<longrightarrow> n \<le> trailing (loud db d) (fs @ [f])) \<and>
         (loud db d f \<and> n \<le> trailing (loud db d) (fs @ [f]) \<longrightarrow> fst (meter_process db f m)) \<and>
         (mt_speaking m \<and> \<not> fst (meter_process db f m) \<longrightarrow>
            h \<le> trailing (\<lambda>f. \<not> loud db d f) (fs @ [f]))"
proof -
  have i: "meter_inv db fs m" unfolding assms by (rule meter_run_from_new)
  have c: "mt_threshold m = d" "mt_onset m = n" "mt_hangover m = h"
    unfolding assms by (simp_all add: meter_run_config NewMeter_fields)
  show ?thesis using meter_switch [OF i, of f, unfolded c] by blast
qed

definition wframe :: "int \<Rightarrow> frame" where
  "wframe a = \<lparr>fr_seq = 0, fr_samples = [word_of_int a]\<rparr>"

theorem meter_hysteresis_witness:
  "\<not> mt_speaking (meter_run (\<lambda>s n. of_int s) [wframe 9, wframe 9]
       (NewMeter [WithThresholdDBFS 50, WithOnsetFrames 3, WithHangoverFrames 2])) \<and>
   fst (meter_process (\<lambda>s n. of_int s) (wframe 9) (meter_run (\<lambda>s n. of_int s) [wframe 9, wframe 9]
       (NewMeter [WithThresholdDBFS 50, WithOnsetFrames 3, WithHangoverFrames 2]))) \<and>
   3 \<le> trailing (loud (\<lambda>s n. of_int s) 50) ([wframe 9, wframe 9] @ [wframe 9])"
proof -
  have a: "\<not> mt_speaking (meter_run (\<lambda>s n. of_int s) [wframe 9, wframe 9]
       (NewMeter [WithThresholdDBFS 50, WithOnsetFrames 3, WithHangoverFrames 2])) \<and>
   fst (meter_process (\<lambda>s n. of_int s) (wframe 9) (meter_run (\<lambda>s n. of_int s) [wframe 9, wframe 9]
       (NewMeter [WithThresholdDBFS 50, WithOnsetFrames 3, WithHangoverFrames 2])))"
    by (simp add: NewMeter_fields meter_process_def energy_dbfs_def wframe_def Let_def)
  with meter_hysteresis [OF refl, of "\<lambda>s n. of_int s" "[wframe 9, wframe 9]" 50 3 2 "wframe 9"]
  show ?thesis by blast
qed

section \<open>Jitter buffer\<close>

record jitter =
  jb_window :: nat
  jb_next :: "64 word"
  jb_started :: bool
  jb_pending :: "(64 word \<times> frame) list"

definition NewJitterBuffer :: "int \<Rightarrow> jitter" where
  "NewJitterBuffer window =
     \<lparr>jb_window = (if window \<le> 0 then 5 else nat window), jb_next = 0, jb_started = False, jb_pending = []\<rparr>"

text \<open>The least pending number, by the scan of the source; 0 when nothing is pending.\<close>

fun min_key :: "64 word \<Rightarrow> (64 word \<times> frame) list \<Rightarrow> 64 word" where
  "min_key m [] = m"
| "min_key m (p # ps) = min_key (if fst p < m then fst p else m) ps"

fun oldest_pending :: "(64 word \<times> frame) list \<Rightarrow> 64 word" where
  "oldest_pending [] = 0"
| "oldest_pending (p # ps) = min_key (fst p) ps"

lemma min_key_in: "min_key m ps \<in> insert m (fst ` set ps)"
  by (induction m ps rule: min_key.induct) (auto split: if_splits)

lemma min_key_le: "min_key m ps \<le> m \<and> (\<forall>p \<in> set ps. min_key m ps \<le> fst p)"
  by (induction m ps rule: min_key.induct) (auto split: if_splits)

lemma oldest_pending_in: "ps \<noteq> [] \<Longrightarrow> oldest_pending ps \<in> fst ` set ps"
  by (cases ps) (use min_key_in in \<open>auto simp: image_iff\<close>)

lemma oldest_pending_le: "p \<in> set ps \<Longrightarrow> oldest_pending ps \<le> fst p"
  by (cases ps) (use min_key_le in auto)

text \<open>The release loop of \<open>Push\<close>: the frames released, then the next number and what is pending.\<close>

function jb_loop :: "nat \<Rightarrow> 64 word \<Rightarrow> (64 word \<times> frame) list \<Rightarrow> frame list \<times> 64 word \<times> (64 word \<times> frame) list" where
  "jb_loop w n ps =
     (case map_of ps n of
        Some f \<Rightarrow> (case jb_loop w (n + 1) (AList.delete n ps) of (out, r) \<Rightarrow> (f # out, r))
      | None \<Rightarrow> if w < length ps then jb_loop w (oldest_pending ps) ps else ([], n, ps))"
  by pat_completeness auto
termination
proof (relation "measures [\<lambda>(w, n, ps). length ps, \<lambda>(w, n, ps). if map_of ps n = None then 1 else 0]", goal_cases)
  case 1
  show ?case by simp
next
  case (2 w n ps)
  then have "oldest_pending ps \<in> fst ` set ps" by (intro oldest_pending_in) auto
  with 2 show ?case by (auto simp: map_of_eq_None_iff)
next
  case (3 w n ps f)
  then show ?case using length_delete_less [of ps n] by simp
qed

declare jb_loop.simps [simp del]

lemma jb_loop_hit:
  "map_of ps n = Some f \<Longrightarrow>
   jb_loop w n ps = (case jb_loop w (n + 1) (AList.delete n ps) of (out, r) \<Rightarrow> (f # out, r))"
  by (subst jb_loop.simps) simp

lemma jb_loop_skip:
  "map_of ps n = None \<Longrightarrow> w < length ps \<Longrightarrow> jb_loop w n ps = jb_loop w (oldest_pending ps) ps"
  by (subst jb_loop.simps) simp

lemma jb_loop_stop: "map_of ps n = None \<Longrightarrow> length ps \<le> w \<Longrightarrow> jb_loop w n ps = ([], n, ps)"
  by (subst jb_loop.simps) simp

lemmas jb_loop_cases = jb_loop_hit jb_loop_skip jb_loop_stop

definition jb_Push :: "frame \<Rightarrow> jitter \<Rightarrow> frame list \<times> jitter" where
  "jb_Push f b0 =
     (let b = (if \<not> jb_started b0 then b0\<lparr>jb_started := True, jb_next := fr_seq f\<rparr> else b0) in
      if fr_seq f < jb_next b then ([], b)
      else (case jb_loop (jb_window b) (jb_next b) (AList.update (fr_seq f) f (jb_pending b)) of
              (out, n, ps) \<Rightarrow> (out, b\<lparr>jb_next := n, jb_pending := ps\<rparr>)))"

definition jb_Len :: "jitter \<Rightarrow> nat" where "jb_Len b = length (jb_pending b)"

fun jb_run :: "frame list \<Rightarrow> jitter \<Rightarrow> frame list \<times> jitter" where
  "jb_run [] b = ([], b)"
| "jb_run (f # fs) b =
     (case jb_Push f b of (out, b') \<Rightarrow> (case jb_run fs b' of (outs, b'') \<Rightarrow> (out @ outs, b'')))"

text \<open>Pending frames sit under their own number, at or after the next one to release.\<close>

definition pend_ok :: "64 word \<Rightarrow> (64 word \<times> frame) list \<Rightarrow> bool" where
  "pend_ok n ps \<longleftrightarrow> wf_al ps \<and> (\<forall>(k, f) \<in> set ps. fr_seq f = k \<and> n \<le> k \<and> k < - 1)"

lemma pend_ok_delete:
  assumes "pend_ok n ps" and "map_of ps n = Some f"
  shows "pend_ok (n + 1) (AList.delete n ps)" and "fr_seq f = n" and "n < n + 1"
proof -
  have m: "(n, f) \<in> set ps" using assms(2) by (rule map_of_SomeD)
  with assms(1) show "fr_seq f = n" by (auto simp: pend_ok_def)
  have lt: "n < - 1" using m assms(1) by (auto simp: pend_ok_def)
  show "n < n + 1"
  proof -
    have "uint (- 1 :: 64 word) = 2 ^ 64 - 1" by (simp add: unsigned_minus_1_eq_mask mask_eq_exp_minus_1)
    with lt have "uint n < 2 ^ 64 - 1" by (simp only: word_less_def)
    then show ?thesis by (simp add: word_less_def uint_word_ariths)
  qed
  have "n + 1 \<le> k" if "n < k" for k using that by (rule inc_le)
  then have "fr_seq g = k \<and> n + 1 \<le> k \<and> k < - 1" if "(k, g) \<in> set (AList.delete n ps)" for k g
    using that assms(1) by (auto simp: pend_ok_def AList.delete_eq order.order_iff_strict)
  moreover have "wf_al (AList.delete n ps)" using assms(1) by (simp add: pend_ok_def wf_al_delete)
  ultimately show "pend_ok (n + 1) (AList.delete n ps)" by (auto simp: pend_ok_def)
qed

lemma pend_ok_oldest:
  assumes "pend_ok n ps" "ps \<noteq> []"
  shows "pend_ok (oldest_pending ps) ps" and "n \<le> oldest_pending ps"
proof -
  show "pend_ok (oldest_pending ps) ps"
    using assms(1) oldest_pending_le by (fastforce simp: pend_ok_def)
  show "n \<le> oldest_pending ps"
    using oldest_pending_in [OF assms(2)] assms(1) by (auto simp: pend_ok_def)
qed

definition released_ok :: "64 word \<Rightarrow> frame list \<Rightarrow> 64 word \<Rightarrow> bool" where
  "released_ok n out n' \<longleftrightarrow>
     n \<le> n' \<and> sorted_wrt (<) (map fr_seq out) \<and> (\<forall>f \<in> set out. n \<le> fr_seq f \<and> fr_seq f < n')"

lemma released_ok_append:
  "released_ok n out n' \<Longrightarrow> released_ok n' outs n'' \<Longrightarrow> released_ok n (out @ outs) n''"
  by (fastforce simp: released_ok_def sorted_wrt_append)

lemma mset_delete:
  "wf_al ps \<Longrightarrow> map_of ps n = Some f \<Longrightarrow>
   mset (map snd ps) = add_mset f (mset (map snd (AList.delete n ps)))"
proof (induction ps)
  case (Cons p ps)
  show ?case
  proof (cases "fst p = n")
    case True
    with Cons.prems have "n \<notin> fst ` set ps" by (auto simp: wf_al_def)
    then have "AList.delete n ps = ps" by (simp add: delete_idem)
    with True Cons.prems show ?thesis by (cases p) simp
  next
    case False
    with Cons show ?thesis by (cases p) (auto simp: wf_al_def)
  qed
qed simp

lemma jb_loop_correct:
  assumes "pend_ok n ps" and "jb_loop w n ps = (out, n', ps')"
  shows "pend_ok n' ps' \<and> released_ok n out n' \<and> length ps' \<le> w \<and>
         mset (map snd ps) = mset out + mset (map snd ps')"
  using assms
proof (induction w n ps arbitrary: out n' ps' rule: jb_loop.induct)
  case (1 w n ps)
  show ?case
  proof (cases "map_of ps n")
    case (Some f)
    obtain out1 where o: "jb_loop w (n + 1) (AList.delete n ps) = (out1, n', ps')" "out = f # out1"
      using 1(4) jb_loop_hit [OF Some, of w] by (auto split: prod.splits)
    note d = pend_ok_delete [OF 1(3) Some]
    have IH: "pend_ok n' ps' \<and> released_ok (n + 1) out1 n' \<and> length ps' \<le> w \<and>
         mset (map snd (AList.delete n ps)) = mset out1 + mset (map snd ps')"
      using 1(2) [OF Some d(1) o(1)] .
    have "released_ok n [f] (n + 1)" using d by (simp add: released_ok_def)
    with IH released_ok_append [of n "[f]" "n + 1" out1 n'] have "released_ok n out n'"
      by (simp add: o(2))
    moreover have "mset (map snd ps) = mset out + mset (map snd ps')"
      using IH mset_delete [OF _ Some] 1(3) by (simp add: o(2) pend_ok_def)
    ultimately show ?thesis using IH by blast
  next
    case None
    show ?thesis
    proof (cases "w < length ps")
      case True
      then have ne: "ps \<noteq> []" by auto
      have "jb_loop w (oldest_pending ps) ps = (out, n', ps')"
        using 1(4) jb_loop_skip [OF None True] by simp
      from 1(1) [OF None True pend_ok_oldest(1) [OF 1(3) ne] this] pend_ok_oldest(2) [OF 1(3) ne]
      show ?thesis by (fastforce simp: released_ok_def)
    next
      case False
      with 1(4) jb_loop_stop [OF None, of w] have "out = []" "n' = n" "ps' = ps" by auto
      with False 1(3) show ?thesis by (simp add: released_ok_def)
    qed
  qed
qed

definition jb_ok :: "jitter \<Rightarrow> bool" where
  "jb_ok b \<longleftrightarrow> (if jb_started b then pend_ok (jb_next b) (jb_pending b) else jb_pending b = [])"

lemma pend_ok_update:
  assumes "pend_ok n ps" "n \<le> fr_seq f" "fr_seq f < - 1"
  shows "pend_ok n (AList.update (fr_seq f) f ps)"
  using assms set_update_sub [of "fr_seq f" f ps] by (auto simp: pend_ok_def)

lemma set_map_snd_update: "set (map snd (AList.update k v ps)) \<subseteq> insert v (set (map snd ps))"
  by (induction ps) auto

text \<open>What one push does to a started buffer.\<close>

lemma jb_Push_correct:
  assumes "jb_ok b" "fr_seq f < - 1" "jb_Push f b = (out, b')"
  shows "jb_ok b'" and "jb_started b'" and "jb_window b' = jb_window b"
    and "jb_started b \<Longrightarrow> released_ok (jb_next b) out (jb_next b')"
    and "released_ok (if jb_started b then jb_next b else fr_seq f) out (jb_next b')"
    and "length (jb_pending b) \<le> jb_window b \<Longrightarrow> length (jb_pending b') \<le> jb_window b"
    and "set out \<union> set (map snd (jb_pending b')) \<subseteq> insert f (set (map snd (jb_pending b)))"
proof -
  define n where "n = (if jb_started b then jb_next b else fr_seq f)"
  have pn: "pend_ok n (jb_pending b)"
    using assms(1) by (auto simp: jb_ok_def n_def pend_ok_def split: if_splits)
  have "jb_ok b' \<and> jb_started b' \<and> jb_window b' = jb_window b \<and> released_ok n out (jb_next b') \<and>
        (length (jb_pending b) \<le> jb_window b \<longrightarrow> length (jb_pending b') \<le> jb_window b) \<and>
        set out \<union> set (map snd (jb_pending b')) \<subseteq> insert f (set (map snd (jb_pending b)))"
  proof (cases "fr_seq f < n")
    case True
    then have "jb_started b" by (auto simp: n_def split: if_splits)
    with True assms pn show ?thesis by (auto simp: jb_Push_def n_def released_ok_def)
  next
    case False
    obtain n' ps' where l: "jb_loop (jb_window b) n (AList.update (fr_seq f) f (jb_pending b)) = (out, n', ps')"
      and b': "jb_next b' = n'" "jb_pending b' = ps'" "jb_started b'" "jb_window b' = jb_window b"
      using assms(3) False
      by (cases "jb_loop (jb_window b) n (AList.update (fr_seq f) f (jb_pending b))")
        (auto simp: jb_Push_def n_def Let_def split: if_splits)
    have "pend_ok n (AList.update (fr_seq f) f (jb_pending b))"
      using pend_ok_update [OF pn _ assms(2)] False by simp
    from jb_loop_correct [OF this l]
    have c: "pend_ok n' ps'" "released_ok n out n'" "length ps' \<le> jb_window b"
      and m: "mset (map snd (AList.update (fr_seq f) f (jb_pending b))) = mset out + mset (map snd ps')"
      by auto
    from m have "set (map snd (AList.update (fr_seq f) f (jb_pending b))) = set out \<union> set (map snd ps')"
      by (metis set_mset_mset set_mset_union)
    with c b' set_map_snd_update [of "fr_seq f" f "jb_pending b"] show ?thesis by (simp add: jb_ok_def)
  qed
  then show "jb_ok b'" "jb_started b'" "jb_window b' = jb_window b"
    "jb_started b \<Longrightarrow> released_ok (jb_next b) out (jb_next b')"
    "released_ok (if jb_started b then jb_next b else fr_seq f) out (jb_next b')"
    "length (jb_pending b) \<le> jb_window b \<Longrightarrow> length (jb_pending b') \<le> jb_window b"
    "set out \<union> set (map snd (jb_pending b')) \<subseteq> insert f (set (map snd (jb_pending b)))"
    unfolding n_def by auto
qed

lemma jb_run_correct:
  assumes "jb_ok b" "\<forall>f \<in> set fs. fr_seq f < - 1" "jb_run fs b = (outs, b')"
    and "length (jb_pending b) \<le> jb_window b"
  shows "(jb_started b \<longrightarrow> released_ok (jb_next b) outs (jb_next b')) \<and> sorted_wrt (<) (map fr_seq outs) \<and>
         length (jb_pending b') \<le> jb_window b \<and>
         set outs \<union> set (map snd (jb_pending b')) \<subseteq> set fs \<union> set (map snd (jb_pending b))"
  using assms
proof (induction fs arbitrary: b outs)
  case Nil
  then show ?case by (auto simp: released_ok_def)
next
  case (Cons f fs)
  obtain out1 b1 out2 where p: "jb_Push f b = (out1, b1)" "jb_run fs b1 = (out2, b')" "outs = out1 @ out2"
    using Cons.prems(3) by (auto split: prod.splits)
  have f: "fr_seq f < - 1" using Cons.prems(2) by simp
  note c = jb_Push_correct [OF Cons.prems(1) f p(1)]
  have IH: "released_ok (jb_next b1) out2 (jb_next b')" "length (jb_pending b') \<le> jb_window b"
    "set out2 \<union> set (map snd (jb_pending b')) \<subseteq> set fs \<union> set (map snd (jb_pending b1))"
    using Cons.IH [OF c(1) _ p(2)] Cons.prems(2,4) c(2,3,6) by auto
  have r: "released_ok (if jb_started b then jb_next b else fr_seq f) outs (jb_next b')"
    unfolding p(3) by (rule released_ok_append [OF c(5) IH(1)])
  then have "sorted_wrt (<) (map fr_seq outs)" by (simp add: released_ok_def)
  moreover have "set outs \<union> set (map snd (jb_pending b')) \<subseteq> set (f # fs) \<union> set (map snd (jb_pending b))"
    using IH(3) c(7) unfolding p(3) set_append list.set by blast
  ultimately show ?case using r IH(2) by (auto split: if_splits)
qed

text \<open>
  C36: whatever order the frames of a call arrive in (their numbers below the last 64-bit
  number), the jitter buffer releases frames in strictly increasing order of number, so never
  twice, releases only frames that were pushed, and holds back at most its window.
\<close>

theorem jitter_releases_in_order:
  assumes "\<forall>f \<in> set fs. fr_seq f < - 1"
    and "jb_run fs (NewJitterBuffer window) = (outs, b)"
  shows "sorted_wrt (<) (map fr_seq outs) \<and> set outs \<subseteq> set fs \<and>
         jb_Len b \<le> (if window \<le> 0 then 5 else nat window)"
proof -
  have "jb_ok (NewJitterBuffer window)" "length (jb_pending (NewJitterBuffer window)) \<le> jb_window (NewJitterBuffer window)"
    by (simp_all add: NewJitterBuffer_def jb_ok_def)
  from jb_run_correct [OF this(1) assms this(2)]
  show ?thesis
    by (auto simp: NewJitterBuffer_def jb_Len_def)
qed

definition numbered :: "64 word \<Rightarrow> frame" where
  "numbered n = \<lparr>fr_seq = n, fr_samples = []\<rparr>"

theorem jitter_releases_in_order_witness:
  "fst (jb_run (map numbered [7, 9, 8, 8, 10]) (NewJitterBuffer 2)) = map numbered [7, 8, 9, 10] \<and>
   sorted_wrt (<) (map fr_seq (map numbered [7, 8, 9, 10])) \<and>
   jb_Len (snd (jb_run (map numbered [7, 9, 8, 8, 10]) (NewJitterBuffer 2))) \<le> 2"
proof -
  have v: "jb_run (map numbered [7, 9, 8, 8, 10]) (NewJitterBuffer 2) =
      (map numbered [7, 8, 9, 10], snd (jb_run (map numbered [7, 9, 8, 8, 10]) (NewJitterBuffer 2)))"
    by (simp add: NewJitterBuffer_def jb_Push_def numbered_def jb_loop_cases)
  have "\<forall>f \<in> set (map numbered [7, 9, 8, 8, 10]). fr_seq f < - 1"
    by (simp add: numbered_def word_less_alt unsigned_minus_1_eq_mask mask_eq_exp_minus_1)
  note t = jitter_releases_in_order [OF this v]
  have "jb_Len (snd (jb_run (map numbered [7, 9, 8, 8, 10]) (NewJitterBuffer 2))) \<le> 2"
    by (rule order.trans [OF t [THEN conjunct2, THEN conjunct2]]) simp
  then show ?thesis by (intro conjI arg_cong [OF v, of fst, unfolded fst_conv] t [THEN conjunct1])
qed

end
