(* ===== verification/Audiobank.thy ===== *)
theory Audiobank
  imports Events
begin

text \<open>
  \<open>internal/audiobank/bank.go\<close>: the bank of pre-synthesised phrases, its lookup and the boot
  check \<open>Validate\<close>. The contract its clients rely on (the turn loop and the boot recovery) is the
  locale \<open>clip_source\<close>: a source accepted by the check answers every required phrase.
\<close>

type_synonym clip_key = string

definition KeyGreeting :: clip_key where "KeyGreeting = ''greeting''"
definition KeyRecordingNotice :: clip_key where "KeyRecordingNotice = ''recording_notice''"
definition KeyOneMoment :: clip_key where "KeyOneMoment = ''one_moment''"
definition KeyStillThere :: clip_key where "KeyStillThere = ''still_there''"
definition KeyDidntCatch :: clip_key where "KeyDidntCatch = ''didnt_catch''"
definition KeySayAgain :: clip_key where "KeySayAgain = ''say_again''"
definition KeyTransferring :: clip_key where "KeyTransferring = ''transferring''"
definition KeyTransferFailed :: clip_key where "KeyTransferFailed = ''transfer_failed''"
definition KeyTechnicalIssue :: clip_key where "KeyTechnicalIssue = ''technical_issue''"
definition KeyEmergencyAck :: clip_key where "KeyEmergencyAck = ''emergency_ack''"
definition KeyVoicemailIntro :: clip_key where "KeyVoicemailIntro = ''voicemail_intro''"
definition KeyVoicemailThanks :: clip_key where "KeyVoicemailThanks = ''voicemail_thanks''"
definition KeyDTMFMenu :: clip_key where "KeyDTMFMenu = ''dtmf_menu''"
definition KeyDTMFInvalid :: clip_key where "KeyDTMFInvalid = ''dtmf_invalid''"
definition KeyGoodbye :: clip_key where "KeyGoodbye = ''goodbye''"

definition required_keys :: "clip_key list" where
  "required_keys =
     [KeyGreeting, KeyRecordingNotice, KeyOneMoment, KeyStillThere,
      KeyDidntCatch, KeySayAgain, KeyTransferring, KeyTransferFailed,
      KeyTechnicalIssue, KeyEmergencyAck, KeyVoicemailIntro,
      KeyVoicemailThanks, KeyDTMFMenu, KeyDTMFInvalid, KeyGoodbye]"

record clip =
  cl_text :: string
  cl_audio :: string
  cl_duration_ms :: int

definition ErrClipNotFound :: string where "ErrClipNotFound = ''audiobank: clip not found''"

record bank =
  bk_persona :: string
  bk_version :: string
  bk_clips :: "go_locale \<rightharpoonup> (clip_key \<rightharpoonup> clip)"

definition NewBank :: "string \<Rightarrow> string \<Rightarrow> bank" where
  "NewBank persona version = \<lparr>bk_persona = persona, bk_version = version, bk_clips = Map.empty\<rparr>"

definition bank_rows :: "bank \<Rightarrow> go_locale \<Rightarrow> clip_key \<rightharpoonup> clip" where
  "bank_rows b loc = (case bk_clips b loc of None \<Rightarrow> Map.empty | Some m \<Rightarrow> m)"

definition bank_Add :: "go_locale \<Rightarrow> clip_key \<Rightarrow> clip \<Rightarrow> bank \<Rightarrow> bank" where
  "bank_Add loc key c b = b\<lparr>bk_clips := (bk_clips b)(loc \<mapsto> (bank_rows b loc)(key \<mapsto> c))\<rparr>"

definition bank_Lookup :: "bank \<Rightarrow> clip_key \<Rightarrow> go_locale \<Rightarrow> clip res" where
  "bank_Lookup b key loc =
     (case bank_rows b loc key of
        Some c \<Rightarrow> Inr c
      | None \<Rightarrow> Inl (Wrap ''%w: %s/%s (persona %s@%s)'' [FS key, FS loc, FS (bk_persona b), FS (bk_version b)]
                       (Sentinel ErrClipNotFound)))"

definition bank_missing :: "bank \<Rightarrow> go_locale list \<Rightarrow> string list" where
  "bank_missing b locales =
     concat (map (\<lambda>loc. map (\<lambda>key. key @ ''/'' @ loc) (filter (\<lambda>key. bank_rows b loc key = None) required_keys))
       locales)"

definition bank_Validate :: "bank \<Rightarrow> go_locale list \<Rightarrow> gerr option" where
  "bank_Validate b locales =
     (if bank_missing b locales = [] then None
      else Some (Errf ''audiobank: persona %s@%s missing required clips: %v''
             (FS (bk_persona b) # FS (bk_version b) # map FS (sort_by str_less (bank_missing b locales)))))"

locale clip_source =
  fixes lookup :: "clip_key \<Rightarrow> go_locale \<Rightarrow> clip res"
    and enabled :: "go_locale set"
  assumes required_found: "loc \<in> enabled \<Longrightarrow> key \<in> set required_keys \<Longrightarrow> ok (lookup key loc)"
begin

lemma say_again_found: "loc \<in> enabled \<Longrightarrow> \<exists>c. lookup KeySayAgain loc = Inr c"
  using required_found [of loc KeySayAgain] by (cases "lookup KeySayAgain loc") (auto simp: required_keys_def)

lemma technical_issue_found: "loc \<in> enabled \<Longrightarrow> \<exists>c. lookup KeyTechnicalIssue loc = Inr c"
  using required_found [of loc KeyTechnicalIssue]
  by (cases "lookup KeyTechnicalIssue loc") (auto simp: required_keys_def)

lemma one_moment_found: "loc \<in> enabled \<Longrightarrow> \<exists>c. lookup KeyOneMoment loc = Inr c"
  using required_found [of loc KeyOneMoment]
  by (cases "lookup KeyOneMoment loc") (auto simp: required_keys_def)

end

lemma ok_Lookup_iff: "ok (bank_Lookup b key loc) \<longleftrightarrow> bank_rows b loc key \<noteq> None"
  by (auto simp: bank_Lookup_def split: option.splits)

lemma Validate_iff:
  "bank_Validate b locales = None \<longleftrightarrow>
   (\<forall>loc \<in> set locales. \<forall>key \<in> set required_keys. ok (bank_Lookup b key loc))"
proof -
  have "bank_Validate b locales = None \<longleftrightarrow> bank_missing b locales = []"
    by (simp add: bank_Validate_def)
  also have "\<dots> \<longleftrightarrow> (\<forall>loc \<in> set locales. \<forall>key \<in> set required_keys. bank_rows b loc key \<noteq> None)"
    by (simp add: bank_missing_def filter_empty_conv)
  finally show ?thesis unfolding ok_Lookup_iff .
qed

definition valid_locales :: "bank \<Rightarrow> go_locale set" where
  "valid_locales b = {loc. bank_Validate b [loc] = None}"

interpretation bnk: clip_source "bank_Lookup b" "valid_locales b" for b
  by unfold_locales (auto simp: valid_locales_def Validate_iff)

lemma Lookup_Add:
  "bank_Lookup (bank_Add loc key c b) key' loc' =
     (if loc' = loc \<and> key' = key then Inr c else bank_Lookup b key' loc')"
  by (auto simp: bank_Lookup_def bank_Add_def bank_rows_def split: option.splits)

text \<open>
  The boot check passes exactly when every required phrase can be looked up in every
  given locale, and a lookup returns the clip added last under its key and locale.
\<close>

theorem bank_valid_iff_complete:
  "(bank_Validate b locales = None \<longleftrightarrow>
      (\<forall>loc \<in> set locales. \<forall>key \<in> set required_keys. ok (bank_Lookup b key loc))) \<and>
   bank_Lookup (bank_Add loc key c b) key' loc' =
     (if loc' = loc \<and> key' = key then Inr c else bank_Lookup b key' loc')"
  by (simp add: Validate_iff Lookup_Add)

theorem bank_valid_iff_complete_witness:
  "bank_Validate (NewBank ''p'' ''v1'') [LocaleENCA] \<noteq> None \<and>
   (\<forall>c. bank_Lookup (bank_Add LocaleENCA KeyGreeting c (NewBank ''p'' ''v1'')) KeyGreeting LocaleENCA = Inr c)"
proof -
  have no: "\<not> ok (bank_Lookup (NewBank ''p'' ''v1'') KeyGreeting LocaleENCA)"
    by (simp add: bank_Lookup_def bank_rows_def NewBank_def)
  have req: "KeyGreeting \<in> set required_keys" by (simp add: required_keys_def)
  show ?thesis
    using bank_valid_iff_complete [of "NewBank ''p'' ''v1''" "[LocaleENCA]" LocaleENCA KeyGreeting _ KeyGreeting LocaleENCA]
      no req by auto
qed

end
