(* ===== verification/Endpointing.thy ===== *)
theory Endpointing
  imports Events
begin

text \<open>
  \<open>internal/turn/endpoint.go\<close> and the endpointing part of \<open>internal/turn/config.go\<close>: the
  per-language dictionaries, the tokeniser, the adaptive wait \<open>waitForMs\<close> and the backchannel test.
  Accented words are written with their UTF-8 bytes (\<open>encode_rune\<close>). The Unicode tables above
  U+00FF are the parameter \<open>U\<close>.
\<close>

record endpoint_delays =
  HesitationMs :: int
  NumberMs :: int
  IncompleteMs :: int
  QuestionMs :: int
  DefaultMs :: int

definition DefaultEndpointDelays :: endpoint_delays where
  "DefaultEndpointDelays =
     \<lparr>HesitationMs = 1400, NumberMs = 1100, IncompleteMs = 900, QuestionMs = 400, DefaultMs = 600\<rparr>"

record lang_profile =
  lp_hesitation :: "string list"
  lp_backchannel :: "string list"
  lp_incomplete :: "string list"
  lp_numbers :: "string list"
  lp_questionLed :: "string list"

definition profileEN :: lang_profile where
  "profileEN =
     \<lparr>lp_hesitation = [''um'', ''uh'', ''er'', ''erm'', ''hmm'', ''umm'', ''uhh'', ''hm''],
      lp_backchannel =
        [''uh'', ''huh'', ''uh-huh'', ''uhhuh'', ''mhm'', ''mm'', ''hmm'', ''mm-hmm'', ''mmhm'',
         ''yeah'', ''yep'', ''yes'', ''ya'', ''ok'', ''okay'', ''right'', ''sure'', ''gotcha'',
         ''cool'', ''alright''],
      lp_incomplete =
        [''and'', ''but'', ''or'', ''so'', ''to'', ''the'', ''a'', ''an'', ''of'', ''with'', ''for'',
         ''at'', ''in'', ''on'', ''my'', ''your'', ''his'', ''her'', ''our'', ''their'', ''is'',
         ''are'', ''was'', ''were'', ''i'', ''it's'', ''its'', ''that'', ''this'', ''about'',
         ''because'', ''if'', ''when'', ''like''],
      lp_numbers =
        [''zero'', ''one'', ''two'', ''three'', ''four'', ''five'', ''six'', ''seven'',
         ''eight'', ''nine'', ''ten'', ''oh'', ''double'', ''triple'', ''hundred''],
      lp_questionLed =
        [''what'', ''when'', ''where'', ''who'', ''why'', ''how'', ''which'', ''can'',
         ''could'', ''would'', ''will'', ''do'', ''does'', ''did'', ''is'', ''are'', ''may'',
         ''should'']\<rparr>"

definition e_acute :: string where "e_acute = encode_rune 0xE9"
definition a_grave :: string where "a_grave = encode_rune 0xE0"
definition u_grave :: string where "u_grave = encode_rune 0xF9"
definition c_cedilla :: string where "c_cedilla = encode_rune 0xE7"

definition profileFR :: lang_profile where
  "profileFR =
     \<lparr>lp_hesitation =
        [''euh'', ''euhh'', ''ben'', ''bah'', ''ts'' @ e_acute, ''tse'', ''genre'', ''l'' @ a_grave,
         ''la'', ''heu''],
      lp_backchannel =
        [''ouais'', ''oui'', ''ok'', ''d'accord'', ''daccord'', ''han'', ''hum'', ''hem'',
         ''mhm'', ''mm'', ''c'est'', c_cedilla @ ''a'', ''ca'', ''bon'', ''parfait'', ''exact''],
      lp_incomplete =
        [''et'', ''mais'', ''ou'', ''donc'', ''de'', ''du'', ''des'', ''le'', ''les'', ''un'',
         ''une'', a_grave, ''a'', ''au'', ''aux'', ''avec'', ''pour'', ''dans'', ''sur'', ''mon'',
         ''ma'', ''mes'', ''ton'', ''ta'', ''votre'', ''vos'', ''je'', ''j'ai'', ''c'est'',
         ''est'', ''que'', ''qui'', ''parce'', ''si'', ''comme'', ''puis'', ''pis''],
      lp_numbers =
        [''z'' @ e_acute @ ''ro'', ''zero'', ''un'', ''deux'', ''trois'', ''quatre'', ''cinq'', ''six'',
         ''sept'', ''huit'', ''neuf'', ''dix'', ''cent''],
      lp_questionLed =
        [''quoi'', ''quand'', ''o'' @ u_grave, ''qui'', ''pourquoi'', ''comment'', ''combien'',
         ''est-ce'', ''peux'', ''peut'', ''pouvez'', ''es-tu'', ''est-tu'', ''c'est-tu'',
         ''as-tu'', ''avez-vous'']\<rparr>"

definition profileFor :: "go_locale \<Rightarrow> lang_profile" where
  "profileFor loc = (if loc = LocaleFRCA then profileFR else profileEN)"

definition tokenize :: "unicode \<Rightarrow> string \<Rightarrow> string list" where
  "tokenize U text =
     filter (\<lambda>tok. tok \<noteq> [])
       (map (trim_func (\<lambda>r. is_punct U r \<and> r \<noteq> 0x27 \<and> r \<noteq> 0x2D)) (Go_Text.fields (to_lower U text)))"

definition isNumericToken :: "unicode \<Rightarrow> string \<Rightarrow> lang_profile \<Rightarrow> bool" where
  "isNumericToken U tok p =
     (if tok \<in> set (lp_numbers p) then True
      else if \<exists>r \<in> set (runes tok). \<not> is_digit U r \<and> r \<noteq> 0x2D then False
      else tok \<noteq> [])"

definition waitForMs :: "unicode \<Rightarrow> string \<Rightarrow> go_locale \<Rightarrow> endpoint_delays \<Rightarrow> int" where
  "waitForMs U text loc d =
     (let p = profileFor loc; toks = tokenize U text in
      if toks = [] then DefaultMs d
      else if last toks \<in> set (lp_hesitation p) then HesitationMs d
      else if isNumericToken U (last toks) p then NumberMs d
      else if last toks \<in> set (lp_incomplete p) then IncompleteMs d
      else if has_suffix (trim_space text) ''?'' then QuestionMs d
      else if hd toks \<in> set (lp_questionLed p) then QuestionMs d
      else DefaultMs d)"

definition isBackchannel :: "unicode \<Rightarrow> string \<Rightarrow> go_locale \<Rightarrow> bool" where
  "isBackchannel U text loc =
     (let p = profileFor loc; toks = tokenize U text in
      if toks = [] \<or> length toks > 3 then False
      else if \<exists>tok \<in> set toks. tok \<notin> set (lp_backchannel p) then False
      else True)"

definition realTextLen :: "string \<Rightarrow> int" where
  "realTextLen text = int (length (filter (\<lambda>r. \<not> is_space r) (runes text)))"

lemma tokenize_nonempty: "[] \<notin> set (tokenize U text)"
  by (simp add: tokenize_def)

lemma waitForMs_cases:
  "waitForMs U text loc d \<in> {HesitationMs d, NumberMs d, IncompleteMs d, QuestionMs d, DefaultMs d}"
  by (simp add: waitForMs_def Let_def)

lemma backchannel_tokens:
  "isBackchannel U text loc \<longleftrightarrow>
     tokenize U text \<noteq> [] \<and> length (tokenize U text) \<le> 3 \<and>
     set (tokenize U text) \<subseteq> set (lp_backchannel (profileFor loc))"
  by (auto simp: isBackchannel_def Let_def)

lemma tokenize_Nil [simp]: "tokenize U [] = []"
  by (simp add: tokenize_def ascii_eval)

lemma isBackchannel_Nil [simp]: "\<not> isBackchannel U [] loc"
  by (simp add: backchannel_tokens)


definition ascii_tables :: unicode where
  "ascii_tables = \<lparr>uc_punct = (\<lambda>r. False), uc_digit = (\<lambda>r. False), uc_letter = (\<lambda>r. False),
     uc_lower = (\<lambda>r. r), uc_upper = (\<lambda>r. r)\<rparr>"

lemma tokenize_demo: "tokenize ascii_tables ''My name is, UM...'' = [''my'', ''name'', ''is''] @ [''um'']"
  by (simp add: tokenize_def ascii_evals)


text \<open>
  A token made of hyphens alone counts as a digit group, so a draft that ends in a
  free-standing dash waits the number-dictation delay in either language.
\<close>

theorem lone_dash_is_numeric:
  "isNumericToken U ''-'' (profileFor loc) \<and>
   waitForMs ascii_tables ''I said no -'' loc d = NumberMs d"
proof -
  have r: "runes ''-'' = [0x2D]" by (simp add: ascii_evals)
  then have n: "isNumericToken U ''-'' (profileFor loc)" for U
    by (simp add: isNumericToken_def)
  have t: "tokenize ascii_tables ''I said no -'' = [''i'', ''said'', ''no'', ''-'']"
    by (simp add: tokenize_def ascii_evals)
  have "''-'' \<notin> set (lp_hesitation (profileFor loc))"
    by (simp add: profileFor_def profileEN_def profileFR_def)
  with n t show ?thesis by (simp add: waitForMs_def)
qed

end
