(* ===== verification/Playout.thy ===== *)
theory Playout
  imports Go_Text
begin

text \<open>
  \<open>internal/turn/playout.go\<close>: the \<open>PlayoutTracker\<close> reconciles what was written to the line with
  what the caller heard. Times are milliseconds of one utterance, far below the 64-bit range, and
  modelled as integers.
\<close>

record word_timing =
  wt_word :: string
  wt_start :: int
  wt_end :: int

record chunk =
  ck_pcm :: string
  ck_duration :: int
  ck_words :: "word_timing list"

record playout_tracker =
  pt_offset :: int
  pt_written :: int
  pt_words :: "word_timing list"

definition NewPlayoutTracker :: "int \<Rightarrow> playout_tracker" where
  "NewPlayoutTracker off = \<lparr>pt_offset = off, pt_written = 0, pt_words = []\<rparr>"

definition AddChunk :: "chunk \<Rightarrow> playout_tracker \<Rightarrow> playout_tracker" where
  "AddChunk c t =
     t\<lparr>pt_words := pt_words t @
         map (\<lambda>w. \<lparr>wt_word = wt_word w, wt_start = wt_start w + pt_written t, wt_end = wt_end w + pt_written t\<rparr>)
           (ck_words c),
       pt_written := pt_written t + ck_duration c\<rparr>"

definition WrittenMs :: "playout_tracker \<Rightarrow> int" where "WrittenMs t = pt_written t"

definition FullText :: "playout_tracker \<Rightarrow> string" where
  "FullText t = str_join (map wt_word (pt_words t)) '' ''"

definition em_dash :: string where "em_dash = encode_rune 0x2014"

definition heard_words :: "playout_tracker \<Rightarrow> int \<Rightarrow> word_timing list" where
  "heard_words t played =
     (let heard = (if played - pt_offset t < 0 then 0 else played - pt_offset t) in
      takeWhile (\<lambda>w. \<not> wt_end w > heard) (pt_words t))"

definition Spoken :: "playout_tracker \<Rightarrow> int \<Rightarrow> string \<times> bool" where
  "Spoken t played =
     (let parts = map wt_word (heard_words t played);
          cut = (length parts < length (pt_words t));
          text = str_join parts '' ''
      in ((if cut then if text = [] then em_dash else text @ '' '' @ em_dash else text), cut))"

text \<open>Timings as the provider documents them: words in order, inside their chunk.\<close>

definition chunk_ok :: "chunk \<Rightarrow> bool" where
  "chunk_ok c \<longleftrightarrow>
     sorted (map wt_end (ck_words c)) \<and> (\<forall>w \<in> set (ck_words c). 0 \<le> wt_end w \<and> wt_end w \<le> ck_duration c) \<and>
     0 \<le> ck_duration c"

definition play_chunks :: "chunk list \<Rightarrow> playout_tracker \<Rightarrow> playout_tracker" where
  "play_chunks cs t = fold AddChunk cs t"

definition tracker_ok :: "playout_tracker \<Rightarrow> bool" where
  "tracker_ok t \<longleftrightarrow>
     sorted (map wt_end (pt_words t)) \<and> (\<forall>w \<in> set (pt_words t). 0 \<le> wt_end w \<and> wt_end w \<le> pt_written t) \<and>
     0 \<le> pt_written t"

lemma tracker_ok_New [simp]: "tracker_ok (NewPlayoutTracker off)"
  by (simp add: tracker_ok_def NewPlayoutTracker_def)

lemma tracker_ok_AddChunk:
  assumes "tracker_ok t" "chunk_ok c"
  shows "tracker_ok (AddChunk c t)"
proof -
  have e: "map wt_end (pt_words (AddChunk c t)) =
      map wt_end (pt_words t) @ map (\<lambda>x. x + pt_written t) (map wt_end (ck_words c))"
    by (simp add: AddChunk_def)
  have "sorted (map (\<lambda>x. x + pt_written t) (map wt_end (ck_words c)))"
    using assms(2) by (simp add: chunk_ok_def sorted_map)
  then have "sorted (map wt_end (pt_words (AddChunk c t)))"
    unfolding e using assms by (fastforce simp: sorted_append tracker_ok_def chunk_ok_def)
  moreover have "0 \<le> wt_end w \<and> wt_end w \<le> pt_written (AddChunk c t)" if "w \<in> set (pt_words (AddChunk c t))" for w
    using that assms by (fastforce simp: AddChunk_def tracker_ok_def chunk_ok_def)
  moreover have "0 \<le> pt_written (AddChunk c t)"
    using assms by (simp add: AddChunk_def tracker_ok_def chunk_ok_def)
  ultimately show ?thesis by (simp add: tracker_ok_def)
qed

lemma tracker_ok_play: "tracker_ok t \<Longrightarrow> \<forall>c \<in> set cs. chunk_ok c \<Longrightarrow> tracker_ok (play_chunks cs t)"
proof (induction cs arbitrary: t)
  case (Cons c cs)
  from Cons.IH [of "AddChunk c t"] Cons.prems tracker_ok_AddChunk show ?case
    by (simp add: play_chunks_def)
qed (simp add: play_chunks_def)

lemma AddChunk_offset [simp]: "pt_offset (AddChunk c t) = pt_offset t"
  by (simp add: AddChunk_def)

lemma play_chunks_offset: "pt_offset (play_chunks cs t) = pt_offset t"
  by (induction cs arbitrary: t) (simp_all add: play_chunks_def)

lemma takeWhile_sorted_filter:
  fixes f :: "'a \<Rightarrow> int"
  shows "sorted (map f xs) \<Longrightarrow> takeWhile (\<lambda>x. \<not> f x > b) xs = filter (\<lambda>x. f x \<le> b) xs"
proof (induction xs)
  case (Cons x xs)
  show ?case
  proof (cases "f x \<le> b")
    case True
    with Cons show ?thesis by simp
  next
    case False
    with Cons.prems have "\<forall>y \<in> set xs. \<not> f y \<le> b" by fastforce
    with False show ?thesis by (simp add: filter_empty_conv)
  qed
qed simp

lemma Spoken_played:
  assumes "\<forall>w \<in> set (pt_words t). wt_end w \<le> max 0 (played - pt_offset t)"
  shows "Spoken t played = (FullText t, False)"
proof -
  have "heard_words t played = pt_words t"
    using assms by (auto simp: heard_words_def Let_def max_def not_less split: if_splits)
  then show ?thesis by (simp add: Spoken_def FullText_def)
qed

lemma heard_prefix: "\<exists>rest. pt_words t = heard_words t played @ rest"
  unfolding heard_words_def Let_def by (metis takeWhile_dropWhile_id)

lemma Spoken_cut_iff: "snd (Spoken t played) \<longleftrightarrow> heard_words t played \<noteq> pt_words t"
proof -
  obtain rest where r: "pt_words t = heard_words t played @ rest" using heard_prefix by blast
  have "length (heard_words t played) < length (pt_words t) \<longleftrightarrow> rest \<noteq> []"
    by (subst r) simp
  moreover have "heard_words t played = pt_words t \<longleftrightarrow> rest = []" by (subst r) simp
  ultimately show ?thesis by (simp add: Spoken_def Let_def)
qed

text \<open>
  For chunks with documented timings, the history text after a given playout is made of
  exactly the words whose end lies within the heard time (the playout less the written-to-heard
  offset), closed by the cut mark precisely when a word is missing; once everything written has
  been heard it is the full text without a mark.
\<close>

theorem spoken_is_what_was_heard:
  assumes "\<forall>c \<in> set cs. chunk_ok c" and "t = play_chunks cs (NewPlayoutTracker off)"
  shows "heard_words t played = filter (\<lambda>w. wt_end w \<le> max 0 (played - off)) (pt_words t) \<and>
         (snd (Spoken t played) \<longleftrightarrow> (\<exists>w \<in> set (pt_words t). max 0 (played - off) < wt_end w)) \<and>
         (WrittenMs t + off \<le> played \<longrightarrow> Spoken t played = (FullText t, False))"
proof -
  have k: "tracker_ok t" using tracker_ok_play [OF tracker_ok_New assms(1)] assms(2) by simp
  have o: "pt_offset t = off" using assms(2) by (simp add: play_chunks_offset NewPlayoutTracker_def)
  have s: "sorted (map wt_end (pt_words t))" using k by (simp add: tracker_ok_def)
  have h: "heard_words t played = filter (\<lambda>w. wt_end w \<le> max 0 (played - off)) (pt_words t)"
    using takeWhile_sorted_filter [OF s, of "max 0 (played - off)"]
    by (auto simp: heard_words_def o Let_def max_def)
  moreover have "snd (Spoken t played) \<longleftrightarrow> (\<exists>w \<in> set (pt_words t). max 0 (played - off) < wt_end w)"
    unfolding Spoken_cut_iff h filter_id_conv by (auto simp: not_le)
  moreover have "Spoken t played = (FullText t, False)" if "WrittenMs t + off \<le> played"
  proof (rule Spoken_played)
    have "wt_end w \<le> pt_written t" if "w \<in> set (pt_words t)" for w
      using that k by (simp add: tracker_ok_def)
    moreover have "pt_written t \<le> max 0 (played - pt_offset t)"
      using that by (simp add: WrittenMs_def o)
    ultimately show "\<forall>w \<in> set (pt_words t). wt_end w \<le> max 0 (played - pt_offset t)"
      by (meson order.trans)
  qed
  ultimately show ?thesis by blast
qed

definition timed :: "string \<Rightarrow> int \<Rightarrow> word_timing" where
  "timed w e = \<lparr>wt_word = w, wt_start = 0, wt_end = e\<rparr>"

definition two_words :: chunk where
  "two_words = \<lparr>ck_pcm = [], ck_duration = 400, ck_words = [timed ''hello'' 200, timed ''there'' 400]\<rparr>"

theorem spoken_is_what_was_heard_witness:
  "Spoken (play_chunks [two_words, two_words] (NewPlayoutTracker 150)) 780 = (''hello there hello '' @ em_dash, True) \<and>
   Spoken (play_chunks [two_words, two_words] (NewPlayoutTracker 150)) 950 = (''hello there hello there'', False)"
proof -
  have "\<forall>c \<in> set [two_words, two_words]. chunk_ok c" by (simp add: two_words_def chunk_ok_def timed_def)
  from spoken_is_what_was_heard [OF this refl, of 150 950] show ?thesis
    by (simp add: play_chunks_def AddChunk_def NewPlayoutTracker_def two_words_def timed_def WrittenMs_def
        FullText_def Spoken_def heard_words_def)
qed

end
