(* ===== verification/Turn_Machine.thy ===== *)
theory Turn_Machine
  imports Media Audiobank Endpointing Playout
begin

text \<open>
  \<open>internal/turn/machine.go\<close> (with \<open>config.go\<close> and \<open>turn.go\<close>): the turn state machine of one
  call. \<open>Run\<close> is a select loop, so one event of the loop is one step: a frame, a recognizer
  result, a chunk, the filler timer, a closed channel or the end of the context. Every handler is
  a function from the machine to the machine; what it asks of a collaborator is an effect of the
  log, and what a collaborator answers is the \<open>outcomes\<close> of the step. A turn's context is the
  number of the turn, and the channels and the timer of a turn carry that number. The media clock
  is an integer: it advances 20 per frame and stays far below 64 bits.
\<close>

section \<open>Configuration and state\<close>

datatype turn_state = StListening | StEndpointing | StThinking | StSpeaking

fun state_string :: "turn_state \<Rightarrow> string" where
  "state_string StListening = ''stListening''"
| "state_string StEndpointing = ''stEndpointing''"
| "state_string StThinking = ''stThinking''"
| "state_string StSpeaking = ''stSpeaking''"

record result =
  rs_text :: string
  rs_final :: bool
  rs_locale :: go_locale
  rs_confidence :: rat

record config =
  cf_locale :: go_locale
  cf_endpoint :: endpoint_delays
  cf_min_barge :: int
  cf_confirm_window :: int
  cf_filler_after :: int
  cf_filler_key :: clip_key
  cf_offset :: int
  cf_meter :: "(meter \<Rightarrow> meter) list"

definition defaultConfig :: config where
  "defaultConfig =
     \<lparr>cf_locale = LocaleENCA, cf_endpoint = DefaultEndpointDelays, cf_min_barge = 6,
      cf_confirm_window = 700, cf_filler_after = 600 * 1000000, cf_filler_key = KeyOneMoment,
      cf_offset = 150, cf_meter = []\<rparr>"

definition WithLocale :: "go_locale \<Rightarrow> config \<Rightarrow> config" where
  "WithLocale loc c = c\<lparr>cf_locale := loc\<rparr>"
definition WithEndpointDelays :: "endpoint_delays \<Rightarrow> config \<Rightarrow> config" where
  "WithEndpointDelays d c = c\<lparr>cf_endpoint := d\<rparr>"
definition WithMinBargeChars :: "int \<Rightarrow> config \<Rightarrow> config" where
  "WithMinBargeChars n c = c\<lparr>cf_min_barge := n\<rparr>"
definition WithConfirmWindowMs :: "int \<Rightarrow> config \<Rightarrow> config" where
  "WithConfirmWindowMs ms c = c\<lparr>cf_confirm_window := ms\<rparr>"
definition WithFillerAfter :: "int \<Rightarrow> config \<Rightarrow> config" where
  "WithFillerAfter d c = c\<lparr>cf_filler_after := d\<rparr>"
definition WithFillerKey :: "clip_key \<Rightarrow> config \<Rightarrow> config" where
  "WithFillerKey k c = c\<lparr>cf_filler_key := k\<rparr>"
definition WithPlayoutOffsetMs :: "int \<Rightarrow> config \<Rightarrow> config" where
  "WithPlayoutOffsetMs ms c = c\<lparr>cf_offset := ms\<rparr>"
definition WithMeterOptions :: "(meter \<Rightarrow> meter) list \<Rightarrow> config \<Rightarrow> config" where
  "WithMeterOptions opts c = c\<lparr>cf_meter := opts\<rparr>"

text \<open>What the machine does to its collaborators and hooks, in order.\<close>

datatype effect =
    SendFrame frame
  | AgentReply nat string go_locale
  | TTSSpeak nat
  | CancelTurn nat
  | StartTimer nat int
  | StopTimer nat
  | PlayWrite string int
  | PlayDuck bool
  | PlayFlush
  | HookStateChange turn_state turn_state
  | HookUserTurn string go_locale
  | HookAgentTurn string bool
  | HookFiller clip_key
  | HookLanguageSwitch go_locale go_locale
  | HookDucking bool
  | HookBargeIn string
  | HookError string gerr

record machine =
  mc_cfg :: config
  mc_meter :: meter
  mc_state :: turn_state
  mc_media :: int
  mc_last_speech :: int
  mc_prev_speaking :: bool
  mc_locale :: go_locale
  mc_carry :: string
  mc_finals :: "string list"
  mc_last_part :: string
  mc_turn_cancel :: "nat option"
  mc_stt_ch :: bool
  mc_tts_ch :: "nat option"
  mc_filler_timer :: "nat option"
  mc_filler_c :: "nat option"
  mc_tracker :: "playout_tracker option"
  mc_tts_done :: bool
  mc_speak_start :: int
  mc_ducked :: bool
  mc_duck_start :: int
  mc_turns :: nat
  mc_log :: "effect list"

text \<open>The tables, the loudness function and the clip bank of a call; what the calls of a step return.\<close>

record call_env =
  en_unicode :: unicode
  en_db :: "int \<Rightarrow> nat \<Rightarrow> rat"
  en_clips :: bank

record outcomes =
  oc_send :: "gerr option"
  oc_reply :: "gerr option"
  oc_speak :: "gerr option"
  oc_write :: "gerr option"
  oc_flush :: "gerr option"

definition NewMachine :: "(config \<Rightarrow> config) list \<Rightarrow> machine" where
  "NewMachine opts =
     (let cfg = fold (\<lambda>f c. f c) opts defaultConfig in
      \<lparr>mc_cfg = cfg, mc_meter = NewMeter (cf_meter cfg), mc_state = StListening, mc_media = 0,
       mc_last_speech = 0, mc_prev_speaking = False, mc_locale = cf_locale cfg, mc_carry = [],
       mc_finals = [], mc_last_part = [], mc_turn_cancel = None, mc_stt_ch = False,
       mc_tts_ch = None, mc_filler_timer = None, mc_filler_c = None, mc_tracker = None,
       mc_tts_done = False, mc_speak_start = 0, mc_ducked = False, mc_duck_start = 0,
       mc_turns = 0, mc_log = []\<rparr>)"

definition emit :: "effect \<Rightarrow> machine \<Rightarrow> machine" where
  "emit e m = m\<lparr>mc_log := mc_log m @ [e]\<rparr>"

definition hook_err :: "string \<Rightarrow> gerr option \<Rightarrow> machine \<Rightarrow> machine" where
  "hook_err stage r m = (case r of None \<Rightarrow> m | Some e \<Rightarrow> emit (HookError stage e) m)"

section \<open>Plumbing\<close>

definition set_state :: "turn_state \<Rightarrow> machine \<Rightarrow> machine" where
  "set_state s m =
     (if mc_state m \<noteq> s then emit (HookStateChange (mc_state m) s) (m\<lparr>mc_state := s\<rparr>) else m)"

definition stop_filler :: "machine \<Rightarrow> machine" where
  "stop_filler m =
     (case mc_filler_timer m of
        Some i \<Rightarrow> (emit (StopTimer i) m)\<lparr>mc_filler_timer := None, mc_filler_c := None\<rparr>
      | None \<Rightarrow> m\<lparr>mc_filler_c := None\<rparr>)"

definition cancel_turn :: "machine \<Rightarrow> machine" where
  "cancel_turn m =
     stop_filler ((case mc_turn_cancel m of
        Some i \<Rightarrow> (emit (CancelTurn i) m)\<lparr>mc_turn_cancel := None\<rparr>
      | None \<Rightarrow> m)\<lparr>mc_tts_ch := None, mc_tts_done := False\<rparr>)"

definition duck :: "bool \<Rightarrow> machine \<Rightarrow> machine" where
  "duck on m =
     (let m = m\<lparr>mc_ducked := on\<rparr>;
          m = (if on then m\<lparr>mc_duck_start := mc_media m\<rparr> else m)
      in emit (HookDucking on) (emit (PlayDuck on) m))"

section \<open>The draft of the user turn\<close>

definition absorb :: "result \<Rightarrow> machine \<Rightarrow> machine" where
  "absorb r m =
     (if rs_final r then m\<lparr>mc_finals := mc_finals m @ [trim_space (rs_text r)], mc_last_part := []\<rparr>
      else m\<lparr>mc_last_part := trim_space (rs_text r)\<rparr>)"

definition draft :: "machine \<Rightarrow> string" where
  "draft m =
     trim_space (str_join
       ((if mc_carry m \<noteq> [] then [mc_carry m] else []) @ mc_finals m @
        (if mc_last_part m \<noteq> [] then [mc_last_part m] else [])) '' '')"

definition has_draft :: "machine \<Rightarrow> bool" where
  "has_draft m \<longleftrightarrow> draft m \<noteq> []"

definition reset_draft :: "machine \<Rightarrow> machine" where
  "reset_draft m = m\<lparr>mc_carry := [], mc_finals := [], mc_last_part := []\<rparr>"

section \<open>Agent turns\<close>

definition fail_turn :: "call_env \<Rightarrow> outcomes \<Rightarrow> machine \<Rightarrow> machine" where
  "fail_turn E oc m =
     (let m = cancel_turn m;
          m = (case bank_Lookup (en_clips E) KeyTechnicalIssue (mc_locale m) of
                 Inr c \<Rightarrow> hook_err ''playback'' (oc_write oc) (emit (PlayWrite (cl_audio c) (cl_duration_ms c)) m)
               | Inl e \<Rightarrow> m)
      in set_state StListening m)"

definition start_agent_turn :: "call_env \<Rightarrow> outcomes \<Rightarrow> string \<Rightarrow> machine \<Rightarrow> machine" where
  "start_agent_turn E oc txt m =
     (let i = mc_turns m;
          m = m\<lparr>mc_turns := i + 1, mc_turn_cancel := Some i\<rparr>;
          m = emit (AgentReply i txt (mc_locale m)) m
      in case oc_reply oc of
           Some e \<Rightarrow> fail_turn E oc (emit (HookError ''agent'' e) m)
         | None \<Rightarrow>
           (let m = emit (TTSSpeak i) m in
            case oc_speak oc of
              Some e \<Rightarrow> fail_turn E oc (emit (HookError ''tts'' e) m)
            | None \<Rightarrow>
              set_state StThinking
                ((emit (StartTimer i (cf_filler_after (mc_cfg m))) m)
                   \<lparr>mc_tts_ch := Some i, mc_tts_done := False,
                    mc_tracker := Some (NewPlayoutTracker (cf_offset (mc_cfg m))),
                    mc_filler_timer := Some i, mc_filler_c := Some i\<rparr>)))"

definition finalize_user_turn :: "call_env \<Rightarrow> outcomes \<Rightarrow> machine \<Rightarrow> machine" where
  "finalize_user_turn E oc m =
     (let txt = draft m in
      if txt = [] then set_state StListening m
      else start_agent_turn E oc txt
             ((emit (HookUserTurn txt (mc_locale m)) m)
                \<lparr>mc_carry := txt, mc_finals := [], mc_last_part := []\<rparr>))"

definition rethink :: "machine \<Rightarrow> machine" where
  "rethink m = set_state StListening (cancel_turn m)"

definition played_ms :: "machine \<Rightarrow> int" where
  "played_ms m =
     (let played = mc_media m - mc_speak_start m in
      case mc_tracker m of
        Some t \<Rightarrow> if played > WrittenMs t then WrittenMs t else played
      | None \<Rightarrow> played)"

definition complete_agent_turn :: "machine \<Rightarrow> machine" where
  "complete_agent_turn m =
     (let txt = (case mc_tracker m of
                   Some t \<Rightarrow> fst (Spoken t (played_ms m + cf_offset (mc_cfg m)))
                 | None \<Rightarrow> [])
      in set_state StListening (reset_draft (emit (HookAgentTurn txt False) (cancel_turn m))))"

definition maybe_finish_speaking :: "machine \<Rightarrow> machine" where
  "maybe_finish_speaking m =
     (if \<not> mc_tts_done m then m
      else case mc_tracker m of
             None \<Rightarrow> m
           | Some t \<Rightarrow> if played_ms m \<ge> WrittenMs t then complete_agent_turn m else m)"

section \<open>Events of the loop\<close>

definition frame_clock :: "call_env \<Rightarrow> outcomes \<Rightarrow> frame \<Rightarrow> machine \<Rightarrow> machine \<times> bool \<times> bool" where
  "frame_clock E oc f m =
     (let m = m\<lparr>mc_media := mc_media m + FrameMs\<rparr>;
          m = hook_err ''stt'' (oc_send oc) (emit (SendFrame f) m);
          (speaking, mt) = meter_process (en_db E) f (mc_meter m);
          onset = (speaking \<and> \<not> mc_prev_speaking m);
          m = m\<lparr>mc_meter := mt, mc_prev_speaking := speaking\<rparr>;
          m = (if speaking then m\<lparr>mc_last_speech := mc_media m\<rparr> else m)
      in (m, speaking, onset))"

definition on_frame :: "call_env \<Rightarrow> outcomes \<Rightarrow> frame \<Rightarrow> machine \<Rightarrow> machine" where
  "on_frame E oc f m0 =
     (case frame_clock E oc f m0 of (m, speaking, onset) \<Rightarrow>
      (case mc_state m of
         StListening \<Rightarrow>
           (if has_draft m \<and> \<not> speaking \<and> mc_media m > mc_last_speech m
            then set_state StEndpointing m else m)
       | StEndpointing \<Rightarrow>
           (if speaking then set_state StListening m
            else if mc_media m - mc_last_speech m
                      \<ge> waitForMs (en_unicode E) (draft m) (mc_locale m) (cf_endpoint (mc_cfg m))
            then finalize_user_turn E oc m else m)
       | StThinking \<Rightarrow> (if onset then rethink m else m)
       | StSpeaking \<Rightarrow>
           (let m = (if onset \<and> \<not> mc_ducked m then duck True m else m);
                m = (if mc_ducked m \<and> mc_media m - mc_duck_start m \<ge> cf_confirm_window (mc_cfg m)
                     then duck False m else m)
            in maybe_finish_speaking m)))"

definition confirm_barge_in :: "call_env \<Rightarrow> outcomes \<Rightarrow> result \<Rightarrow> machine \<Rightarrow> machine" where
  "confirm_barge_in E oc r m =
     (let played = played_ms m;
          (txt, cut) = (case mc_tracker m of Some t \<Rightarrow> Spoken t played | None \<Rightarrow> ([], True));
          txt = (if \<not> cut then trim_space (txt @ '' '' @ em_dash) else txt);
          m = cancel_turn m;
          m = hook_err ''playback'' (oc_flush oc) (emit PlayFlush m);
          m = (if mc_ducked m then duck False m else m);
          m = emit (HookBargeIn (rs_text r)) (emit (HookAgentTurn txt True) m);
          m = absorb r (reset_draft m)
      in set_state StListening (m\<lparr>mc_last_speech := mc_media m\<rparr>))"

definition on_speaking_stt :: "call_env \<Rightarrow> outcomes \<Rightarrow> result \<Rightarrow> machine \<Rightarrow> machine" where
  "on_speaking_stt E oc r m =
     (if isBackchannel (en_unicode E) (rs_text r) (mc_locale m)
      then if mc_ducked m then duck False m else m
      else if realTextLen (rs_text r) < cf_min_barge (mc_cfg m) then m
      else confirm_barge_in E oc r m)"

definition switch_locale :: "result \<Rightarrow> machine \<Rightarrow> machine" where
  "switch_locale r m =
     (if rs_locale r \<noteq> [] \<and> rs_locale r \<noteq> mc_locale m
      then emit (HookLanguageSwitch (mc_locale m) (rs_locale r)) (m\<lparr>mc_locale := rs_locale r\<rparr>)
      else m)"

definition on_stt :: "call_env \<Rightarrow> outcomes \<Rightarrow> result \<Rightarrow> machine \<Rightarrow> machine" where
  "on_stt E oc r m0 =
     (let m = switch_locale r m0 in
      if trim_space (rs_text r) = [] then m
      else case mc_state m of
             StThinking \<Rightarrow>
               (if isBackchannel (en_unicode E) (rs_text r) (mc_locale m) then m
                else let m = absorb r (rethink m) in m\<lparr>mc_last_speech := mc_media m\<rparr>)
           | StSpeaking \<Rightarrow> on_speaking_stt E oc r m
           | _ \<Rightarrow>
               (let m = absorb r m; m = m\<lparr>mc_last_speech := mc_media m\<rparr> in
                if mc_state m = StEndpointing then set_state StListening m else m))"

text \<open>The chunk is added to the tracker of the turn; without a tracker the call dereferences nil.\<close>

definition on_chunk :: "outcomes \<Rightarrow> chunk \<Rightarrow> machine \<Rightarrow> machine option" where
  "on_chunk oc c m0 =
     (let m = (if mc_state m0 = StThinking
               then let m = stop_filler m0 in set_state StSpeaking (m\<lparr>mc_speak_start := mc_media m\<rparr>)
               else m0)
      in case mc_tracker m of
           None \<Rightarrow> None
         | Some t \<Rightarrow>
             Some (hook_err ''playback'' (oc_write oc)
               (emit (PlayWrite (ck_pcm c) (ck_duration c)) (m\<lparr>mc_tracker := Some (AddChunk c t)\<rparr>))))"

definition on_chunks_closed :: "machine \<Rightarrow> machine" where
  "on_chunks_closed m0 =
     (let m = m0\<lparr>mc_tts_ch := None, mc_tts_done := True\<rparr> in
      if mc_state m = StThinking then complete_agent_turn m else m)"

definition on_filler :: "call_env \<Rightarrow> outcomes \<Rightarrow> machine \<Rightarrow> machine" where
  "on_filler E oc m0 =
     (let m = m0\<lparr>mc_filler_c := None\<rparr> in
      if mc_state m \<noteq> StThinking then m
      else case bank_Lookup (en_clips E) (cf_filler_key (mc_cfg m)) (mc_locale m) of
             Inl e \<Rightarrow> emit (HookError ''audiobank'' e) m
           | Inr c \<Rightarrow>
               emit (HookFiller (cf_filler_key (mc_cfg m)))
                 (hook_err ''playback'' (oc_write oc) (emit (PlayWrite (cl_audio c) (cl_duration_ms c)) m)))"

datatype loop_event =
    EvCtxDone gerr
  | EvFrame frame
  | EvFramesClosed
  | EvSTT result
  | EvSTTClosed
  | EvChunk chunk
  | EvChunksClosed
  | EvFiller

datatype loop_result =
    Loop machine
  | Return "gerr option" machine
  | Panic

text \<open>A nil channel is never ready, so a case of the select needs its channel.\<close>

fun ready :: "loop_event \<Rightarrow> machine \<Rightarrow> bool" where
  "ready (EvSTT r) m = mc_stt_ch m"
| "ready EvSTTClosed m = mc_stt_ch m"
| "ready (EvChunk c) m = (mc_tts_ch m \<noteq> None)"
| "ready EvChunksClosed m = (mc_tts_ch m \<noteq> None)"
| "ready EvFiller m = (mc_filler_c m \<noteq> None)"
| "ready _ m = True"

fun run_event :: "call_env \<Rightarrow> outcomes \<Rightarrow> loop_event \<Rightarrow> machine \<Rightarrow> loop_result" where
  "run_event E oc (EvCtxDone e) m = Return (Some e) (cancel_turn m)"
| "run_event E oc EvFramesClosed m = Return None (cancel_turn m)"
| "run_event E oc (EvFrame f) m = Loop (on_frame E oc f m)"
| "run_event E oc EvSTTClosed m = Loop (m\<lparr>mc_stt_ch := False\<rparr>)"
| "run_event E oc (EvSTT r) m = Loop (on_stt E oc r m)"
| "run_event E oc (EvChunk c) m = (case on_chunk oc c m of Some m' \<Rightarrow> Loop m' | None \<Rightarrow> Panic)"
| "run_event E oc EvChunksClosed m = Loop (on_chunks_closed m)"
| "run_event E oc EvFiller m = Loop (on_filler E oc m)"

definition run_start :: "machine \<Rightarrow> machine" where
  "run_start m = (set_state StListening m)\<lparr>mc_stt_ch := True\<rparr>"

text \<open>\<open>Run\<close> on the events the select takes in turn; one that is not ready is not taken.\<close>

fun run_loop :: "call_env \<Rightarrow> (outcomes \<times> loop_event) list \<Rightarrow> machine \<Rightarrow> loop_result" where
  "run_loop E [] m = Loop m"
| "run_loop E ((oc, ev) # evs) m =
     (if ready ev m
      then (case run_event E oc ev m of Loop m' \<Rightarrow> run_loop E evs m' | r \<Rightarrow> r)
      else run_loop E evs m)"

definition Run :: "call_env \<Rightarrow> (outcomes \<times> loop_event) list \<Rightarrow> machine \<Rightarrow> loop_result" where
  "Run E evs m = run_loop E evs (run_start m)"

end
