(* ===== verification/Turn_Laws.thy ===== *)
theory Turn_Laws
  imports Turn_Machine
begin

text \<open>
  What the turn machine keeps: the control invariant (context, channels, timer and tracker agree
  with the state), the accounting of contexts, the path of states through the allowed edges, and
  the behaviour of each handler.
\<close>

section \<open>Invariants\<close>

definition active :: "machine \<Rightarrow> bool" where
  "active m \<longleftrightarrow> mc_state m = StThinking \<or> mc_state m = StSpeaking"

definition ctl_inv :: "machine \<Rightarrow> bool" where
  "ctl_inv m \<longleftrightarrow>
     (active m \<longleftrightarrow> mc_turn_cancel m \<noteq> None) \<and>
     (active m \<longrightarrow> mc_tracker m \<noteq> None) \<and>
     (mc_tts_ch m \<noteq> None \<longrightarrow> mc_tts_ch m = mc_turn_cancel m) \<and>
     (\<not> active m \<longrightarrow> \<not> mc_tts_done m) \<and>
     (active m \<longrightarrow> (mc_tts_done m \<longleftrightarrow> mc_tts_ch m = None)) \<and>
     (mc_filler_c m \<noteq> None \<longrightarrow> mc_filler_timer m = mc_filler_c m) \<and>
     (mc_filler_timer m \<noteq> None \<longrightarrow> mc_state m = StThinking) \<and>
     (mc_state m = StThinking \<longrightarrow> \<not> mc_tts_done m)"

definition draft_inv :: "machine \<Rightarrow> bool" where
  "draft_inv m \<longleftrightarrow> (mc_state m = StEndpointing \<longrightarrow> draft m \<noteq> [])"

definition clock_inv :: "machine \<Rightarrow> bool" where
  "clock_inv m \<longleftrightarrow> 0 \<le> mc_last_speech m \<and> mc_last_speech m \<le> mc_media m \<and> mc_speak_start m \<le> mc_media m \<and>
     mc_duck_start m \<le> mc_media m \<and>
     (\<forall>t. mc_tracker m = Some t \<longrightarrow> pt_offset t = cf_offset (mc_cfg m))"

definition opened :: "effect list \<Rightarrow> nat set" where
  "opened l = {i. \<exists>txt loc. AgentReply i txt loc \<in> set l}"

definition cancelled :: "effect list \<Rightarrow> nat set" where
  "cancelled l = {i. CancelTurn i \<in> set l}"

definition ctx_inv :: "machine \<Rightarrow> bool" where
  "ctx_inv m \<longleftrightarrow>
     opened (mc_log m) = {..<mc_turns m} \<and>
     {..<mc_turns m} = cancelled (mc_log m) \<union> set_option (mc_turn_cancel m) \<and>
     set_option (mc_turn_cancel m) \<inter> cancelled (mc_log m) = {}"

definition edges :: "(turn_state \<times> turn_state) set" where
  "edges = {(StListening, StEndpointing), (StEndpointing, StListening), (StEndpointing, StThinking),
            (StThinking, StListening), (StThinking, StSpeaking), (StSpeaking, StListening)}"

fun state_path :: "turn_state \<Rightarrow> effect list \<Rightarrow> turn_state option" where
  "state_path s [] = Some s"
| "state_path s (HookStateChange a b # l) = (if a = s \<and> (a, b) \<in> edges then state_path b l else None)"
| "state_path s (e # l) = state_path s l"

definition path_inv :: "machine \<Rightarrow> bool" where
  "path_inv m \<longleftrightarrow> state_path StListening (mc_log m) = Some (mc_state m)"

lemma state_path_append:
  "state_path s (l @ l') = Option.bind (state_path s l) (\<lambda>t. state_path t l')"
  by (induction s l rule: state_path.induct) auto

lemma opened_simps [simp]:
  "opened [] = {}" "opened (l @ l') = opened l \<union> opened l'"
  "opened (AgentReply i txt loc # l) = insert i (opened l)"
  "\<forall>i txt loc. e \<noteq> AgentReply i txt loc \<Longrightarrow> opened (e # l) = opened l"
  by (auto simp: opened_def)

lemma cancelled_simps [simp]:
  "cancelled [] = {}" "cancelled (l @ l') = cancelled l \<union> cancelled l'"
  "cancelled (CancelTurn i # l) = insert i (cancelled l)"
  "\<forall>i. e \<noteq> CancelTurn i \<Longrightarrow> cancelled (e # l) = cancelled l"
  by (auto simp: cancelled_def)

section \<open>Frame rules of the helpers\<close>

text \<open>What the helpers append to the log.\<close>

definition timer_log :: "machine \<Rightarrow> effect list" where
  "timer_log m = (case mc_filler_timer m of None \<Rightarrow> [] | Some i \<Rightarrow> [StopTimer i])"

definition cancel_log :: "machine \<Rightarrow> effect list" where
  "cancel_log m = (case mc_turn_cancel m of None \<Rightarrow> [] | Some i \<Rightarrow> [CancelTurn i])"

definition move_log :: "machine \<Rightarrow> turn_state \<Rightarrow> effect list" where
  "move_log m s = (if mc_state m = s then [] else [HookStateChange (mc_state m) s])"

definition err_log :: "string \<Rightarrow> gerr option \<Rightarrow> effect list" where
  "err_log s r = (case r of None \<Rightarrow> [] | Some e \<Rightarrow> [HookError s e])"

text \<open>\<open>emit\<close> and \<open>hook_err\<close> only extend the log.\<close>

lemma emit_frame [simp]:
  "mc_cfg (emit e m) = mc_cfg m" "mc_meter (emit e m) = mc_meter m" "mc_state (emit e m) = mc_state m"
  "mc_media (emit e m) = mc_media m" "mc_last_speech (emit e m) = mc_last_speech m"
  "mc_prev_speaking (emit e m) = mc_prev_speaking m" "mc_locale (emit e m) = mc_locale m"
  "mc_carry (emit e m) = mc_carry m" "mc_finals (emit e m) = mc_finals m"
  "mc_last_part (emit e m) = mc_last_part m" "mc_turn_cancel (emit e m) = mc_turn_cancel m"
  "mc_stt_ch (emit e m) = mc_stt_ch m" "mc_tts_ch (emit e m) = mc_tts_ch m"
  "mc_filler_timer (emit e m) = mc_filler_timer m" "mc_filler_c (emit e m) = mc_filler_c m"
  "mc_tracker (emit e m) = mc_tracker m" "mc_tts_done (emit e m) = mc_tts_done m"
  "mc_speak_start (emit e m) = mc_speak_start m" "mc_ducked (emit e m) = mc_ducked m"
  "mc_duck_start (emit e m) = mc_duck_start m" "mc_turns (emit e m) = mc_turns m"
  "mc_log (emit e m) = mc_log m @ [e]"
  by (simp_all add: emit_def)

lemma hook_err_frame [simp]:
  "mc_cfg (hook_err s r m) = mc_cfg m" "mc_meter (hook_err s r m) = mc_meter m"
  "mc_state (hook_err s r m) = mc_state m" "mc_media (hook_err s r m) = mc_media m"
  "mc_last_speech (hook_err s r m) = mc_last_speech m"
  "mc_prev_speaking (hook_err s r m) = mc_prev_speaking m" "mc_locale (hook_err s r m) = mc_locale m"
  "mc_carry (hook_err s r m) = mc_carry m" "mc_finals (hook_err s r m) = mc_finals m"
  "mc_last_part (hook_err s r m) = mc_last_part m" "mc_turn_cancel (hook_err s r m) = mc_turn_cancel m"
  "mc_stt_ch (hook_err s r m) = mc_stt_ch m" "mc_tts_ch (hook_err s r m) = mc_tts_ch m"
  "mc_filler_timer (hook_err s r m) = mc_filler_timer m" "mc_filler_c (hook_err s r m) = mc_filler_c m"
  "mc_tracker (hook_err s r m) = mc_tracker m" "mc_tts_done (hook_err s r m) = mc_tts_done m"
  "mc_speak_start (hook_err s r m) = mc_speak_start m" "mc_ducked (hook_err s r m) = mc_ducked m"
  "mc_duck_start (hook_err s r m) = mc_duck_start m" "mc_turns (hook_err s r m) = mc_turns m"
  by (simp_all add: hook_err_def split: option.splits)

lemma hook_err_log:
  "mc_log (hook_err s r m) = mc_log m @ err_log s r"
  by (simp add: hook_err_def err_log_def split: option.splits)

lemma set_state_frame [simp]:
  "mc_cfg (set_state s m) = mc_cfg m" "mc_meter (set_state s m) = mc_meter m"
  "mc_state (set_state s m) = s" "mc_media (set_state s m) = mc_media m"
  "mc_last_speech (set_state s m) = mc_last_speech m"
  "mc_prev_speaking (set_state s m) = mc_prev_speaking m" "mc_locale (set_state s m) = mc_locale m"
  "mc_carry (set_state s m) = mc_carry m" "mc_finals (set_state s m) = mc_finals m"
  "mc_last_part (set_state s m) = mc_last_part m" "mc_turn_cancel (set_state s m) = mc_turn_cancel m"
  "mc_stt_ch (set_state s m) = mc_stt_ch m" "mc_tts_ch (set_state s m) = mc_tts_ch m"
  "mc_filler_timer (set_state s m) = mc_filler_timer m" "mc_filler_c (set_state s m) = mc_filler_c m"
  "mc_tracker (set_state s m) = mc_tracker m" "mc_tts_done (set_state s m) = mc_tts_done m"
  "mc_speak_start (set_state s m) = mc_speak_start m" "mc_ducked (set_state s m) = mc_ducked m"
  "mc_duck_start (set_state s m) = mc_duck_start m" "mc_turns (set_state s m) = mc_turns m"
  by (simp_all add: set_state_def)

lemma set_state_log:
  "mc_log (set_state s m) = mc_log m @ move_log m s"
  by (simp add: set_state_def move_log_def)

lemma stop_filler_frame [simp]:
  "mc_cfg (stop_filler m) = mc_cfg m" "mc_meter (stop_filler m) = mc_meter m"
  "mc_state (stop_filler m) = mc_state m" "mc_media (stop_filler m) = mc_media m"
  "mc_last_speech (stop_filler m) = mc_last_speech m"
  "mc_prev_speaking (stop_filler m) = mc_prev_speaking m" "mc_locale (stop_filler m) = mc_locale m"
  "mc_carry (stop_filler m) = mc_carry m" "mc_finals (stop_filler m) = mc_finals m"
  "mc_last_part (stop_filler m) = mc_last_part m" "mc_turn_cancel (stop_filler m) = mc_turn_cancel m"
  "mc_stt_ch (stop_filler m) = mc_stt_ch m" "mc_tts_ch (stop_filler m) = mc_tts_ch m"
  "mc_filler_timer (stop_filler m) = None" "mc_filler_c (stop_filler m) = None"
  "mc_tracker (stop_filler m) = mc_tracker m" "mc_tts_done (stop_filler m) = mc_tts_done m"
  "mc_speak_start (stop_filler m) = mc_speak_start m" "mc_ducked (stop_filler m) = mc_ducked m"
  "mc_duck_start (stop_filler m) = mc_duck_start m" "mc_turns (stop_filler m) = mc_turns m"
  by (simp_all add: stop_filler_def split: option.splits)

lemma stop_filler_log: "mc_log (stop_filler m) = mc_log m @ timer_log m"
  by (simp add: stop_filler_def timer_log_def split: option.splits)

lemma cancel_turn_frame [simp]:
  "mc_cfg (cancel_turn m) = mc_cfg m" "mc_meter (cancel_turn m) = mc_meter m"
  "mc_state (cancel_turn m) = mc_state m" "mc_media (cancel_turn m) = mc_media m"
  "mc_last_speech (cancel_turn m) = mc_last_speech m"
  "mc_prev_speaking (cancel_turn m) = mc_prev_speaking m" "mc_locale (cancel_turn m) = mc_locale m"
  "mc_carry (cancel_turn m) = mc_carry m" "mc_finals (cancel_turn m) = mc_finals m"
  "mc_last_part (cancel_turn m) = mc_last_part m" "mc_turn_cancel (cancel_turn m) = None"
  "mc_stt_ch (cancel_turn m) = mc_stt_ch m" "mc_tts_ch (cancel_turn m) = None"
  "mc_filler_timer (cancel_turn m) = None" "mc_filler_c (cancel_turn m) = None"
  "mc_tracker (cancel_turn m) = mc_tracker m" "mc_tts_done (cancel_turn m) = False"
  "mc_speak_start (cancel_turn m) = mc_speak_start m" "mc_ducked (cancel_turn m) = mc_ducked m"
  "mc_duck_start (cancel_turn m) = mc_duck_start m" "mc_turns (cancel_turn m) = mc_turns m"
  by (simp_all add: cancel_turn_def split: option.splits)

lemma cancel_turn_log:
  "mc_log (cancel_turn m) = mc_log m @ cancel_log m @ timer_log m"
  by (simp add: cancel_turn_def stop_filler_log cancel_log_def timer_log_def split: option.splits)

lemma duck_frame [simp]:
  "mc_cfg (duck on m) = mc_cfg m" "mc_meter (duck on m) = mc_meter m"
  "mc_state (duck on m) = mc_state m" "mc_media (duck on m) = mc_media m"
  "mc_last_speech (duck on m) = mc_last_speech m"
  "mc_prev_speaking (duck on m) = mc_prev_speaking m" "mc_locale (duck on m) = mc_locale m"
  "mc_carry (duck on m) = mc_carry m" "mc_finals (duck on m) = mc_finals m"
  "mc_last_part (duck on m) = mc_last_part m" "mc_turn_cancel (duck on m) = mc_turn_cancel m"
  "mc_stt_ch (duck on m) = mc_stt_ch m" "mc_tts_ch (duck on m) = mc_tts_ch m"
  "mc_filler_timer (duck on m) = mc_filler_timer m" "mc_filler_c (duck on m) = mc_filler_c m"
  "mc_tracker (duck on m) = mc_tracker m" "mc_tts_done (duck on m) = mc_tts_done m"
  "mc_speak_start (duck on m) = mc_speak_start m" "mc_ducked (duck on m) = on"
  "mc_duck_start (duck on m) = (if on then mc_media m else mc_duck_start m)"
  "mc_turns (duck on m) = mc_turns m" "mc_log (duck on m) = mc_log m @ [PlayDuck on, HookDucking on]"
  by (simp_all add: duck_def Let_def)

lemma absorb_frame [simp]:
  "mc_cfg (absorb r m) = mc_cfg m" "mc_meter (absorb r m) = mc_meter m"
  "mc_state (absorb r m) = mc_state m" "mc_media (absorb r m) = mc_media m"
  "mc_last_speech (absorb r m) = mc_last_speech m"
  "mc_prev_speaking (absorb r m) = mc_prev_speaking m" "mc_locale (absorb r m) = mc_locale m"
  "mc_carry (absorb r m) = mc_carry m" "mc_turn_cancel (absorb r m) = mc_turn_cancel m"
  "mc_stt_ch (absorb r m) = mc_stt_ch m" "mc_tts_ch (absorb r m) = mc_tts_ch m"
  "mc_filler_timer (absorb r m) = mc_filler_timer m" "mc_filler_c (absorb r m) = mc_filler_c m"
  "mc_tracker (absorb r m) = mc_tracker m" "mc_tts_done (absorb r m) = mc_tts_done m"
  "mc_speak_start (absorb r m) = mc_speak_start m" "mc_ducked (absorb r m) = mc_ducked m"
  "mc_duck_start (absorb r m) = mc_duck_start m" "mc_turns (absorb r m) = mc_turns m"
  "mc_log (absorb r m) = mc_log m"
  by (simp_all add: absorb_def)

lemma reset_draft_frame [simp]:
  "mc_cfg (reset_draft m) = mc_cfg m" "mc_meter (reset_draft m) = mc_meter m"
  "mc_state (reset_draft m) = mc_state m" "mc_media (reset_draft m) = mc_media m"
  "mc_last_speech (reset_draft m) = mc_last_speech m"
  "mc_prev_speaking (reset_draft m) = mc_prev_speaking m" "mc_locale (reset_draft m) = mc_locale m"
  "mc_carry (reset_draft m) = []" "mc_finals (reset_draft m) = []" "mc_last_part (reset_draft m) = []"
  "mc_turn_cancel (reset_draft m) = mc_turn_cancel m"
  "mc_stt_ch (reset_draft m) = mc_stt_ch m" "mc_tts_ch (reset_draft m) = mc_tts_ch m"
  "mc_filler_timer (reset_draft m) = mc_filler_timer m" "mc_filler_c (reset_draft m) = mc_filler_c m"
  "mc_tracker (reset_draft m) = mc_tracker m" "mc_tts_done (reset_draft m) = mc_tts_done m"
  "mc_speak_start (reset_draft m) = mc_speak_start m" "mc_ducked (reset_draft m) = mc_ducked m"
  "mc_duck_start (reset_draft m) = mc_duck_start m" "mc_turns (reset_draft m) = mc_turns m"
  "mc_log (reset_draft m) = mc_log m"
  by (simp_all add: reset_draft_def)

lemmas log_simps = hook_err_log set_state_log stop_filler_log cancel_turn_log

text \<open>The draft depends on its three parts only.\<close>

lemma draft_cong:
  "mc_carry m = mc_carry m' \<Longrightarrow> mc_finals m = mc_finals m' \<Longrightarrow> mc_last_part m = mc_last_part m' \<Longrightarrow> draft m = draft m'"
  by (simp add: draft_def)

section \<open>Leaving a turn\<close>

text \<open>A log extension that neither opens nor cancels a context nor changes the state.\<close>

definition quiet :: "effect \<Rightarrow> bool" where
  "quiet e \<longleftrightarrow> (\<forall>i txt loc. e \<noteq> AgentReply i txt loc) \<and> (\<forall>i. e \<noteq> CancelTurn i) \<and>
     (\<forall>a b. e \<noteq> HookStateChange a b)"

lemma quiet_simps [simp]:
  "quiet (SendFrame f)" "\<not> quiet (AgentReply i txt loc)" "quiet (TTSSpeak i)" "\<not> quiet (CancelTurn i)"
  "quiet (StartTimer i n)" "quiet (StopTimer i)" "quiet (PlayWrite a n)" "quiet (PlayDuck on)" "quiet PlayFlush"
  "\<not> quiet (HookStateChange a' b)" "quiet (HookUserTurn txt loc)" "quiet (HookAgentTurn txt on)"
  "quiet (HookFiller k)" "quiet (HookLanguageSwitch loc loc')" "quiet (HookDucking on)"
  "quiet (HookBargeIn txt)" "quiet (HookError st err)"
  by (simp_all add: quiet_def)

lemma quiet_log:
  "list_all quiet l \<Longrightarrow> opened l = {} \<and> cancelled l = {} \<and> state_path s l = Some s"
proof (induction l)
  case (Cons e l)
  then show ?case by (cases e) (auto simp: opened_def cancelled_def)
qed simp

lemma quiet_logs [simp]: "list_all quiet (timer_log m)" "list_all quiet (err_log st r)"
  by (simp_all add: timer_log_def err_log_def split: option.splits)

lemma log_of_cong:
  "mc_filler_timer m = mc_filler_timer m' \<Longrightarrow> timer_log m = timer_log m'"
  "mc_turn_cancel m = mc_turn_cancel m' \<Longrightarrow> cancel_log m = cancel_log m'"
  "mc_state m = mc_state m' \<Longrightarrow> move_log m s = move_log m' s"
  by (simp_all add: timer_log_def cancel_log_def move_log_def)

text \<open>
  How a handler ends a turn: the context is cancelled, the rest of the log is quiet, and the
  machine listens.
\<close>

definition ends_turn :: "machine \<Rightarrow> effect list \<Rightarrow> machine \<Rightarrow> bool" where
  "ends_turn m l m' \<longleftrightarrow>
     mc_state m' = StListening \<and> mc_turn_cancel m' = None \<and> mc_tts_ch m' = None \<and>
     mc_filler_timer m' = None \<and> mc_filler_c m' = None \<and> \<not> mc_tts_done m' \<and>
     mc_cfg m' = mc_cfg m \<and> mc_media m' = mc_media m \<and> mc_speak_start m' = mc_speak_start m \<and>
     mc_tracker m' = mc_tracker m \<and> mc_turns m' = mc_turns m \<and>
     mc_duck_start m' = mc_duck_start m \<and>
     (mc_last_speech m' = mc_last_speech m \<or> mc_last_speech m' = mc_media m) \<and>
     list_all quiet l \<and> mc_log m' = mc_log m @ cancel_log m @ l @ move_log m StListening"

definition tm_inv :: "machine \<Rightarrow> bool" where
  "tm_inv m \<longleftrightarrow> ctl_inv m \<and> draft_inv m \<and> clock_inv m \<and> ctx_inv m \<and> path_inv m"

lemma ends_turn_inv:
  assumes "ends_turn m l m'" "clock_inv m" "ctx_inv m" "path_inv m"
  shows "tm_inv m'"
proof -
  have q: "list_all quiet l"
    and lg: "mc_log m' = mc_log m @ cancel_log m @ l @ move_log m StListening"
    and st: "mc_state m' = StListening" and tc: "mc_turn_cancel m' = None" and n: "mc_turns m' = mc_turns m"
    using assms(1) by (auto simp: ends_turn_def)
  note ql = quiet_log [OF q]
  have "ctl_inv m'" using assms(1) by (simp add: ends_turn_def ctl_inv_def active_def)
  moreover have "draft_inv m'" by (simp add: draft_inv_def st)
  moreover have "clock_inv m'" using assms(1,2) by (auto simp: ends_turn_def clock_inv_def)
  moreover have "opened (mc_log m') = opened (mc_log m)"
    "cancelled (mc_log m') = cancelled (mc_log m) \<union> set_option (mc_turn_cancel m)"
    by (cases "mc_turn_cancel m"; simp add: lg ql cancel_log_def move_log_def)+
  then have "ctx_inv m'" using assms(3) by (simp add: ctx_inv_def tc n)
  moreover have "path_inv m'"
    using assms(4) by (cases "mc_state m"; cases "mc_turn_cancel m")
      (simp_all add: path_inv_def lg st ql state_path_append edges_def cancel_log_def move_log_def)
  ultimately show ?thesis by (simp add: tm_inv_def)
qed

lemma rethink_ends: "ends_turn m (timer_log m) (rethink m)"
  by (simp add: ends_turn_def rethink_def log_simps log_of_cong(3) [of "cancel_turn m" m])

definition final_text :: "machine \<Rightarrow> string" where
  "final_text m = (case mc_tracker m of
      Some t \<Rightarrow> fst (Spoken t (played_ms m + cf_offset (mc_cfg m))) | None \<Rightarrow> [])"

lemma complete_ends: "ends_turn m (timer_log m @ [HookAgentTurn (final_text m) False]) (complete_agent_turn m)"
  by (simp add: ends_turn_def complete_agent_turn_def final_text_def [symmetric] Let_def log_simps
      log_of_cong(3) [of "reset_draft (emit e (cancel_turn m))" m for e])

definition issue_log :: "call_env \<Rightarrow> outcomes \<Rightarrow> machine \<Rightarrow> effect list" where
  "issue_log E oc m =
     (case bank_Lookup (en_clips E) KeyTechnicalIssue (mc_locale m) of
        Inr c \<Rightarrow> PlayWrite (cl_audio c) (cl_duration_ms c) # err_log ''playback'' (oc_write oc)
      | Inl e \<Rightarrow> [])"

lemma quiet_issue [simp]: "list_all quiet (issue_log E oc m)"
  by (simp add: issue_log_def split: sum.splits)

lemma fail_ends: "ends_turn m (timer_log m @ issue_log E oc m) (fail_turn E oc m)"
  by (cases "bank_Lookup (en_clips E) KeyTechnicalIssue (mc_locale m)")
    (simp_all add: ends_turn_def fail_turn_def issue_log_def Let_def log_simps move_log_def)

definition barge_text :: "machine \<Rightarrow> string" where
  "barge_text m =
     (case mc_tracker m of
        None \<Rightarrow> []
      | Some t \<Rightarrow> (case Spoken t (played_ms m) of
            (txt, c) \<Rightarrow> if \<not> c then trim_space (txt @ '' '' @ em_dash) else txt))"

definition barge_log :: "outcomes \<Rightarrow> result \<Rightarrow> machine \<Rightarrow> effect list" where
  "barge_log oc r m =
     PlayFlush # err_log ''playback'' (oc_flush oc) @
     (if mc_ducked m then [PlayDuck False, HookDucking False] else []) @
     [HookAgentTurn (barge_text m) True, HookBargeIn (rs_text r)]"

lemma quiet_barge [simp]: "list_all quiet (barge_log oc r m)"
  by (simp add: barge_log_def)

lemma confirm_ends: "ends_turn m (timer_log m @ barge_log oc r m) (confirm_barge_in E oc r m)"
proof -
  have t: "(case mc_tracker m of Some t \<Rightarrow> Spoken t (played_ms m) | None \<Rightarrow> ([], True)) = (tx, c) \<Longrightarrow>
      (if \<not> c then trim_space (tx @ '' '' @ em_dash) else tx) = barge_text m" for tx c
    by (auto simp: barge_text_def split: option.splits)
  show ?thesis
    by (cases "case mc_tracker m of Some t \<Rightarrow> Spoken t (played_ms m) | None \<Rightarrow> ([], True)")
      (simp add: ends_turn_def confirm_barge_in_def Let_def t log_simps barge_log_def move_log_def)
qed

section \<open>Handlers keep the invariant\<close>

text \<open>A step that leaves the control state alone and extends the log quietly.\<close>

definition same_ctl :: "machine \<Rightarrow> effect list \<Rightarrow> machine \<Rightarrow> bool" where
  "same_ctl m l m' \<longleftrightarrow>
     mc_state m' = mc_state m \<and> mc_turn_cancel m' = mc_turn_cancel m \<and> mc_tts_ch m' = mc_tts_ch m \<and>
     mc_filler_timer m' = mc_filler_timer m \<and> mc_filler_c m' = mc_filler_c m \<and>
     mc_tts_done m' = mc_tts_done m \<and> mc_turns m' = mc_turns m \<and>
     (mc_tracker m' = None \<longleftrightarrow> mc_tracker m = None) \<and> list_all quiet l \<and> mc_log m' = mc_log m @ l"

lemma same_ctl_inv:
  assumes "same_ctl m l m'"
  shows "ctl_inv m \<Longrightarrow> ctl_inv m'" and "ctx_inv m \<Longrightarrow> ctx_inv m'" and "path_inv m \<Longrightarrow> path_inv m'"
proof -
  have q: "list_all quiet l" and lg: "mc_log m' = mc_log m @ l" using assms by (simp_all add: same_ctl_def)
  note ql = quiet_log [OF q]
  have eqs: "active m' = active m" "mc_turn_cancel m' = mc_turn_cancel m" "mc_tts_ch m' = mc_tts_ch m"
     "mc_filler_timer m' = mc_filler_timer m" "mc_filler_c m' = mc_filler_c m"
     "mc_tts_done m' = mc_tts_done m" "(mc_tracker m' = None) = (mc_tracker m = None)"
     "mc_state m' = mc_state m"
    using assms by (simp_all add: same_ctl_def active_def)
  show "ctl_inv m \<Longrightarrow> ctl_inv m'" unfolding ctl_inv_def eqs .
  show "ctx_inv m \<Longrightarrow> ctx_inv m'" using assms by (simp add: same_ctl_def ctx_inv_def ql)
  show "path_inv m \<Longrightarrow> path_inv m'"
    using assms by (simp add: same_ctl_def path_inv_def state_path_append ql)
qed

lemma set_state_inv:
  assumes "ctx_inv m" "path_inv m" "mc_state m = s \<or> (mc_state m, s) \<in> edges"
  shows "ctx_inv (set_state s m)" and "path_inv (set_state s m)"
proof -
  show "ctx_inv (set_state s m)" using assms(1) by (simp add: ctx_inv_def log_simps move_log_def)
  show "path_inv (set_state s m)"
    using assms(2,3) by (auto simp: path_inv_def log_simps move_log_def state_path_append)
qed

lemma start_agent_turn_inv:
  assumes "mc_state m = StEndpointing" "clock_inv m" "ctx_inv m" "path_inv m" "mc_turn_cancel m = None"
  shows "tm_inv (start_agent_turn E oc tx m)"
proof -
  define i where "i = mc_turns m"
  define m1 where "m1 = emit (AgentReply i tx (mc_locale m)) (m\<lparr>mc_turns := i + 1, mc_turn_cancel := Some i\<rparr>)"
  have c1: "clock_inv m1" using assms(2) by (simp add: clock_inv_def m1_def)
  have n: "i \<notin> cancelled (mc_log m)" using assms(3,5) by (auto simp: ctx_inv_def i_def)
  have x1: "ctx_inv m1"
  proof -
    have "opened (mc_log m) = {..<i}" "{..<i} = cancelled (mc_log m)"
      using assms(3,5) by (simp_all add: ctx_inv_def i_def)
    then show ?thesis using n by (auto simp: ctx_inv_def m1_def lessThan_Suc)
  qed
  have p1: "path_inv m1" using assms(4) by (simp add: path_inv_def m1_def state_path_append)
  have failing: "tm_inv (fail_turn E oc (emit (HookError st e) (if b then emit (TTSSpeak i) m1 else m1)))" for st e b
  proof -
    let ?m = "emit (HookError st e) (if b then emit (TTSSpeak i) m1 else m1)"
    have "same_ctl m1 (if b then [TTSSpeak i, HookError st e] else [HookError st e]) ?m"
      by (simp add: same_ctl_def)
    from same_ctl_inv(2,3) [OF this] x1 p1 have "ctx_inv ?m" "path_inv ?m" by auto
    moreover have "clock_inv ?m" using c1 by (simp add: clock_inv_def)
    ultimately show ?thesis using ends_turn_inv [OF fail_ends] by blast
  qed
  show ?thesis
  proof (cases "oc_reply oc")
    case (Some e)
    then show ?thesis using failing [of "''agent''" e False]
      by (simp add: start_agent_turn_def Let_def m1_def i_def)
  next
    case r: None
    show ?thesis
    proof (cases "oc_speak oc")
      case (Some e)
      with r show ?thesis using failing [of "''tts''" e True]
        by (simp add: start_agent_turn_def Let_def m1_def i_def)
    next
      case None
      define m2 where "m2 = (emit (StartTimer i (cf_filler_after (mc_cfg m1))) (emit (TTSSpeak i) m1))
                   \<lparr>mc_tts_ch := Some i, mc_tts_done := False,
                    mc_tracker := Some (NewPlayoutTracker (cf_offset (mc_cfg m1))),
                    mc_filler_timer := Some i, mc_filler_c := Some i\<rparr>"
      have e: "start_agent_turn E oc tx m = set_state StThinking m2"
        using r None by (simp add: start_agent_turn_def Let_def m1_def i_def m2_def)
      have "ctx_inv m2" using x1 by (simp add: ctx_inv_def m2_def)
      moreover have "path_inv m2" using p1 by (simp add: path_inv_def m2_def state_path_append)
      moreover have "mc_state m2 = StEndpointing" by (simp add: m2_def m1_def assms(1))
      ultimately have "ctx_inv (set_state StThinking m2)" "path_inv (set_state StThinking m2)"
        using set_state_inv [of m2 StThinking] by (auto simp: edges_def)
      moreover have "clock_inv (set_state StThinking m2)"
        using c1 by (simp add: clock_inv_def m2_def NewPlayoutTracker_def)
      moreover have "ctl_inv (set_state StThinking m2)"
        by (simp add: ctl_inv_def active_def m2_def m1_def)
      moreover have "draft_inv (set_state StThinking m2)" by (simp add: draft_inv_def)
      ultimately show ?thesis by (simp add: e tm_inv_def)
    qed
  qed
qed

lemma finalize_inv:
  assumes "mc_state m = StEndpointing" "ctl_inv m" "clock_inv m" "ctx_inv m" "path_inv m"
  shows "tm_inv (finalize_user_turn E oc m)"
proof (cases "draft m = []")
  case True
  have tc: "mc_turn_cancel m = None" "mc_tts_ch m = None" "mc_filler_timer m = None" "mc_filler_c m = None"
    "\<not> mc_tts_done m"
    using assms(1,2) by (auto simp: ctl_inv_def active_def)
  have "ends_turn m [] (set_state StListening m)"
    by (simp add: ends_turn_def tc log_simps cancel_log_def)
  from ends_turn_inv [OF this assms(3-5)] True show ?thesis by (simp add: finalize_user_turn_def)
next
  case False
  let ?m = "(emit (HookUserTurn (draft m) (mc_locale m)) m)\<lparr>mc_carry := draft m, mc_finals := [], mc_last_part := []\<rparr>"
  have "same_ctl m [HookUserTurn (draft m) (mc_locale m)] ?m" by (simp add: same_ctl_def)
  note k = same_ctl_inv(2,3) [OF this]
  have "clock_inv ?m" using assms(3) by (simp add: clock_inv_def)
  moreover have "mc_turn_cancel ?m = None" using assms(1,2) by (auto simp: ctl_inv_def active_def)
  ultimately have "tm_inv (start_agent_turn E oc (draft m) ?m)"
    using start_agent_turn_inv [of ?m] assms(1,4,5) k by simp
  with False show ?thesis by (simp add: finalize_user_turn_def Let_def)
qed

lemma frame_clock_same:
  assumes "frame_clock E oc f m = (m', sp, ons)"
  shows "same_ctl m (SendFrame f # err_log ''stt'' (oc_send oc)) m'"
    and "clock_inv m \<Longrightarrow> clock_inv m'" and "draft m' = draft m" and "mc_state m' = mc_state m"
    and "mc_cfg m' = mc_cfg m" and "mc_tracker m' = mc_tracker m"
proof -
  obtain sp' mt where p: "meter_process (en_db E) f (mc_meter m) = (sp', mt)" by fastforce
  have m': "m' = (let m1 = (hook_err ''stt'' (oc_send oc) (emit (SendFrame f) (m\<lparr>mc_media := mc_media m + FrameMs\<rparr>)))
      \<lparr>mc_meter := mt, mc_prev_speaking := sp'\<rparr> in if sp' then m1\<lparr>mc_last_speech := mc_media m1\<rparr> else m1)"
    using assms by (auto simp: frame_clock_def p Let_def split: if_splits)
  show "same_ctl m (SendFrame f # err_log ''stt'' (oc_send oc)) m'"
    by (simp add: m' Let_def same_ctl_def log_simps)
  show "clock_inv m'" if "clock_inv m" using that by (auto simp: m' Let_def clock_inv_def FrameMs_def)
  show "draft m' = draft m" by (rule draft_cong) (simp_all add: m' Let_def)
  show "mc_state m' = mc_state m" "mc_cfg m' = mc_cfg m" "mc_tracker m' = mc_tracker m"
    by (simp_all add: m' Let_def)
qed

lemma duck_same: "same_ctl m [PlayDuck on, HookDucking on] (duck on m)"
  by (simp add: same_ctl_def)

lemma duck_inv: "tm_inv m \<Longrightarrow> tm_inv (duck on m)"
  using same_ctl_inv [OF duck_same, of m on] draft_cong [of "duck on m" m]
  by (auto simp: tm_inv_def clock_inv_def draft_inv_def)

lemma maybe_finish_inv: "tm_inv m \<Longrightarrow> tm_inv (maybe_finish_speaking m)"
  using ends_turn_inv [OF complete_ends, of m] by (simp add: maybe_finish_speaking_def tm_inv_def split: option.splits)

lemma set_listening_inv:
  assumes "tm_inv m" "\<not> active m"
  shows "tm_inv (set_state StListening m)"
proof -
  have "mc_turn_cancel m = None" "mc_tts_ch m = None" "mc_filler_timer m = None" "mc_filler_c m = None"
    "\<not> mc_tts_done m"
    using assms by (auto simp: tm_inv_def ctl_inv_def active_def)
  then have "ends_turn m [] (set_state StListening m)"
    by (simp add: ends_turn_def log_simps cancel_log_def)
  from ends_turn_inv [OF this] assms(1) show ?thesis by (simp add: tm_inv_def)
qed

lemma on_frame_inv [fd_inv]:
  assumes "tm_inv m0"
  shows "tm_inv (on_frame E oc f m0)"
proof -
  obtain m sp ons where c: "frame_clock E oc f m0 = (m, sp, ons)" by (metis prod_cases3)
  note fc = frame_clock_same [OF c]
  have i: "tm_inv m"
    using assms fc(2,3,4) same_ctl_inv [OF fc(1)] by (simp add: tm_inv_def draft_inv_def)
  then have parts: "ctl_inv m" "clock_inv m" "ctx_inv m" "path_inv m" by (simp_all add: tm_inv_def)
  show ?thesis
  proof (cases "mc_state m")
    case StListening
    have "tm_inv (set_state StEndpointing m)" if "has_draft m"
    proof -
      have "ctx_inv (set_state StEndpointing m)" "path_inv (set_state StEndpointing m)"
        using set_state_inv [OF parts(3,4), of StEndpointing] StListening by (auto simp: edges_def)
      moreover have "ctl_inv (set_state StEndpointing m)"
        using parts(1) StListening by (auto simp: ctl_inv_def active_def)
      moreover have "draft (set_state StEndpointing m) = draft m" by (rule draft_cong) simp_all
      ultimately show ?thesis
        using that parts(2) by (simp add: tm_inv_def clock_inv_def draft_inv_def has_draft_def)
    qed
    with i StListening show ?thesis by (simp add: on_frame_def c)
  next
    case StEndpointing
    then have "\<not> active m" by (simp add: active_def)
    with StEndpointing finalize_inv [OF StEndpointing parts] set_listening_inv [OF i] i show ?thesis
      by (simp add: on_frame_def c)
  next
    case StThinking
    with i ends_turn_inv [OF rethink_ends parts(2-4)] show ?thesis by (simp add: on_frame_def c)
  next
    case StSpeaking
    define m1 where "m1 = (if ons \<and> \<not> mc_ducked m then duck True m else m)"
    define m2 where "m2 = (if mc_ducked m1 \<and> mc_media m1 - mc_duck_start m1 \<ge> cf_confirm_window (mc_cfg m1)
                     then duck False m1 else m1)"
    have "tm_inv m2" using i duck_inv by (simp add: m1_def m2_def)
    moreover have "on_frame E oc f m0 = maybe_finish_speaking m2"
      by (simp only: on_frame_def c StSpeaking turn_state.case prod.case Let_def m1_def m2_def)
    ultimately show ?thesis using maybe_finish_inv by simp
  qed
qed

lemma switch_locale_same:
  "\<exists>l. same_ctl m l (switch_locale r m)" "mc_state (switch_locale r m) = mc_state m"
  "draft (switch_locale r m) = draft m" "clock_inv m \<Longrightarrow> clock_inv (switch_locale r m)"
proof -
  have "same_ctl m (if rs_locale r \<noteq> [] \<and> rs_locale r \<noteq> mc_locale m
      then [HookLanguageSwitch (mc_locale m) (rs_locale r)] else []) (switch_locale r m)"
    by (simp add: same_ctl_def switch_locale_def)
  then show "\<exists>l. same_ctl m l (switch_locale r m)" by blast
  show "mc_state (switch_locale r m) = mc_state m" by (simp add: switch_locale_def)
  show "draft (switch_locale r m) = draft m" by (rule draft_cong) (simp_all add: switch_locale_def)
  show "clock_inv (switch_locale r m)" if "clock_inv m"
    using that by (simp add: switch_locale_def clock_inv_def)
qed

lemma switch_locale_inv: "tm_inv m \<Longrightarrow> tm_inv (switch_locale r m)"
proof -
  assume i: "tm_inv m"
  obtain l where "same_ctl m l (switch_locale r m)" using switch_locale_same(1) by blast
  from same_ctl_inv [OF this] i show ?thesis
    by (simp add: tm_inv_def draft_inv_def switch_locale_same(2-4))
qed

text \<open>Taking in a result and noting speech now keeps everything but the draft.\<close>

lemma absorb_inv:
  assumes "tm_inv m" "mc_state m \<noteq> StEndpointing"
  shows "tm_inv ((absorb r m)\<lparr>mc_last_speech := mc_media m\<rparr>)"
proof -
  have "same_ctl m [] ((absorb r m)\<lparr>mc_last_speech := mc_media m\<rparr>)" by (simp add: same_ctl_def)
  from same_ctl_inv [OF this] assms show ?thesis
    by (auto simp: tm_inv_def clock_inv_def draft_inv_def)
qed

lemma confirm_inv: "tm_inv m \<Longrightarrow> tm_inv (confirm_barge_in E oc r m)"
  using ends_turn_inv [OF confirm_ends] by (simp add: tm_inv_def)

lemma on_speaking_stt_inv: "tm_inv m \<Longrightarrow> tm_inv (on_speaking_stt E oc r m)"
  by (simp add: on_speaking_stt_def duck_inv confirm_inv)

lemma listen_again_inv:
  assumes "tm_inv m" "\<not> active m"
  shows "tm_inv (set_state StListening ((absorb r m)\<lparr>mc_last_speech := mc_media m\<rparr>))"
proof -
  let ?m = "(absorb r m)\<lparr>mc_last_speech := mc_media m\<rparr>"
  have "mc_turn_cancel m = None" "mc_tts_ch m = None" "mc_filler_timer m = None" "mc_filler_c m = None"
    "\<not> mc_tts_done m"
    using assms by (auto simp: tm_inv_def ctl_inv_def active_def)
  then have "ends_turn m [] (set_state StListening ?m)"
    by (simp add: ends_turn_def log_simps cancel_log_def move_log_def)
  from ends_turn_inv [OF this] assms(1) show ?thesis by (simp add: tm_inv_def)
qed

lemma on_stt_inv [fd_inv]:
  assumes "tm_inv m0"
  shows "tm_inv (on_stt E oc r m0)"
proof -
  define m where "m = switch_locale r m0"
  have i: "tm_inv m" using assms switch_locale_inv by (simp add: m_def)
  have rt: "tm_inv (rethink m)" "mc_state (rethink m) = StListening"
    using ends_turn_inv [OF rethink_ends] i by (simp_all add: tm_inv_def rethink_def)
  show ?thesis
  proof (cases "mc_state m")
    case StListening
    with i absorb_inv [OF i] show ?thesis by (simp add: on_stt_def Let_def m_def [symmetric])
  next
    case StEndpointing
    then have "\<not> active m" by (simp add: active_def)
    with StEndpointing i listen_again_inv [OF i] show ?thesis
      by (simp add: on_stt_def Let_def m_def [symmetric])
  next
    case StThinking
    with i absorb_inv [OF rt(1)] rt(2) show ?thesis by (simp add: on_stt_def Let_def m_def [symmetric])
  next
    case StSpeaking
    with i on_speaking_stt_inv show ?thesis by (simp add: on_stt_def Let_def m_def [symmetric])
  qed
qed

lemma stop_filler_same_state:
  assumes "tm_inv m" "mc_state m = StThinking"
  shows "tm_inv (set_state StSpeaking ((stop_filler m)\<lparr>mc_speak_start := mc_media (stop_filler m)\<rparr>))"
proof -
  let ?m = "(stop_filler m)\<lparr>mc_speak_start := mc_media (stop_filler m)\<rparr>"
  have ql: "opened (mc_log ?m) = opened (mc_log m)" "cancelled (mc_log ?m) = cancelled (mc_log m)"
    "state_path StListening (mc_log ?m) = state_path StListening (mc_log m)"
    using quiet_log [OF quiet_logs(1), of m] by (simp_all add: log_simps state_path_append)
  then have "ctx_inv ?m" "path_inv ?m" using assms(1) by (simp_all add: tm_inv_def ctx_inv_def path_inv_def)
  then have "ctx_inv (set_state StSpeaking ?m)" "path_inv (set_state StSpeaking ?m)"
    using set_state_inv [of ?m StSpeaking] assms(2) by (auto simp: edges_def)
  moreover have "ctl_inv (set_state StSpeaking ?m)"
    using assms by (auto simp: tm_inv_def ctl_inv_def active_def)
  moreover have "clock_inv (set_state StSpeaking ?m)"
    using assms(1) by (simp add: tm_inv_def clock_inv_def)
  ultimately show ?thesis by (simp add: tm_inv_def draft_inv_def)
qed

lemma on_chunk_inv [fd_inv]:
  assumes "tm_inv m0" "mc_tts_ch m0 \<noteq> None"
  shows "\<exists>m'. on_chunk oc c m0 = Some m' \<and> tm_inv m'"
proof -
  define m where "m = (if mc_state m0 = StThinking
     then set_state StSpeaking ((stop_filler m0)\<lparr>mc_speak_start := mc_media (stop_filler m0)\<rparr>) else m0)"
  have i: "tm_inv m" using stop_filler_same_state [OF assms(1)] assms(1) by (simp add: m_def)
  have "active m0" using assms by (auto simp: tm_inv_def ctl_inv_def)
  then have "mc_tracker m0 \<noteq> None" using assms(1) by (simp add: tm_inv_def ctl_inv_def)
  then obtain t where t: "mc_tracker m = Some t" by (auto simp: m_def)
  let ?m = "hook_err ''playback'' (oc_write oc)
     (emit (PlayWrite (ck_pcm c) (ck_duration c)) (m\<lparr>mc_tracker := Some (AddChunk c t)\<rparr>))"
  have "on_chunk oc c m0 = Some ?m" using t by (simp only: on_chunk_def Let_def m_def [symmetric] option.case)
  moreover have "same_ctl m (PlayWrite (ck_pcm c) (ck_duration c) # err_log ''playback'' (oc_write oc)) ?m"
    by (simp add: same_ctl_def log_simps t)
  then have "tm_inv ?m"
    using same_ctl_inv [of m _ ?m] i draft_cong [of ?m m] t
    by (auto simp: tm_inv_def clock_inv_def draft_inv_def)
  ultimately show ?thesis by blast
qed

lemma on_chunks_closed_inv [fd_inv]:
  assumes "tm_inv m0" "mc_tts_ch m0 \<noteq> None"
  shows "tm_inv (on_chunks_closed m0)"
proof -
  let ?m = "m0\<lparr>mc_tts_ch := None, mc_tts_done := True\<rparr>"
  have a: "active m0" using assms by (auto simp: tm_inv_def ctl_inv_def)
  have p: "clock_inv ?m" "ctx_inv ?m" "path_inv ?m"
    using assms(1) by (simp_all add: tm_inv_def clock_inv_def ctx_inv_def path_inv_def)
  have "tm_inv ?m" if "mc_state m0 \<noteq> StThinking"
    using that a p assms(1) by (auto simp: tm_inv_def ctl_inv_def draft_inv_def active_def)
  then show ?thesis using ends_turn_inv [OF complete_ends p] by (simp add: on_chunks_closed_def Let_def)
qed

lemma on_filler_inv [fd_inv]:
  assumes "tm_inv m0"
  shows "tm_inv (on_filler E oc m0)"
proof -
  define m where "m = m0\<lparr>mc_filler_c := None\<rparr>"
  have i: "tm_inv m"
  proof -
    have "active m = active m0" by (simp add: active_def m_def)
    with assms have "ctl_inv m" by (simp add: m_def tm_inv_def ctl_inv_def)
    moreover have "draft_inv m" using assms draft_cong [of m m0] by (simp add: m_def tm_inv_def draft_inv_def)
    moreover have "clock_inv m" "ctx_inv m" "path_inv m"
      using assms by (simp_all add: m_def tm_inv_def clock_inv_def ctx_inv_def path_inv_def)
    ultimately show ?thesis by (simp add: tm_inv_def)
  qed
  have keep: "tm_inv m'" if "same_ctl m l m'" "clock_inv m'" "draft m' = draft m" "mc_state m' = mc_state m" for l m'
    using same_ctl_inv [OF that(1)] that(2-4) i by (simp add: tm_inv_def draft_inv_def)
  have e1: "tm_inv (emit (HookError ''audiobank'' e) m)" for e
    using i by (intro keep [of "[HookError ''audiobank'' e]"] draft_cong)
      (simp_all add: same_ctl_def tm_inv_def clock_inv_def)
  have e2: "tm_inv (emit (HookFiller (cf_filler_key (mc_cfg m)))
       (hook_err ''playback'' (oc_write oc) (emit (PlayWrite (cl_audio c) (cl_duration_ms c)) m)))" for c :: clip
    using i by (intro keep [of "PlayWrite (cl_audio c) (cl_duration_ms c) # err_log ''playback'' (oc_write oc) @
         [HookFiller (cf_filler_key (mc_cfg m))]"] draft_cong)
      (simp_all add: same_ctl_def log_simps tm_inv_def clock_inv_def)
  show ?thesis
    using i e1 e2 by (simp add: on_filler_def Let_def m_def [symmetric] split: sum.split)
qed

end
