(* ===== verification/Turn_Props.thy ===== *)
theory Turn_Props
  imports Turn_Laws
begin

text \<open>
  The turn machine as a system of steps, and its properties: every run of the loop is safe, the
  recognizer hears every frame, a user turn closes only in silence, and what each of barge-in,
  backchannel, completion and failure does.
\<close>

section \<open>The loop\<close>

definition turn_start :: "machine \<Rightarrow> bool" where
  "turn_start m \<longleftrightarrow> (\<exists>opts. m = run_start (NewMachine opts))"

definition turn_step :: "call_env \<Rightarrow> machine \<Rightarrow> machine \<Rightarrow> bool" where
  "turn_step E m m' \<longleftrightarrow> (\<exists>oc ev. ready ev m \<and> run_event E oc ev m = Loop m')"

lemma turn_start_inv: "turn_start m \<Longrightarrow> tm_inv m"
  by (auto simp: turn_start_def run_start_def NewMachine_def Let_def set_state_def tm_inv_def ctl_inv_def
      active_def draft_inv_def clock_inv_def ctx_inv_def path_inv_def)

text \<open>A step keeps the invariant; a return leaves nothing open; no step panics.\<close>

lemma run_event_correct:
  assumes "tm_inv m" "ready ev m"
  shows "case run_event E oc ev m of
      Loop m' \<Rightarrow> tm_inv m'
    | Return r m' \<Rightarrow> mc_turn_cancel m' = None \<and> mc_tts_ch m' = None \<and> mc_filler_c m' = None \<and>
        opened (mc_log m') = cancelled (mc_log m') \<and> mc_state m' = mc_state m \<and>
        state_path StListening (mc_log m') = Some (mc_state m')
    | Panic \<Rightarrow> False"
proof -
  have ret: "opened (mc_log (cancel_turn m)) = cancelled (mc_log (cancel_turn m)) \<and>
      state_path StListening (mc_log (cancel_turn m)) = Some (mc_state m)"
  proof -
    note q = quiet_log [OF quiet_logs(1), of m]
    have "opened (mc_log m) = cancelled (mc_log m) \<union> set_option (mc_turn_cancel m)"
      "state_path StListening (mc_log m) = Some (mc_state m)"
      using assms(1) by (simp_all add: tm_inv_def ctx_inv_def path_inv_def)
    then show ?thesis
      by (cases "mc_turn_cancel m") (simp_all add: log_simps cancel_log_def q state_path_append)
  qed
  have same: "tm_inv (m\<lparr>mc_stt_ch := False\<rparr>)"
  proof -
    have "same_ctl m [] (m\<lparr>mc_stt_ch := False\<rparr>)" by (simp add: same_ctl_def)
    from same_ctl_inv [OF this] assms(1) draft_cong [of "m\<lparr>mc_stt_ch := False\<rparr>" m] show ?thesis
      by (simp add: tm_inv_def clock_inv_def draft_inv_def)
  qed
  show ?thesis
  proof (cases ev)
    case (EvChunk c)
    with assms on_chunk_inv [of m oc c] show ?thesis by auto
  qed (use assms ret same in \<open>simp_all add: fd_inv del: fun_upd_apply\<close>)
qed

lemma turn_step_inv: "tm_inv m \<Longrightarrow> turn_step E m m' \<Longrightarrow> tm_inv m'"
proof -
  assume i: "tm_inv m" and "turn_step E m m'"
  then obtain oc ev where "ready ev m" "run_event E oc ev m = Loop m'" by (auto simp: turn_step_def)
  with run_event_correct [OF i, of ev E oc] show ?thesis by simp
qed

interpretation trn: step_system turn_start "turn_step E" tm_inv for E
  by unfold_locales (rule turn_start_inv, assumption, rule turn_step_inv)

lemma run_loop_correct:
  "tm_inv m \<Longrightarrow> case run_loop E evs m of
      Loop m' \<Rightarrow> tm_inv m'
    | Return r m' \<Rightarrow> mc_turn_cancel m' = None \<and> mc_tts_ch m' = None \<and> mc_filler_c m' = None \<and>
        opened (mc_log m') = cancelled (mc_log m') \<and>
        state_path StListening (mc_log m') = Some (mc_state m')
    | Panic \<Rightarrow> False"
proof (induction E evs m rule: run_loop.induct)
  case (2 E oc ev evs m)
  show ?case
  proof (cases "ready ev m")
    case True
    from run_event_correct [OF 2(3) True, of E oc] 2(1) [OF True] True show ?thesis
      by (auto split: loop_result.splits)
  qed (use 2 in simp)
qed simp


section \<open>What the caller's side sees\<close>

text \<open>Frames sent to the recognizer and user turns handed over, in the order of the log.\<close>

fun heard_key :: "effect \<Rightarrow> bool" where
  "heard_key (SendFrame f) = True"
| "heard_key (HookUserTurn tx loc) = True"
| "heard_key e = False"

abbreviation heard :: "machine \<Rightarrow> effect list" where
  "heard m \<equiv> filter heard_key (mc_log m)"

lemma heard_logs [simp]:
  "filter heard_key (timer_log m) = []" "filter heard_key (cancel_log m) = []"
  "filter heard_key (move_log m s) = []" "filter heard_key (err_log st rr) = []"
  "filter heard_key (issue_log E oc m) = []" "filter heard_key (barge_log oc r m) = []"
  by (simp_all add: timer_log_def cancel_log_def move_log_def err_log_def issue_log_def barge_log_def
      split: option.splits sum.splits)

lemma ends_turn_heard: "ends_turn m l m' \<Longrightarrow> filter heard_key l = [] \<Longrightarrow> heard m' = heard m"
  by (simp add: ends_turn_def)

lemma heard_handlers [simp]:
  "heard (rethink m) = heard m" "heard (complete_agent_turn m) = heard m" "heard (fail_turn E oc m) = heard m"
  "heard (confirm_barge_in E oc r m) = heard m" "heard (maybe_finish_speaking m) = heard m"
  "heard (set_state s m) = heard m" "heard (stop_filler m) = heard m" "heard (cancel_turn m) = heard m"
  "heard (hook_err st rr m) = heard m" "heard (switch_locale r m) = heard m" "heard (duck on m) = heard m"
  "heard (on_speaking_stt E oc r m) = heard m"
proof -
  show 1: "heard (rethink m) = heard m" "heard (complete_agent_turn m) = heard m" "heard (fail_turn E oc m) = heard m"
    "heard (confirm_barge_in E oc r m) = heard m" for m
    using ends_turn_heard [OF rethink_ends] ends_turn_heard [OF complete_ends]
      ends_turn_heard [OF fail_ends] ends_turn_heard [OF confirm_ends] by auto
  show "heard (maybe_finish_speaking m) = heard m"
    by (simp add: maybe_finish_speaking_def 1 split: option.split)
  show "heard (set_state s m) = heard m" "heard (stop_filler m) = heard m" "heard (cancel_turn m) = heard m"
    "heard (hook_err st rr m) = heard m" "heard (switch_locale r m) = heard m" "heard (duck on m) = heard m"
    by (simp_all add: log_simps switch_locale_def)
  show "heard (on_speaking_stt E oc r m) = heard m" by (simp add: on_speaking_stt_def 1)
qed

lemma heard_start: "heard (start_agent_turn E oc tx m) = heard m"
  by (simp add: start_agent_turn_def Let_def split: option.split)

lemma heard_other:
  "heard (on_stt E oc r m) = heard m" "heard (on_chunks_closed m) = heard m" "heard (on_filler E oc m) = heard m"
  "on_chunk oc c m = Some m' \<Longrightarrow> heard m' = heard m"
proof -
  show "heard (on_stt E oc r m) = heard m"
    by (simp add: on_stt_def Let_def split: turn_state.split)
  show "heard (on_chunks_closed m) = heard m" by (simp add: on_chunks_closed_def Let_def)
  show "heard (on_filler E oc m) = heard m" by (simp add: on_filler_def Let_def split: sum.split)
  show "heard m' = heard m" if "on_chunk oc c m = Some m'"
    using that by (auto simp: on_chunk_def Let_def split: option.splits if_splits)
qed

text \<open>A frame closes the user turn exactly when the endpointer has waited long enough in silence.\<close>

definition closes :: "call_env \<Rightarrow> outcomes \<Rightarrow> frame \<Rightarrow> machine \<Rightarrow> bool" where
  "closes E oc f m \<longleftrightarrow>
     mc_state m = StEndpointing \<and> draft m \<noteq> [] \<and> \<not> fst (meter_process (en_db E) f (mc_meter m)) \<and>
     waitForMs (en_unicode E) (draft m) (mc_locale m) (cf_endpoint (mc_cfg m))
       \<le> mc_media m + FrameMs - mc_last_speech m"

lemma frame_clock_values:
  assumes "frame_clock E oc f m0 = (m, sp, ons)"
  shows "sp = fst (meter_process (en_db E) f (mc_meter m0))" "ons = (sp \<and> \<not> mc_prev_speaking m0)"
    "mc_media m = mc_media m0 + FrameMs"
    "mc_last_speech m = (if sp then mc_media m0 + FrameMs else mc_last_speech m0)"
    "mc_locale m = mc_locale m0" "heard m = heard m0 @ [SendFrame f]" "mc_ducked m = mc_ducked m0"
    "mc_speak_start m = mc_speak_start m0" "mc_tts_done m = mc_tts_done m0" "mc_carry m = mc_carry m0"
    "mc_log m = mc_log m0 @ SendFrame f # err_log ''stt'' (oc_send oc)"
    "mc_turns m = mc_turns m0" "mc_duck_start m = mc_duck_start m0"
  using assms by (cases "meter_process (en_db E) f (mc_meter m0)";
      auto simp: frame_clock_def Let_def log_simps split: if_splits)+

lemma heard_on_frame:
  "heard (on_frame E oc f m0) = heard m0 @ SendFrame f #
     (if closes E oc f m0 then [HookUserTurn (draft m0) (mc_locale m0)] else [])"
proof -
  obtain m sp ons where c: "frame_clock E oc f m0 = (m, sp, ons)" by (metis prod_cases3)
  note v = frame_clock_values [OF c] and s = frame_clock_same [OF c]
  show ?thesis
  proof (cases "mc_state m0")
    case StEndpointing
    have "heard (finalize_user_turn E oc m) =
        heard m @ (if draft m = [] then [] else [HookUserTurn (draft m) (mc_locale m)])"
      by (simp add: finalize_user_turn_def Let_def heard_start)
    with StEndpointing show ?thesis
      by (auto simp: on_frame_def c closes_def s(3,4,5) v)
  next
    case StSpeaking
    then show ?thesis by (simp add: on_frame_def c closes_def s(4) v Let_def)
  qed (simp_all add: on_frame_def c closes_def s(4) v)
qed

section \<open>Runs\<close>

lemma run_loop_run_of:
  "run_loop E evs m = Loop m' \<Longrightarrow> run_of (turn_step E) m0 m \<Longrightarrow> run_of (turn_step E) m0 m'"
proof (induction E evs m rule: run_loop.induct)
  case (2 E oc ev evs m)
  show ?case
  proof (cases "ready ev m")
    case True
    with 2(3) obtain m1 where r: "run_event E oc ev m = Loop m1" and l: "run_loop E evs m1 = Loop m'"
      by (auto split: loop_result.splits)
    have "turn_step E m m1" using r True by (auto simp: turn_step_def)
    from 2(1) [OF True r l run_step [OF 2(4) this]] show ?thesis .
  qed (use 2 in simp)
qed simp

lemma Run_inv:
  assumes "Run E evs (NewMachine opts) = Loop m"
  shows "tm_inv m"
proof -
  have "turn_start (run_start (NewMachine opts))" by (auto simp: turn_start_def)
  moreover have "run_of (turn_step E) (run_start (NewMachine opts)) m"
    using run_loop_run_of [OF assms [unfolded Run_def] run_refl] .
  ultimately show ?thesis by (rule trn.inv_reachable)
qed

text \<open>
  C1: no run of the loop dereferences a missing tracker; at every point the state has moved along
  the edges listening, endpointing, thinking, speaking of the design, exactly the context of an
  active turn is open, the chunk channel is that turn's and the filler timer is armed only while
  thinking; and when \<open>Run\<close> returns every context it created is cancelled.
\<close>

theorem turn_loop_is_safe:
  "case Run E evs (NewMachine opts) of
     Loop m \<Rightarrow>
       state_path StListening (mc_log m) = Some (mc_state m) \<and>
       opened (mc_log m) - cancelled (mc_log m) = set_option (mc_turn_cancel m) \<and>
       (mc_turn_cancel m \<noteq> None \<longleftrightarrow> mc_state m \<in> {StThinking, StSpeaking}) \<and>
       mc_tts_ch m \<in> {None, mc_turn_cancel m} \<and>
       (mc_filler_c m = None \<or> mc_state m = StThinking)
   | Return r m \<Rightarrow>
       opened (mc_log m) = cancelled (mc_log m) \<and> mc_turn_cancel m = None \<and> mc_tts_ch m = None \<and> mc_filler_c m = None
   | Panic \<Rightarrow> False"
proof -
  have "tm_inv (run_start (NewMachine opts))" by (rule turn_start_inv) (auto simp: turn_start_def)
  note c = run_loop_correct [OF this, of E evs, folded Run_def]
  show ?thesis
  proof (cases "Run E evs (NewMachine opts)")
    case (Loop m)
    with c have i: "tm_inv m" by simp
    then have "opened (mc_log m) - cancelled (mc_log m) = set_option (mc_turn_cancel m)"
      unfolding tm_inv_def ctx_inv_def by blast
    with i show ?thesis by (auto simp: Loop tm_inv_def path_inv_def ctl_inv_def active_def)
  next
    case (Return r m)
    with c show ?thesis by simp
  next
    case Panic
    with c show ?thesis by simp
  qed
qed


section \<open>A small call\<close>

definition turn_env :: call_env where
  "turn_env = \<lparr>en_unicode = ascii_tables, en_db = (\<lambda>sq n. of_int sq), en_clips = NewBank [] []\<rparr>"

definition fine :: outcomes where
  "fine = \<lparr>oc_send = None, oc_reply = None, oc_speak = None, oc_write = None, oc_flush = None\<rparr>"

definition quick :: "(config \<Rightarrow> config) list" where
  "quick = [WithEndpointDelays
     \<lparr>HesitationMs = 20, NumberMs = 20, IncompleteMs = 20, QuestionMs = 20, DefaultMs = 20\<rparr>]"

definition partial_of :: "string \<Rightarrow> result" where
  "partial_of s = \<lparr>rs_text = s, rs_final = False, rs_locale = [], rs_confidence = 0\<rparr>"

definition asked :: "(outcomes \<times> loop_event) list" where
  "asked = map (Pair fine) [EvSTT (partial_of ''book a visit''), EvFrame (wframe 0), EvFrame (wframe 0)]"

definition short_reply :: chunk where
  "short_reply = \<lparr>ck_pcm = [], ck_duration = 60, ck_words = [timed ''sure'' 60]\<rparr>"

definition answered :: "(outcomes \<times> loop_event) list" where
  "answered = asked @ map (Pair fine) [EvChunk short_reply, EvChunksClosed]"

lemmas turn_eval = Run_def run_start_def NewMachine_def set_state_def emit_def on_stt_def switch_locale_def
  absorb_def on_frame_def frame_clock_def hook_err_def has_draft_def draft_def finalize_user_turn_def
  start_agent_turn_def fail_turn_def cancel_turn_def stop_filler_def on_chunk_def on_chunks_closed_def
  AddChunk_def short_reply_def timed_def NewPlayoutTracker_def meter_process_def NewMeter_def energy_dbfs_def wframe_def FrameMs_def
  SilenceDBFS_def turn_env_def fine_def partial_of_def defaultConfig_def WithEndpointDelays_def quick_def
  trim_space_def ascii_evals Let_def

lemma asked_wait: "waitForMs ascii_tables ''book a visit'' loc
     \<lparr>HesitationMs = 20, NumberMs = 20, IncompleteMs = 20, QuestionMs = 20, DefaultMs = 20\<rparr> = 20"
  by (simp add: waitForMs_def Let_def)

definition asked_machine :: machine where
  "asked_machine = (case Run turn_env asked (NewMachine quick) of Loop m \<Rightarrow> m)"

definition answered_machine :: machine where
  "answered_machine = (case Run turn_env answered (NewMachine quick) of Loop m \<Rightarrow> m)"

lemma asked_run: "Run turn_env asked (NewMachine quick) = Loop asked_machine"
  unfolding asked_machine_def by (simp add: turn_eval asked_def asked_wait)

lemma answered_run: "Run turn_env answered (NewMachine quick) = Loop answered_machine"
  unfolding answered_machine_def by (simp add: turn_eval answered_def asked_def asked_wait)

lemma answered_values:
  "mc_state answered_machine = StSpeaking" "mc_locale answered_machine = LocaleENCA"
  "mc_cfg answered_machine = mc_cfg (NewMachine quick)" "mc_ducked answered_machine = False"
  "mc_tts_done answered_machine" "mc_media answered_machine = 40" "mc_speak_start answered_machine = 40"
  "mc_tracker answered_machine = Some (AddChunk short_reply (NewPlayoutTracker 150))"
  "mc_meter answered_machine = NewMeter []" "mc_prev_speaking answered_machine = False"
  unfolding answered_machine_def by (simp_all add: turn_eval answered_def asked_def asked_wait)

text \<open>
  C35: while the bot speaks, a backchannel of the current locale ("uh huh", "ouais") never cuts it:
  the turn, its channel and its tracker stay, the line is not flushed, no agent turn is recorded,
  and the volume is restored.
\<close>

theorem backchannel_never_cuts:
  assumes "mc_state m = StSpeaking" and "mc_locale (switch_locale r m) = loc"
    and "isBackchannel (en_unicode E) (rs_text r) loc"
  shows "let m' = on_stt E oc r m in
     mc_state m' = StSpeaking \<and> mc_turn_cancel m' = mc_turn_cancel m \<and> mc_tts_ch m' = mc_tts_ch m \<and>
     mc_tracker m' = mc_tracker m \<and> (trim_space (rs_text r) \<noteq> [] \<longrightarrow> \<not> mc_ducked m') \<and> draft m' = draft m \<and>
     set (mc_log m') \<subseteq> set (mc_log m) \<union> {HookLanguageSwitch (mc_locale m) loc, PlayDuck False, HookDucking False}"
proof -
  have d: "draft (duck False (switch_locale r m)) = draft (switch_locale r m)" by (rule draft_cong) simp_all
  have l: "set (mc_log (switch_locale r m)) \<subseteq> set (mc_log m) \<union> {HookLanguageSwitch (mc_locale m) loc}"
    using assms(2) by (auto simp: switch_locale_def)
  have f: "mc_turn_cancel (switch_locale r m) = mc_turn_cancel m" "mc_tts_ch (switch_locale r m) = mc_tts_ch m"
    "mc_tracker (switch_locale r m) = mc_tracker m" "mc_state (switch_locale r m) = StSpeaking"
    using assms(1) by (simp_all add: switch_locale_def)
  show ?thesis
    using assms(2,3) l by (auto simp: on_stt_def Let_def on_speaking_stt_def f d switch_locale_same(3))
qed

theorem backchannel_never_cuts_witness:
  "let m' = on_stt turn_env fine (partial_of ''uh huh'') answered_machine in
     mc_state m' = StSpeaking \<and> mc_turn_cancel m' = mc_turn_cancel answered_machine \<and> \<not> mc_ducked m'"
proof -
  have t: "trim_space ''uh huh'' \<noteq> []" by (simp add: trim_space_def ascii_evals)
  have "isBackchannel ascii_tables ''uh huh'' LocaleENCA"
    by (simp add: backchannel_tokens tokenize_def ascii_evals profileFor_def profileEN_def LocaleENCA_def LocaleFRCA_def)
  then have "isBackchannel (en_unicode turn_env) (rs_text (partial_of ''uh huh'')) LocaleENCA"
    by (simp add: turn_env_def partial_of_def)
  moreover have "mc_locale (switch_locale (partial_of ''uh huh'') answered_machine) = LocaleENCA"
    by (simp add: switch_locale_def partial_of_def answered_values)
  ultimately show ?thesis
    using backchannel_never_cuts [OF answered_values(1), of "partial_of ''uh huh''" LocaleENCA turn_env fine] t
    by (simp add: Let_def partial_of_def)
qed



text \<open>A turn that is played out.\<close>

lemma finish_played_out:
  assumes "mc_tts_done m" "mc_tracker m = Some t" "WrittenMs t \<le> mc_media m - mc_speak_start m"
    and "pt_offset t = cf_offset (mc_cfg m)" "tracker_ok t"
  shows "maybe_finish_speaking m = complete_agent_turn m" and "final_text m = FullText t"
proof -
  have p: "played_ms m = WrittenMs t" using assms(2,3) by (simp add: played_ms_def Let_def)
  then show "maybe_finish_speaking m = complete_agent_turn m"
    using assms(1,2) by (simp add: maybe_finish_speaking_def)
  have "Spoken t (WrittenMs t + cf_offset (mc_cfg m)) = (FullText t, False)"
  proof (rule Spoken_played)
    show "\<forall>w \<in> set (pt_words t). wt_end w \<le> max 0 (WrittenMs t + cf_offset (mc_cfg m) - pt_offset t)"
      using assms(4,5) by (auto simp: tracker_ok_def WrittenMs_def)
  qed
  then show "final_text m = FullText t" by (simp add: final_text_def assms(2) p)
qed

text \<open>
  Once the synthesis is done and the line has played everything written, the next frame ends
  the agent turn as completed, with the full text of the utterance and no cut mark (the written
  to heard offset is added back, so nothing of the tail is dropped), and clears the draft.
\<close>

theorem completed_turn_records_full_text:
  assumes "Run E evs (NewMachine opts) = Loop m" and "mc_state m = StSpeaking" and "mc_tts_done m"
    and "mc_tracker m = Some t" and "tracker_ok t"
    and "WrittenMs t \<le> mc_media m + FrameMs - mc_speak_start m"
  shows "let m' = on_frame E oc f m in
     mc_state m' = StListening \<and> mc_turn_cancel m' = None \<and> draft m' = [] \<and>
     (\<exists>l. mc_log m' = mc_log m @ l @ [HookAgentTurn (FullText t) False, HookStateChange StSpeaking StListening])"
proof -
  have i: "tm_inv m" by (rule Run_inv [OF assms(1)])
  obtain m1 sp ons where c: "frame_clock E oc f m = (m1, sp, ons)" by (metis prod_cases3)
  note v = frame_clock_values [OF c] and s = frame_clock_same [OF c]
  define m2 where "m2 = (if ons \<and> \<not> mc_ducked m1 then duck True m1 else m1)"
  define m3 where "m3 = (if mc_ducked m2 \<and> mc_media m2 - mc_duck_start m2 \<ge> cf_confirm_window (mc_cfg m2)
     then duck False m2 else m2)"
  have f: "mc_state m3 = StSpeaking" "mc_tts_done m3" "mc_tracker m3 = Some t" "mc_media m3 = mc_media m + FrameMs"
    "mc_speak_start m3 = mc_speak_start m" "mc_cfg m3 = mc_cfg m"
    using assms(2-4) s(4-6) v by (simp_all add: m3_def m2_def)
  have lg: "\<exists>l. mc_log m3 = mc_log m @ l" using v by (simp add: m3_def m2_def)
  have o: "pt_offset t = cf_offset (mc_cfg m3)" using i assms(4) by (simp add: tm_inv_def clock_inv_def f)
  have "WrittenMs t \<le> mc_media m3 - mc_speak_start m3" using assms(6) f by simp
  note fp = finish_played_out [OF f(2,3) this o assms(5)]
  have e: "on_frame E oc f m = complete_agent_turn m3"
    using assms(2) s(4) unfolding fp(1) [symmetric]
    by (simp only: on_frame_def c prod.case turn_state.case Let_def m3_def m2_def)
  have d: "draft (complete_agent_turn m3) = []"
    by (simp add: complete_agent_turn_def Let_def draft_def)
  note ce = complete_ends [of m3, unfolded ends_turn_def fp(2)]
  then have "mc_log (complete_agent_turn m3) =
      mc_log m3 @ (cancel_log m3 @ timer_log m3) @ [HookAgentTurn (FullText t) False, HookStateChange StSpeaking StListening]"
    by (simp add: move_log_def f)
  with lg d ce show ?thesis unfolding e Let_def by auto
qed

theorem completed_turn_records_full_text_witness:
  "\<exists>m. Run turn_env (answered @ map (Pair fine) [EvFrame (wframe 0), EvFrame (wframe 0)]) (NewMachine quick) = Loop m \<and>
     mc_state (on_frame turn_env fine (wframe 0) m) = StListening \<and>
     HookAgentTurn ''sure'' False \<in> set (mc_log (on_frame turn_env fine (wframe 0) m))"
proof -
  obtain m where r: "Run turn_env (answered @ map (Pair fine) [EvFrame (wframe 0), EvFrame (wframe 0)]) (NewMachine quick) = Loop m"
    and v: "mc_state m = StSpeaking" "mc_tts_done m" "mc_tracker m = Some (AddChunk short_reply (NewPlayoutTracker 150))"
      "mc_media m = 80" "mc_speak_start m = 40"
    by (simp add: turn_eval answered_def asked_def asked_wait maybe_finish_speaking_def played_ms_def WrittenMs_def)
  have "tracker_ok (AddChunk short_reply (NewPlayoutTracker 150))"
    by (simp add: tracker_ok_def AddChunk_def short_reply_def timed_def NewPlayoutTracker_def)
  moreover have "WrittenMs (AddChunk short_reply (NewPlayoutTracker 150)) \<le> mc_media m + FrameMs - mc_speak_start m"
    by (simp add: v WrittenMs_def AddChunk_def short_reply_def NewPlayoutTracker_def FrameMs_def)
  moreover have "FullText (AddChunk short_reply (NewPlayoutTracker 150)) = ''sure''"
    by (simp add: FullText_def AddChunk_def short_reply_def timed_def NewPlayoutTracker_def)
  ultimately show ?thesis
    using completed_turn_records_full_text [OF r v(1-3), of fine "wframe 0"] r by (auto simp: Let_def)
qed

definition sent :: "effect list \<Rightarrow> frame list" where
  "sent l = List.map_filter (\<lambda>e. case e of SendFrame f \<Rightarrow> Some f | _ \<Rightarrow> None) l"

definition arrived :: "(outcomes \<times> loop_event) list \<Rightarrow> frame list" where
  "arrived evs = List.map_filter (\<lambda>p. case snd p of EvFrame f \<Rightarrow> Some f | _ \<Rightarrow> None) evs"

lemma sent_heard: "sent l = sent (filter heard_key l)"
proof (induction l)
  case (Cons e l)
  then show ?case by (cases e) (simp_all add: sent_def List.map_filter_simps)
qed (simp add: sent_def)

lemma sent_append [simp]: "sent (l @ l') = sent l @ sent l'"
  by (simp add: sent_def List.map_filter_def)

lemma sent_step:
  assumes "run_event E oc ev m = Loop m'"
  shows "sent (mc_log m') = sent (mc_log m) @ (case ev of EvFrame f \<Rightarrow> [f] | _ \<Rightarrow> [])"
proof -
  have "heard m' = heard m @
     (case ev of EvFrame f \<Rightarrow> SendFrame f # (if closes E oc f m then [HookUserTurn (draft m) (mc_locale m)] else []) | _ \<Rightarrow> [])"
    using assms by (cases ev) (auto simp: heard_on_frame heard_other split: option.splits)
  then have "sent (heard m') = sent (heard m) @ (case ev of EvFrame f \<Rightarrow> [f] | _ \<Rightarrow> [])"
    by (cases ev) (simp_all add: sent_def List.map_filter_def)
  then show ?thesis by (simp only: sent_heard [symmetric])
qed

lemma sent_loop: "run_loop E evs m = Loop m' \<Longrightarrow> sent (mc_log m') = sent (mc_log m) @ arrived evs"
proof (induction E evs m rule: run_loop.induct)
  case (1 E m)
  then show ?case by (simp add: arrived_def List.map_filter_simps)
next
  case (2 E oc ev evs m)
  have a: "arrived ((oc, ev) # evs) = (case ev of EvFrame f \<Rightarrow> [f] | _ \<Rightarrow> []) @ arrived evs"
    by (cases ev) (simp_all add: arrived_def List.map_filter_simps)
  show ?case
  proof (cases "ready ev m")
    case True
    with 2(3) obtain m1 where r: "run_event E oc ev m = Loop m1" and l: "run_loop E evs m1 = Loop m'"
      by (auto split: loop_result.splits)
    from 2(1) [OF True r l] sent_step [OF r] a show ?thesis by simp
  next
    case False
    then have "(case ev of EvFrame f \<Rightarrow> [f] | _ \<Rightarrow> []) = []" by (cases ev) simp_all
    with False 2 a show ?thesis by simp
  qed
qed

text \<open>
  On every run the recognizer has been sent exactly the frames that arrived, in order, in
  whatever state they arrived.
\<close>

theorem recognizer_hears_every_frame:
  assumes "Run E evs (NewMachine opts) = Loop m"
  shows "sent (mc_log m) = arrived evs"
proof -
  have "mc_log (run_start (NewMachine opts)) = []"
    by (simp add: run_start_def NewMachine_def Let_def set_state_def)
  with sent_loop [OF assms [unfolded Run_def]] show ?thesis by (simp add: sent_def List.map_filter_simps)
qed

theorem recognizer_hears_every_frame_witness:
  "sent (mc_log answered_machine) = [wframe 0, wframe 0]"
  using recognizer_hears_every_frame [OF answered_run]
  by (simp add: answered_def asked_def arrived_def List.map_filter_simps)

text \<open>A failed start leaves the draft standing.\<close>

lemma draft_trimmed [simp]: "trim_space (draft m) = draft m"
  by (simp add: draft_def)

lemma fail_turn_keeps:
  "mc_carry (fail_turn E oc m) = mc_carry m" "mc_finals (fail_turn E oc m) = mc_finals m"
  "mc_last_part (fail_turn E oc m) = mc_last_part m" "mc_media (fail_turn E oc m) = mc_media m"
  "mc_last_speech (fail_turn E oc m) = mc_last_speech m" "mc_locale (fail_turn E oc m) = mc_locale m"
  "mc_cfg (fail_turn E oc m) = mc_cfg m" "mc_state (fail_turn E oc m) = StListening"
  "mc_meter (fail_turn E oc m) = mc_meter m"
  by (simp_all add: fail_turn_def Let_def split: sum.split)

lemma failed_close:
  assumes "closes E oc f m" "oc_reply oc = Some e"
  shows "mc_state (on_frame E oc f m) = StListening" "draft (on_frame E oc f m) = draft m"
    "mc_locale (on_frame E oc f m) = mc_locale m" "mc_cfg (on_frame E oc f m) = mc_cfg m"
    "mc_media (on_frame E oc f m) = mc_media m + FrameMs"
    "mc_last_speech (on_frame E oc f m) = mc_last_speech m"
proof -
  obtain m1 sp ons where c: "frame_clock E oc f m = (m1, sp, ons)" by (metis prod_cases3)
  note v = frame_clock_values [OF c] and s = frame_clock_same [OF c]
  have ne: "draft m \<noteq> []" using assms(1) by (simp add: closes_def)
  define m2 where "m2 = emit (HookError ''agent'' e) (emit (AgentReply (mc_turns m1) (draft m1) (mc_locale m1))
     (((emit (HookUserTurn (draft m1) (mc_locale m1)) m1)\<lparr>mc_carry := draft m1, mc_finals := [], mc_last_part := []\<rparr>)
        \<lparr>mc_turns := mc_turns m1 + 1, mc_turn_cancel := Some (mc_turns m1)\<rparr>))"
  have on: "on_frame E oc f m = fail_turn E oc m2"
    using assms ne s(3,4,5) v
    by (simp add: on_frame_def c closes_def finalize_user_turn_def start_agent_turn_def Let_def m2_def)
  show "mc_state (on_frame E oc f m) = StListening" by (simp add: on fail_turn_keeps)
  have "draft (fail_turn E oc m2) = trim_space (draft m1)"
    unfolding draft_def [of "fail_turn E oc m2"] using ne s(3) by (simp add: fail_turn_keeps m2_def)
  then show "draft (on_frame E oc f m) = draft m" by (simp add: on s(3))
  show "mc_locale (on_frame E oc f m) = mc_locale m" "mc_cfg (on_frame E oc f m) = mc_cfg m"
    "mc_media (on_frame E oc f m) = mc_media m + FrameMs"
    "mc_last_speech (on_frame E oc f m) = mc_last_speech m"
    using assms(1) v s(5) by (simp_all add: on fail_turn_keeps m2_def closes_def)
qed

text \<open>
  When the agent cannot be reached the user turn is not consumed: two silent frames (40 ms)
  after the failed start the machine hands the very same user turn over again, so an outage of
  the agent repeats the turn, and the fallback phrase, without a bound or a pause.
\<close>

theorem failed_agent_repeats_user_turn:
  assumes "Run E evs (NewMachine opts) = Loop m" and "closes E oc f m" and "oc_reply oc = Some e"
    and "m1 = on_frame E oc f m" and "\<not> fst (meter_process (en_db E) f1 (mc_meter m1))"
    and "m2 = on_frame E oc1 f1 m1" and "\<not> fst (meter_process (en_db E) f2 (mc_meter m2))"
  shows "mc_state m1 = StListening \<and>
     filter heard_key (mc_log (on_frame E oc2 f2 m2)) = filter heard_key (mc_log m) @
       [SendFrame f, HookUserTurn (draft m) (mc_locale m), SendFrame f1,
        SendFrame f2, HookUserTurn (draft m) (mc_locale m)]"
proof -
  have i: "tm_inv m" by (rule Run_inv [OF assms(1)])
  have ne: "draft m \<noteq> []" using assms(2) by (simp add: closes_def)
  note k = failed_close [OF assms(2,3), folded assms(4)]
  obtain n sp ons where c: "frame_clock E oc1 f1 m1 = (n, sp, ons)" by (metis prod_cases3)
  note v = frame_clock_values [OF c] and s = frame_clock_same [OF c]
  have t: "mc_last_speech m \<le> mc_media m" using i by (simp add: tm_inv_def clock_inv_def)
  have "m2 = set_state StEndpointing n"
    using assms(5,6) k(1) ne t v s(3,4) k(2,5,6)
    by (simp add: on_frame_def c has_draft_def FrameMs_def)
  moreover have "draft (set_state StEndpointing n) = draft n" by (rule draft_cong) simp_all
  ultimately have m2: "mc_state m2 = StEndpointing" "draft m2 = draft m" "mc_locale m2 = mc_locale m"
    "mc_cfg m2 = mc_cfg m" "mc_media m2 = mc_media m + FrameMs + FrameMs" "mc_last_speech m2 = mc_last_speech m"
    using s(3,5) v assms(5) k by simp_all
  have "closes E oc2 f2 m2" using assms(2,7) ne by (simp add: closes_def m2 FrameMs_def)
  moreover have "\<not> closes E oc1 f1 m1" by (simp add: closes_def k(1))
  ultimately show ?thesis
    using assms(2) m2 k(1) by (simp add: heard_on_frame assms(4) [symmetric] assms(6) [symmetric])
      (simp add: assms(4,6) heard_on_frame failed_close(1) [OF assms(2,3)])
qed

definition no_agent :: outcomes where
  "no_agent = fine\<lparr>oc_reply := Some (Sentinel ''agent down'')\<rparr>"

definition pending_machine :: machine where
  "pending_machine = (case Run turn_env (take 2 asked) (NewMachine quick) of Loop m \<Rightarrow> m)"

lemma pending_eval:
  "case Run turn_env (take 2 asked) (NewMachine quick) of
     Loop m \<Rightarrow> mc_state m = StEndpointing \<and> draft m = ''book a visit'' \<and> mc_cfg m = mc_cfg (NewMachine quick) \<and>
       mc_media m = 20 \<and> mc_last_speech m = 0 \<and> mc_meter m = NewMeter [] \<and> mc_locale m = LocaleENCA
   | _ \<Rightarrow> False"
  by (simp add: turn_eval asked_def numeral_2_eq_2)

lemma pending_run: "Run turn_env (take 2 asked) (NewMachine quick) = Loop pending_machine"
  using pending_eval unfolding pending_machine_def
  by (cases "Run turn_env (take 2 asked) (NewMachine quick)") simp_all

lemma pending_values:
  "mc_state pending_machine = StEndpointing" "draft pending_machine = ''book a visit''"
  "mc_cfg pending_machine = mc_cfg (NewMachine quick)" "mc_media pending_machine = 20"
  "mc_last_speech pending_machine = 0" "mc_meter pending_machine = NewMeter []" "mc_locale pending_machine = LocaleENCA"
  using pending_eval unfolding pending_run by simp_all

lemma on_frame_quiet_meter:
  "mc_meter m = NewMeter [] \<Longrightarrow> mc_meter (on_frame turn_env oc (wframe 0) m) = NewMeter [] \<and>
     \<not> fst (meter_process (en_db turn_env) (wframe 0) (NewMeter []))"
proof -
  assume a: "mc_meter m = NewMeter []"
  have q: "meter_process (en_db turn_env) (wframe 0) (NewMeter []) = (False, NewMeter [])"
    by (simp add: meter_process_def NewMeter_def energy_dbfs_def wframe_def SilenceDBFS_def Let_def)
  obtain m1 sp ons where c: "frame_clock turn_env oc (wframe 0) m = (m1, sp, ons)" by (metis prod_cases3)
  then have "mc_meter m1 = NewMeter []" using a by (auto simp: frame_clock_def q Let_def split: if_splits)
  then show ?thesis
    by (cases "mc_state m1")
      (simp_all add: on_frame_def c q finalize_user_turn_def start_agent_turn_def Let_def fail_turn_keeps
        rethink_def maybe_finish_speaking_def complete_agent_turn_def split: option.split)
qed

theorem failed_agent_repeats_user_turn_witness:
  "filter heard_key (mc_log (on_frame turn_env no_agent (wframe 0)
       (on_frame turn_env fine (wframe 0) (on_frame turn_env no_agent (wframe 0) pending_machine)))) = filter heard_key (mc_log pending_machine) @
       [SendFrame (wframe 0), HookUserTurn ''book a visit'' LocaleENCA, SendFrame (wframe 0),
        SendFrame (wframe 0), HookUserTurn ''book a visit'' LocaleENCA]"
proof -
  have w: "waitForMs ascii_tables ''book a visit'' LocaleENCA (cf_endpoint (mc_cfg (NewMachine quick))) = 20"
    using asked_wait by (simp add: NewMachine_def Let_def quick_def WithEndpointDelays_def)
  have c: "closes turn_env no_agent (wframe 0) pending_machine"
    using on_frame_quiet_meter [OF pending_values(6)] w
    by (simp add: closes_def pending_values FrameMs_def turn_env_def)
  define m1 where "m1 = on_frame turn_env no_agent (wframe 0) pending_machine"
  define m2 where "m2 = on_frame turn_env fine (wframe 0) m1"
  have q: "mc_meter m1 = NewMeter []" "mc_meter m2 = NewMeter []"
    "\<not> fst (meter_process (en_db turn_env) (wframe 0) (NewMeter []))"
    using on_frame_quiet_meter pending_values(6) by (simp_all add: m1_def m2_def)
  have r: "oc_reply no_agent = Some (Sentinel ''agent down'')" by (simp add: no_agent_def fine_def)
  from failed_agent_repeats_user_turn [OF pending_run c r m1_def _ m2_def, of "wframe 0" no_agent] q
  show ?thesis by (simp add: pending_values m1_def m2_def)
qed

text \<open>
  When the caller starts to speak on the very frame on which the bot finishes, the line is
  ducked and never restored: the machine listens with the volume still lowered, and the next
  filler or fallback phrase is played at that volume.
\<close>

theorem completion_leaves_line_ducked:
  assumes "mc_state m = StSpeaking" and "mc_tts_done m" and "mc_tracker m = Some t"
    and "WrittenMs t \<le> mc_media m + FrameMs - mc_speak_start m"
    and "fst (meter_process (en_db E) f (mc_meter m))" and "\<not> mc_prev_speaking m" and "\<not> mc_ducked m"
    and "0 < cf_confirm_window (mc_cfg m)"
  shows "let m' = on_frame E oc f m in
     mc_state m' = StListening \<and> mc_ducked m' \<and>
     (\<exists>l. mc_log m' = mc_log m @ l \<and> PlayDuck True \<in> set l \<and> PlayDuck False \<notin> set l)"
proof -
  obtain m1 sp ons where c: "frame_clock E oc f m = (m1, sp, ons)" by (metis prod_cases3)
  note v = frame_clock_values [OF c] and s = frame_clock_same [OF c]
  let ?m2 = "duck True m1"
  have o: "ons" "sp" "\<not> mc_ducked m1" using assms(5-7) v by simp_all
  have p: "played_ms ?m2 = WrittenMs t"
    using assms(3,4) s(6) v by (simp add: played_ms_def Let_def)
  have e: "on_frame E oc f m = complete_agent_turn ?m2"
    using assms(1,2,3,8) o s(4,5,6) v p by (simp add: on_frame_def c Let_def maybe_finish_speaking_def)
  have "mc_ducked (complete_agent_turn ?m2)" by (simp add: complete_agent_turn_def Let_def)
  moreover note ce = complete_ends [of ?m2, unfolded ends_turn_def]
  then have "mc_log (complete_agent_turn ?m2) = mc_log m @ (SendFrame f # err_log ''stt'' (oc_send oc) @
      [PlayDuck True, HookDucking True] @ cancel_log ?m2 @ (timer_log ?m2 @ [HookAgentTurn (final_text ?m2) False]) @
      move_log ?m2 StListening)" (is "_ = _ @ ?l")
    using v by simp
  moreover have "PlayDuck False \<notin> set ?l"
    by (simp add: cancel_log_def timer_log_def move_log_def err_log_def split: option.splits)
  moreover have "PlayDuck True \<in> set ?l" by simp
  ultimately show ?thesis using ce unfolding e Let_def by blast
qed

definition two_loud :: "(outcomes \<times> loop_event) list" where
  "two_loud = answered @ map (Pair fine) [EvFrame (wframe 9), EvFrame (wframe 9)]"

theorem completion_leaves_line_ducked_witness:
  "\<exists>m. Run turn_env two_loud (NewMachine quick) = Loop m \<and>
     mc_state (on_frame turn_env fine (wframe 9) m) = StListening \<and> mc_ducked (on_frame turn_env fine (wframe 9) m)"
proof -
  obtain m where r: "Run turn_env two_loud (NewMachine quick) = Loop m"
    and v: "mc_state m = StSpeaking" "mc_tts_done m" "mc_tracker m = Some (AddChunk short_reply (NewPlayoutTracker 150))"
      "mc_media m = 80" "mc_speak_start m = 40" "\<not> mc_prev_speaking m" "\<not> mc_ducked m"
      "cf_confirm_window (mc_cfg m) = 700" "fst (meter_process (en_db turn_env) (wframe 9) (mc_meter m))"
    by (simp add: two_loud_def turn_eval answered_def asked_def asked_wait maybe_finish_speaking_def played_ms_def WrittenMs_def)
  have "WrittenMs (AddChunk short_reply (NewPlayoutTracker 150)) \<le> mc_media m + FrameMs - mc_speak_start m"
    by (simp add: v WrittenMs_def AddChunk_def short_reply_def NewPlayoutTracker_def FrameMs_def)
  from completion_leaves_line_ducked [OF v(1-3) this v(9,6,7), of fine] v(8) r
  show ?thesis by (auto simp: Let_def)
qed

text \<open>
  A final result that arrives after its own partial has closed the user turn cancels the
  reply and is appended to the turn's text, so the agent is asked with the sentence twice.
\<close>

theorem late_final_repeats_sentence:
  assumes "mc_state m = StThinking" and "mc_finals m = []" and "mc_last_part m = []"
    and "mc_carry m = trim_space (rs_text r)" and "trim_space (rs_text r) \<noteq> []"
    and "rs_final r" and "rs_locale r = []"
    and "\<not> isBackchannel (en_unicode E) (rs_text r) (mc_locale m)"
  shows "mc_state (on_stt E oc r m) = StListening \<and> mc_turn_cancel (on_stt E oc r m) = None \<and>
     draft (on_stt E oc r m) = trim_space (trim_space (rs_text r) @ '' '' @ trim_space (rs_text r))"
  using assms by (simp add: on_stt_def switch_locale_def Let_def rethink_def draft_def absorb_def)

theorem late_final_repeats_sentence_witness:
  "draft (on_stt turn_env fine (partial_of ''book a visit''\<lparr>rs_final := True\<rparr>) asked_machine)
     = ''book a visit book a visit''"
proof -
  have v: "mc_state asked_machine = StThinking" "mc_finals asked_machine = []" "mc_last_part asked_machine = []"
    "mc_carry asked_machine = ''book a visit''" "mc_locale asked_machine = LocaleENCA"
    unfolding asked_machine_def by (simp_all add: turn_eval asked_def asked_wait)
  have t: "trim_space ''book a visit'' = ''book a visit''" by (simp add: trim_space_def ascii_evals)
  have b: "\<not> isBackchannel ascii_tables ''book a visit'' LocaleENCA"
    by (simp add: backchannel_tokens tokenize_def ascii_evals profileFor_def profileEN_def LocaleENCA_def LocaleFRCA_def)
  from late_final_repeats_sentence [OF v(1-3), of "partial_of ''book a visit''\<lparr>rs_final := True\<rparr>" turn_env fine]
  have "draft (on_stt turn_env fine (partial_of ''book a visit''\<lparr>rs_final := True\<rparr>) asked_machine) =
      trim_space ''book a visit book a visit''"
    using v t b by (simp add: partial_of_def turn_env_def)
  also have "\<dots> = ''book a visit book a visit''" by (simp add: trim_space_def ascii_evals)
  finally show ?thesis .
qed

end
