(* ===== verification/Bus.thy ===== *)
theory Bus
  imports Events
begin

text \<open>
  \<open>internal/event/bus.go\<close>, \<open>membus.go\<close> and \<open>natsbus.go\<close>: the deduplication by call and sequence
  number, the in-memory bus and the JetStream subscriber. A handler is a function of the event
  and of the world it acts on; what the JSON decoder makes of a message is part of the message.
\<close>

section \<open>Deduplication\<close>

type_synonym seq_dedup = "string \<rightharpoonup> 64 word set"

definition seen_seqs :: "seq_dedup \<Rightarrow> string \<Rightarrow> 64 word set" where
  "seen_seqs d call_id = (case d call_id of None \<Rightarrow> {} | Some s \<Rightarrow> s)"

definition is_duplicate :: "string \<Rightarrow> 64 word \<Rightarrow> seq_dedup \<Rightarrow> bool \<times> seq_dedup" where
  "is_duplicate call_id sq d =
     (let calls = seen_seqs d call_id in
      if sq \<in> calls then (True, d(call_id \<mapsto> calls)) else (False, d(call_id \<mapsto> insert sq calls)))"

definition forget :: "string \<Rightarrow> seq_dedup \<Rightarrow> seq_dedup" where
  "forget call_id d = d(call_id := None)"

lemma seen_after:
  "seen_seqs (snd (is_duplicate c q d)) c' = (if c' = c then insert q (seen_seqs d c) else seen_seqs d c')"
  by (auto simp: is_duplicate_def seen_seqs_def Let_def)

lemma duplicate_iff: "fst (is_duplicate c q d) \<longleftrightarrow> q \<in> seen_seqs d c"
  by (simp add: is_duplicate_def Let_def)

lemma seen_empty [simp]: "seen_seqs Map.empty c = {}"
  by (simp add: seen_seqs_def)

lemma seen_forget [simp]: "seen_seqs (forget c d) c' = (if c' = c then {} else seen_seqs d c')"
  by (simp add: forget_def seen_seqs_def)

section \<open>In-memory bus\<close>

type_synonym 'w handler = "envelope \<Rightarrow> 'w \<Rightarrow> gerr option \<times> 'w"

record 'w memory_bus =
  mb_dedup :: seq_dedup
  mb_events :: "envelope list"
  mb_handlers :: "'w handler list"

definition empty_bus :: "'w memory_bus" where
  "empty_bus = \<lparr>mb_dedup = Map.empty, mb_events = [], mb_handlers = []\<rparr>"

fun deliver :: "'w handler list \<Rightarrow> envelope \<Rightarrow> 'w \<Rightarrow> gerr option \<times> 'w" where
  "deliver [] ev w = (None, w)"
| "deliver (h # hs) ev w =
     (case h ev w of (Some e, w') \<Rightarrow> (Some e, w') | (None, w') \<Rightarrow> deliver hs ev w')"

definition mb_Publish :: "envelope \<Rightarrow> 'w memory_bus \<Rightarrow> 'w \<Rightarrow> gerr option \<times> 'w memory_bus \<times> 'w" where
  "mb_Publish ev b w =
     (case is_duplicate (CallID ev) (Seq ev) (mb_dedup b) of
        (True, d) \<Rightarrow> (None, b\<lparr>mb_dedup := d\<rparr>, w)
      | (False, d) \<Rightarrow>
          (case deliver (mb_handlers b) ev w of
             (r, w') \<Rightarrow> (r, b\<lparr>mb_dedup := d, mb_events := mb_events b @ [ev]\<rparr>, w')))"

definition mb_Handle :: "'w handler \<Rightarrow> 'w memory_bus \<Rightarrow> 'w memory_bus" where
  "mb_Handle h b = b\<lparr>mb_handlers := mb_handlers b @ [h]\<rparr>"

text \<open>\<open>Subscribe\<close> registers the handler, then waits for the context and returns its error.\<close>

definition mb_Subscribe :: "'w handler \<Rightarrow> gerr \<Rightarrow> 'w memory_bus \<Rightarrow> gerr option \<times> 'w memory_bus" where
  "mb_Subscribe h ctx_err b = (Some ctx_err, b\<lparr>mb_handlers := mb_handlers b @ [h]\<rparr>)"

definition mb_Events :: "'w memory_bus \<Rightarrow> envelope list" where
  "mb_Events b = mb_events b"

fun publish_all :: "envelope list \<Rightarrow> 'w memory_bus \<Rightarrow> 'w \<Rightarrow> 'w memory_bus \<times> 'w" where
  "publish_all [] b w = (b, w)"
| "publish_all (ev # evs) b w = (case mb_Publish ev b w of (r, b', w') \<Rightarrow> publish_all evs b' w')"

abbreviation ev_key :: "envelope \<Rightarrow> string \<times> 64 word" where
  "ev_key ev \<equiv> (CallID ev, Seq ev)"

text \<open>The first event of each key, in order.\<close>

fun firsts :: "(string \<times> 64 word) set \<Rightarrow> envelope list \<Rightarrow> envelope list" where
  "firsts K [] = []"
| "firsts K (ev # evs) =
     (if ev_key ev \<in> K then firsts K evs else ev # firsts (insert (ev_key ev) K) evs)"

lemma firsts_distinct: "distinct (map ev_key (firsts K evs)) \<and> ev_key ` set (firsts K evs) \<inter> K = {} \<and>
    ev_key ` set (firsts K evs) = ev_key ` set evs - K"
  by (induction K evs rule: firsts.induct) auto

lemma publish_all_events:
  "(\<forall>c q. (c, q) \<in> K \<longleftrightarrow> q \<in> seen_seqs (mb_dedup b) c) \<Longrightarrow>
   mb_events (fst (publish_all evs b w)) = mb_events b @ firsts K evs"
proof (induction evs arbitrary: K b w)
  case (Cons ev evs)
  obtain dup d where d: "is_duplicate (CallID ev) (Seq ev) (mb_dedup b) = (dup, d)" by fastforce
  have dup: "dup \<longleftrightarrow> ev_key ev \<in> K"
    using duplicate_iff [of "CallID ev" "Seq ev" "mb_dedup b"] Cons.prems d by simp
  have sn: "seen_seqs d c = (if c = CallID ev then insert (Seq ev) (seen_seqs (mb_dedup b) (CallID ev)) else seen_seqs (mb_dedup b) c)" for c
    using seen_after [of "CallID ev" "Seq ev" "mb_dedup b" c] d by simp
  show ?case
  proof (cases dup)
    case True
    have "(\<forall>c q. (c, q) \<in> K \<longleftrightarrow> q \<in> seen_seqs d c)"
      using Cons.prems dup True by (auto simp: sn)
    from Cons.IH [of K "b\<lparr>mb_dedup := d\<rparr>" w] this True dup show ?thesis
      by (simp add: mb_Publish_def d)
  next
    case False
    obtain r w' where v: "deliver (mb_handlers b) ev w = (r, w')" by fastforce
    have "(\<forall>c q. (c, q) \<in> insert (ev_key ev) K \<longleftrightarrow> q \<in> seen_seqs d c)"
      using Cons.prems by (auto simp: sn)
    from Cons.IH [of "insert (ev_key ev) K" "b\<lparr>mb_dedup := d, mb_events := mb_events b @ [ev]\<rparr>" w'] this False dup
    show ?thesis by (simp add: mb_Publish_def d v)
  qed
qed simp

text \<open>
  Whatever is published, in whatever order and with whatever repetition, and whatever the
  handlers answer, the in-memory bus keeps exactly the first event of every call and sequence
  number, in publish order.
\<close>

theorem membus_keeps_first_of_each:
  "mb_Events (fst (publish_all evs (empty_bus\<lparr>mb_handlers := hs\<rparr>) w)) = firsts {} evs \<and>
   distinct (map ev_key (firsts {} evs)) \<and> ev_key ` set (firsts {} evs) = ev_key ` set evs"
  using publish_all_events [of "{}" "empty_bus\<lparr>mb_handlers := hs\<rparr>" evs w] firsts_distinct [of "{}" evs]
  by (simp add: mb_Events_def empty_bus_def)

section \<open>JetStream\<close>

definition js_subject :: "string \<Rightarrow> envelope \<Rightarrow> string" where
  "js_subject prefix ev = prefix @ ''.'' @ TenantID ev @ ''.'' @ CallID ev"

text \<open>\<open>Publish\<close>, given what \<open>json.Marshal\<close> and the server answer.\<close>

definition js_Publish :: "(envelope \<Rightarrow> string res) \<Rightarrow> (string \<Rightarrow> string \<Rightarrow> string \<Rightarrow> gerr option) \<Rightarrow> string \<Rightarrow> envelope \<Rightarrow> gerr option" where
  "js_Publish marshal send prefix ev =
     (case marshal ev of
        Inl e \<Rightarrow> Some (Wrap ''marshal event %s: %w'' [FS (EventID ev)] e)
      | Inr body \<Rightarrow>
          (case send (js_subject prefix ev) body (EventID ev) of
             Some e \<Rightarrow> Some (Wrap ''publish %s to %s: %w'' [FS (EventID ev), FS (js_subject prefix ev)] e)
           | None \<Rightarrow> None))"

datatype reply = Term | Ack | Nak

text \<open>The consumer callback on one delivery; the body is what \<open>json.Unmarshal\<close> made of the data.\<close>

definition on_msg :: "'w handler \<Rightarrow> envelope res \<Rightarrow> seq_dedup \<Rightarrow> 'w \<Rightarrow> reply \<times> seq_dedup \<times> 'w" where
  "on_msg h body d w =
     (case body of
        Inl e \<Rightarrow> (Term, d, w)
      | Inr ev \<Rightarrow>
          (case is_duplicate (CallID ev) (Seq ev) d of
             (True, d) \<Rightarrow> (Ack, d, w)
           | (False, d) \<Rightarrow>
               (case h ev w of
                  (Some e, w) \<Rightarrow> (Nak, d, w)
                | (None, w) \<Rightarrow>
                    (Ack, if Type ev = TypeCallEnded then forget (CallID ev) d else d, w))))"

text \<open>
  A delivery that fails is lost. The subscriber marks the event as seen before it runs the
  handler, so when the handler fails and the server redelivers the message, the redelivery is
  acknowledged as a duplicate and the handler never sees the event again.
\<close>

theorem failed_delivery_is_lost:
  assumes "Seq ev \<notin> seen_seqs d (CallID ev)" and "(h :: 'w handler) ev w = (Some e, w1)"
  shows "\<exists>d1. on_msg h (Inr ev) d w = (Nak, d1, w1) \<and>
     (\<forall>(h' :: 'w handler) w2. fst (on_msg h' (Inr ev) d1 w2) = Ack \<and> snd (snd (on_msg h' (Inr ev) d1 w2)) = w2)"
proof -
  obtain dup d1 where d: "is_duplicate (CallID ev) (Seq ev) d = (dup, d1)" by fastforce
  have "\<not> dup" using duplicate_iff [of "CallID ev" "Seq ev" d] d assms(1) by simp
  then have 1: "on_msg h (Inr ev) d w = (Nak, d1, w1)" using assms(2) by (simp add: on_msg_def d)
  have "Seq ev \<in> seen_seqs d1 (CallID ev)"
    using seen_after [of "CallID ev" "Seq ev" d "CallID ev"] d by simp
  then have "fst (is_duplicate (CallID ev) (Seq ev) d1)" by (simp add: duplicate_iff)
  then have "fst (on_msg h' (Inr ev) d1 w2) = Ack \<and> snd (snd (on_msg h' (Inr ev) d1 w2)) = w2" for h' :: "'w handler" and w2
    by (cases "is_duplicate (CallID ev) (Seq ev) d1") (simp add: on_msg_def)
  with 1 show ?thesis by blast
qed

definition plain_event :: envelope where
  "plain_event = \<lparr>EventID = ''e1'', CallID = ''c1'', Seq = 1, TS = 0, TenantID = ''t1'', FlowID = [],
     FlowVersion = 1, Type = TypeCallEnded, NodeID = [], Payload = None, Redactions = []\<rparr>"

theorem failed_delivery_is_lost_witness:
  "\<exists>d1. on_msg (\<lambda>ev w. (Some (Sentinel ''carrier down''), True)) (Inr plain_event) Map.empty False = (Nak, d1, True) \<and>
     fst (on_msg (\<lambda>ev w. (None, False)) (Inr plain_event) d1 True) = Ack \<and>
     snd (snd (on_msg (\<lambda>ev w. (None, False)) (Inr plain_event) d1 True))"
proof -
  have "Seq plain_event \<notin> seen_seqs Map.empty (CallID plain_event)" by simp
  from failed_delivery_is_lost [OF this, of "\<lambda>ev w. (Some (Sentinel ''carrier down''), True)" False
      "Sentinel ''carrier down''" True] show ?thesis by auto
qed

end
