(* ===== verification/Domain.thy ===== *)
theory Domain
  imports Fold
begin

text \<open>
  \<open>internal/domain\<close> and \<open>internal/tenantctx\<close>: the business types of the core API with their
  validation, the business hours, the coverage area, the call read model and the tenant carried
  by a context. An error keeps its format and arguments. A map that is ranged over
  (\<open>BusinessHours\<close>) is an association list in the order of that iteration.
\<close>

section \<open>Tenant in a context\<close>

definition ErrNoTenant :: string where "ErrNoTenant = ''tenantctx: no tenant in context''"

text \<open>A context as far as the tenant key goes.\<close>

type_synonym go_context = "string option"

definition WithTenant :: "go_context \<Rightarrow> string \<Rightarrow> go_context" where
  "WithTenant ctx tenant_id = Some tenant_id"

definition FromContext :: "go_context \<Rightarrow> string res" where
  "FromContext ctx =
     (case ctx of
        Some i \<Rightarrow> if i = [] then Inl (Sentinel ErrNoTenant) else Inr i
      | None \<Rightarrow> Inl (Sentinel ErrNoTenant))"

section \<open>Plans, modes and hours\<close>

definition ErrNotFound :: string where "ErrNotFound = ''not found''"
definition ErrConflict :: string where "ErrConflict = ''conflict''"

definition PlanStarter :: string where "PlanStarter = ''starter''"
definition PlanPro :: string where "PlanPro = ''pro''"
definition PlanGrowth :: string where "PlanGrowth = ''growth''"

definition plan_Valid :: "string \<Rightarrow> bool" where
  "plan_Valid p \<longleftrightarrow> p \<in> {PlanStarter, PlanPro, PlanGrowth}"

definition mode_Valid :: "string \<Rightarrow> bool" where
  "mode_Valid m \<longleftrightarrow> m \<in> {ModeOverflow, ModeAlwaysAI}"

record time_range =
  tr_open :: string
  tr_close :: string

text \<open>
  \<open>time.Parse\<close> at the layout \<open>15:04\<close>: an hour of one or two digits below 24, a colon, a
  minute of two digits below 60, and nothing after it.
\<close>

definition dig :: "char \<Rightarrow> nat option" where
  "dig c = (if 0x30 \<le> byte c \<and> byte c \<le> 0x39 then Some (byte c - 0x30) else None)"

definition parse_minute :: "string \<Rightarrow> nat option" where
  "parse_minute s =
     (case s of
        [a, b] \<Rightarrow> (case (dig a, dig b) of
                    (Some x, Some y) \<Rightarrow> if 10 * x + y < 60 then Some (10 * x + y) else None
                  | _ \<Rightarrow> None)
      | _ \<Rightarrow> None)"

definition after_hour :: "nat \<Rightarrow> string \<Rightarrow> (nat \<times> nat) option" where
  "after_hour h s =
     (case s of
        c # r \<Rightarrow> if h < 24 \<and> c = CHR '':'' then map_option (Pair h) (parse_minute r) else None
      | [] \<Rightarrow> None)"

definition parse_clock :: "string \<Rightarrow> (nat \<times> nat) option" where
  "parse_clock s =
     (case s of
        [] \<Rightarrow> None
      | a # r \<Rightarrow>
          (case dig a of
             None \<Rightarrow> None
           | Some x \<Rightarrow>
               (case r of
                  b # r' \<Rightarrow> (case dig b of
                              Some y \<Rightarrow> after_hour (10 * x + y) r'
                            | None \<Rightarrow> after_hour x r)
                | [] \<Rightarrow> None)))"

definition ErrParse :: string where "ErrParse = ''parsing time''"

definition clock_before :: "nat \<times> nat \<Rightarrow> nat \<times> nat \<Rightarrow> bool" where
  "clock_before a b \<longleftrightarrow> 60 * fst a + snd a < 60 * fst b + snd b"

definition range_Validate :: "time_range \<Rightarrow> gerr option" where
  "range_Validate r =
     (case parse_clock (tr_open r) of
        None \<Rightarrow> Some (Wrap ''open %q: %w'' [FS (tr_open r)] (Sentinel ErrParse))
      | Some op \<Rightarrow>
          (case parse_clock (tr_close r) of
             None \<Rightarrow> Some (Wrap ''close %q: %w'' [FS (tr_close r)] (Sentinel ErrParse))
           | Some cl \<Rightarrow>
               if \<not> clock_before op cl
               then Some (Errf ''open %q must precede close %q'' [FS (tr_open r), FS (tr_close r)])
               else None))"

definition range_contains :: "time_range \<Rightarrow> string \<Rightarrow> bool" where
  "range_contains r hhmm \<longleftrightarrow> \<not> str_less hhmm (tr_open r) \<and> str_less hhmm (tr_close r)"

type_synonym business_hours = "(string \<times> time_range list) list"

definition weekdayKeys :: "string list" where
  "weekdayKeys = [''sun'', ''mon'', ''tue'', ''wed'', ''thu'', ''fri'', ''sat'']"

definition validDayKey :: "string \<Rightarrow> bool" where
  "validDayKey day \<longleftrightarrow> (\<exists>k \<in> set weekdayKeys. day = k)"

fun ranges_Validate :: "string \<Rightarrow> time_range list \<Rightarrow> gerr option" where
  "ranges_Validate day [] = None"
| "ranges_Validate day (r # rs) =
     (case range_Validate r of
        Some e \<Rightarrow> Some (Wrap ''day %s: %w'' [FS day] e)
      | None \<Rightarrow> ranges_Validate day rs)"

fun hours_Validate :: "business_hours \<Rightarrow> gerr option" where
  "hours_Validate [] = None"
| "hours_Validate ((day, ranges) # h) =
     (if \<not> validDayKey day then Some (Errf ''unknown day key %q'' [FS day])
      else case ranges_Validate day ranges of Some e \<Rightarrow> Some e | None \<Rightarrow> hours_Validate h)"

text \<open>A time in its own location: the weekday (Sunday = 0) and the clock, printed at \<open>15:04\<close>.\<close>

definition two_digits :: "nat \<Rightarrow> string" where
  "two_digits n = [char_of (0x30 + n div 10), char_of (0x30 + n mod 10)]"

definition format_clock :: "nat \<Rightarrow> nat \<Rightarrow> string" where
  "format_clock hh mm = two_digits hh @ '':'' @ two_digits mm"

definition IsOpen :: "business_hours \<Rightarrow> nat \<Rightarrow> nat \<Rightarrow> nat \<Rightarrow> bool" where
  "IsOpen h wd hh mm =
     (case map_of h (weekdayKeys ! wd) of
        None \<Rightarrow> False
      | Some ranges \<Rightarrow> (\<exists>r \<in> set ranges. range_contains r (format_clock hh mm)))"

section \<open>Coverage area\<close>

definition remove_spaces :: "string \<Rightarrow> string" where
  "remove_spaces s = filter (\<lambda>c. c \<noteq> CHR '' '') s"

definition Covers :: "unicode \<Rightarrow> string list \<Rightarrow> string \<Rightarrow> bool" where
  "Covers U prefixes postal =
     (if prefixes = [] then True
      else \<exists>p \<in> set prefixes.
             to_upper U (remove_spaces p) \<noteq> [] \<and>
             has_prefix (to_upper U (remove_spaces postal)) (to_upper U (remove_spaces p)))"

section \<open>Tenant\<close>

record tenant =
  tn_id :: string
  tn_name :: string
  tn_plan :: string
  tn_mode :: string
  tn_overflow_seconds :: int
  tn_hours :: business_hours
  tn_coverage :: "string list"
  tn_owner_mobile :: string
  tn_default_locale :: go_locale
  tn_api_key_hash :: string
  tn_trial_ends_at :: gotime
  tn_created_at :: gotime

definition tenant_Validate :: "tenant \<Rightarrow> gerr option" where
  "tenant_Validate t =
     (if tn_id t = [] then Some (Errf ''tenant: missing id'' [])
      else if tn_name t = [] then Some (Errf ''tenant: missing name'' [])
      else if \<not> plan_Valid (tn_plan t) then Some (Errf ''tenant: unknown plan %q'' [FS (tn_plan t)])
      else if \<not> mode_Valid (tn_mode t) then Some (Errf ''tenant: unknown mode %q'' [FS (tn_mode t)])
      else if tn_mode t = ModeOverflow \<and> tn_overflow_seconds t \<le> 0
        then Some (Errf ''tenant: overflow mode requires overflowSeconds > 0'' [])
      else if tn_default_locale t \<noteq> LocaleENCA \<and> tn_default_locale t \<noteq> LocaleFRCA
        then Some (Errf ''tenant: unknown locale %q'' [FS (tn_default_locale t)])
      else case hours_Validate (tn_hours t) of
             Some e \<Rightarrow> Some (Wrap ''tenant: hours: %w'' [] e)
           | None \<Rightarrow> None)"

section \<open>Phone numbers, appointments and messages\<close>

record did =
  di_number :: string
  di_provider :: string
  di_active :: bool
  di_created_at :: gotime

definition did_Validate :: "did \<Rightarrow> gerr option" where
  "did_Validate d =
     (if \<not> has_prefix (di_number d) ''+''
      then Some (Errf ''did: number %q must be E.164 (start with +)'' [FS (di_number d)])
      else let digits = drop 1 (di_number d) in
        if length digits < 8 \<or> length digits > 15
        then Some (Errf ''did: number %q must have 8-15 digits'' [FS (di_number d)])
        else if \<exists>r \<in> set (runes digits). r < 0x30 \<or> r > 0x39
        then Some (Errf ''did: number %q has non-digit characters'' [FS (di_number d)])
        else if di_provider d = [] then Some (Errf ''did: missing provider'' [])
        else None)"

record appointment =
  ap_id :: string
  ap_call_id :: string
  ap_customer_name :: string
  ap_customer_phone :: string
  ap_service :: string
  ap_postal_code :: string
  ap_starts_at :: gotime
  ap_ends_at :: gotime
  ap_notes :: string
  ap_created_at :: gotime

definition appointment_Validate :: "appointment \<Rightarrow> gerr option" where
  "appointment_Validate a =
     (if ap_id a = [] then Some (Errf ''appointment: missing id'' [])
      else if ap_customer_name a = [] then Some (Errf ''appointment: missing customerName'' [])
      else if ap_service a = [] then Some (Errf ''appointment: missing service'' [])
      else if is_zero (ap_starts_at a) \<or> is_zero (ap_ends_at a)
        then Some (Errf ''appointment: missing startsAt/endsAt'' [])
      else if \<not> ap_starts_at a < ap_ends_at a
        then Some (Errf ''appointment: startsAt %s must precede endsAt %s''
                    [FI (ap_starts_at a), FI (ap_ends_at a)])
      else None)"

definition UrgencyLow :: string where "UrgencyLow = ''low''"
definition UrgencyNormal :: string where "UrgencyNormal = ''normal''"
definition UrgencyHigh :: string where "UrgencyHigh = ''high''"
definition UrgencyEmergency :: string where "UrgencyEmergency = ''emergency''"

definition urgency_Valid :: "string \<Rightarrow> bool" where
  "urgency_Valid u \<longleftrightarrow> u \<in> {UrgencyLow, UrgencyNormal, UrgencyHigh, UrgencyEmergency}"

record message =
  ms_id :: string
  ms_call_id :: string
  ms_who :: string
  ms_what :: string
  ms_urgency :: string
  ms_callback_phone :: string
  ms_created_at :: gotime

definition message_Validate :: "message \<Rightarrow> gerr option" where
  "message_Validate m =
     (if ms_id m = [] then Some (Errf ''message: missing id'' [])
      else if ms_who m = [] then Some (Errf ''message: missing who'' [])
      else if ms_what m = [] then Some (Errf ''message: missing what'' [])
      else if \<not> urgency_Valid (ms_urgency m)
        then Some (Errf ''message: unknown urgency %q'' [FS (ms_urgency m)])
      else if ms_callback_phone m = [] then Some (Errf ''message: missing callbackPhone'' [])
      else None)"

section \<open>Calls\<close>

record call =
  ca_snapshot :: call_snapshot
  ca_recording_url :: string

definition call_ID :: "call \<Rightarrow> string" where "call_ID c = sn_call_id (ca_snapshot c)"

definition CallFromEvents :: "envelope list \<Rightarrow> string \<Rightarrow> call res" where
  "CallFromEvents evs url =
     (case Fold evs of
        Inl e \<Rightarrow> Inl (Wrap ''call: fold events: %w'' [] e)
      | Inr s \<Rightarrow> Inr \<lparr>ca_snapshot = s, ca_recording_url = url\<rparr>)"

section \<open>Onboarding\<close>

record onboarding_profile =
  op_website_url :: string
  op_business_name :: string
  op_services :: "string list"
  op_faqs :: "(string \<times> string) list"
  op_extracted_at :: gotime

fun after_scheme :: "string \<Rightarrow> string option" where
  "after_scheme [] = None"
| "after_scheme (c # s) = (if has_prefix (c # s) ''://'' then Some (drop 2 s) else after_scheme s)"

definition hostOf :: "string \<Rightarrow> string" where
  "hostOf url =
     (let host = (case after_scheme url of Some h \<Rightarrow> h | None \<Rightarrow> url);
          host = takeWhile (\<lambda>c. c \<notin> set ''/?#'') host
      in trim_prefix host ''www.'')"

definition ExtractProfile :: "gotime \<Rightarrow> string \<Rightarrow> onboarding_profile res" where
  "ExtractProfile now url =
     (if url = [] then Inl (Errf ''extract profile: empty website url'' [])
      else Inr \<lparr>op_website_url = url, op_business_name = hostOf url,
        op_services = [''plumbing repair'', ''water heater installation'', ''drain cleaning''],
        op_faqs =
          [(''Do you serve my area?'',
            ''We serve the greater metro area; share your postal code and we will confirm.''),
           (''Est-ce que vous offrez un service d'urgence?'',
            ''Oui, un service d'urgence 24/7 est offert pour les fuites majeures.'')],
        op_extracted_at = now\<rparr>)"

section \<open>Clock strings\<close>

text \<open>A bound written with two digits for the hour is compared as the clock it denotes.\<close>

definition minutes :: "nat \<times> nat \<Rightarrow> nat" where "minutes c = 60 * fst c + snd c"

lemma byte_two: "n < 10 \<Longrightarrow> byte (char_of (0x30 + n)) = 0x30 + n"
  by simp

lemma digits_order:
  fixes qa qb ra rb :: nat
  assumes "ra < 10" "rb < 10"
  shows "10 * qa + ra < 10 * qb + rb \<longleftrightarrow> qa < qb \<or> (qa = qb \<and> ra < rb)"
    and "10 * qa + ra = 10 * qb + rb \<longleftrightarrow> qa = qb \<and> ra = rb"
  using assms by (cases qa qb rule: linorder_cases; simp)+

lemma str_less_two_digits:
  assumes "a < 100" "b < 100"
  shows "str_less (two_digits a @ s) (two_digits b @ t) \<longleftrightarrow> a < b \<or> (a = b \<and> str_less s t)"
proof -
  have d: "a div 10 < 10" "b div 10 < 10" "a mod 10 < 10" "b mod 10 < 10" using assms by auto
  define qa ra qb rb where "qa = a div 10" "ra = a mod 10" "qb = b div 10" "rb = b mod 10"
  then have a: "a div 10 = qa" "a mod 10 = ra" "a = 10 * qa + ra" "ra < 10"
    and b: "b div 10 = qb" "b mod 10 = rb" "b = 10 * qb + rb" "rb < 10" by simp_all
  have "a < b \<longleftrightarrow> qa < qb \<or> (qa = qb \<and> ra < rb)" "a = b \<longleftrightarrow> qa = qb \<and> ra = rb"
    using digits_order [OF a(4) b(4), of qa qb] unfolding a(3) b(3) by simp_all
  then have "a < b \<longleftrightarrow> a div 10 < b div 10 \<or> (a div 10 = b div 10 \<and> a mod 10 < b mod 10)"
    "a = b \<longleftrightarrow> a div 10 = b div 10 \<and> a mod 10 = b mod 10" by (simp_all add: a(1,2) b(1,2))
  then show ?thesis using d by (auto simp: two_digits_def)
qed

lemma str_less_clock:
  assumes "h < 24" "m < 60" "h' < 24" "m' < 60"
  shows "str_less (format_clock h m) (format_clock h' m') \<longleftrightarrow> 60 * h + m < 60 * h' + m'"
proof -
  have "str_less (format_clock h m) (format_clock h' m') \<longleftrightarrow>
      h < h' \<or> (h = h' \<and> str_less ('':'' @ two_digits m @ []) ('':'' @ two_digits m' @ []))"
    unfolding format_clock_def using assms str_less_two_digits [of h h' "'':'' @ two_digits m" "'':'' @ two_digits m'"]
    by simp
  also have "str_less ('':'' @ two_digits m @ []) ('':'' @ two_digits m' @ []) \<longleftrightarrow> m < m'"
    using assms str_less_two_digits [of m m' "[]" "[]"] by simp
  also have "h < h' \<or> (h = h' \<and> m < m') \<longleftrightarrow> 60 * h + m < 60 * h' + m'" using assms by auto
  finally show ?thesis .
qed

lemma dig_two: "n < 10 \<Longrightarrow> dig (char_of (0x30 + n)) = Some n"
  by (simp add: dig_def)

lemma parse_format_clock:
  assumes "h < 24" "m < 60"
  shows "parse_clock (format_clock h m) = Some (h, m)"
proof -
  have "h div 10 < 10" "h mod 10 < 10" "m div 10 < 10" "m mod 10 < 10" using assms by auto
  note d = this [THEN dig_two]
  have "10 * (h div 10) + h mod 10 = h" "10 * (m div 10) + m mod 10 = m" by simp_all
  with assms d show ?thesis
    by (simp add: parse_clock_def format_clock_def two_digits_def after_hour_def parse_minute_def)
qed

definition hhmm_range :: "nat \<times> nat \<Rightarrow> nat \<times> nat \<Rightarrow> time_range" where
  "hhmm_range a b = \<lparr>tr_open = format_clock (fst a) (snd a), tr_close = format_clock (fst b) (snd b)\<rparr>"

definition is_clock :: "nat \<times> nat \<Rightarrow> bool" where
  "is_clock c \<longleftrightarrow> fst c < 24 \<and> snd c < 60"

text \<open>
  C37: for bounds written with two-digit hours, the string comparison of the business hours is the
  comparison of the clocks: the range validates exactly when it opens before it closes, and the
  business is open at a minute exactly when the opening is not after it and the close is.
\<close>

theorem business_hours_by_the_clock:
  assumes "is_clock a" and "is_clock b" and "hh < 24" and "mm < 60"
  shows "(range_Validate (hhmm_range a b) = None \<longleftrightarrow> minutes a < minutes b) \<and>
     (IsOpen [(weekdayKeys ! wd, [hhmm_range a b])] wd hh mm \<longleftrightarrow>
        minutes a \<le> minutes (hh, mm) \<and> minutes (hh, mm) < minutes b)"
  using assms
  by (simp add: is_clock_def range_Validate_def hhmm_range_def parse_format_clock clock_before_def minutes_def
      IsOpen_def range_contains_def str_less_clock) auto

theorem business_hours_by_the_clock_witness:
  "range_Validate (hhmm_range (9, 0) (17, 30)) = None \<and> IsOpen [(''mon'', [hhmm_range (9, 0) (17, 30)])] 1 10 15"
  using business_hours_by_the_clock [of "(9, 0)" "(17, 30)" 10 15 1]
  by (simp add: is_clock_def minutes_def weekdayKeys_def)

text \<open>
  An opening hour written with one digit passes the validation and then keeps the business
  shut: 9:00 to 17:00 validates and is closed at every two-digit hour of the day and before it.
\<close>

theorem one_digit_hour_is_never_open:
  "range_Validate \<lparr>tr_open = ''9:00'', tr_close = ''17:00''\<rparr> = None \<and>
   hours_Validate [(''mon'', [\<lparr>tr_open = ''9:00'', tr_close = ''17:00''\<rparr>])] = None \<and>
   \<not> IsOpen [(''mon'', [\<lparr>tr_open = ''9:00'', tr_close = ''17:00''\<rparr>])] 1 (hh mod 24) (mm mod 60)"
proof -
  have v: "range_Validate \<lparr>tr_open = ''9:00'', tr_close = ''17:00''\<rparr> = None"
    by (simp add: range_Validate_def parse_clock_def dig_def after_hour_def parse_minute_def clock_before_def)
  have "hh mod 24 < 3 * 10" by (rule less_trans [of _ 24]) simp_all
  then have "(hh mod 24) div 10 < 3" by (rule less_mult_imp_div_less)
  then have "(hh mod 24) div 10 < 9" "(hh mod 24) div 10 < 10" by simp_all
  then have "str_less (format_clock (hh mod 24) (mm mod 60)) ''9:00''"
    by (simp add: format_clock_def two_digits_def)
  with v show ?thesis
    by (simp add: IsOpen_def range_contains_def weekdayKeys_def validDayKey_def)
qed

end
