(* ===== verification/Billing.thy ===== *)
theory Billing
  imports Domain
begin

text \<open>
  \<open>internal/billing\<close>: the plan table, usage as a fold over the event stream, the invoice and the
  offline payment gateway. Amounts are 64-bit cents. Go ranges over a map in an arbitrary order,
  so the order of the calls is a parameter of \<open>UsageFromEvents\<close>.
\<close>

definition OverageCentsPerMinute :: int where "OverageCentsPerMinute = 35"

record plan_pricing =
  pp_monthly_cents :: int
  pp_included_minutes :: int
  pp_overage_cents_per_minute :: int

definition pricingByPlan :: "string \<rightharpoonup> plan_pricing" where
  "pricingByPlan =
     [PlanStarter \<mapsto> \<lparr>pp_monthly_cents = 14900, pp_included_minutes = 200, pp_overage_cents_per_minute = OverageCentsPerMinute\<rparr>,
      PlanPro \<mapsto> \<lparr>pp_monthly_cents = 24900, pp_included_minutes = 500, pp_overage_cents_per_minute = OverageCentsPerMinute\<rparr>,
      PlanGrowth \<mapsto> \<lparr>pp_monthly_cents = 39900, pp_included_minutes = 1000, pp_overage_cents_per_minute = OverageCentsPerMinute\<rparr>]"

definition PricingFor :: "string \<Rightarrow> plan_pricing res" where
  "PricingFor plan =
     (case pricingByPlan plan of
        Some p \<Rightarrow> Inr p
      | None \<Rightarrow> Inl (Errf ''billing: unknown plan %q'' [FS plan]))"

definition AddUsage :: "usage \<Rightarrow> usage \<Rightarrow> usage" where
  "AddUsage a b =
     \<lparr>CallMinutes = add64 (CallMinutes a) (CallMinutes b), STTSeconds = fadd (STTSeconds a) (STTSeconds b),
      LLMTokensIn = add64 (LLMTokensIn a) (LLMTokensIn b), LLMTokensOut = add64 (LLMTokensOut a) (LLMTokensOut b),
      TTSChars = add64 (TTSChars a) (TTSChars b)\<rparr>"

fun sum_usage :: "call_snapshot list \<Rightarrow> usage \<Rightarrow> usage" where
  "sum_usage [] tot = tot"
| "sum_usage (s # ss) tot = sum_usage ss (AddUsage tot (sn_usage s))"

definition SumUsage :: "call_snapshot list \<Rightarrow> usage" where
  "SumUsage ss = sum_usage ss usage0"

definition call_events :: "envelope list \<Rightarrow> string \<Rightarrow> envelope list" where
  "call_events evs i = filter (\<lambda>ev. CallID ev = i) evs"

fun usage_loop :: "envelope list \<Rightarrow> string list \<Rightarrow> usage \<Rightarrow> usage res" where
  "usage_loop evs [] tot = Inr tot"
| "usage_loop evs (i # ids) tot =
     (case Fold (call_events evs i) of
        Inl e \<Rightarrow> Inl (Wrap ''billing: fold call %s: %w'' [FS i] e)
      | Inr snap \<Rightarrow> usage_loop evs ids (AddUsage tot (sn_usage snap)))"

definition UsageFromEvents :: "(string list \<Rightarrow> string list) \<Rightarrow> envelope list \<Rightarrow> usage res" where
  "UsageFromEvents map_order evs = usage_loop evs (map_order (remdups (map CallID evs))) usage0"

record invoice =
  in_plan :: string
  in_usage :: usage
  in_base_cents :: int
  in_included_minutes :: int
  in_overage_minutes :: int
  in_overage_cents :: int
  in_total_cents :: int
  in_trial :: bool

definition Compute :: "string \<Rightarrow> usage \<Rightarrow> bool \<Rightarrow> invoice res" where
  "Compute plan u in_tr =
     (case PricingFor plan of
        Inl e \<Rightarrow> Inl e
      | Inr pr \<Rightarrow>
          let over = sub64 (CallMinutes u) (pp_included_minutes pr);
              over = (if over < 0 then 0 else over);
              cents = mul64 over (pp_overage_cents_per_minute pr)
          in Inr \<lparr>in_plan = plan, in_usage = u, in_base_cents = pp_monthly_cents pr,
                  in_included_minutes = pp_included_minutes pr, in_overage_minutes = over,
                  in_overage_cents = cents,
                  in_total_cents = (if \<not> in_tr then add64 (pp_monthly_cents pr) cents else 0),
                  in_trial = in_tr\<rparr>)"

section \<open>Payment gateway\<close>

definition TrialDays :: int where "TrialDays = 14"

definition StatusTrialing :: string where "StatusTrialing = ''trialing''"

record subscription =
  sb_id :: string
  sb_plan :: string
  sb_status :: string
  sb_trial_ends_at :: gotime

type_synonym fake_stripe = "string \<rightharpoonup> subscription"

definition day_ns :: int where "day_ns = 24 * 60 * 60 * 1000000000"

text \<open>\<open>new_id\<close> is the ULID library's answer at the instant \<open>now\<close>.\<close>

definition CreateSubscription :: "(gotime \<Rightarrow> string) \<Rightarrow> gotime \<Rightarrow> go_context \<Rightarrow> string \<Rightarrow> fake_stripe \<Rightarrow> subscription res \<times> fake_stripe" where
  "CreateSubscription new_id now ctx plan subs =
     (case FromContext ctx of
        Inl e \<Rightarrow> (Inl (Wrap ''create subscription: %w'' [] e), subs)
      | Inr t \<Rightarrow>
          (case PricingFor plan of
             Inl e \<Rightarrow> (Inl (Wrap ''create subscription: %w'' [] e), subs)
           | Inr pr \<Rightarrow>
               (case subs t of
                  Some s \<Rightarrow> (Inl (Wrap ''create subscription: tenant already subscribed: %w'' [] (Sentinel ErrConflict)), subs)
                | None \<Rightarrow>
                    let sub = \<lparr>sb_id = ''sub_'' @ new_id now, sb_plan = plan, sb_status = StatusTrialing,
                               sb_trial_ends_at = now + TrialDays * day_ns\<rparr>
                    in (Inr sub, subs(t \<mapsto> sub)))))"

definition Subscription :: "go_context \<Rightarrow> fake_stripe \<Rightarrow> subscription res" where
  "Subscription ctx subs =
     (case FromContext ctx of
        Inl e \<Rightarrow> Inl (Wrap ''get subscription: %w'' [] e)
      | Inr t \<Rightarrow>
          (case subs t of
             Some s \<Rightarrow> Inr s
           | None \<Rightarrow> Inl (Wrap ''get subscription: %w'' [] (Sentinel ErrNotFound))))"

section \<open>Properties\<close>

text \<open>The integer totals of a usage loop are wrapped sums over the calls, whatever their order.\<close>

definition int_totals :: "usage \<Rightarrow> int list" where
  "int_totals u = [CallMinutes u, LLMTokensIn u, LLMTokensOut u, TTSChars u]"

definition add_totals :: "int list \<Rightarrow> int list \<Rightarrow> int list" where
  "add_totals xs ys = map2 add64 xs ys"

lemma AddUsage_totals: "int_totals (AddUsage a b) = add_totals (int_totals a) (int_totals b)"
  by (simp add: AddUsage_def int_totals_def add_totals_def)

definition call_totals :: "envelope list \<Rightarrow> string \<Rightarrow> int list" where
  "call_totals evs i = (case Fold (call_events evs i) of Inr s \<Rightarrow> int_totals (sn_usage s) | Inl e \<Rightarrow> [0, 0, 0, 0])"

lemma add_totals_swap: "add_totals (add_totals a b) c = add_totals (add_totals a c) b"
proof (induction a arbitrary: b c)
  case (Cons x a)
  then show ?case by (cases b; cases c) (simp_all add: add_totals_def add64_ac)
qed (simp add: add_totals_def)

lemma fold_totals_mset:
  "mset ids = mset ids' \<Longrightarrow> fold (\<lambda>i t. add_totals t (f i)) ids t = fold (\<lambda>i t. add_totals t (f i)) ids' t"
  by (rule fold_permuted_eq [where P = "\<lambda>_. True"]) (simp_all add: add_totals_swap)

lemma usage_loop_ok:
  "ok (usage_loop evs ids t) \<longleftrightarrow> (\<forall>i \<in> set ids. ok (Fold (call_events evs i)))"
  by (induction ids arbitrary: t) (auto split: sum.split)

lemma usage_loop_totals:
  "usage_loop evs ids t = Inr u \<Longrightarrow> int_totals u = fold (\<lambda>i t. add_totals t (call_totals evs i)) ids (int_totals t)"
proof (induction ids arbitrary: t)
  case (Cons i ids)
  then obtain s where s: "Fold (call_events evs i) = Inr s" and l: "usage_loop evs ids (AddUsage t (sn_usage s)) = Inr u"
    by (auto split: sum.splits)
  from Cons.IH [OF l] s show ?case by (simp add: AddUsage_totals call_totals_def)
qed simp

text \<open>
  Billed usage does not depend on the order in which the map of calls is walked, nor on the
  order or the repetition of the deliveries: for streams as producers emit them, two deliveries
  of the same set of events fail together and otherwise bill the same minutes, tokens and
  characters.
\<close>

theorem usage_is_delivery_independent:
  assumes "\<forall>xs. mset (ord xs) = mset xs" and "\<forall>xs. mset (ord' xs) = mset xs"
    and "set evs = set evs'" and "\<forall>i. proper_stream (set (call_events evs i))"
  shows "(ok (UsageFromEvents ord evs) \<longleftrightarrow> ok (UsageFromEvents ord' evs')) \<and>
     (\<forall>u u'. UsageFromEvents ord evs = Inr u \<and> UsageFromEvents ord' evs' = Inr u' \<longrightarrow> int_totals u = int_totals u')"
proof -
  define ids where "ids = remdups (map CallID evs)"
  define ids' where "ids' = remdups (map CallID evs')"
  have same: "Fold (call_events evs i) = Fold (call_events evs' i)" for i
  proof -
    have "set (call_events evs i) = set (call_events evs' i)" using assms(3) by (simp add: call_events_def)
    with kept_cong [OF assms(4) [rule_format]] have "kept (call_events evs i) = kept (call_events evs' i)" .
    then show ?thesis by (simp add: Fold_kept)
  qed
  have "set (map CallID evs) = set (map CallID evs')" using assms(3) by simp
  then have m: "mset (ord ids) = mset (ord' ids')"
    unfolding ids_def ids'_def using assms(1,2) by (simp add: set_eq_iff_mset_remdups_eq [symmetric])
  then have st: "set (ord ids) = set (ord' ids')" by (metis set_mset_mset)
  have "ok (UsageFromEvents ord evs) \<longleftrightarrow> ok (UsageFromEvents ord' evs')"
    by (simp add: UsageFromEvents_def usage_loop_ok ids_def [symmetric] ids'_def [symmetric] st same)
  moreover have "int_totals u = int_totals u'"
    if "UsageFromEvents ord evs = Inr u" "UsageFromEvents ord' evs' = Inr u'" for u u'
    using usage_loop_totals [OF that(1) [unfolded UsageFromEvents_def ids_def [symmetric]]]
      usage_loop_totals [OF that(2) [unfolded UsageFromEvents_def ids'_def [symmetric]]]
      fold_totals_mset [OF m, of "call_totals evs"]
    by (simp add: call_totals_def same)
  ultimately show ?thesis by blast
qed

theorem usage_is_delivery_independent_witness:
  "ok (UsageFromEvents (\<lambda>xs. xs) [ev_demo 1 ''a'' TypeCallStarted JNull]) \<longleftrightarrow>
   ok (UsageFromEvents rev [ev_demo 1 ''a'' TypeCallStarted JNull, ev_demo 1 ''a'' TypeCallStarted JNull])"
proof -
  have "\<forall>i. proper_stream (set (call_events [ev_demo 1 ''a'' TypeCallStarted JNull] i))"
    by (simp add: call_events_def proper_stream_def ev_demo_def)
  with usage_is_delivery_independent [of "\<lambda>xs. xs" rev "[ev_demo 1 ''a'' TypeCallStarted JNull]"
      "[ev_demo 1 ''a'' TypeCallStarted JNull, ev_demo 1 ''a'' TypeCallStarted JNull]"]
  show ?thesis by simp
qed

text \<open>
  An invoice is priced exactly: for every plan of the table and any usage a month can have,
  the total is the base price plus 35 cents for each minute beyond the allowance, nothing is
  charged inside the allowance or during the trial, and a plan outside the table is refused.
\<close>

theorem invoice_is_exact:
  assumes "0 \<le> CallMinutes u" and "CallMinutes u < 2 ^ 50"
  shows "case PricingFor plan of
      Inl e \<Rightarrow> Compute plan u tr = Inl e \<and> plan \<notin> {PlanStarter, PlanPro, PlanGrowth}
    | Inr pr \<Rightarrow> plan \<in> {PlanStarter, PlanPro, PlanGrowth} \<and>
        (\<exists>inv. Compute plan u tr = Inr inv \<and>
           in_overage_minutes inv = max 0 (CallMinutes u - pp_included_minutes pr) \<and>
           in_overage_cents inv = 35 * max 0 (CallMinutes u - pp_included_minutes pr) \<and>
           in_total_cents inv = (if tr then 0 else pp_monthly_cents pr + in_overage_cents inv) \<and>
           in_base_cents inv = pp_monthly_cents pr)"
proof (cases "PricingFor plan")
  case (Inl e)
  then show ?thesis by (auto simp: Compute_def PricingFor_def pricingByPlan_def split: if_splits)
next
  case (Inr pr)
  then have pl: "plan \<in> {PlanStarter, PlanPro, PlanGrowth}"
    and pr: "pp_overage_cents_per_minute pr = 35" "0 \<le> pp_included_minutes pr" "pp_included_minutes pr \<le> 1000"
      "0 \<le> pp_monthly_cents pr" "pp_monthly_cents pr \<le> 39900"
    by (auto simp: PricingFor_def pricingByPlan_def OverageCentsPerMinute_def split: if_splits)
  define over where "over = max 0 (CallMinutes u - pp_included_minutes pr)"
  have b: "0 \<le> over" "over < 2 ^ 50" using assms pr by (auto simp: over_def)
  have "sub64 (CallMinutes u) (pp_included_minutes pr) = CallMinutes u - pp_included_minutes pr"
    unfolding sub64_def using assms pr by (intro wrap64_id) (simp add: int64_def)
  then have o: "(if sub64 (CallMinutes u) (pp_included_minutes pr) < 0 then 0
      else sub64 (CallMinutes u) (pp_included_minutes pr)) = over"
    by (simp add: over_def)
  have c: "mul64 over 35 = 35 * over" unfolding mul64_def using b by (subst wrap64_id) (simp_all add: int64_def)
  have t: "add64 (pp_monthly_cents pr) (35 * over) = pp_monthly_cents pr + 35 * over"
    using b pr by (intro add64_exact) (simp add: int64_def)
  show ?thesis using Inr pl by (simp add: Compute_def Let_def o pr(1) c t over_def [symmetric])
qed

theorem invoice_is_exact_witness:
  "\<exists>inv. Compute PlanStarter (usage0\<lparr>CallMinutes := 250\<rparr>) False = Inr inv \<and> in_total_cents inv = 16650"
  using invoice_is_exact [of "usage0\<lparr>CallMinutes := 250\<rparr>" PlanStarter False]
  by (auto simp: PricingFor_def pricingByPlan_def PlanStarter_def PlanPro_def PlanGrowth_def split: if_splits)

end
