(* ===== verification/Store_Mem.thy ===== *)
theory Store_Mem
  imports Domain
begin

text \<open>
  \<open>internal/store/memstore.go\<close>: the in-memory store. The tenant of an operation comes from its
  context alone. Rows of a tenant are association lists by aggregate id (Go maps that are ranged
  over); a list operation sorts them, and where two rows compare equal Go's unstable sort may
  order them differently from the model. What its clients rely on, that other tenants' operations
  are invisible, is the locale \<open>tenant_scoped\<close>.
\<close>

record mem =
  mem_tenants :: "string \<rightharpoonup> tenant"
  mem_apiKeys :: "string \<rightharpoonup> string"
  mem_didOwners :: "string \<rightharpoonup> string"
  mem_dids :: "string \<Rightarrow> (string \<times> did) list"
  mem_calls :: "string \<Rightarrow> (string \<times> call) list"
  mem_appointments :: "string \<Rightarrow> (string \<times> appointment) list"
  mem_messages :: "string \<Rightarrow> (string \<times> message) list"

definition NewMem :: mem where
  "NewMem = \<lparr>mem_tenants = Map.empty, mem_apiKeys = Map.empty, mem_didOwners = Map.empty,
     mem_dids = (\<lambda>_. []), mem_calls = (\<lambda>_. []), mem_appointments = (\<lambda>_. []), mem_messages = (\<lambda>_. [])\<rparr>"

definition CreateTenant :: "tenant \<Rightarrow> mem \<Rightarrow> gerr option \<times> mem" where
  "CreateTenant t m =
     (case tenant_Validate t of
        Some e \<Rightarrow> (Some (Wrap ''create tenant: %w'' [] e), m)
      | None \<Rightarrow>
          if mem_tenants m (tn_id t) \<noteq> None
          then (Some (Wrap ''create tenant %s: %w'' [FS (tn_id t)] (Sentinel ErrConflict)), m)
          else (None, m\<lparr>mem_tenants := (mem_tenants m)(tn_id t \<mapsto> t),
                        mem_apiKeys := (if tn_api_key_hash t \<noteq> [] then (mem_apiKeys m)(tn_api_key_hash t \<mapsto> tn_id t)
                                        else mem_apiKeys m)\<rparr>))"

text \<open>A key that points at a tenant without a row would yield Go's zero tenant, here \<open>zero\<close>.\<close>

definition TenantByAPIKeyHash :: "tenant \<Rightarrow> string \<Rightarrow> mem \<Rightarrow> tenant res" where
  "TenantByAPIKeyHash zero key_hash m =
     (case mem_apiKeys m key_hash of
        None \<Rightarrow> Inl (Wrap ''tenant by api key: %w'' [] (Sentinel ErrNotFound))
      | Some i \<Rightarrow> Inr (case mem_tenants m i of Some t \<Rightarrow> t | None \<Rightarrow> zero))"

definition CurrentTenant :: "go_context \<Rightarrow> mem \<Rightarrow> tenant res" where
  "CurrentTenant ctx m =
     (case FromContext ctx of
        Inl e \<Rightarrow> Inl (Wrap ''current tenant: %w'' [] e)
      | Inr i \<Rightarrow>
          (case mem_tenants m i of
             None \<Rightarrow> Inl (Wrap ''current tenant %s: %w'' [FS i] (Sentinel ErrNotFound))
           | Some t \<Rightarrow> Inr t))"

definition UpdateTenantMode :: "go_context \<Rightarrow> string \<Rightarrow> int \<Rightarrow> mem \<Rightarrow> gerr option \<times> mem" where
  "UpdateTenantMode ctx mode secs m =
     (case FromContext ctx of
        Inl e \<Rightarrow> (Some (Wrap ''update mode: %w'' [] e), m)
      | Inr i \<Rightarrow>
          (case mem_tenants m i of
             None \<Rightarrow> (Some (Wrap ''update mode: tenant %s: %w'' [FS i] (Sentinel ErrNotFound)), m)
           | Some t \<Rightarrow>
               let t = t\<lparr>tn_mode := mode, tn_overflow_seconds := secs\<rparr> in
               (case tenant_Validate t of
                  Some e \<Rightarrow> (Some (Wrap ''update mode: %w'' [] e), m)
                | None \<Rightarrow> (None, m\<lparr>mem_tenants := (mem_tenants m)(i \<mapsto> t)\<rparr>))))"

definition AddDID :: "go_context \<Rightarrow> did \<Rightarrow> mem \<Rightarrow> gerr option \<times> mem" where
  "AddDID ctx d m =
     (case FromContext ctx of
        Inl e \<Rightarrow> (Some (Wrap ''add did: %w'' [] e), m)
      | Inr i \<Rightarrow>
          (case did_Validate d of
             Some e \<Rightarrow> (Some (Wrap ''add did: %w'' [] e), m)
           | None \<Rightarrow>
               if mem_didOwners m (di_number d) \<noteq> None
               then (Some (Wrap ''add did %s: %w'' [FS (di_number d)] (Sentinel ErrConflict)), m)
               else (None, m\<lparr>mem_didOwners := (mem_didOwners m)(di_number d \<mapsto> i),
                             mem_dids := (mem_dids m)(i := AList.update (di_number d) d (mem_dids m i))\<rparr>)))"

definition ListDIDs :: "go_context \<Rightarrow> mem \<Rightarrow> did list res" where
  "ListDIDs ctx m =
     (case FromContext ctx of
        Inl e \<Rightarrow> Inl (Wrap ''list dids: %w'' [] e)
      | Inr i \<Rightarrow> Inr (sort_by (\<lambda>a b. str_less (di_number a) (di_number b)) (map snd (mem_dids m i))))"

definition PutCall :: "go_context \<Rightarrow> call \<Rightarrow> mem \<Rightarrow> gerr option \<times> mem" where
  "PutCall ctx c m =
     (case FromContext ctx of
        Inl e \<Rightarrow> (Some (Wrap ''put call: %w'' [] e), m)
      | Inr i \<Rightarrow>
          if call_ID c = [] then (Some (Errf ''put call: missing call id'' []), m)
          else (None, m\<lparr>mem_calls := (mem_calls m)(i := AList.update (call_ID c) c (mem_calls m i))\<rparr>))"

definition ListCalls :: "go_context \<Rightarrow> mem \<Rightarrow> call list res" where
  "ListCalls ctx m =
     (case FromContext ctx of
        Inl e \<Rightarrow> Inl (Wrap ''list calls: %w'' [] e)
      | Inr i \<Rightarrow> Inr (sort_by (\<lambda>a b. sn_started_at (ca_snapshot a) > sn_started_at (ca_snapshot b)) (map snd (mem_calls m i))))"

definition GetCall :: "go_context \<Rightarrow> string \<Rightarrow> mem \<Rightarrow> call res" where
  "GetCall ctx call_id m =
     (case FromContext ctx of
        Inl e \<Rightarrow> Inl (Wrap ''get call: %w'' [] e)
      | Inr i \<Rightarrow>
          (case map_of (mem_calls m i) call_id of
             None \<Rightarrow> Inl (Wrap ''get call %s: %w'' [FS call_id] (Sentinel ErrNotFound))
           | Some c \<Rightarrow> Inr c))"

definition CreateAppointment :: "go_context \<Rightarrow> appointment \<Rightarrow> mem \<Rightarrow> gerr option \<times> mem" where
  "CreateAppointment ctx a m =
     (case FromContext ctx of
        Inl e \<Rightarrow> (Some (Wrap ''create appointment: %w'' [] e), m)
      | Inr i \<Rightarrow>
          (case appointment_Validate a of
             Some e \<Rightarrow> (Some (Wrap ''create appointment: %w'' [] e), m)
           | None \<Rightarrow>
               if map_of (mem_appointments m i) (ap_id a) \<noteq> None
               then (Some (Wrap ''create appointment %s: %w'' [FS (ap_id a)] (Sentinel ErrConflict)), m)
               else (None, m\<lparr>mem_appointments := (mem_appointments m)(i := AList.update (ap_id a) a (mem_appointments m i))\<rparr>)))"

definition ListAppointments :: "go_context \<Rightarrow> mem \<Rightarrow> appointment list res" where
  "ListAppointments ctx m =
     (case FromContext ctx of
        Inl e \<Rightarrow> Inl (Wrap ''list appointments: %w'' [] e)
      | Inr i \<Rightarrow> Inr (sort_by (\<lambda>a b. ap_starts_at a < ap_starts_at b) (map snd (mem_appointments m i))))"

definition CreateMessage :: "go_context \<Rightarrow> message \<Rightarrow> mem \<Rightarrow> gerr option \<times> mem" where
  "CreateMessage ctx msg m =
     (case FromContext ctx of
        Inl e \<Rightarrow> (Some (Wrap ''create message: %w'' [] e), m)
      | Inr i \<Rightarrow>
          (case message_Validate msg of
             Some e \<Rightarrow> (Some (Wrap ''create message: %w'' [] e), m)
           | None \<Rightarrow>
               if map_of (mem_messages m i) (ms_id msg) \<noteq> None
               then (Some (Wrap ''create message %s: %w'' [FS (ms_id msg)] (Sentinel ErrConflict)), m)
               else (None, m\<lparr>mem_messages := (mem_messages m)(i := AList.update (ms_id msg) msg (mem_messages m i))\<rparr>)))"

definition ListMessages :: "go_context \<Rightarrow> mem \<Rightarrow> message list res" where
  "ListMessages ctx m =
     (case FromContext ctx of
        Inl e \<Rightarrow> Inl (Wrap ''list messages: %w'' [] e)
      | Inr i \<Rightarrow> Inr (sort_by (\<lambda>a b. ms_created_at a > ms_created_at b) (map snd (mem_messages m i))))"

section \<open>The contract of a tenant-scoped store\<close>

locale tenant_scoped =
  fixes exec :: "go_context \<Rightarrow> 'op \<Rightarrow> 's \<Rightarrow> 's"
    and view :: "string \<Rightarrow> 's \<Rightarrow> 'v"
  assumes exec_other: "FromContext ctx \<noteq> Inr t \<Longrightarrow> view t (exec ctx op s) = view t s"
begin

lemma run_other:
  "\<forall>(ctx, op) \<in> set l. FromContext ctx \<noteq> Inr t \<Longrightarrow> view t (fold (\<lambda>(ctx, op). exec ctx op) l s) = view t s"
  by (induction l arbitrary: s) (auto simp: exec_other)

end

text \<open>The operations that write under a tenant, and what a tenant's reads depend on.\<close>

datatype mem_op =
    OpUpdateMode string int
  | OpAddDID did
  | OpPutCall call
  | OpAppointment appointment
  | OpMessage message

fun mem_exec :: "go_context \<Rightarrow> mem_op \<Rightarrow> mem \<Rightarrow> mem" where
  "mem_exec ctx (OpUpdateMode mode secs) m = snd (UpdateTenantMode ctx mode secs m)"
| "mem_exec ctx (OpAddDID d) m = snd (AddDID ctx d m)"
| "mem_exec ctx (OpPutCall c) m = snd (PutCall ctx c m)"
| "mem_exec ctx (OpAppointment a) m = snd (CreateAppointment ctx a m)"
| "mem_exec ctx (OpMessage msg) m = snd (CreateMessage ctx msg m)"

definition mem_view where
  "mem_view i m = (mem_tenants m i, mem_dids m i, mem_calls m i, mem_appointments m i, mem_messages m i)"

lemmas mem_defs = UpdateTenantMode_def AddDID_def PutCall_def CreateAppointment_def CreateMessage_def

lemma update_mode_valid:
  assumes "tenant_Validate t = None" and "mode_Valid mode" and "mode = ModeOverflow \<longrightarrow> 0 < secs"
  shows "tenant_Validate (t\<lparr>tn_mode := mode, tn_overflow_seconds := secs\<rparr>) = None"
  using assms by (auto simp: tenant_Validate_def split: if_splits)

lemma mem_exec_other:
  assumes "FromContext ctx \<noteq> Inr t"
  shows "mem_view t (mem_exec ctx op m) = mem_view t m"
  using assms
  by (cases op) (auto simp: mem_view_def mem_defs Let_def split: sum.splits option.splits)

interpretation mst: tenant_scoped mem_exec mem_view
  by unfold_locales (rule mem_exec_other)

text \<open>
  Tenants are isolated. After any sequence of writes under other tenants' contexts (or under
  none), everything a tenant can read, its own record and its lists of numbers, calls,
  appointments and messages, is as it was.
\<close>

theorem store_isolates_tenants:
  assumes "\<forall>(ctx', op) \<in> set ops. FromContext ctx' \<noteq> FromContext ctx"
    and "m' = fold (\<lambda>(ctx', op). mem_exec ctx' op) ops m"
  shows "CurrentTenant ctx m' = CurrentTenant ctx m \<and> ListDIDs ctx m' = ListDIDs ctx m \<and>
     ListCalls ctx m' = ListCalls ctx m \<and> GetCall ctx i m' = GetCall ctx i m \<and>
     ListAppointments ctx m' = ListAppointments ctx m \<and> ListMessages ctx m' = ListMessages ctx m"
proof (cases "FromContext ctx")
  case (Inl e)
  then show ?thesis
    by (simp add: CurrentTenant_def ListDIDs_def ListCalls_def GetCall_def ListAppointments_def ListMessages_def)
next
  case (Inr t)
  with assms mst.run_other [of ops t m] have "mem_view t m' = mem_view t m" by simp
  with Inr show ?thesis
    by (simp add: mem_view_def CurrentTenant_def ListDIDs_def ListCalls_def GetCall_def ListAppointments_def
        ListMessages_def)
qed

definition owned_did :: did where
  "owned_did = \<lparr>di_number = ''+15145550100'', di_provider = ''telnyx'', di_active = True, di_created_at = 1\<rparr>"

theorem store_isolates_tenants_witness:
  "ListDIDs (Some ''a'') (snd (AddDID (Some ''b'') owned_did NewMem)) = Inr [] \<and>
   ListDIDs (Some ''b'') (snd (AddDID (Some ''b'') owned_did NewMem)) = Inr [owned_did]"
proof -
  have "\<forall>(ctx', op) \<in> set [(Some ''b'', OpAddDID owned_did)]. FromContext ctx' \<noteq> FromContext (Some ''a'')"
    by (simp add: FromContext_def)
  from store_isolates_tenants [OF this refl, of NewMem]
  have "ListDIDs (Some ''a'') (snd (AddDID (Some ''b'') owned_did NewMem)) = ListDIDs (Some ''a'') NewMem" by simp
  moreover have "did_Validate owned_did = None"
    by (simp add: did_Validate_def owned_did_def ascii_evals)
  ultimately show ?thesis
    by (simp add: ListDIDs_def AddDID_def FromContext_def NewMem_def)
qed

section \<open>Phone numbers\<close>

definition did_inv :: "mem \<Rightarrow> bool" where
  "did_inv m \<longleftrightarrow> (\<forall>i. wf_al (mem_dids m i)) \<and>
     (\<forall>i n. map_of (mem_dids m i) n \<noteq> None \<longleftrightarrow> mem_didOwners m n = Some i) \<and>
     (\<forall>i n d. (n, d) \<in> set (mem_dids m i) \<longrightarrow> di_number d = n \<and> did_Validate d = None)"

lemma AddDID_inv:
  assumes "did_inv m"
  shows "did_inv (snd (AddDID ctx d m))"
proof (cases "\<exists>i. FromContext ctx = Inr i \<and> did_Validate d = None \<and> mem_didOwners m (di_number d) = None")
  case True
  then obtain i where i: "FromContext ctx = Inr i" "did_Validate d = None" "mem_didOwners m (di_number d) = None" by blast
  let ?m = "m\<lparr>mem_didOwners := (mem_didOwners m)(di_number d \<mapsto> i),
      mem_dids := (mem_dids m)(i := AList.update (di_number d) d (mem_dids m i))\<rparr>"
  have e: "snd (AddDID ctx d m) = ?m" using i by (simp add: AddDID_def)
  have free: "map_of (mem_dids m j) (di_number d) = None" for j
    using assms i(3) unfolding did_inv_def by (metis option.distinct(1))
  have "map_of (mem_dids ?m j) n \<noteq> None \<longleftrightarrow> mem_didOwners ?m n = Some j" for j n
    using assms free by (auto simp: did_inv_def update_conv)
  moreover have "di_number d' = n \<and> did_Validate d' = None" if "(n, d') \<in> set (mem_dids ?m j)" for j n d'
  proof -
    from set_update_sub [of "di_number d" d "mem_dids m i"] that assms i(2) show ?thesis by (auto simp: did_inv_def split: if_splits)
  qed
  moreover have "wf_al (mem_dids ?m j)" for j using assms by (simp add: did_inv_def wf_al_update)
  ultimately show ?thesis unfolding e did_inv_def by blast
next
  case False
  then have "snd (AddDID ctx d m) = m" by (auto simp: AddDID_def split: sum.split option.split)
  with assms show ?thesis by simp
qed

lemma mem_exec_did_inv: "did_inv m \<Longrightarrow> did_inv (mem_exec ctx op m)"
proof (cases op)
  case (OpAddDID d)
  assume "did_inv m"
  with OpAddDID show ?thesis by (simp add: AddDID_inv)
qed (auto simp: mem_defs did_inv_def Let_def split: sum.split option.split)



end
