(* ===== verification/Obs_Probe.thy ===== *)
theory Obs_Probe
  imports Turn_Props Ladder Breaker
begin

text \<open>
  \<open>internal/obs/metrics.go\<close>: the metric hooks. The instruments of the OpenTelemetry library are
  outside the model; what a hook records is a list of measurements. \<open>TurnHooks\<close> is a function of
  the hook effects of the turn machine, with the clock at which it sees them.
\<close>

datatype measurement =
    SilenceGap int
  | BargeInFalsePositive
  | DegradationLevel int
  | DegradationTransition string string string
  | OwnerSMSLatency int
  | RecoveryOrphans int
  | BreakerGauge int string string

record turn_probe =
  tp_closed :: gotime
  tp_ducked :: bool
  tp_metrics :: "measurement list"

definition turn_probe0 :: turn_probe where
  "turn_probe0 = \<lparr>tp_closed = 0, tp_ducked = False, tp_metrics = []\<rparr>"

definition record_metric :: "measurement \<Rightarrow> turn_probe \<Rightarrow> turn_probe" where
  "record_metric x s = s\<lparr>tp_metrics := tp_metrics s @ [x]\<rparr>"

text \<open>\<open>Duration.Milliseconds\<close> truncates nanoseconds towards zero.\<close>

definition milliseconds :: "int \<Rightarrow> int" where "milliseconds d = d sdiv 1000000"

definition close_gap :: "gotime \<Rightarrow> turn_probe \<Rightarrow> turn_probe" where
  "close_gap now s =
     (if \<not> is_zero (tp_closed s)
      then (record_metric (SilenceGap (milliseconds (now - tp_closed s))) s)\<lparr>tp_closed := 0\<rparr> else s)"

fun probe_hook :: "gotime \<Rightarrow> effect \<Rightarrow> turn_probe \<Rightarrow> turn_probe" where
  "probe_hook now (HookUserTurn tx loc) s = s\<lparr>tp_closed := now\<rparr>"
| "probe_hook now (HookStateChange a b) s = (if b = StSpeaking then close_gap now s else s)"
| "probe_hook now (HookDucking on) s =
     (if on then s\<lparr>tp_ducked := True\<rparr>
      else (if tp_ducked s then record_metric BargeInFalsePositive s else s)\<lparr>tp_ducked := False\<rparr>)"
| "probe_hook now (HookBargeIn tx) s = s\<lparr>tp_ducked := False\<rparr>"
| "probe_hook now (HookFiller k) s = close_gap now s"
| "probe_hook now e s = s"

definition probe_run :: "gotime \<Rightarrow> effect list \<Rightarrow> turn_probe \<Rightarrow> turn_probe" where
  "probe_run now l s = fold (probe_hook now) l s"

definition ladder_hook :: "level \<Rightarrow> level \<Rightarrow> string \<Rightarrow> measurement list" where
  "ladder_hook from to reason =
     [DegradationLevel (int (level_num to)), DegradationTransition (level_string from) (level_string to) reason]"

definition ObserveOwnerSMSLatency :: "int \<Rightarrow> measurement" where
  "ObserveOwnerSMSLatency d = OwnerSMSLatency d"

definition ObserveSilenceGap :: "int \<Rightarrow> measurement" where
  "ObserveSilenceGap d = SilenceGap (milliseconds d)"

definition RecordRecoveryOrphans :: "int \<Rightarrow> measurement" where
  "RecordRecoveryOrphans n = RecoveryOrphans n"

fun breaker_code :: "breaker_state \<Rightarrow> int" where
  "breaker_code BreakerClosed = 0"
| "breaker_code BreakerOpen = 1"
| "breaker_code BreakerHalfOpen = 2"

text \<open>The callback of \<open>RegisterBreakers\<close>, for the providers in the order the map is walked.\<close>

definition observe_breakers :: "string list \<Rightarrow> registry \<Rightarrow> measurement list" where
  "observe_breakers providers r =
     List.map_filter (\<lambda>p. map_option (\<lambda>s. BreakerGauge (breaker_code s) p (breaker_state_string s)) (reg_States r p))
       providers"

lemma probe_run_append: "probe_run now (l @ l') s = probe_run now l' (probe_run now l s)"
  by (simp add: probe_run_def)

lemma probe_run_quiet:
  "probe_run now (timer_log m) s = s" "probe_run now (err_log st r) s = s" "probe_run now (cancel_log m) s = s"
  by (simp_all add: probe_run_def timer_log_def err_log_def cancel_log_def split: option.split)

lemma confirm_log:
  "mc_log (confirm_barge_in E oc r m) =
     mc_log m @ cancel_log m @ (timer_log m @ barge_log oc r m) @ move_log m StListening"
  using confirm_ends [of m oc r E] by (simp add: ends_turn_def)

text \<open>
  A confirmed barge-in is counted as a false positive. The machine restores the volume before
  it reports the barge-in, so a probe that saw the line ducked counts an undone ducking each time
  a real partial confirms one.
\<close>

theorem confirmed_barge_in_counts_as_false_positive:
  assumes "tp_ducked s" and "mc_ducked m" and "mc_state m = StSpeaking"
    and "mc_log (confirm_barge_in E oc r m) = mc_log m @ l"
  shows "tp_metrics (probe_run now l s) = tp_metrics s @ [BargeInFalsePositive] \<and> HookBargeIn (rs_text r) \<in> set l"
proof -
  have l: "l = cancel_log m @ (timer_log m @ barge_log oc r m) @ move_log m StListening"
    using assms(4) confirm_log [of E oc r m] by simp
  have "probe_run now l s = probe_run now (barge_log oc r m @ move_log m StListening) s"
    by (simp add: l probe_run_append probe_run_quiet)
  also have "\<dots> = (record_metric BargeInFalsePositive s)\<lparr>tp_ducked := False\<rparr>"
    using assms(1-3) probe_run_quiet(2) [of now "''playback''" "oc_flush oc" s]
    by (simp add: barge_log_def move_log_def probe_run_def record_metric_def)
  finally have "tp_metrics (probe_run now l s) = tp_metrics s @ [BargeInFalsePositive]"
    by (simp add: record_metric_def)
  moreover have "HookBargeIn (rs_text r) \<in> set l" by (simp add: l barge_log_def)
  ultimately show ?thesis by blast
qed

theorem confirmed_barge_in_counts_as_false_positive_witness:
  "\<exists>l. mc_log (confirm_barge_in turn_env fine (partial_of ''no wait'') (answered_machine\<lparr>mc_ducked := True\<rparr>)) =
         mc_log answered_machine @ l \<and>
       tp_metrics (probe_run 5 l (turn_probe0\<lparr>tp_ducked := True\<rparr>)) = [BargeInFalsePositive]"
proof -
  let ?m = "answered_machine\<lparr>mc_ducked := True\<rparr>"
  obtain l where l: "mc_log (confirm_barge_in turn_env fine (partial_of ''no wait'') ?m) = mc_log ?m @ l"
    using confirm_log by blast
  have "tp_ducked (turn_probe0\<lparr>tp_ducked := True\<rparr>)" "mc_ducked ?m" "mc_state ?m = StSpeaking"
    by (simp_all add: answered_values)
  from confirmed_barge_in_counts_as_false_positive [OF this l, of 5] l show ?thesis
    by (auto simp: turn_probe0_def)
qed

end
