(* ===== verification/Obs_Hooks.thy ===== *)
theory Obs_Hooks
  imports Obs_Probe
begin

text \<open>
  The hooks of \<open>turn.go\<close> as functions on a state \<open>'w\<close> of whoever registered them, the wrapping of \<open>TurnHooks\<close> around
  hooks that are already there, and the creation of the instruments (\<open>internal/obs/metrics.go\<close>). The probe of
  \<open>Obs_Probe\<close> is what the wrapped hooks compute.
\<close>

section \<open>Hooks\<close>

text \<open>Every field is optional.\<close>

record 'w turn_hooks =
  OnStateChange :: "(turn_state \<Rightarrow> turn_state \<Rightarrow> 'w \<Rightarrow> 'w) option"
  OnUserTurn :: "(string \<Rightarrow> go_locale \<Rightarrow> 'w \<Rightarrow> 'w) option"
  OnAgentTurn :: "(string \<Rightarrow> bool \<Rightarrow> 'w \<Rightarrow> 'w) option"
  OnFiller :: "(clip_key \<Rightarrow> 'w \<Rightarrow> 'w) option"
  OnLanguageSwitch :: "(go_locale \<Rightarrow> go_locale \<Rightarrow> 'w \<Rightarrow> 'w) option"
  OnDucking :: "(bool \<Rightarrow> 'w \<Rightarrow> 'w) option"
  OnBargeIn :: "(string \<Rightarrow> 'w \<Rightarrow> 'w) option"
  OnError :: "(string \<Rightarrow> gerr \<Rightarrow> 'w \<Rightarrow> 'w) option"

definition no_hooks :: "'w turn_hooks" where
  "no_hooks = \<lparr>OnStateChange = None, OnUserTurn = None, OnAgentTurn = None, OnFiller = None, OnLanguageSwitch = None,
     OnDucking = None, OnBargeIn = None, OnError = None\<rparr>"

definition hooks_stateChange :: "'w turn_hooks \<Rightarrow> turn_state \<Rightarrow> turn_state \<Rightarrow> 'w \<Rightarrow> 'w" where
  "hooks_stateChange h a b w = (case OnStateChange h of None \<Rightarrow> w | Some f \<Rightarrow> f a b w)"

definition hooks_userTurn :: "'w turn_hooks \<Rightarrow> string \<Rightarrow> go_locale \<Rightarrow> 'w \<Rightarrow> 'w" where
  "hooks_userTurn h tx loc w = (case OnUserTurn h of None \<Rightarrow> w | Some f \<Rightarrow> f tx loc w)"

definition hooks_agentTurn :: "'w turn_hooks \<Rightarrow> string \<Rightarrow> bool \<Rightarrow> 'w \<Rightarrow> 'w" where
  "hooks_agentTurn h tx intr w = (case OnAgentTurn h of None \<Rightarrow> w | Some f \<Rightarrow> f tx intr w)"

definition hooks_filler :: "'w turn_hooks \<Rightarrow> clip_key \<Rightarrow> 'w \<Rightarrow> 'w" where
  "hooks_filler h k w = (case OnFiller h of None \<Rightarrow> w | Some f \<Rightarrow> f k w)"

definition hooks_languageSwitch :: "'w turn_hooks \<Rightarrow> go_locale \<Rightarrow> go_locale \<Rightarrow> 'w \<Rightarrow> 'w" where
  "hooks_languageSwitch h a b w = (case OnLanguageSwitch h of None \<Rightarrow> w | Some f \<Rightarrow> f a b w)"

definition hooks_ducking :: "'w turn_hooks \<Rightarrow> bool \<Rightarrow> 'w \<Rightarrow> 'w" where
  "hooks_ducking h on w = (case OnDucking h of None \<Rightarrow> w | Some f \<Rightarrow> f on w)"

definition hooks_bargeIn :: "'w turn_hooks \<Rightarrow> string \<Rightarrow> 'w \<Rightarrow> 'w" where
  "hooks_bargeIn h tx w = (case OnBargeIn h of None \<Rightarrow> w | Some f \<Rightarrow> f tx w)"

definition hooks_error :: "'w turn_hooks \<Rightarrow> string \<Rightarrow> gerr \<Rightarrow> 'w \<Rightarrow> 'w" where
  "hooks_error h stage e w = (case OnError h of None \<Rightarrow> w | Some f \<Rightarrow> f stage e w)"

text \<open>What one entry of the machine's log does through its hooks; the other effects are not theirs.\<close>

fun call_hook :: "'w turn_hooks \<Rightarrow> effect \<Rightarrow> 'w \<Rightarrow> 'w" where
  "call_hook h (HookStateChange a b) w = hooks_stateChange h a b w"
| "call_hook h (HookUserTurn tx loc) w = hooks_userTurn h tx loc w"
| "call_hook h (HookAgentTurn tx intr) w = hooks_agentTurn h tx intr w"
| "call_hook h (HookFiller k) w = hooks_filler h k w"
| "call_hook h (HookLanguageSwitch a b) w = hooks_languageSwitch h a b w"
| "call_hook h (HookDucking on) w = hooks_ducking h on w"
| "call_hook h (HookBargeIn tx) w = hooks_bargeIn h tx w"
| "call_hook h (HookError stage e) w = hooks_error h stage e w"
| "call_hook h e w = w"

text \<open>The call's private probe is paired with the state of the wrapped hooks. \<open>lift_hook\<close> is a field that is copied.\<close>

abbreviation lift_hook :: "('w \<Rightarrow> 'w) \<Rightarrow> turn_probe \<times> 'w \<Rightarrow> turn_probe \<times> 'w" where
  "lift_hook f \<equiv> map_prod id f"

definition TurnHooks :: "gotime \<Rightarrow> 'w turn_hooks \<Rightarrow> (turn_probe \<times> 'w) turn_hooks" where
  "TurnHooks now nxt =
     \<lparr>OnStateChange = Some (\<lambda>a b (s, w).
        (if b = StSpeaking \<and> \<not> is_zero (tp_closed s)
         then (record_metric (SilenceGap (milliseconds (now - tp_closed s))) s)\<lparr>tp_closed := 0\<rparr> else s,
         case OnStateChange nxt of None \<Rightarrow> w | Some f \<Rightarrow> f a b w)),
      OnUserTurn = Some (\<lambda>tx loc (s, w). (s\<lparr>tp_closed := now\<rparr>, case OnUserTurn nxt of None \<Rightarrow> w | Some f \<Rightarrow> f tx loc w)),
      OnAgentTurn = map_option (\<lambda>f tx intr. lift_hook (f tx intr)) (OnAgentTurn nxt),
      OnFiller = Some (\<lambda>k (s, w).
        (if \<not> is_zero (tp_closed s)
         then (record_metric (SilenceGap (milliseconds (now - tp_closed s))) s)\<lparr>tp_closed := 0\<rparr> else s,
         case OnFiller nxt of None \<Rightarrow> w | Some f \<Rightarrow> f k w)),
      OnLanguageSwitch = map_option (\<lambda>f a b. lift_hook (f a b)) (OnLanguageSwitch nxt),
      OnDucking = Some (\<lambda>on (s, w).
        (if on then s\<lparr>tp_ducked := True\<rparr>
         else (if tp_ducked s then record_metric BargeInFalsePositive s else s)\<lparr>tp_ducked := False\<rparr>,
         case OnDucking nxt of None \<Rightarrow> w | Some f \<Rightarrow> f on w)),
      OnBargeIn = Some (\<lambda>tx (s, w). (s\<lparr>tp_ducked := False\<rparr>, case OnBargeIn nxt of None \<Rightarrow> w | Some f \<Rightarrow> f tx w)),
      OnError = map_option (\<lambda>f stage e. lift_hook (f stage e)) (OnError nxt)\<rparr>"

lemmas hook_calls = hooks_stateChange_def hooks_userTurn_def hooks_agentTurn_def hooks_filler_def hooks_languageSwitch_def
  hooks_ducking_def hooks_bargeIn_def hooks_error_def

lemma wrapped_call: "call_hook (TurnHooks now nxt) e (s, w) = (probe_hook now e s, call_hook nxt e w)"
  by (cases e) (simp_all add: TurnHooks_def hook_calls close_gap_def split: option.split)

text \<open>
  Instrumentation is transparent. Over any log of the turn machine, with whatever time the clock shows at each entry,
  the wrapped hooks do to the state of the hooks they wrap what these do alone, and measure what the probe measures,
  whatever hooks are wrapped.
\<close>

theorem instrumentation_is_transparent:
  "fold (\<lambda>(now, e). call_hook (TurnHooks now nxt) e) l (s, w) =
     (fold (\<lambda>(now, e). probe_hook now e) l s, fold (\<lambda>(now, e). call_hook nxt e) l w)"
  by (induction l arbitrary: s w) (auto simp: wrapped_call)

section \<open>Instruments\<close>

datatype instrument_kind = Int64Histogram | Int64Gauge | Int64Counter | Float64Histogram | Int64ObservableGauge

text \<open>The meter of the library answers with an instrument, which may be nil, and an error.\<close>

type_synonym 'i otel_meter = "instrument_kind \<Rightarrow> string \<Rightarrow> 'i option \<times> gerr option"

record ('c, 'i) metrics =
  me_now :: 'c
  me_silenceGap :: "'i option"
  me_degLevel :: "'i option"
  me_degTransition :: "'i option"
  me_bargeInFP :: "'i option"
  me_breakerState :: "'i option"
  me_smsLatency :: "'i option"
  me_orphans :: "'i option"

datatype 'c metrics_option = WithMetricsClock 'c

fun apply_metrics_option :: "'c metrics_option \<Rightarrow> ('c, 'i) metrics \<Rightarrow> ('c, 'i) metrics" where
  "apply_metrics_option (WithMetricsClock c) m = m\<lparr>me_now := c\<rparr>"

text \<open>One assignment of \<open>NewMetrics\<close> with its check.\<close>

definition instrument :: "'i otel_meter \<Rightarrow> instrument_kind \<Rightarrow> string \<Rightarrow> ('i option \<Rightarrow> 'b res) \<Rightarrow> 'b res" where
  "instrument meter k name rest =
     (case meter k name of (i, Some e) \<Rightarrow> Inl (Wrap (''obs: '' @ name @ '': %w'') [] e) | (i, None) \<Rightarrow> rest i)"

definition NewMetrics :: "'c \<Rightarrow> 'i otel_meter \<Rightarrow> 'c metrics_option list \<Rightarrow> ('c, 'i) metrics res" where
  "NewMetrics time_Now meter opts =
     (let m = fold apply_metrics_option opts \<lparr>me_now = time_Now, me_silenceGap = None, me_degLevel = None, me_degTransition = None,
        me_bargeInFP = None, me_breakerState = None, me_smsLatency = None, me_orphans = None\<rparr> in
      instrument meter Int64Histogram ''silence_gap_ms'' (\<lambda>i. let m = m\<lparr>me_silenceGap := i\<rparr> in
      instrument meter Int64Gauge ''degradation_level'' (\<lambda>i. let m = m\<lparr>me_degLevel := i\<rparr> in
      instrument meter Int64Counter ''degradation_transitions_total'' (\<lambda>i. let m = m\<lparr>me_degTransition := i\<rparr> in
      instrument meter Int64Counter ''barge_in_false_positive_total'' (\<lambda>i. let m = m\<lparr>me_bargeInFP := i\<rparr> in
      instrument meter Float64Histogram ''sms_owner_latency_seconds'' (\<lambda>i. let m = m\<lparr>me_smsLatency := i\<rparr> in
      instrument meter Int64Counter ''recovery_orphan_total'' (\<lambda>i. Inr (m\<lparr>me_orphans := i\<rparr>))))))))"

text \<open>\<open>RegisterBreakers\<close>: the gauge is made on the first call and kept, also when the library reports an error with it.\<close>

definition RegisterBreakers :: "'i otel_meter \<Rightarrow> ('i option \<Rightarrow> gerr option) \<Rightarrow> ('c, 'i) metrics \<Rightarrow> gerr option \<times> ('c, 'i) metrics" where
  "RegisterBreakers meter register m =
     (let (err, m) =
        (if me_breakerState m = None
         then (case meter Int64ObservableGauge ''provider_breaker_state'' of (i, err) \<Rightarrow> (err, m\<lparr>me_breakerState := i\<rparr>))
         else (None, m)) in
      case err of
        Some e \<Rightarrow> (Some (Wrap ''obs: provider_breaker_state: %w'' [] e), m)
      | None \<Rightarrow>
          (case register (me_breakerState m) of
             Some e \<Rightarrow> (Some (Wrap ''obs: register breaker callback: %w'' [] e), m)
           | None \<Rightarrow> (None, m)))"

text \<open>The instruments in the order of their creation.\<close>

definition product_instruments :: "(instrument_kind \<times> string) list" where
  "product_instruments =
     [(Int64Histogram, ''silence_gap_ms''), (Int64Gauge, ''degradation_level''),
      (Int64Counter, ''degradation_transitions_total''), (Int64Counter, ''barge_in_false_positive_total''),
      (Float64Histogram, ''sms_owner_latency_seconds''), (Int64Counter, ''recovery_orphan_total'')]"

lemma options_keep_gauge: "me_breakerState (fold apply_metrics_option opts m) = me_breakerState m"
proof (induction opts arbitrary: m)
  case (Cons p opts)
  then show ?case by (cases p) simp
qed simp

lemma instrument_outcome:
  "instrument meter k n f = (case snd (meter k n) of Some e \<Rightarrow> Inl (Wrap (''obs: '' @ n @ '': %w'') [] e) | None \<Rightarrow> f (fst (meter k n)))"
  by (cases "meter k n") (simp add: instrument_def split: option.split)

text \<open>
  The metrics exist as a whole or not at all: the error of the first instrument that the meter refuses is the result,
  under that instrument's name; without a refusal each field holds the meter's instrument of that name, and the gauge of
  the breakers is not there yet.
\<close>

theorem metrics_are_all_or_nothing:
  "case find (\<lambda>(k, n). snd (meter k n) \<noteq> None) product_instruments of
     Some (k, n) \<Rightarrow> \<exists>e. snd (meter k n) = Some e \<and> NewMetrics c meter opts = Inl (Wrap (''obs: '' @ n @ '': %w'') [] e)
   | None \<Rightarrow> \<exists>m. NewMetrics c meter opts = Inr m \<and> me_breakerState m = None \<and>
       [me_silenceGap m, me_degLevel m, me_degTransition m, me_bargeInFP m, me_smsLatency m, me_orphans m] =
         map (\<lambda>(k, n). fst (meter k n)) product_instruments"
  unfolding NewMetrics_def Let_def instrument_outcome product_instruments_def
  by (cases "snd (meter Int64Histogram ''silence_gap_ms'')"; simp;
      cases "snd (meter Int64Gauge ''degradation_level'')"; simp;
      cases "snd (meter Int64Counter ''degradation_transitions_total'')"; simp;
      cases "snd (meter Int64Counter ''barge_in_false_positive_total'')"; simp;
      cases "snd (meter Float64Histogram ''sms_owner_latency_seconds'')"; simp;
      cases "snd (meter Int64Counter ''recovery_orphan_total'')"; simp add: options_keep_gauge)

end
