(* ===== verification/Notify_Text.thy ===== *)
theory Notify_Text
  imports Domain
begin

text \<open>
  \<open>internal/notify\<close>: the messages. \<open>templates.go\<close> with the six embedded templates, the call
  summary of \<open>summary.go\<close> and the tenant data of \<open>notify.go\<close>. The time zone database and the
  RFC 3339 parser of the time package are the parameter \<open>time_lib\<close>; a template is the function
  its text denotes, with the accented letters in UTF-8.
\<close>

section \<open>Tenants\<close>

record tenant_info =
  ti_name :: string
  ti_owner_phone :: string
  ti_owner_email :: string
  ti_locale :: go_locale
  ti_timezone :: string
  ti_avg_job_value :: rat

definition info_locale :: "tenant_info \<Rightarrow> go_locale" where
  "info_locale i = (if ti_locale i = LocaleFRCA then LocaleFRCA else LocaleENCA)"

type_synonym directory = "(string \<times> tenant_info) list"

definition dir_Put :: "string \<Rightarrow> tenant_info \<Rightarrow> directory \<Rightarrow> directory" where
  "dir_Put tenant_id info d = AList.update tenant_id info d"

definition dir_Lookup :: "go_context \<Rightarrow> directory \<Rightarrow> tenant_info res" where
  "dir_Lookup ctx d =
     (case FromContext ctx of
        Inl e \<Rightarrow> Inl e
      | Inr i \<Rightarrow>
          (case map_of d i of
             None \<Rightarrow> Inl (Errf ''notify: unknown tenant %s'' [FS i])
           | Some info \<Rightarrow> Inr info))"

definition dir_TenantIDs :: "directory \<Rightarrow> string list res" where
  "dir_TenantIDs d = Inr (sort_by str_less (map fst d))"

section \<open>Summary\<close>

definition VarCallerName :: string where "VarCallerName = ''caller_name''"
definition VarService :: string where "VarService = ''service''"
definition VarUrgency :: string where "VarUrgency = ''urgency''"
definition VarCallbackPhone :: string where "VarCallbackPhone = ''callback_phone''"
definition VarAppointmentAt :: string where "VarAppointmentAt = ''appointment_at''"
definition VarMessage :: string where "VarMessage = ''message''"

datatype call_outcome = OutcomeBooked | OutcomeMessage | OutcomeTransferred | OutcomeNone

record summary =
  sm_call_id :: string
  sm_tenant_id :: string
  sm_locale :: go_locale
  sm_ended_at :: gotime
  sm_caller_phone :: string
  sm_caller_name :: string
  sm_service :: string
  sm_urgency :: string
  sm_callback_phone :: string
  sm_outcome :: call_outcome
  sm_appointment_at :: gotime
  sm_message :: string

record civil =
  cv_year :: nat
  cv_month :: nat
  cv_day :: nat
  cv_hour :: nat
  cv_minute :: nat
  cv_iso_year :: nat
  cv_iso_week :: nat

record time_lib =
  tl_parse :: "string \<Rightarrow> gotime res"
  tl_utc :: "gotime \<Rightarrow> civil"
  tl_zone :: "string \<Rightarrow> (gotime \<Rightarrow> civil) option"

definition stringVar :: "(string \<rightharpoonup> json option) \<Rightarrow> string \<Rightarrow> string" where
  "stringVar vars name =
     (case vars name of
        None \<Rightarrow> []
      | Some None \<Rightarrow> []
      | Some (Some j) \<Rightarrow> (case dec_string j [] of Inl e \<Rightarrow> [] | Inr s \<Rightarrow> s))"

text \<open>The number of the caller: the first \<open>call.started\<close> of the list decides.\<close>

fun caller_phone :: "envelope list \<Rightarrow> string" where
  "caller_phone [] = []"
| "caller_phone (ev # evs) =
     (if Type ev \<noteq> TypeCallStarted then caller_phone evs
      else case unmarshal call_started_fields (Payload ev) call_started0 of
             Inl e \<Rightarrow> []
           | Inr p \<Rightarrow> cs_from p)"

definition outcome_of :: "string \<Rightarrow> gotime \<Rightarrow> string \<Rightarrow> call_outcome" where
  "outcome_of end_reason appt msg =
     (if end_reason = EndTransferred then OutcomeTransferred
      else if \<not> is_zero appt then OutcomeBooked
      else if msg \<noteq> [] then OutcomeMessage
      else OutcomeNone)"

definition BuildSummary :: "time_lib \<Rightarrow> envelope list \<Rightarrow> summary res" where
  "BuildSummary T evs =
     (case Fold evs of
        Inl e \<Rightarrow> Inl (Wrap ''fold call events: %w'' [] e)
      | Inr snap \<Rightarrow>
          let v = stringVar (sn_vars snap);
              phone = caller_phone evs;
              cb = (if v VarCallbackPhone = [] then phone else v VarCallbackPhone);
              raw = v VarAppointmentAt
          in (case (if raw = [] then Inr 0 else tl_parse T raw) of
                Inl e \<Rightarrow> Inl (Wrap ''parse %s %q: %w'' [FS VarAppointmentAt, FS raw] e)
              | Inr appt \<Rightarrow>
                  Inr \<lparr>sm_call_id = sn_call_id snap, sm_tenant_id = sn_tenant_id snap, sm_locale = sn_locale snap,
                    sm_ended_at = sn_ended_at snap, sm_caller_phone = phone, sm_caller_name = v VarCallerName,
                    sm_service = v VarService, sm_urgency = v VarUrgency, sm_callback_phone = cb,
                    sm_outcome = outcome_of (sn_end_reason snap) appt (v VarMessage),
                    sm_appointment_at = appt, sm_message = v VarMessage\<rparr>))"

section \<open>Formatting\<close>

definition four_digits :: "nat \<Rightarrow> string" where
  "four_digits n = two_digits (n div 100) @ two_digits (n mod 100)"

definition month_names :: "string list" where
  "month_names = [''Jan'', ''Feb'', ''Mar'', ''Apr'', ''May'', ''Jun'', ''Jul'', ''Aug'', ''Sep'', ''Oct'', ''Nov'', ''Dec'']"

definition e_ac :: string where "e_ac = encode_rune 0xE9"
definition E_long_dash :: string where "E_long_dash = encode_rune 0x2014"
definition a_gr :: string where "a_gr = encode_rune 0xE0"
definition e_circ :: string where "e_circ = encode_rune 0xEA"

definition formatWhen :: "civil \<Rightarrow> go_locale \<Rightarrow> string" where
  "formatWhen t loc =
     (if loc = LocaleFRCA
      then two_digits (cv_day t) @ ''/'' @ two_digits (cv_month t) @ ''/'' @ four_digits (cv_year t) @ '' '' @ a_gr @
           '' '' @ two_digits (cv_hour t) @ ''h'' @ two_digits (cv_minute t)
      else month_names ! (cv_month t - 1) @ '' '' @ dec_digits (cv_day t) @ '', '' @ four_digits (cv_year t) @
           '' at '' @ dec_digits (if cv_hour t mod 12 = 0 then 12 else cv_hour t mod 12) @ '':'' @
           two_digits (cv_minute t) @ '' '' @ (if cv_hour t < 12 then ''AM'' else ''PM''))"

definition loadLocation :: "time_lib \<Rightarrow> string \<Rightarrow> gotime \<Rightarrow> civil" where
  "loadLocation T name =
     (if name = [] then tl_utc T else case tl_zone T name of None \<Rightarrow> tl_utc T | Some z \<Rightarrow> z)"

definition urgencyLabel :: "go_locale \<Rightarrow> string \<Rightarrow> string" where
  "urgencyLabel loc urgency =
     (let fr = (loc = LocaleFRCA) in
      if urgency = ''emergency'' then if fr then ''urgence'' else ''emergency''
      else if urgency = ''high'' then if fr then e_ac @ ''lev'' @ e_ac @ ''e'' else ''high''
      else if urgency = [] \<or> urgency = ''normal'' then if fr then ''normale'' else ''normal''
      else urgency)"

section \<open>Templates\<close>

definition templateName :: "string \<Rightarrow> go_locale \<Rightarrow> string" where
  "templateName base loc = (if loc = LocaleFRCA then base @ ''.fr-ca.tmpl'' else base @ ''.en.tmpl'')"

record owner_sms_data =
  od_business :: string
  od_caller_name :: string
  od_service :: string
  od_urgency :: string
  od_phone :: string
  od_booked :: bool
  od_when :: string
  od_message :: string
  od_url :: string

record client_sms_data =
  cd_business :: string
  cd_booked :: bool
  cd_when :: string

record weekly_data =
  wd_business :: string
  wd_calls_answered :: int
  wd_jobs_booked :: int
  wd_messages :: int
  wd_estimated_value :: rat

definition if_text :: "string \<Rightarrow> string \<Rightarrow> string" where
  "if_text v s = (if v \<noteq> [] then s else [])"

definition owner_sms_en :: "owner_sms_data \<Rightarrow> string" where
  "owner_sms_en d =
     od_business d @ '' '' @ E_long_dash @ '' new call'' @ if_text (od_caller_name d) ('' from '' @ od_caller_name d) @
     if_text (od_service d) ('' about '' @ od_service d) @ ''. Urgency: '' @ od_urgency d @ ''.'' @
     if_text (od_phone d) ('' Call back: '' @ od_phone d @ ''.'') @
     (if od_booked d then '' Booked: '' @ od_when d @ ''.'' else []) @
     if_text (od_message d) ('' Message: '' @ [char_of (0x22 :: nat)] @ od_message d @ [char_of (0x22 :: nat)] @ ''.'') @
     if_text (od_url d) ('' Transcript: '' @ od_url d)"

definition guillemet_l :: string where "guillemet_l = encode_rune 0xAB"
definition guillemet_r :: string where "guillemet_r = encode_rune 0xBB"

definition owner_sms_fr :: "owner_sms_data \<Rightarrow> string" where
  "owner_sms_fr d =
     od_business d @ '' '' @ E_long_dash @ '' nouvel appel'' @ if_text (od_caller_name d) ('' de '' @ od_caller_name d) @
     if_text (od_service d) ('' au sujet de '' @ od_service d) @ ''. Urgence : '' @ od_urgency d @ ''.'' @
     if_text (od_phone d) ('' Rappeler : '' @ od_phone d @ ''.'') @
     (if od_booked d then '' Rendez-vous : '' @ od_when d @ ''.'' else []) @
     if_text (od_message d) ('' Message : '' @ guillemet_l @ '' '' @ od_message d @ '' '' @ guillemet_r @ ''.'') @
     if_text (od_url d) ('' Transcription : '' @ od_url d)"

definition client_sms_en :: "client_sms_data \<Rightarrow> string" where
  "client_sms_en d =
     (if cd_booked d
      then cd_business d @ '': your appointment is confirmed for '' @ cd_when d @
           ''. Reply to this number if you need to change it.''
      else cd_business d @ '': we received your message and will call you back shortly.'')"

definition client_sms_fr :: "client_sms_data \<Rightarrow> string" where
  "client_sms_fr d =
     (if cd_booked d
      then cd_business d @ '' : votre rendez-vous est confirm'' @ e_ac @ '' pour '' @ cd_when d @
           ''. R'' @ e_ac @ ''pondez '' @ a_gr @ '' ce num'' @ e_ac @ ''ro pour le modifier.''
      else cd_business d @ '' : nous avons bien re'' @ encode_rune 0xE7 @ ''u votre message et vous rappellerons sous peu.'')"

definition dec_int :: "int \<Rightarrow> string" where
  "dec_int n = (if n < 0 then ''-'' @ dec_digits (nat (- n)) else dec_digits (nat n))"

definition newline :: string where "newline = [char_of (10 :: nat)]"

definition weekly_email_en :: "weekly_data \<Rightarrow> string" where
  "weekly_email_en d =
     wd_business d @ '' '' @ E_long_dash @ '' your AI receptionist this week'' @ newline @ ''Hi,'' @ newline @ newline @
     (if wd_calls_answered d = 0
      then ''No calls this week. Your AI receptionist stayed on the line, ready to answer.''
      else ''This week your AI receptionist answered '' @ dec_int (wd_calls_answered d) @ '' call(s), booked '' @
           dec_int (wd_jobs_booked d) @ '' job(s) and took '' @ dec_int (wd_messages d) @ '' message(s).'' @
           newline @ newline @ ''Estimated value of booked work: CAD '' @ dec_int (round_even (wd_estimated_value d)) @ ''.'') @
     newline @ newline @ E_long_dash @ '' FrontDesk AI'' @ newline"

definition weekly_email_fr :: "weekly_data \<Rightarrow> string" where
  "weekly_email_fr d =
     wd_business d @ '' '' @ E_long_dash @ '' votre r'' @ e_ac @ ''ceptionniste IA cette semaine'' @ newline @
     ''Bonjour,'' @ newline @ newline @
     (if wd_calls_answered d = 0
      then ''Aucun appel cette semaine. Votre r'' @ e_ac @ ''ceptionniste IA est rest'' @ e_ac @ ''e en ligne, pr'' @
           e_circ @ ''te '' @ a_gr @ '' r'' @ e_ac @ ''pondre.''
      else ''Cette semaine, votre r'' @ e_ac @ ''ceptionniste IA a r'' @ e_ac @ ''pondu '' @ a_gr @ '' '' @
           dec_int (wd_calls_answered d) @ '' appel(s), planifi'' @ e_ac @ '' '' @ dec_int (wd_jobs_booked d) @
           '' intervention(s) et pris '' @ dec_int (wd_messages d) @ '' message(s).'' @ newline @ newline @
           ''Valeur estim'' @ e_ac @ ''e des travaux planifi'' @ e_ac @ ''s : '' @
           dec_int (round_even (wd_estimated_value d)) @ '' CAD.'') @
     newline @ newline @ E_long_dash @ '' FrontDesk AI'' @ newline"

text \<open>\<open>render\<close> at the template \<open>templateName\<close> chooses for the locale.\<close>

definition render_owner :: "go_locale \<Rightarrow> owner_sms_data \<Rightarrow> string" where
  "render_owner loc d = trim_space (if loc = LocaleFRCA then owner_sms_fr d else owner_sms_en d)"

definition render_client :: "go_locale \<Rightarrow> client_sms_data \<Rightarrow> string" where
  "render_client loc d = trim_space (if loc = LocaleFRCA then client_sms_fr d else client_sms_en d)"

definition render_weekly :: "go_locale \<Rightarrow> weekly_data \<Rightarrow> string" where
  "render_weekly loc d = trim_space (if loc = LocaleFRCA then weekly_email_fr d else weekly_email_en d)"

end
