(* ===== verification/Notify.thy ===== *)
theory Notify
  imports Notify_Text
begin

text \<open>
  \<open>internal/notify\<close>: the notifier (\<open>notifier.go\<close>, \<open>weekly.go\<close>) with its deduplication store and
  senders (\<open>dedup.go\<close>, \<open>fake.go\<close>). The store is a record of its two operations; what the notifier
  relies on is the locale \<open>dedup_store\<close>, interpreted on \<open>MemoryDedup\<close>. The carriers are functions of
  what was sent before and of the message, so they may fail whenever they like.
\<close>

section \<open>Deduplication store\<close>

record 'd deduper =
  dd_Seen :: "string \<Rightarrow> 'd \<Rightarrow> bool res"
  dd_Mark :: "string \<Rightarrow> 'd \<Rightarrow> gerr option \<times> 'd"

locale dedup_store =
  fixes dd :: "'d deduper"
  assumes mark_seen: "dd_Mark dd k d = (None, d') \<Longrightarrow> dd_Seen dd k d' = Inr True"
    and seen_stays: "dd_Seen dd k d = Inr True \<Longrightarrow> dd_Seen dd k (snd (dd_Mark dd k' d)) = Inr True"

definition MemoryDedup :: "string set deduper" where
  "MemoryDedup = \<lparr>dd_Seen = \<lambda>k d. Inr (k \<in> d), dd_Mark = \<lambda>k d. (None, insert k d)\<rparr>"

interpretation mem_dedup: dedup_store MemoryDedup
  by unfold_locales (auto simp: MemoryDedup_def)

section \<open>Notifier\<close>

record sms =
  sms_to :: string
  sms_body :: string

record email =
  em_to :: string
  em_subject :: string
  em_body :: string

record weekly_stats =
  ws_calls_answered :: int
  ws_jobs_booked :: int
  ws_messages :: int

definition weekly_stats0 :: weekly_stats where
  "weekly_stats0 = \<lparr>ws_calls_answered = 0, ws_jobs_booked = 0, ws_messages = 0\<rparr>"

text \<open>The state: the buffers, the counters, the store, and what the carriers accepted.\<close>

record 'd notifier =
  nf_pending :: "string \<Rightarrow> envelope list"
  nf_weekly :: "string \<Rightarrow> weekly_stats"
  nf_dedup :: 'd
  nf_sms :: "sms list"
  nf_email :: "email list"
  nf_latency :: "int list"

record 'd notify_env =
  ne_dedup :: "'d deduper"
  ne_sms :: "sms list \<Rightarrow> sms \<Rightarrow> gerr option"
  ne_email :: "email list \<Rightarrow> email \<Rightarrow> gerr option"
  ne_tenants :: directory
  ne_time :: time_lib
  ne_now :: gotime
  ne_transcript_base :: string

definition dedupOwnerSuffix :: string where "dedupOwnerSuffix = '':owner''"
definition dedupClientSuffix :: string where "dedupClientSuffix = '':client''"
definition dedupAggSuffix :: string where "dedupAggSuffix = '':agg''"

definition send_sms :: "'d notify_env \<Rightarrow> sms \<Rightarrow> 'd notifier \<Rightarrow> gerr option \<times> 'd notifier" where
  "send_sms E msg n =
     (case ne_sms E (nf_sms n) msg of
        Some e \<Rightarrow> (Some e, n)
      | None \<Rightarrow> (None, n\<lparr>nf_sms := nf_sms n @ [msg]\<rparr>))"

definition mark :: "'d notify_env \<Rightarrow> string \<Rightarrow> string \<Rightarrow> 'd notifier \<Rightarrow> gerr option \<times> 'd notifier" where
  "mark E fmt key n =
     (case dd_Mark (ne_dedup E) key (nf_dedup n) of
        (r, d) \<Rightarrow> (map_option (Wrap fmt []) r, n\<lparr>nf_dedup := d\<rparr>))"

definition transcriptURL :: "'d notify_env \<Rightarrow> string \<Rightarrow> string" where
  "transcriptURL E call_id =
     (if ne_transcript_base E = [] \<or> call_id = [] then [] else ne_transcript_base E @ ''/calls/'' @ call_id)"

definition owner_data :: "'d notify_env \<Rightarrow> summary \<Rightarrow> tenant_info \<Rightarrow> owner_sms_data" where
  "owner_data E smy info =
     (let loc = info_locale info; booked = (sm_outcome smy = OutcomeBooked) in
      \<lparr>od_business = ti_name info, od_caller_name = sm_caller_name smy, od_service = sm_service smy,
       od_urgency = urgencyLabel loc (sm_urgency smy), od_phone = sm_callback_phone smy, od_booked = booked,
       od_when = (if booked then formatWhen (loadLocation (ne_time E) (ti_timezone info) (sm_appointment_at smy)) loc else []),
       od_message = sm_message smy, od_url = transcriptURL E (sm_call_id smy)\<rparr>)"

definition sendOwnerSMS :: "'d notify_env \<Rightarrow> string \<Rightarrow> summary \<Rightarrow> tenant_info \<Rightarrow> 'd notifier \<Rightarrow> gerr option \<times> 'd notifier" where
  "sendOwnerSMS E event_id smy info n =
     (if ti_owner_phone info = [] then (None, n)
      else let key = event_id @ dedupOwnerSuffix in
        case dd_Seen (ne_dedup E) key (nf_dedup n) of
          Inl e \<Rightarrow> (Some (Wrap ''dedup owner SMS: %w'' [] e), n)
        | Inr True \<Rightarrow> (None, n)
        | Inr False \<Rightarrow>
            (case send_sms E \<lparr>sms_to = ti_owner_phone info,
                              sms_body = render_owner (info_locale info) (owner_data E smy info)\<rparr> n of
               (Some e, n) \<Rightarrow> (Some (Wrap ''send owner SMS: %w'' [] e), n)
             | (None, n) \<Rightarrow>
                 let n = (if \<not> is_zero (sm_ended_at smy)
                          then n\<lparr>nf_latency := nf_latency n @ [ne_now E - sm_ended_at smy]\<rparr> else n)
                 in mark E ''mark owner SMS: %w'' key n))"

definition client_data :: "'d notify_env \<Rightarrow> summary \<Rightarrow> tenant_info \<Rightarrow> client_sms_data" where
  "client_data E smy info =
     (let loc = (if sm_locale smy \<noteq> LocaleFRCA then LocaleENCA else sm_locale smy);
          booked = (sm_outcome smy = OutcomeBooked) in
      \<lparr>cd_business = ti_name info, cd_booked = booked,
       cd_when = (if booked then formatWhen (loadLocation (ne_time E) (ti_timezone info) (sm_appointment_at smy)) loc else [])\<rparr>)"

definition sendClientSMS :: "'d notify_env \<Rightarrow> string \<Rightarrow> summary \<Rightarrow> tenant_info \<Rightarrow> 'd notifier \<Rightarrow> gerr option \<times> 'd notifier" where
  "sendClientSMS E event_id smy info n =
     (if sm_caller_phone smy = [] then (None, n)
      else if sm_outcome smy \<noteq> OutcomeBooked \<and> sm_outcome smy \<noteq> OutcomeMessage then (None, n)
      else let key = event_id @ dedupClientSuffix in
        case dd_Seen (ne_dedup E) key (nf_dedup n) of
          Inl e \<Rightarrow> (Some (Wrap ''dedup client SMS: %w'' [] e), n)
        | Inr True \<Rightarrow> (None, n)
        | Inr False \<Rightarrow>
            let loc = (if sm_locale smy \<noteq> LocaleFRCA then LocaleENCA else sm_locale smy) in
            (case send_sms E \<lparr>sms_to = sm_caller_phone smy, sms_body = render_client loc (client_data E smy info)\<rparr> n of
               (Some e, n) \<Rightarrow> (Some (Wrap ''send client SMS: %w'' [] e), n)
             | (None, n) \<Rightarrow> mark E ''mark client SMS: %w'' key n))"

definition count_call :: "call_outcome \<Rightarrow> weekly_stats \<Rightarrow> weekly_stats" where
  "count_call oc st =
     (let st = st\<lparr>ws_calls_answered := ws_calls_answered st + 1\<rparr> in
      if oc = OutcomeBooked then st\<lparr>ws_jobs_booked := ws_jobs_booked st + 1\<rparr>
      else if oc = OutcomeMessage then st\<lparr>ws_messages := ws_messages st + 1\<rparr>
      else st)"

definition recordWeekly :: "'d notify_env \<Rightarrow> string \<Rightarrow> summary \<Rightarrow> 'd notifier \<Rightarrow> gerr option \<times> 'd notifier" where
  "recordWeekly E event_id smy n =
     (let key = event_id @ dedupAggSuffix in
      case dd_Seen (ne_dedup E) key (nf_dedup n) of
        Inl e \<Rightarrow> (Some (Wrap ''dedup weekly agg: %w'' [] e), n)
      | Inr True \<Rightarrow> (None, n)
      | Inr False \<Rightarrow>
          mark E ''mark weekly agg: %w'' key
            (n\<lparr>nf_weekly := (nf_weekly n)(sm_tenant_id smy := count_call (sm_outcome smy) (nf_weekly n (sm_tenant_id smy)))\<rparr>))"

definition notifyCallEnded :: "'d notify_env \<Rightarrow> go_context \<Rightarrow> string \<Rightarrow> summary \<Rightarrow> 'd notifier \<Rightarrow> gerr option \<times> 'd notifier" where
  "notifyCallEnded E ctx event_id smy n =
     (case dir_Lookup ctx (ne_tenants E) of
        Inl e \<Rightarrow> (Some (Wrap ''lookup tenant: %w'' [] e), n)
      | Inr info \<Rightarrow>
          (case sendOwnerSMS E event_id smy info n of
             (Some e, n) \<Rightarrow> (Some e, n)
           | (None, n) \<Rightarrow>
               (case sendClientSMS E event_id smy info n of
                  (Some e, n) \<Rightarrow> (Some e, n)
                | (None, n) \<Rightarrow> recordWeekly E event_id smy n)))"

definition HandleEvent :: "'d notify_env \<Rightarrow> envelope \<Rightarrow> 'd notifier \<Rightarrow> gerr option \<times> 'd notifier" where
  "HandleEvent E ev n0 =
     (let n = n0\<lparr>nf_pending := (nf_pending n0)(CallID ev := nf_pending n0 (CallID ev) @ [ev])\<rparr> in
      if Type ev \<noteq> TypeCallEnded then (None, n)
      else case BuildSummary (ne_time E) (nf_pending n (CallID ev)) of
             Inl e \<Rightarrow> (Some e, n)
           | Inr smy \<Rightarrow>
               (case notifyCallEnded E (WithTenant None (sm_tenant_id smy)) (EventID ev) smy n of
                  (Some e, n) \<Rightarrow> (Some e, n)
                | (None, n) \<Rightarrow> (None, n\<lparr>nf_pending := (nf_pending n)(CallID ev := [])\<rparr>)))"

section \<open>Weekly report\<close>

text \<open>
  The report reads the counters, and deletes them after the e-mail went out; the mutex is not held
  in between, so the two halves are separate steps.
\<close>

definition weekly_key :: "'d notify_env \<Rightarrow> tenant_info \<Rightarrow> string \<Rightarrow> string" where
  "weekly_key E info tenant_id =
     (let c = loadLocation (ne_time E) (ti_timezone info) (ne_now E) in
      ''weekly:'' @ tenant_id @ '':'' @ dec_digits (cv_iso_year c) @ ''-W'' @ two_digits (cv_iso_week c))"

definition weekly_message :: "'d notify_env \<Rightarrow> tenant_info \<Rightarrow> weekly_stats \<Rightarrow> email" where
  "weekly_message E info st =
     (let out = render_weekly (info_locale info)
            \<lparr>wd_business = ti_name info, wd_calls_answered = ws_calls_answered st, wd_jobs_booked = ws_jobs_booked st,
             wd_messages = ws_messages st,
             wd_estimated_value = rnd64 (f_of_int (ws_jobs_booked st) * ti_avg_job_value info)\<rparr>;
          (subject, body, found) = cut_char (char_of (10 :: nat)) out
      in \<lparr>em_to = ti_owner_email info, em_subject = trim_space subject, em_body = trim_space body\<rparr>)"

text \<open>Up to and including the e-mail and its mark: \<open>Inr True\<close> when the counters are to be deleted.\<close>

definition report_send :: "'d notify_env \<Rightarrow> string \<Rightarrow> 'd notifier \<Rightarrow> bool res \<times> 'd notifier" where
  "report_send E tenant_id n =
     (case dir_Lookup (WithTenant None tenant_id) (ne_tenants E) of
        Inl e \<Rightarrow> (Inl (Wrap ''lookup tenant: %w'' [] e), n)
      | Inr info \<Rightarrow>
          if ti_owner_email info = [] then (Inr False, n)
          else let key = weekly_key E info tenant_id in
            (case dd_Seen (ne_dedup E) key (nf_dedup n) of
               Inl e \<Rightarrow> (Inl (Wrap ''dedup weekly report: %w'' [] e), n)
             | Inr True \<Rightarrow> (Inr False, n)
             | Inr False \<Rightarrow>
                 let msg = weekly_message E info (nf_weekly n tenant_id) in
                 (case ne_email E (nf_email n) msg of
                    Some e \<Rightarrow> (Inl (Wrap ''send weekly e-mail: %w'' [] e), n)
                  | None \<Rightarrow>
                      (case mark E ''mark weekly report: %w'' key (n\<lparr>nf_email := nf_email n @ [msg]\<rparr>) of
                         (Some e, n) \<Rightarrow> (Inl e, n)
                       | (None, n) \<Rightarrow> (Inr True, n)))))"

definition report_reset :: "string \<Rightarrow> 'd notifier \<Rightarrow> 'd notifier" where
  "report_reset tenant_id n = n\<lparr>nf_weekly := (nf_weekly n)(tenant_id := weekly_stats0)\<rparr>"

definition sendWeeklyReport :: "'d notify_env \<Rightarrow> string \<Rightarrow> 'd notifier \<Rightarrow> gerr option \<times> 'd notifier" where
  "sendWeeklyReport E tenant_id n =
     (case report_send E tenant_id n of
        (Inl e, n) \<Rightarrow> (Some e, n)
      | (Inr go, n) \<Rightarrow> (None, if go then report_reset tenant_id n else n))"

fun weekly_loop :: "'d notify_env \<Rightarrow> string list \<Rightarrow> 'd notifier \<Rightarrow> gerr list \<times> 'd notifier" where
  "weekly_loop E [] n = ([], n)"
| "weekly_loop E (i # ids) n =
     (case sendWeeklyReport E i n of
        (r, n) \<Rightarrow>
          (case weekly_loop E ids n of
             (errs, n) \<Rightarrow>
               (case r of
                  Some e \<Rightarrow> (Wrap ''weekly report tenant %s: %w'' [FS i] e # errs, n)
                | None \<Rightarrow> (errs, n))))"

definition SendWeeklyReports :: "'d notify_env \<Rightarrow> 'd notifier \<Rightarrow> gerr option \<times> 'd notifier" where
  "SendWeeklyReports E n =
     (case dir_TenantIDs (ne_tenants E) of
        Inl e \<Rightarrow> (Some (Wrap ''list tenants: %w'' [] e), n)
      | Inr ids \<Rightarrow>
          (case weekly_loop E ids n of
             (errs, n) \<Rightarrow> (if errs = [] then None else Some (Joined errs), n)))"

section \<open>One delivery, one notification\<close>

lemma apply_all_tenant:
  "apply_all evs s = Inr s' \<Longrightarrow> \<forall>x \<in> set evs. TenantID x = t \<Longrightarrow> sn_tenant_id s = t \<Longrightarrow> sn_tenant_id s' = t"
proof (induction evs arbitrary: s)
  case (Cons ev evs)
  then obtain s1 where s1: "apply_event ev s = Inr s1"
    "apply_all evs (s1\<lparr>sn_last_seq := Seq ev\<rparr>) = Inr s'" by (auto split: sum.splits)
  have "sn_tenant_id (s1\<lparr>sn_last_seq := Seq ev\<rparr>) = t"
    using apply_event_identity [OF s1(1)] set_identity_tenant [of ev s] Cons.prems by auto
  with Cons.IH [OF s1(2)] Cons.prems show ?case by simp
qed simp

lemma Fold_tenant:
  assumes "Fold evs = Inr s" "evs \<noteq> []" "\<forall>x \<in> set evs. TenantID x = t"
  shows "sn_tenant_id s = t"
proof -
  obtain e es where k: "kept evs = e # es" "set (kept evs) \<subseteq> set evs" using kept_nonempty [OF assms(2)] by blast
  then obtain s1 where s1: "apply_event e snapshot0 = Inr s1" "apply_all es (s1\<lparr>sn_last_seq := Seq e\<rparr>) = Inr s"
    using assms(1) by (auto simp: Fold_kept split: sum.splits)
  have "sn_tenant_id (s1\<lparr>sn_last_seq := Seq e\<rparr>) = t"
    using apply_event_identity [OF s1(1)] k assms(3) by (simp add: set_identity_def snapshot0_def)
  with apply_all_tenant [OF s1(2)] k assms(3) show ?thesis by auto
qed

lemma BuildSummary_tenant:
  assumes "BuildSummary T evs = Inr smy" "evs \<noteq> []" "\<forall>x \<in> set evs. TenantID x = t"
  shows "sm_tenant_id smy = t" and "sm_caller_phone smy = caller_phone evs"
proof -
  obtain s where f: "Fold evs = Inr s" using assms(1) by (auto simp: BuildSummary_def split: sum.splits)
  with assms(1) have "sm_tenant_id smy = sn_tenant_id s" "sm_caller_phone smy = caller_phone evs"
    by (auto simp: BuildSummary_def Let_def split: sum.splits)
  with Fold_tenant [OF f assms(2,3)] show "sm_tenant_id smy = t" "sm_caller_phone smy = caller_phone evs" by simp_all
qed

lemma mark_fields [simp]:
  "nf_sms (snd (mark E fmt k n)) = nf_sms n" "nf_weekly (snd (mark E fmt k n)) = nf_weekly n"
  "nf_pending (snd (mark E fmt k n)) = nf_pending n" "nf_dedup (snd (mark E fmt k n)) = snd (dd_Mark (ne_dedup E) k (nf_dedup n))"
  by (simp_all add: mark_def split: prod.split)

context dedup_store
begin

lemma mark_None: "ne_dedup E = dd \<Longrightarrow> mark E fmt k n = (None, n') \<Longrightarrow> dd_Seen dd k (nf_dedup n') = Inr True"
  using mark_seen by (auto simp: mark_def split: prod.splits)

lemma mark_stays:
  "ne_dedup E = dd \<Longrightarrow> dd_Seen dd k (nf_dedup n) = Inr True \<Longrightarrow> dd_Seen dd k (nf_dedup (snd (mark E fmt k' n))) = Inr True"
  by (simp add: seen_stays)

lemma owner_marks:
  assumes "ne_dedup E = dd" "sendOwnerSMS E i smy info n = (None, n')"
  shows "ti_owner_phone info = [] \<or> dd_Seen dd (i @ dedupOwnerSuffix) (nf_dedup n') = Inr True"
  using assms mark_None [OF assms(1)]
  by (auto simp: sendOwnerSMS_def Let_def split: sum.splits bool.splits prod.splits option.splits if_splits)

lemma client_stays:
  assumes "ne_dedup E = dd" "sendClientSMS E i smy info n = (r, n')" "dd_Seen dd k (nf_dedup n) = Inr True"
  shows "dd_Seen dd k (nf_dedup n') = Inr True"
proof -
  have m: "mark E fmt k' m = (r', m') \<Longrightarrow> nf_dedup m = nf_dedup n \<Longrightarrow> dd_Seen dd k (nf_dedup m') = Inr True" for fmt k' m r' m'
    using mark_stays [OF assms(1), of k m fmt k'] assms(3) by simp
  show ?thesis
    using assms m
    by (auto simp: sendClientSMS_def send_sms_def Let_def split: sum.splits bool.splits prod.splits option.splits if_splits)
qed

lemma weekly_marks:
  assumes "ne_dedup E = dd" "recordWeekly E i smy n = (None, n')"
  shows "dd_Seen dd (i @ dedupAggSuffix) (nf_dedup n') = Inr True"
  using assms mark_None [OF assms(1)]
  by (auto simp: recordWeekly_def Let_def split: sum.splits bool.splits)

lemma weekly_stays:
  assumes "ne_dedup E = dd" "recordWeekly E i smy n = (r, n')" "dd_Seen dd k (nf_dedup n) = Inr True"
  shows "dd_Seen dd k (nf_dedup n') = Inr True"
proof -
  have m: "mark E fmt k' m = (r', m') \<Longrightarrow> nf_dedup m = nf_dedup n \<Longrightarrow> dd_Seen dd k (nf_dedup m') = Inr True" for fmt k' m r' m'
    using mark_stays [OF assms(1), of k m fmt k'] assms(3) by simp
  show ?thesis
    using assms m by (auto simp: recordWeekly_def Let_def split: sum.splits bool.splits)
qed

text \<open>A call that was notified leaves the keys of its effects behind.\<close>

lemma notified_marks:
  assumes "ne_dedup E = dd" "notifyCallEnded E ctx i smy n = (None, n')" "dir_Lookup ctx (ne_tenants E) = Inr info"
  shows "(ti_owner_phone info = [] \<or> dd_Seen dd (i @ dedupOwnerSuffix) (nf_dedup n') = Inr True) \<and>
         dd_Seen dd (i @ dedupAggSuffix) (nf_dedup n') = Inr True"
proof -
  obtain n1 where 1: "sendOwnerSMS E i smy info n = (None, n1)"
    using assms(2,3) by (auto simp: notifyCallEnded_def split: prod.splits option.splits)
  then obtain n2 where 2: "sendClientSMS E i smy info n1 = (None, n2)"
    using assms(2,3) by (auto simp: notifyCallEnded_def split: prod.splits option.splits)
  with 1 assms(2,3) have 3: "recordWeekly E i smy n2 = (None, n')" by (simp add: notifyCallEnded_def)
  show ?thesis
    using owner_marks [OF assms(1) 1] client_stays [OF assms(1) 2] weekly_stays [OF assms(1) 3]
      weekly_marks [OF assms(1) 3] by blast
qed

text \<open>With the keys in the store a sparse summary of the same event does nothing.\<close>

lemma redelivery_quiet:
  assumes "ne_dedup E = dd" "dir_Lookup ctx (ne_tenants E) = Inr info" "sm_caller_phone smy = []"
    and "ti_owner_phone info = [] \<or> dd_Seen dd (i @ dedupOwnerSuffix) (nf_dedup n) = Inr True"
    and "dd_Seen dd (i @ dedupAggSuffix) (nf_dedup n) = Inr True"
  shows "notifyCallEnded E ctx i smy n = (None, n)"
  using assms by (auto simp: notifyCallEnded_def sendOwnerSMS_def sendClientSMS_def recordWeekly_def)

end

text \<open>
  Notifications are idempotent: once the end of a call was handled without an error, a
  redelivery of that event sends no message to anybody, counts nothing and leaves the
  deduplication store as it was.
\<close>

theorem redelivered_call_notifies_nobody:
  assumes "ne_dedup E = MemoryDedup" and "Type ev = TypeCallEnded"
    and "\<forall>x \<in> set (nf_pending n (CallID ev)). TenantID x = TenantID ev"
    and "HandleEvent E ev n = (None, n1)" and "HandleEvent E ev n1 = (r, n2)"
  shows "nf_sms n2 = nf_sms n1 \<and> nf_email n2 = nf_email n1 \<and> nf_weekly n2 = nf_weekly n1 \<and>
     nf_latency n2 = nf_latency n1 \<and> nf_dedup n2 = nf_dedup n1"
proof -
  let ?evs = "nf_pending n (CallID ev) @ [ev]"
  let ?n = "n\<lparr>nf_pending := (nf_pending n)(CallID ev := ?evs)\<rparr>"
  obtain smy n' where b: "BuildSummary (ne_time E) ?evs = Inr smy"
    and c: "notifyCallEnded E (WithTenant None (sm_tenant_id smy)) (EventID ev) smy ?n = (None, n')"
    and n1: "n1 = n'\<lparr>nf_pending := (nf_pending n')(CallID ev := [])\<rparr>"
    using assms(2,4) by (auto simp: HandleEvent_def Let_def split: sum.splits prod.splits option.splits)
  have t: "sm_tenant_id smy = TenantID ev" using BuildSummary_tenant(1) [OF b] assms(3) by simp
  obtain info where l: "dir_Lookup (WithTenant None (TenantID ev)) (ne_tenants E) = Inr info"
    using c t by (auto simp: notifyCallEnded_def split: sum.splits)
  have k: "ti_owner_phone info = [] \<or> dd_Seen MemoryDedup (EventID ev @ dedupOwnerSuffix) (nf_dedup n1) = Inr True"
    "dd_Seen MemoryDedup (EventID ev @ dedupAggSuffix) (nf_dedup n1) = Inr True"
    using mem_dedup.notified_marks [OF assms(1) c] l t by (simp_all add: n1)
  let ?m = "n1\<lparr>nf_pending := (nf_pending n1)(CallID ev := [ev])\<rparr>"
  have e0: "nf_pending n1 (CallID ev) = []" by (simp add: n1)
  have e: "HandleEvent E ev n1 =
     (case BuildSummary (ne_time E) [ev] of
        Inl e \<Rightarrow> (Some e, ?m)
      | Inr smy \<Rightarrow>
          (case notifyCallEnded E (WithTenant None (sm_tenant_id smy)) (EventID ev) smy ?m of
             (Some e, n) \<Rightarrow> (Some e, n)
           | (None, n) \<Rightarrow> (None, n\<lparr>nf_pending := (nf_pending n)(CallID ev := [])\<rparr>)))"
    by (simp add: HandleEvent_def e0 Let_def assms(2))
  show ?thesis
  proof (cases "BuildSummary (ne_time E) [ev]")
    case (Inl x)
    with assms(5) e show ?thesis by auto
  next
    case (Inr smy2)
    have "sm_tenant_id smy2 = TenantID ev" "sm_caller_phone smy2 = []"
      using BuildSummary_tenant [OF Inr, of "TenantID ev"] assms(2) by simp_all
    then have "notifyCallEnded E (WithTenant None (sm_tenant_id smy2)) (EventID ev) smy2 ?m = (None, ?m)"
      using mem_dedup.redelivery_quiet [OF assms(1) l, of smy2 "EventID ev" ?m] k by simp
    with assms(5) e Inr show ?thesis by auto
  qed
qed

definition demo_lib :: time_lib where
  "demo_lib = \<lparr>tl_parse = (\<lambda>s. Inl (Sentinel ErrParse)),
     tl_utc = (\<lambda>t. \<lparr>cv_year = 2026, cv_month = 8, cv_day = 13, cv_hour = 15, cv_minute = 4, cv_iso_year = 2026, cv_iso_week = 33\<rparr>),
     tl_zone = (\<lambda>s. None)\<rparr>"

definition demo_env :: "string set notify_env" where
  "demo_env = \<lparr>ne_dedup = MemoryDedup, ne_sms = (\<lambda>l m. None), ne_email = (\<lambda>l m. None),
     ne_tenants = [(''t1'', \<lparr>ti_name = ''Bob'', ti_owner_phone = ''+15145550100'', ti_owner_email = ''bob@example.com'',
        ti_locale = LocaleENCA, ti_timezone = [], ti_avg_job_value = 100\<rparr>)],
     ne_time = demo_lib, ne_now = 9, ne_transcript_base = []\<rparr>"

definition notifier0 :: "string set notifier" where
  "notifier0 = \<lparr>nf_pending = (\<lambda>_. []), nf_weekly = (\<lambda>_. weekly_stats0), nf_dedup = {}, nf_sms = [], nf_email = [],
     nf_latency = []\<rparr>"

definition ended_event :: envelope where
  "ended_event = ev_demo 1 ''e1'' TypeCallEnded (JObj [])"

lemma ended_summary: "BuildSummary demo_lib [ended_event] = Inr
   \<lparr>sm_call_id = ''c1'', sm_tenant_id = ''t1'', sm_locale = [], sm_ended_at = 7, sm_caller_phone = [],
    sm_caller_name = [], sm_service = [], sm_urgency = [], sm_callback_phone = [], sm_outcome = OutcomeNone,
    sm_appointment_at = 0, sm_message = []\<rparr>"
  by (simp add: BuildSummary_def Let_def Fold_def ended_event_def ev_demo_def apply_event_def set_identity_def
      snapshot0_def unmarshal_payload_def unmarshal_def call_ended0_def stringVar_def outcome_of_def is_zero_def
      EndTransferred_def)

theorem redelivered_call_notifies_nobody_witness:
  "\<exists>n1. HandleEvent demo_env ended_event notifier0 = (None, n1) \<and> length (nf_sms n1) = 1 \<and>
     nf_sms (snd (HandleEvent demo_env ended_event n1)) = nf_sms n1"
proof -
  have ty: "Type ended_event = TypeCallEnded" "CallID ended_event = ''c1''" "EventID ended_event = ''e1''"
    by (simp_all add: ended_event_def ev_demo_def)
  have l: "dir_Lookup (WithTenant None ''t1'') (ne_tenants demo_env) = Inr \<lparr>ti_name = ''Bob'', ti_owner_phone = ''+15145550100'',
      ti_owner_email = ''bob@example.com'', ti_locale = LocaleENCA, ti_timezone = [], ti_avg_job_value = 100\<rparr>"
    by (simp add: dir_Lookup_def WithTenant_def FromContext_def demo_env_def)
  have t: "ne_time demo_env = demo_lib" "ne_dedup demo_env = MemoryDedup" "ne_sms demo_env = (\<lambda>l m. None)"
    by (simp_all add: demo_env_def)
  obtain n1 where h: "HandleEvent demo_env ended_event notifier0 = (None, n1)" and s: "length (nf_sms n1) = 1"
    by (atomize_elim) (simp add: HandleEvent_def ty Let_def notifier0_def t ended_summary notifyCallEnded_def l sendOwnerSMS_def
        sendClientSMS_def recordWeekly_def send_sms_def mark_def MemoryDedup_def dedupOwnerSuffix_def dedupAggSuffix_def
        is_zero_def del: One_nat_def)
  have p: "\<forall>x \<in> set (nf_pending notifier0 (CallID ended_event)). TenantID x = TenantID ended_event"
    by (simp add: notifier0_def)
  obtain r n2 where h2: "HandleEvent demo_env ended_event n1 = (r, n2)" by fastforce
  from redelivered_call_notifies_nobody [OF t(2) ty(1) p h h2] h h2 s show ?thesis by simp
qed

text \<open>
  The weekly count is not exactly once: the counters move before the key is marked, so every
  attempt whose mark fails counts the call again.
\<close>

theorem failed_mark_counts_twice:
  assumes "\<forall>d. dd_Seen (ne_dedup E) (i @ dedupAggSuffix) d = Inr False"
    and "\<forall>d. \<exists>e. dd_Mark (ne_dedup E) (i @ dedupAggSuffix) d = (Some e, d)"
  shows "\<exists>e1 n1 e2 n2. recordWeekly E i smy n = (Some e1, n1) \<and> recordWeekly E i smy n1 = (Some e2, n2) \<and>
     ws_calls_answered (nf_weekly n2 (sm_tenant_id smy)) = ws_calls_answered (nf_weekly n (sm_tenant_id smy)) + 2"
proof -
  have step: "\<exists>e m'. recordWeekly E i smy m = (Some e, m') \<and>
      ws_calls_answered (nf_weekly m' (sm_tenant_id smy)) = ws_calls_answered (nf_weekly m (sm_tenant_id smy)) + 1" for m
  proof -
    obtain e where "dd_Mark (ne_dedup E) (i @ dedupAggSuffix) (nf_dedup m) = (Some e, nf_dedup m)" using assms(2) by blast
    then show ?thesis using assms(1) by (simp add: recordWeekly_def Let_def mark_def count_call_def)
  qed
  from step [of n] obtain e1 n1 where 1: "recordWeekly E i smy n = (Some e1, n1)"
    "ws_calls_answered (nf_weekly n1 (sm_tenant_id smy)) = ws_calls_answered (nf_weekly n (sm_tenant_id smy)) + 1" by blast
  from step [of n1] obtain e2 n2 where "recordWeekly E i smy n1 = (Some e2, n2)"
    "ws_calls_answered (nf_weekly n2 (sm_tenant_id smy)) = ws_calls_answered (nf_weekly n1 (sm_tenant_id smy)) + 1" by blast
  with 1 show ?thesis by auto
qed

definition broken_dedup :: "string set deduper" where
  "broken_dedup = \<lparr>dd_Seen = \<lambda>k d. Inr (k \<in> {}), dd_Mark = \<lambda>k d. (Some (Sentinel ''no database''), d)\<rparr>"

definition quiet_summary :: summary where
  "quiet_summary = \<lparr>sm_call_id = ''c1'', sm_tenant_id = ''t1'', sm_locale = [], sm_ended_at = 7, sm_caller_phone = [],
    sm_caller_name = [], sm_service = [], sm_urgency = [], sm_callback_phone = [], sm_outcome = OutcomeNone,
    sm_appointment_at = 0, sm_message = []\<rparr>"

theorem failed_mark_counts_twice_witness:
  "\<exists>n2 :: string set notifier. ws_calls_answered (nf_weekly n2 ''t1'') = 2"
proof -
  let ?E = "demo_env\<lparr>ne_dedup := broken_dedup\<rparr>"
  have "\<forall>d. dd_Seen (ne_dedup ?E) (''e1'' @ dedupAggSuffix) d = Inr False"
    "\<forall>d. \<exists>e. dd_Mark (ne_dedup ?E) (''e1'' @ dedupAggSuffix) d = (Some e, d)"
    by (simp_all add: broken_dedup_def)
  from failed_mark_counts_twice [OF this, of quiet_summary notifier0] show ?thesis
    by (auto simp: quiet_summary_def notifier0_def weekly_stats0_def)
qed

text \<open>
  A call that ends while the weekly e-mail is on its way is lost from the reports: it is counted
  after the figures were read and the counters are deleted when the e-mail has been accepted, and
  its key keeps it from ever being counted again.
\<close>

theorem call_during_report_is_lost:
  assumes "report_send E (sm_tenant_id smy) n = (Inr True, n1)" and "recordWeekly E i smy n1 = (None, n2)"
    and "dd_Seen (ne_dedup E) (i @ dedupAggSuffix) (nf_dedup n1) = Inr False"
    and "ne_dedup E = MemoryDedup"
  shows "\<exists>info. nf_email n1 = nf_email n @ [weekly_message E info (nf_weekly n (sm_tenant_id smy))] \<and>
     ws_calls_answered (nf_weekly n2 (sm_tenant_id smy)) = ws_calls_answered (nf_weekly n (sm_tenant_id smy)) + 1 \<and>
     nf_weekly (report_reset (sm_tenant_id smy) n2) (sm_tenant_id smy) = weekly_stats0 \<and>
     recordWeekly E i smy (report_reset (sm_tenant_id smy) n2) = (None, report_reset (sm_tenant_id smy) n2)"
proof -
  obtain info where e: "nf_email n1 = nf_email n @ [weekly_message E info (nf_weekly n (sm_tenant_id smy))]"
    and w: "nf_weekly n1 = nf_weekly n"
    using assms(1) by (auto simp: report_send_def mark_def Let_def split: sum.splits bool.splits option.splits prod.splits if_splits)
  have c: "ws_calls_answered (nf_weekly n2 (sm_tenant_id smy)) = ws_calls_answered (nf_weekly n (sm_tenant_id smy)) + 1"
    using assms(2,3) w by (auto simp: recordWeekly_def Let_def mark_def count_call_def split: prod.splits)
  have k: "dd_Seen MemoryDedup (i @ dedupAggSuffix) (nf_dedup n2) = Inr True"
    using mem_dedup.weekly_marks [OF assms(4,2)] .
  have "recordWeekly E i smy (report_reset (sm_tenant_id smy) n2) = (None, report_reset (sm_tenant_id smy) n2)"
    using k by (simp add: recordWeekly_def report_reset_def assms(4))
  with e c show ?thesis by (auto simp: report_reset_def)
qed

theorem call_during_report_is_lost_witness:
  "\<exists>n1 n2. report_send demo_env ''t1'' notifier0 = (Inr True, n1) \<and>
     recordWeekly demo_env ''e1'' quiet_summary n1 = (None, n2) \<and>
     nf_weekly (report_reset ''t1'' n2) ''t1'' = weekly_stats0"
proof -
  have l: "dir_Lookup (WithTenant None ''t1'') (ne_tenants demo_env) = Inr \<lparr>ti_name = ''Bob'', ti_owner_phone = ''+15145550100'',
      ti_owner_email = ''bob@example.com'', ti_locale = LocaleENCA, ti_timezone = [], ti_avg_job_value = 100\<rparr>"
    by (simp add: dir_Lookup_def WithTenant_def FromContext_def demo_env_def)
  have t: "ne_dedup demo_env = MemoryDedup" "ne_email demo_env = (\<lambda>l m. None)" by (simp_all add: demo_env_def)
  obtain n1 where r: "report_send demo_env ''t1'' notifier0 = (Inr True, n1)"
    and d: "nf_dedup n1 = {weekly_key demo_env \<lparr>ti_name = ''Bob'', ti_owner_phone = ''+15145550100'',
      ti_owner_email = ''bob@example.com'', ti_locale = LocaleENCA, ti_timezone = [], ti_avg_job_value = 100\<rparr> ''t1''}"
    by (simp add: report_send_def l t mark_def MemoryDedup_def notifier0_def Let_def)
  have "''e1'' @ dedupAggSuffix \<notin> nf_dedup n1"
    by (simp add: d weekly_key_def dedupAggSuffix_def Let_def)
  then have s: "dd_Seen (ne_dedup demo_env) (''e1'' @ dedupAggSuffix) (nf_dedup n1) = Inr False"
    by (simp add: t MemoryDedup_def)
  then obtain n2 where w: "recordWeekly demo_env ''e1'' quiet_summary n1 = (None, n2)"
    by (simp add: recordWeekly_def Let_def t mark_def MemoryDedup_def)
  have q: "sm_tenant_id quiet_summary = ''t1''" by (simp add: quiet_summary_def)
  from call_during_report_is_lost [of demo_env quiet_summary notifier0 n1 "''e1''" n2, unfolded q, OF r w s t(1)] r w
  show ?thesis by auto
qed

end
