(* ===== verification/Rtp.thy ===== *)
theory Rtp
  imports FD_Prelude
begin

unbundle bit_operations_syntax

text \<open>
  \<open>internal/asterisk/rtp.go\<close>: the RTP datagrams of the External Media leg and the conversion
  between the 16 kHz wire samples and the 8 kHz samples of the gateway. A datagram is a list of
  octets, a sample a 16-bit word read as two's complement.
\<close>

type_synonym octets = "8 word list"

definition wireSampleRate :: nat where "wireSampleRate = 16000"
definition wireSamplesPerFrame :: nat where "wireSamplesPerFrame = wireSampleRate div 1000 * 20"
definition wirePayloadBytes :: nat where "wirePayloadBytes = wireSamplesPerFrame * 2"
definition rtpHeaderBytes :: nat where "rtpHeaderBytes = 12"
definition rtpVersion :: "8 word" where "rtpVersion = 2"
definition rtpPayloadTypeL16 :: "8 word" where "rtpPayloadTypeL16 = 118"

lemmas wire_defs = wireSampleRate_def wireSamplesPerFrame_def wirePayloadBytes_def

section \<open>Big-endian fields\<close>

definition be16 :: "octets \<Rightarrow> 16 word" where
  "be16 b = ucast (b ! 1) OR push_bit 8 (ucast (b ! 0))"

definition be32 :: "octets \<Rightarrow> 32 word" where
  "be32 b = ucast (b ! 3) OR push_bit 8 (ucast (b ! 2)) OR push_bit 16 (ucast (b ! 1)) OR push_bit 24 (ucast (b ! 0))"

definition put16 :: "16 word \<Rightarrow> octets" where
  "put16 v = [ucast (drop_bit 8 v), ucast v]"

definition put32 :: "32 word \<Rightarrow> octets" where
  "put32 v = [ucast (drop_bit 24 v), ucast (drop_bit 16 v), ucast (drop_bit 8 v), ucast v]"

lemma length_put [simp]: "length (put16 v) = 2" "length (put32 w) = 4"
  by (simp_all add: put16_def put32_def)

lemma be16_put16 [simp]: "be16 (put16 v) = v"
  by (rule bit_word_eqI) (auto simp: be16_def put16_def bit_simps)

lemma be32_put32 [simp]: "be32 (put32 v) = v"
proof (rule bit_word_eqI)
  fix n assume n: "n < LENGTH(32)"
  consider "n < 8" | "8 \<le> n" "n < 16" | "16 \<le> n" "n < 24" | "24 \<le> n" by linarith
  then show "bit (be32 (put32 v)) n = bit v n"
    by cases (use n in \<open>auto simp: be32_def put32_def bit_simps\<close>)
qed

lemma no_high_bit [simp]: "8 \<le> k \<Longrightarrow> \<not> bit (w :: 8 word) (k + n)"
  using bit_imp_le_length [of w "k + n"] by auto

lemma put16_be16 [simp]: "put16 (be16 [a, b]) = [a, b]"
  by (auto simp: put16_def be16_def bit_simps intro!: bit_word_eqI)

lemma put32_be32 [simp]: "put32 (be32 [a, b, c, d]) = [a, b, c, d]"
  by (auto simp: put32_def be32_def bit_simps intro!: bit_word_eqI)

section \<open>Header\<close>

record rtp_packet =
  rp_seq :: "16 word"
  rp_timestamp :: "32 word"
  rp_ssrc :: "32 word"
  rp_payload :: octets

definition slice :: "nat \<Rightarrow> nat \<Rightarrow> 'a list \<Rightarrow> 'a list" where
  "slice i j xs = take (j - i) (drop i xs)"

definition parseRTP :: "octets \<Rightarrow> rtp_packet res" where
  "parseRTP d =
     (if length d < rtpHeaderBytes
      then Inl (Errf ''asterisk: rtp datagram too short: %d bytes'' [FI (int (length d))])
      else let v = drop_bit 6 (d ! 0) in
      if v \<noteq> rtpVersion then Inl (Errf ''asterisk: rtp version %d unsupported'' [FI (uint v)])
      else let csrcCount = d ! 0 AND 0x0f in
      if csrcCount \<noteq> 0 then Inl (Errf ''asterisk: rtp csrc count %d unsupported'' [FI (uint csrcCount)])
      else Inr \<lparr>rp_seq = be16 (slice 2 4 d), rp_timestamp = be32 (slice 4 8 d), rp_ssrc = be32 (slice 8 12 d),
                rp_payload = drop rtpHeaderBytes d\<rparr>)"

definition buildRTP :: "16 word \<Rightarrow> 32 word \<Rightarrow> 32 word \<Rightarrow> octets \<Rightarrow> octets" where
  "buildRTP sq ts ssrc payload =
     [push_bit 6 rtpVersion, rtpPayloadTypeL16] @ put16 sq @ put32 ts @ put32 ssrc @ payload"

lemma parse_build [simp]:
  "parseRTP (buildRTP sq ts ssrc p) = Inr \<lparr>rp_seq = sq, rp_timestamp = ts, rp_ssrc = ssrc, rp_payload = p\<rparr>"
proof -
  have "slice 2 4 (buildRTP sq ts ssrc p) = put16 sq" "slice 4 8 (buildRTP sq ts ssrc p) = put32 ts"
    "slice 8 12 (buildRTP sq ts ssrc p) = put32 ssrc" "drop rtpHeaderBytes (buildRTP sq ts ssrc p) = p"
    "rtpHeaderBytes \<le> length (buildRTP sq ts ssrc p)"
    by (simp_all add: buildRTP_def slice_def put16_def put32_def numeral_eq_Suc rtpHeaderBytes_def)
  moreover have "drop_bit 6 (buildRTP sq ts ssrc p ! 0) = rtpVersion" "buildRTP sq ts ssrc p ! 0 AND 0x0f = 0"
    by (simp_all add: buildRTP_def rtpVersion_def)
  ultimately show ?thesis by (simp add: parseRTP_def)
qed

text \<open>A datagram of at least a header, field by field.\<close>

lemma header_split:
  assumes "12 \<le> length d"
  obtains a b c e f g h i j k l m p where "d = [a, b, c, e, f, g, h, i, j, k, l, m] @ p"
proof -
  have "\<exists>xs. length xs = 12 \<and> d = xs @ drop 12 d"
    using assms by (intro exI [of _ "take 12 d"]) simp
  then show ?thesis using that by (auto simp: numeral_eq_Suc length_Suc_conv)
qed

lemma parse_ok_iff:
  "ok (parseRTP d) \<longleftrightarrow> rtpHeaderBytes \<le> length d \<and> drop_bit 6 (d ! 0) = rtpVersion \<and> d ! 0 AND 0x0f = 0"
  by (auto simp: parseRTP_def Let_def)

text \<open>
  C17: the header codec is exact in both directions: a datagram was built from a sequence number, a
  timestamp, a source and a payload exactly when it parses to them and carries the first octet (version
  2 and nothing else) and the payload type that the gateway writes.
\<close>

theorem rtp_build_iff_parse:
  "d = buildRTP sq ts ssrc p \<longleftrightarrow>
   parseRTP d = Inr \<lparr>rp_seq = sq, rp_timestamp = ts, rp_ssrc = ssrc, rp_payload = p\<rparr> \<and>
   d ! 0 = push_bit 6 rtpVersion \<and> d ! 1 = rtpPayloadTypeL16"
proof
  assume r: "parseRTP d = Inr \<lparr>rp_seq = sq, rp_timestamp = ts, rp_ssrc = ssrc, rp_payload = p\<rparr> \<and>
    d ! 0 = push_bit 6 rtpVersion \<and> d ! 1 = rtpPayloadTypeL16"
  have "12 \<le> length d" using r parse_ok_iff [of d] by (simp add: rtpHeaderBytes_def)
  then obtain a b c e f g h i j k l m q where d: "d = [a, b, c, e, f, g, h, i, j, k, l, m] @ q"
    by (rule header_split)
  have "sq = be16 [c, e]" "ts = be32 [f, g, h, i]" "ssrc = be32 [j, k, l, m]" "p = q"
    using r by (auto simp: parseRTP_def d slice_def rtpHeaderBytes_def Let_def numeral_eq_Suc split: if_splits)
  then show "d = buildRTP sq ts ssrc p" using r by (simp add: buildRTP_def d)
next
  assume d: "d = buildRTP sq ts ssrc p"
  show "parseRTP d = Inr \<lparr>rp_seq = sq, rp_timestamp = ts, rp_ssrc = ssrc, rp_payload = p\<rparr> \<and>
    d ! 0 = push_bit 6 rtpVersion \<and> d ! 1 = rtpPayloadTypeL16"
    unfolding d by (simp, simp add: buildRTP_def)
qed

text \<open>
  A datagram is refused exactly when it is shorter than a header, of another version or with
  contributing sources. A header extension is not refused, whatever the comment on \<open>parseRTP\<close> says: its
  words are handed over as the beginning of the audio.
\<close>

theorem rtp_refusals:
  "(ok (parseRTP d) \<longleftrightarrow> 12 \<le> length d \<and> uint (d ! 0) div 64 = 2 \<and> uint (d ! 0) mod 16 = 0) \<and>
   parseRTP ([0x90, 118] @ put16 sq @ put32 ts @ put32 ssrc @ ext @ p) =
     Inr \<lparr>rp_seq = sq, rp_timestamp = ts, rp_ssrc = ssrc, rp_payload = ext @ p\<rparr>"
proof -
  have "drop_bit 6 w = rtpVersion \<longleftrightarrow> uint w div 64 = 2" for w :: "8 word"
    by (simp add: rtpVersion_def word_uint_eq_iff unsigned_drop_bit_eq drop_bit_eq_div uint_div)
  moreover have "w AND 0x0f = 0 \<longleftrightarrow> uint w mod 16 = 0" for w :: "8 word"
  proof -
    have "uint (w AND 0x0f) = uint w AND 0x0f" by (simp add: uint_and)
    also have "\<dots> = uint w mod 16" using take_bit_eq_mask [of 4 "uint w"]
      by (simp add: take_bit_eq_mod mask_eq_exp_minus_1)
    finally show ?thesis by (simp add: word_uint_eq_iff)
  qed
  moreover have "parseRTP ([0x90, 118] @ put16 sq @ put32 ts @ put32 ssrc @ ext @ p) =
     Inr \<lparr>rp_seq = sq, rp_timestamp = ts, rp_ssrc = ssrc, rp_payload = ext @ p\<rparr>"
  proof -
    let ?d = "[0x90, 118] @ put16 sq @ put32 ts @ put32 ssrc @ ext @ p"
    have "slice 2 4 ?d = put16 sq" "slice 4 8 ?d = put32 ts" "slice 8 12 ?d = put32 ssrc" "drop 12 ?d = ext @ p"
      by (simp_all add: slice_def put16_def put32_def numeral_eq_Suc)
    then show ?thesis by (simp add: parseRTP_def rtpHeaderBytes_def rtpVersion_def)
  qed
  ultimately show ?thesis by (simp add: parse_ok_iff rtpHeaderBytes_def)
qed

section \<open>Payload\<close>

text \<open>Sample \<open>i\<close> of a payload is read from the octets \<open>2 i\<close> and \<open>2 i + 1\<close>; an odd last octet is ignored.\<close>

fun decodePayload16k :: "octets \<Rightarrow> 16 word list" where
  "decodePayload16k (a # b # p) = be16 [a, b] # decodePayload16k p"
| "decodePayload16k _ = []"

fun encodePayload16k :: "16 word list \<Rightarrow> octets" where
  "encodePayload16k [] = []"
| "encodePayload16k (s # ss) = put16 s @ encodePayload16k ss"

lemma length_encode [simp]: "length (encodePayload16k ss) = 2 * length ss"
  by (induction ss) simp_all

lemma length_decode [simp]: "length (decodePayload16k p) = length p div 2"
  by (induction p rule: decodePayload16k.induct) simp_all

lemma decode_put16 [simp]: "decodePayload16k (put16 s @ p) = s # decodePayload16k p"
  using be16_put16 [of s] by (simp add: put16_def)

lemma decode_encode [simp]: "decodePayload16k (encodePayload16k ss) = ss"
  by (induction ss) simp_all

lemma encode_decode: "encodePayload16k (decodePayload16k p) = take (2 * (length p div 2)) p"
  by (induction p rule: decodePayload16k.induct) simp_all

text \<open>
  The payload codec loses nothing: every sample comes back from its two octets, and every octet of
  a payload comes back from its samples, but for the last one of a payload of odd length.
\<close>

theorem payload_round_trip:
  "decodePayload16k (encodePayload16k ss) = ss \<and>
   encodePayload16k (decodePayload16k p) = take (length p - length p mod 2) p \<and>
   length (encodePayload16k ss) = 2 * length ss"
  by (simp add: encode_decode minus_mod_eq_mult_div)

section \<open>Sample rates\<close>

text \<open>\<open>int16((int32(a) + int32(b)) / 2)\<close>: the sum in 32 bits, truncating division, the low 16 bits.\<close>

definition avg16 :: "16 word \<Rightarrow> 16 word \<Rightarrow> 16 word" where
  "avg16 a b = word_of_int (sint (scast a + scast b :: 32 word) sdiv 2)"

fun downsample16to8 :: "16 word list \<Rightarrow> 16 word list" where
  "downsample16to8 (a # b # xs) = avg16 a b # downsample16to8 xs"
| "downsample16to8 _ = []"

fun upsample8to16 :: "16 word list \<Rightarrow> 16 word list" where
  "upsample8to16 [] = []"
| "upsample8to16 [x] = [x, avg16 x x]"
| "upsample8to16 (x # y # xs) = x # avg16 x y # upsample8to16 (y # xs)"

lemma length_downsample [simp]: "length (downsample16to8 xs) = length xs div 2"
  by (induction xs rule: downsample16to8.induct) simp_all

lemma length_upsample [simp]: "length (upsample8to16 xs) = 2 * length xs"
  by (induction xs rule: upsample8to16.induct) simp_all

lemma sdiv2_between: "a \<le> b \<Longrightarrow> a \<le> (a + b) sdiv 2 \<and> (a + b) sdiv 2 \<le> (b :: int)"
  by (auto simp: signed_divide_int_def sgn_if)

lemma sint16: "- 32768 \<le> sint (a :: 16 word) \<and> sint a < 32768"
  using sint_ge [of a] sint_less [of a] by simp

lemma sint_avg16: "sint (avg16 a b) = (sint a + sint b) sdiv 2"
proof -
  have "sint (scast a + scast b :: 32 word) = signed_take_bit 31 (sint a + sint b)"
    by (simp add: signed_scast_eq signed_take_bit_add sint_word_ariths)
  also have "\<dots> = sint a + sint b"
    by (rule signed_take_bit_int_eq_self) (use sint16 [of a] sint16 [of b] in simp_all)
  finally have s: "sint (scast a + scast b :: 32 word) = sint a + sint b" .
  have "- 32768 \<le> (sint a + sint b) sdiv 2 \<and> (sint a + sint b) sdiv 2 < 32768"
    using sdiv2_between [of "sint a" "sint b"] sdiv2_between [of "sint b" "sint a"] sint16 [of a] sint16 [of b]
    by (cases "sint a \<le> sint b") (auto simp: add.commute)
  then show ?thesis
    by (simp add: avg16_def s sint_sbintrunc' signed_take_bit_int_eq_self)
qed

definition between16 :: "16 word \<Rightarrow> 16 word \<Rightarrow> 16 word \<Rightarrow> bool" where
  "between16 a b x \<longleftrightarrow> min (sint a) (sint b) \<le> sint x \<and> sint x \<le> max (sint a) (sint b)"

lemma avg16_between: "between16 a b (avg16 a b)"
  using sdiv2_between [of "sint a" "sint b"] sdiv2_between [of "sint b" "sint a"]
  by (cases "sint a \<le> sint b") (auto simp: between16_def sint_avg16 add.commute)

lemma avg16_same [simp]: "avg16 a a = a"
proof -
  have "sint (avg16 a a) = sint a" using avg16_between [of a a] by (simp add: between16_def)
  then show ?thesis by (metis scast_eq scast_id)
qed

lemma downsample_between:
  "i < length xs div 2 \<Longrightarrow> between16 (xs ! (2 * i)) (xs ! (2 * i + 1)) (downsample16to8 xs ! i)"
proof (induction xs arbitrary: i rule: downsample16to8.induct)
  case (1 a b xs)
  then show ?case by (cases i) (simp_all add: avg16_between)
qed simp_all

lemma upsample_nth:
  "i < length xs \<Longrightarrow> upsample8to16 xs ! (2 * i) = xs ! i \<and>
     upsample8to16 xs ! (2 * i + 1) = avg16 (xs ! i) (if i + 1 < length xs then xs ! (i + 1) else xs ! i)"
proof (induction xs arbitrary: i rule: upsample8to16.induct)
  case (3 x y xs)
  then show ?case by (cases i) simp_all
qed simp_all

lemma between16_trans: "between16 a b x \<Longrightarrow> between16 a x z \<Longrightarrow> between16 a b z"
  by (auto simp: between16_def)

text \<open>
  Resampling never clips or wraps: a sample at 8 kHz lies between the two samples at 16 kHz it stands for,
  and audio that goes out to the 16 kHz leg and back keeps its length and moves each sample only
  towards its successor, so a constant signal is untouched.
\<close>

theorem resampling_stays_between:
  "(\<forall>i < length xs div 2. between16 (xs ! (2 * i)) (xs ! (2 * i + 1)) (downsample16to8 xs ! i)) \<and>
   length (downsample16to8 (upsample8to16 ys)) = length ys \<and>
   (\<forall>i < length ys. between16 (ys ! i) (if i + 1 < length ys then ys ! (i + 1) else ys ! i)
       (downsample16to8 (upsample8to16 ys) ! i))"
proof -
  have "between16 (ys ! i) (if i + 1 < length ys then ys ! (i + 1) else ys ! i)
       (downsample16to8 (upsample8to16 ys) ! i)" if i: "i < length ys" for i
    using downsample_between [of i "upsample8to16 ys"] upsample_nth [OF i] i
    by (metis (no_types, lifting) avg16_between between16_trans length_upsample nonzero_mult_div_cancel_left zero_neq_numeral)
  then show ?thesis using downsample_between [of _ xs] by simp
qed

theorem resampling_stays_between_witness:
  "sint (downsample16to8 [0x7FFF, 0x7FFF, 0x8000, 0x8001] ! 1) = - 32767 \<and>
   between16 (0x7FFF) (0x8000) (downsample16to8 (upsample8to16 [0x7FFF, 0x8000]) ! 0)"
proof -
  have "\<forall>i < length [0x7FFF :: 16 word, 0x8000]. between16 ([0x7FFF, 0x8000] ! i)
      (if i + 1 < length [0x7FFF :: 16 word, 0x8000] then [0x7FFF, 0x8000] ! (i + 1) else [0x7FFF, 0x8000] ! i)
      (downsample16to8 (upsample8to16 [0x7FFF, 0x8000]) ! i)"
    using resampling_stays_between [of "[]" "[0x7FFF, 0x8000]"] by blast
  from this [THEN spec, of 0] show ?thesis by (simp add: sint_avg16 signed_divide_int_def)
qed

end
