(* ===== verification/Ext_Session.thy ===== *)
theory Ext_Session
  imports Media Rtp
begin

text \<open>
  \<open>internal/asterisk/externalmedia.go\<close>: the media sessions of the Asterisk backend. A session is a
  record of its fields; the frame channel is its buffer with a closed flag.
\<close>

definition outQueueMax :: nat where "outQueueMax = 250"
definition framesCap :: nat where "framesCap = 64"

section \<open>Session\<close>

record media_session =
  mx_ssrc :: "32 word"
  mx_remote :: string
  mx_frames :: "frame list"
  mx_frames_closed :: bool
  mx_started :: bool
  mx_last_seq :: "16 word"
  mx_frame_seq :: "64 word"
  mx_out :: "octets list"
  mx_closed :: bool
  mx_send_seq :: "16 word"
  mx_send_ts :: "32 word"
  mx_send_ssrc :: "32 word"

definition newMediaSession :: "32 word \<Rightarrow> 32 word \<Rightarrow> string \<Rightarrow> media_session" where
  "newMediaSession rnd ssrc remote =
     \<lparr>mx_ssrc = ssrc, mx_remote = remote, mx_frames = [], mx_frames_closed = False, mx_started = False, mx_last_seq = 0,
      mx_frame_seq = 0, mx_out = [], mx_closed = False, mx_send_seq = 0, mx_send_ts = 0, mx_send_ssrc = rnd\<rparr>"

text \<open>Little-endian samples of the gateway's PCM; an odd last octet is ignored.\<close>

fun le_samples :: "octets \<Rightarrow> 16 word list" where
  "le_samples (a # b # p) = be16 [b, a] # le_samples p"
| "le_samples _ = []"

definition pad_frame :: "16 word list \<Rightarrow> 16 word list" where
  "pad_frame xs = xs @ replicate (SamplesPerFrame - length xs) 0"

text \<open>The loop of \<open>Write\<close>: one queue entry per 160 samples, the last one padded with silence.\<close>

function write_loop :: "32 word \<Rightarrow> 16 word list \<Rightarrow> octets list \<Rightarrow> gerr option \<times> octets list" where
  "write_loop ssrc xs out =
     (if xs = [] then (None, out)
      else if outQueueMax \<le> length out
      then (Some (Errf ''asterisk: outbound overflow on session %d (%d packets queued)''
                    [FI (uint ssrc), FI (int (length out))]), out)
      else write_loop ssrc (drop SamplesPerFrame xs)
             (out @ [encodePayload16k (upsample8to16 (pad_frame (take SamplesPerFrame xs)))]))"
  by pat_completeness auto
termination
  by (relation "measure (\<lambda>(ssrc, xs, out). length xs)") (auto simp: SamplesPerFrame_def)

declare write_loop.simps [simp del]

definition mx_Write :: "octets \<Rightarrow> media_session \<Rightarrow> gerr option \<times> media_session" where
  "mx_Write pcm m =
     (if mx_closed m
      then (Some (Errf ''asterisk: write on closed media session %d'' [FI (uint (mx_ssrc m))]), m)
      else case write_loop (mx_ssrc m) (le_samples pcm) (mx_out m) of (r, out) \<Rightarrow> (r, m\<lparr>mx_out := out\<rparr>))"

definition mx_Flush :: "media_session \<Rightarrow> media_session" where "mx_Flush m = m\<lparr>mx_out := []\<rparr>"

definition QueuedPackets :: "media_session \<Rightarrow> nat" where "QueuedPackets m = length (mx_out m)"

text \<open>\<open>Close\<close> of the session itself; \<open>closeOnce\<close> makes a second call a no-op.\<close>

definition mx_Close :: "media_session \<Rightarrow> media_session" where
  "mx_Close m = (if mx_frames_closed m then m else m\<lparr>mx_closed := True, mx_out := [], mx_frames_closed := True\<rparr>)"

text \<open>
  \<open>deliver\<close>. The frame is built first (\<open>deliver_frame\<close>); then \<open>closed\<close> is read under the lock, and only after
  the lock is released is the frame sent. A send on a closed channel panics (\<open>None\<close>), a send on a full
  one takes the default branch.
\<close>

definition deliver_frame :: "rtp_packet \<Rightarrow> media_session \<Rightarrow> frame option \<times> media_session" where
  "deliver_frame pkt m =
     (if length (rp_payload pkt) \<noteq> wirePayloadBytes then (None, m)
      else let delta = rp_seq pkt - mx_last_seq m in
      if mx_started m \<and> (delta = 0 \<or> delta > 0x8000) then (None, m)
      else let m = (if \<not> mx_started m then m\<lparr>mx_started := True\<rparr>
                    else m\<lparr>mx_frame_seq := mx_frame_seq m + ucast delta\<rparr>);
               m = m\<lparr>mx_last_seq := rp_seq pkt\<rparr>
           in (Some \<lparr>fr_seq = mx_frame_seq m, fr_samples = downsample16to8 (decodePayload16k (rp_payload pkt))\<rparr>, m))"

definition deliver_check :: "media_session \<Rightarrow> bool" where "deliver_check m = (\<not> mx_closed m)"

definition deliver_send :: "frame \<Rightarrow> media_session \<Rightarrow> media_session option" where
  "deliver_send f m =
     (if mx_frames_closed m then None
      else Some (if length (mx_frames m) < framesCap then m\<lparr>mx_frames := mx_frames m @ [f]\<rparr> else m))"

definition nextPayload :: "media_session \<Rightarrow> octets option \<times> media_session" where
  "nextPayload m = (case mx_out m of [] \<Rightarrow> (None, m) | p # ps \<Rightarrow> (Some p, m\<lparr>mx_out := ps\<rparr>))"

text \<open>One tick of \<open>sendLoop\<close>: the datagram it puts on the wire, if any.\<close>

definition send_tick :: "media_session \<Rightarrow> octets option \<times> media_session" where
  "send_tick m =
     (case nextPayload m of
        (None, m) \<Rightarrow> (None, m)
      | (Some payload, m) \<Rightarrow>
          (Some (buildRTP (mx_send_seq m) (mx_send_ts m) (mx_send_ssrc m) payload),
           m\<lparr>mx_send_seq := mx_send_seq m + 1, mx_send_ts := mx_send_ts m + of_nat wireSamplesPerFrame\<rparr>))"

fun send_ticks :: "nat \<Rightarrow> media_session \<Rightarrow> octets list \<times> media_session" where
  "send_ticks 0 m = ([], m)"
| "send_ticks (Suc n) m =
     (case send_tick m of (d, m) \<Rightarrow> (case send_ticks n m of (ds, m) \<Rightarrow> ((case d of None \<Rightarrow> ds | Some x \<Rightarrow> x # ds), m)))"

section \<open>What is written is what is played\<close>

text \<open>The queue entries of a sample stream: the abstract content of a write.\<close>

function frames_of :: "16 word list \<Rightarrow> 16 word list list" where
  "frames_of xs = (if xs = [] then [] else pad_frame (take SamplesPerFrame xs) # frames_of (drop SamplesPerFrame xs))"
  by pat_completeness auto
termination
  by (relation "measure length") (auto simp: SamplesPerFrame_def)

declare frames_of.simps [simp del]

definition payload_of :: "16 word list \<Rightarrow> octets" where
  "payload_of xs = encodePayload16k (upsample8to16 xs)"

lemma frames_of_Nil [simp]: "frames_of [] = []"
  by (simp add: frames_of.simps)

lemma frames_of_step: "xs \<noteq> [] \<Longrightarrow> frames_of xs = pad_frame (take SamplesPerFrame xs) # frames_of (drop SamplesPerFrame xs)"
  by (subst frames_of.simps) simp

lemma length_pad_frame: "length xs \<le> SamplesPerFrame \<Longrightarrow> length (pad_frame xs) = SamplesPerFrame"
  by (simp add: pad_frame_def)

lemma frames_of_lengths: "f \<in> set (frames_of xs) \<Longrightarrow> length f = SamplesPerFrame"
proof (induction xs rule: frames_of.induct)
  case (1 xs)
  then show ?case by (cases "xs = []") (auto simp: frames_of_step length_pad_frame)
qed

lemma frames_of_concat: "\<exists>k. concat (frames_of xs) = xs @ replicate k 0 \<and> k < SamplesPerFrame"
proof (induction xs rule: frames_of.induct)
  case (1 xs)
  show ?case
  proof (cases "xs = []")
    case True
    then show ?thesis by (simp add: SamplesPerFrame_def)
  next
    case False
    show ?thesis
    proof (cases "length xs \<le> SamplesPerFrame")
      case True
      with False have "concat (frames_of xs) = xs @ replicate (SamplesPerFrame - length xs) 0"
        by (simp add: frames_of_step pad_frame_def)
      with False show ?thesis by (intro exI [of _ "SamplesPerFrame - length xs"]) (simp add: SamplesPerFrame_def)
    next
      case long: False
      obtain k where "concat (frames_of (drop SamplesPerFrame xs)) = drop SamplesPerFrame xs @ replicate k 0"
        "k < SamplesPerFrame" using 1 [OF False] by blast
      with False long show ?thesis
        by (intro exI [of _ k]) (simp add: frames_of_step pad_frame_def flip: append_assoc)
    qed
  qed
qed

lemma write_loop_frames:
  "length out \<le> outQueueMax \<Longrightarrow>
   snd (write_loop ssrc xs out) = out @ map payload_of (take (outQueueMax - length out) (frames_of xs)) \<and>
   (fst (write_loop ssrc xs out) = None \<longleftrightarrow> length out + length (frames_of xs) \<le> outQueueMax)"
proof (induction ssrc xs out rule: write_loop.induct)
  case (1 ssrc xs out)
  show ?case
  proof (cases "xs = [] \<or> outQueueMax \<le> length out")
    case True
    have "\<exists>r. write_loop ssrc xs out = (r, out) \<and> (r = None \<longleftrightarrow> xs = [])"
      by (subst write_loop.simps) (use True in auto)
    then obtain r where w: "write_loop ssrc xs out = (r, out)" and r: "r = None \<longleftrightarrow> xs = []" by blast
    from True 1(2) w r show ?thesis by (cases "xs = []") (simp_all add: frames_of_step)
  next
    case False
    then have "write_loop ssrc xs out = write_loop ssrc (drop SamplesPerFrame xs) (out @ [payload_of (pad_frame (take SamplesPerFrame xs))])"
      by (subst write_loop.simps) (simp add: payload_of_def)
    moreover obtain k where k: "outQueueMax - length out = Suc k" "outQueueMax - Suc (length out) = k"
      using False by (metis Suc_diff_Suc diff_Suc_Suc not_le)
    ultimately show ?thesis using 1 False by (simp add: payload_of_def frames_of_step k Suc_diff_Suc)
  qed
qed

lemma le_samples_length: "length (le_samples p) = length p div 2"
  by (induction p rule: le_samples.induct) simp_all

text \<open>
  \<open>Write\<close> never blocks and never lets the queue pass its five seconds: it appends the frames of its
  samples, in order, as far as there is room, and reports an overflow exactly when some frame found none (those
  before it stay queued); on a closed session it queues nothing.
\<close>

theorem write_queues_in_order:
  assumes "length (mx_out m) \<le> outQueueMax"
  shows "mx_out (snd (mx_Write pcm m)) = mx_out m @
       (if mx_closed m then [] else map payload_of (take (outQueueMax - length (mx_out m)) (frames_of (le_samples pcm)))) \<and>
     QueuedPackets (snd (mx_Write pcm m)) \<le> outQueueMax \<and>
     (fst (mx_Write pcm m) = None \<longleftrightarrow>
        \<not> mx_closed m \<and> length (mx_out m) + length (frames_of (le_samples pcm)) \<le> outQueueMax)"
  using write_loop_frames [OF assms, of "mx_ssrc m" "le_samples pcm"] assms
  by (auto simp: mx_Write_def QueuedPackets_def split: prod.splits)

lemma frames_of_short: "xs \<noteq> [] \<Longrightarrow> length xs \<le> SamplesPerFrame \<Longrightarrow> frames_of xs = [pad_frame xs]"
  by (simp add: frames_of_step)

theorem write_queues_in_order_witness:
  "mx_out (snd (mx_Write [1, 0, 2, 0] (newMediaSession 7 9 ''pbx''))) = [payload_of (pad_frame [1, 2])]"
proof -
  have l: "le_samples [1, 0, 2, 0] = [1, 2]" by (simp add: be16_def)
  have f: "frames_of [1, 2] = [pad_frame [1, 2 :: 16 word]]" by (rule frames_of_short) (simp_all add: SamplesPerFrame_def)
  show ?thesis
    using write_queues_in_order [of "newMediaSession 7 9 ''pbx''" "[1, 0, 2, 0]"]
    by (simp add: newMediaSession_def l f outQueueMax_def del: le_samples.simps)
qed

text \<open>What the far end reads off the wire: sequence number, timestamp and samples of a datagram.\<close>

fun wire_view :: "octets \<Rightarrow> (16 word \<times> 32 word \<times> 16 word list) option" where
  "wire_view d =
     (case parseRTP d of
        Inl e \<Rightarrow> None
      | Inr p \<Rightarrow> Some (rp_seq p, rp_timestamp p, decodePayload16k (rp_payload p)))"

lemma send_tick_view:
  "mx_out m = payload_of x # ps \<Longrightarrow>
   \<exists>d m'. send_tick m = (Some d, m') \<and> wire_view d = Some (mx_send_seq m, mx_send_ts m, upsample8to16 x) \<and> mx_out m' = ps \<and>
     mx_send_seq m' = mx_send_seq m + 1 \<and> mx_send_ts m' = mx_send_ts m + 320"
  by (simp add: send_tick_def nextPayload_def payload_of_def wire_defs)

lemma send_ticks_view:
  "mx_out m = map payload_of xs @ ps \<Longrightarrow>
   map wire_view (fst (send_ticks (length xs) m)) =
     map (\<lambda>i. Some (mx_send_seq m + of_nat i, mx_send_ts m + 320 * of_nat i, upsample8to16 (xs ! i))) [0..<length xs] \<and>
   mx_out (snd (send_ticks (length xs) m)) = ps"
proof (induction xs arbitrary: m)
  case (Cons x xs)
  then obtain d m' where s: "send_tick m = (Some d, m')" "wire_view d = Some (mx_send_seq m, mx_send_ts m, upsample8to16 x)"
    "mx_out m' = map payload_of xs @ ps" "mx_send_seq m' = mx_send_seq m + 1" "mx_send_ts m' = mx_send_ts m + 320"
    using send_tick_view [of m x "map payload_of xs @ ps"] by auto
  have sh: "[0..<Suc (length xs)] = 0 # map Suc [0..<length xs]" by (simp add: map_Suc_upt upt_conv_Cons del: upt_Suc)
  show ?case
    using Cons.IH [OF s(3)] s by (auto simp: sh algebra_simps split: prod.splits simp del: upt_Suc wire_view.simps)
qed simp

text \<open>
  C34: what is written is what is played: after a write that fitted an idle session, the ticks of the sender put on the
  wire one well-formed datagram per 20 ms frame, in order, with consecutive sequence numbers and
  timestamps 320 samples apart, that decode to the frames of the written audio at 16 kHz.
\<close>

theorem written_audio_is_played:
  assumes "mx_out m = []" and "mx_Write pcm m = (None, m')"
  shows "map wire_view (fst (send_ticks (length (frames_of (le_samples pcm))) m')) =
     map (\<lambda>i. Some (mx_send_seq m + of_nat i, mx_send_ts m + 320 * of_nat i, upsample8to16 (frames_of (le_samples pcm) ! i)))
       [0..<length (frames_of (le_samples pcm))] \<and>
     mx_out (snd (send_ticks (length (frames_of (le_samples pcm))) m')) = [] \<and>
     (\<exists>k < SamplesPerFrame. concat (frames_of (le_samples pcm)) = le_samples pcm @ replicate k 0)"
proof -
  have "mx_out m' = map payload_of (frames_of (le_samples pcm))" "mx_send_seq m' = mx_send_seq m" "mx_send_ts m' = mx_send_ts m"
    using assms write_loop_frames [of "[]" "mx_ssrc m" "le_samples pcm"]
    by (auto simp: mx_Write_def split: if_splits prod.splits)
  then show ?thesis
    using send_ticks_view [of m' "frames_of (le_samples pcm)" "[]"] frames_of_concat [of "le_samples pcm"] by auto
qed

theorem written_audio_is_played_witness:
  "\<exists>m'. mx_Write [1, 0, 2, 0] (newMediaSession 7 9 ''pbx'') = (None, m') \<and>
     map wire_view (fst (send_ticks 1 m')) = [Some (0, 0, upsample8to16 (pad_frame [1, 2]))]"
proof -
  have l: "le_samples [1, 0, 2, 0] = [1, 2]" by (simp add: be16_def)
  have f: "frames_of [1, 2] = [pad_frame [1, 2 :: 16 word]]" by (rule frames_of_short) (simp_all add: SamplesPerFrame_def)
  have i: "mx_out (newMediaSession 7 9 ''pbx'') = []" by (simp add: newMediaSession_def)
  have "fst (mx_Write [1, 0, 2, 0] (newMediaSession 7 9 ''pbx'')) = None"
    using write_loop_frames [of "[]" 9 "[1, 2]"]
    by (auto simp: mx_Write_def newMediaSession_def be16_def f outQueueMax_def split: prod.splits)
  then obtain m' where w: "mx_Write [1, 0, 2, 0] (newMediaSession 7 9 ''pbx'') = (None, m')" by (metis prod.collapse)
  show ?thesis
    using written_audio_is_played [OF i w] w
    by (auto simp: l f newMediaSession_def simp del: wire_view.simps le_samples.simps send_ticks.simps)
qed

section \<open>Inbound frames\<close>

text \<open>The frames \<open>deliver\<close> builds from a sequence of packets, whatever happens to them in the channel.\<close>

fun built_frames :: "rtp_packet list \<Rightarrow> media_session \<Rightarrow> frame list" where
  "built_frames [] m = []"
| "built_frames (p # ps) m =
     (case deliver_frame p m of (f, m') \<Rightarrow> (case f of None \<Rightarrow> [] | Some x \<Rightarrow> [x]) @ built_frames ps m')"

lemma deliver_frame_cases:
  assumes "deliver_frame p m = (r, m')"
  shows "(r = None \<and> m' = m) \<or>
     (\<exists>f. r = Some f \<and> mx_started m' \<and> fr_seq f = mx_frame_seq m' \<and> mx_last_seq m' = rp_seq p \<and>
       (mx_started m \<longrightarrow> 0 < rp_seq p - mx_last_seq m \<and> rp_seq p - mx_last_seq m \<le> 0x8000 \<and>
          mx_frame_seq m' = mx_frame_seq m + ucast (rp_seq p - mx_last_seq m)) \<and>
       (\<not> mx_started m \<longrightarrow> mx_frame_seq m' = mx_frame_seq m))"
  using assms by (auto simp: deliver_frame_def Let_def word_greater_zero_iff not_less split: if_splits)

text \<open>
  Without overflow of the 64-bit counter: every packet moves it by at most 32768.
\<close>

definition room_for :: "nat \<Rightarrow> 64 word \<Rightarrow> bool" where
  "room_for n s \<longleftrightarrow> unat s + n * 32768 < 2 ^ 64"

lemma room_step:
  assumes "room_for (Suc n) s" and "0 < (d :: 16 word)" and "d \<le> 0x8000"
  shows "s < s + ucast d \<and> room_for n (s + ucast d)"
proof -
  have "unat d < 2 ^ 64" by (rule less_trans [OF unsigned_less]) simp
  then have d: "unat (ucast d :: 64 word) = unat d" by (simp add: unsigned_ucast_eq take_bit_nat_eq_self)
  have "unat d \<le> 32768" "0 < unat d" using assms(2,3) by (simp_all add: word_le_nat_alt word_less_nat_alt)
  then have "unat (s + ucast d) = unat s + unat d"
    using assms(1) d by (subst unat_add_lem [THEN iffD1]) (simp_all add: room_for_def)
  then show ?thesis
    using assms(1) \<open>unat d \<le> 32768\<close> \<open>0 < unat d\<close> by (simp add: room_for_def word_less_nat_alt)
qed

lemma built_frames_rise:
  "mx_started m \<Longrightarrow> room_for (length ps) (mx_frame_seq m) \<Longrightarrow>
   sorted_wrt (<) (mx_frame_seq m # map fr_seq (built_frames ps m))"
proof (induction ps arbitrary: m)
  case (Cons p ps)
  obtain r m' where d: "deliver_frame p m = (r, m')" by fastforce
  have less: "room_for (length ps) (mx_frame_seq m)" using Cons.prems(2) by (simp add: room_for_def)
  from deliver_frame_cases [OF d] show ?case
  proof (elim disjE exE conjE)
    assume "r = None" "m' = m"
    with d Cons.IH [OF Cons.prems(1) less] show ?thesis by simp
  next
    fix f assume f: "r = Some f" "mx_started m'" "fr_seq f = mx_frame_seq m'"
      "mx_started m \<longrightarrow> 0 < rp_seq p - mx_last_seq m \<and> rp_seq p - mx_last_seq m \<le> 0x8000 \<and>
          mx_frame_seq m' = mx_frame_seq m + ucast (rp_seq p - mx_last_seq m)"
    then have "mx_frame_seq m < mx_frame_seq m'" "room_for (length ps) (mx_frame_seq m')"
      using room_step [of "length ps" "mx_frame_seq m" "rp_seq p - mx_last_seq m"] Cons.prems by auto
    with d f Cons.IH [of m'] show ?thesis by (auto intro: less_trans)
  qed
qed simp

lemma built_frames_start:
  "\<not> mx_started m \<Longrightarrow> mx_frame_seq m = 0 \<Longrightarrow> room_for (length ps) 0 \<Longrightarrow> sorted_wrt (<) (map fr_seq (built_frames ps m))"
proof (induction ps arbitrary: m)
  case (Cons p ps)
  obtain r m' where d: "deliver_frame p m = (r, m')" by fastforce
  have less: "room_for (length ps) 0" using Cons.prems(3) by (simp add: room_for_def)
  from deliver_frame_cases [OF d] show ?case
  proof (elim disjE exE conjE)
    assume "r = None" "m' = m"
    with d Cons.IH [OF Cons.prems(1,2) less] show ?thesis by simp
  next
    fix f assume "r = Some f" "mx_started m'" "fr_seq f = mx_frame_seq m'" "\<not> mx_started m \<longrightarrow> mx_frame_seq m' = mx_frame_seq m"
    with d built_frames_rise [of m' ps] less Cons.prems show ?thesis by simp
  qed
qed simp

text \<open>
  Whatever packets arrive, in whatever order and with whatever sequence numbers (fewer than 2^49 of
  them, which is 350000 years of audio), the frames of a media leg carry strictly increasing 64-bit numbers,
  across every wrap of the 16-bit RTP counter.
\<close>

theorem inbound_frames_rise:
  assumes "length ps < 2 ^ 49"
  shows "sorted_wrt (<) (map fr_seq (built_frames ps (newMediaSession rnd ssrc remote)))"
  by (rule built_frames_start) (use assms in \<open>simp_all add: newMediaSession_def room_for_def\<close>)

definition silent_packet :: "16 word \<Rightarrow> rtp_packet" where
  "silent_packet n = \<lparr>rp_seq = n, rp_timestamp = 0, rp_ssrc = 9, rp_payload = replicate wirePayloadBytes 0\<rparr>"

theorem inbound_frames_rise_witness:
  "sorted_wrt (<) (map fr_seq (built_frames [silent_packet 0xFFFF, silent_packet 0, silent_packet 0] (newMediaSession 7 9 ''pbx'')))"
  by (rule inbound_frames_rise) simp

lemma silent_next:
  "mx_started m \<Longrightarrow> deliver_frame (silent_packet n) m =
     (let delta = n - mx_last_seq m in
      if delta = 0 \<or> delta > 0x8000 then (None, m)
      else (Some \<lparr>fr_seq = mx_frame_seq m + ucast delta, fr_samples = downsample16to8 (decodePayload16k (replicate wirePayloadBytes 0))\<rparr>,
            m\<lparr>mx_frame_seq := mx_frame_seq m + ucast delta, mx_last_seq := n\<rparr>))"
  by (simp add: deliver_frame_def silent_packet_def Let_def)

lemma silent_first:
  "\<not> mx_started m \<Longrightarrow> deliver_frame (silent_packet n) m =
     (Some \<lparr>fr_seq = mx_frame_seq m, fr_samples = downsample16to8 (decodePayload16k (replicate wirePayloadBytes 0))\<rparr>,
      m\<lparr>mx_started := True, mx_last_seq := n\<rparr>)"
  by (simp add: deliver_frame_def silent_packet_def Let_def)

text \<open>
  A packet that arrives one place late is lost, not repaired: of three packets with the last two
  swapped the session builds frames 0 and 2 only, so the jitter buffer behind it never sees the
  late one, although it would have released all three in order.
\<close>

theorem reordered_packet_is_lost:
  "map fr_seq (built_frames [silent_packet n, silent_packet (n + 2), silent_packet (n + 1)] (newMediaSession rnd ssrc remote)) = [0, 2] \<and>
   map fr_seq (fst (jb_run [Silence 0, Silence 2, Silence 1] (NewJitterBuffer 5))) = [0, 1, 2]"
proof -
  have "map fr_seq (fst (jb_run [Silence 0, Silence 2, Silence 1] (NewJitterBuffer 5))) = [0, 1, 2]"
    by (simp add: NewJitterBuffer_def jb_Push_def Silence_def jb_loop_hit jb_loop_stop)
  moreover have "(0 :: 16 word) < n + 2 - n" "n + 1 - (n + 2) = (- 1 :: 16 word)" by simp_all
  ultimately show ?thesis
    by (simp add: silent_first silent_next newMediaSession_def Let_def)
qed

end
