(* ===== verification/Ext_Server.thy ===== *)
theory Ext_Server
  imports Ext_Session
begin

text \<open>
  \<open>internal/asterisk/externalmedia.go\<close>: the UDP server that owns the media sessions. The steps of its read
  loop and the operations other goroutines call are separate moves, so every interleaving of them is a
  run of the model.
\<close>

definition acceptCap :: nat where "acceptCap = 16"

section \<open>Server\<close>

text \<open>Where the read loop of \<open>Serve\<close> stands.\<close>

datatype reader =
    Idle
  | Parsed rtp_packet string
  | Bound nat rtp_packet
  | Sending nat frame
  | Stopped

text \<open>
  Sessions are shared objects: a heap of them, and the map of the server from source to object. \<open>sv_conn\<close>
  is whether the socket is open.
\<close>

record media_server =
  sv_heap :: "nat \<Rightarrow> media_session option"
  sv_next :: nat
  sv_conn :: bool
  sv_sessions :: "32 word \<Rightarrow> nat option"
  sv_accept :: "nat list"
  sv_accept_closed :: bool
  sv_closed :: bool
  sv_reader :: reader

definition NewExternalMediaServer :: media_server where
  "NewExternalMediaServer =
     \<lparr>sv_heap = Map.empty, sv_next = 0, sv_conn = True, sv_sessions = Map.empty, sv_accept = [], sv_accept_closed = False,
      sv_closed = False, sv_reader = Idle\<rparr>"

datatype media_result = Blocked | Crash | Next media_server

definition put_session :: "nat \<Rightarrow> media_session \<Rightarrow> media_server \<Rightarrow> media_server" where
  "put_session i m s = s\<lparr>sv_heap := (sv_heap s)(i \<mapsto> m)\<rparr>"

text \<open>\<open>session\<close>; the announcement panics once the accept channel is closed.\<close>

definition sv_session :: "32 word \<Rightarrow> rtp_packet \<Rightarrow> string \<Rightarrow> media_server \<Rightarrow> media_result" where
  "sv_session rnd pkt remote s =
     (case sv_sessions s (rp_ssrc pkt) of
        Some i \<Rightarrow> Next (s\<lparr>sv_reader := Bound i pkt\<rparr>)
      | None \<Rightarrow>
          let i = sv_next s;
              s = (put_session i (newMediaSession rnd (rp_ssrc pkt) remote) s)
                    \<lparr>sv_next := i + 1, sv_sessions := (sv_sessions s)(rp_ssrc pkt \<mapsto> i)\<rparr>
          in if sv_accept_closed s then Crash
             else Next (s\<lparr>sv_accept := (if length (sv_accept s) < acceptCap then sv_accept s @ [i] else sv_accept s),
                          sv_reader := Bound i pkt\<rparr>))"

text \<open>\<open>Close\<close> of a session with its \<open>drop\<close>.\<close>

definition close_session :: "nat \<Rightarrow> media_server \<Rightarrow> media_server" where
  "close_session i s =
     (case sv_heap s i of
        None \<Rightarrow> s
      | Some m \<Rightarrow>
          if mx_frames_closed m then s
          else let s = put_session i (mx_Close m) s in
               if sv_closed s then s else s\<lparr>sv_sessions := (sv_sessions s)(mx_ssrc m := None)\<rparr>)"

text \<open>\<open>shutdown\<close>: every session still in the map is closed, then the accept channel.\<close>

definition shutdown :: "media_server \<Rightarrow> media_server" where
  "shutdown s =
     (if sv_closed s then s
      else s\<lparr>sv_closed := True, sv_sessions := Map.empty, sv_accept_closed := True,
             sv_heap := (\<lambda>i. case sv_heap s i of
                           None \<Rightarrow> None
                         | Some m \<Rightarrow> Some (if sv_sessions s (mx_ssrc m) = Some i then mx_Close m else m))\<rparr>)"

definition sv_Close :: "media_server \<Rightarrow> media_server" where
  "sv_Close s = shutdown (s\<lparr>sv_conn := False\<rparr>)"

datatype media_move =
    MvRecv octets string         \<comment> \<open>the socket read of \<open>Serve\<close>, up to the parse\<close>
  | MvReadError                  \<comment> \<open>the socket read after the socket was closed\<close>
  | MvBind "32 word"             \<comment> \<open>\<open>session\<close>, with the random number a new session draws\<close>
  | MvCheck                      \<comment> \<open>\<open>deliver\<close> up to and including the read of \<open>closed\<close>\<close>
  | MvSend                       \<comment> \<open>\<open>deliver\<close>'s send\<close>
  | MvCloseSession nat
  | MvCloseServer
  | MvAccept
  | MvConsume nat
  | MvWrite nat octets
  | MvFlush nat
  | MvTick nat

definition on_session :: "nat \<Rightarrow> (media_session \<Rightarrow> media_session) \<Rightarrow> media_server \<Rightarrow> media_result" where
  "on_session i f s = (case sv_heap s i of None \<Rightarrow> Blocked | Some m \<Rightarrow> Next (put_session i (f m) s))"

fun media_do :: "media_move \<Rightarrow> media_server \<Rightarrow> media_result" where
  "media_do (MvRecv d remote) s =
     (if sv_reader s = Idle \<and> sv_conn s
      then Next (case parseRTP d of
              Inl e \<Rightarrow> s
            | Inr pkt \<Rightarrow> if rp_payload pkt = [] then s else s\<lparr>sv_reader := Parsed pkt remote\<rparr>)
      else Blocked)"
| "media_do MvReadError s =
     (if sv_reader s = Idle \<and> \<not> sv_conn s then Next ((shutdown s)\<lparr>sv_reader := Stopped\<rparr>) else Blocked)"
| "media_do (MvBind rnd) s = (case sv_reader s of Parsed pkt remote \<Rightarrow> sv_session rnd pkt remote s | _ \<Rightarrow> Blocked)"
| "media_do MvCheck s =
     (case sv_reader s of
        Bound i pkt \<Rightarrow>
          (case sv_heap s i of
             None \<Rightarrow> Blocked
           | Some m \<Rightarrow>
               (case deliver_frame pkt m of
                  (None, m') \<Rightarrow> Next ((put_session i m' s)\<lparr>sv_reader := Idle\<rparr>)
                | (Some f, m') \<Rightarrow>
                    Next ((put_session i m' s)\<lparr>sv_reader := (if deliver_check m' then Sending i f else Idle)\<rparr>)))
      | _ \<Rightarrow> Blocked)"
| "media_do MvSend s =
     (case sv_reader s of
        Sending i f \<Rightarrow>
          (case sv_heap s i of
             None \<Rightarrow> Blocked
           | Some m \<Rightarrow>
               (case deliver_send f m of
                  None \<Rightarrow> Crash
                | Some m' \<Rightarrow> Next ((put_session i m' s)\<lparr>sv_reader := Idle\<rparr>)))
      | _ \<Rightarrow> Blocked)"
| "media_do (MvCloseSession i) s = Next (close_session i s)"
| "media_do MvCloseServer s = Next (sv_Close s)"
| "media_do MvAccept s = (case sv_accept s of [] \<Rightarrow> Blocked | i # is' \<Rightarrow> Next (s\<lparr>sv_accept := is'\<rparr>))"
| "media_do (MvConsume i) s = on_session i (\<lambda>m. m\<lparr>mx_frames := tl (mx_frames m)\<rparr>) s"
| "media_do (MvWrite i pcm) s = on_session i (\<lambda>m. snd (mx_Write pcm m)) s"
| "media_do (MvFlush i) s = on_session i mx_Flush s"
| "media_do (MvTick i) s = on_session i (\<lambda>m. snd (send_tick m)) s"

fun media_run :: "media_move list \<Rightarrow> media_server \<Rightarrow> media_result" where
  "media_run [] s = Next s"
| "media_run (m # ms) s = (case media_do m s of Next s' \<Rightarrow> media_run ms s' | r \<Rightarrow> r)"

section \<open>Races with the read loop\<close>

text \<open>A packet of 20 ms of a constant signal, as it is on the wire.\<close>

definition tone :: "16 word \<Rightarrow> 32 word \<Rightarrow> 32 word \<Rightarrow> 16 word \<Rightarrow> octets" where
  "tone sq ts ssrc v = buildRTP sq ts ssrc (encodePayload16k (replicate wireSamplesPerFrame v))"

lemma wirePayload_eq [simp]: "2 * wireSamplesPerFrame = wirePayloadBytes"
  by (simp add: wirePayloadBytes_def)

lemma tone_parsed:
  "parseRTP (tone sq ts ssrc v) =
     Inr \<lparr>rp_seq = sq, rp_timestamp = ts, rp_ssrc = ssrc, rp_payload = encodePayload16k (replicate wireSamplesPerFrame v)\<rparr>"
  by (simp add: tone_def)

lemma encode_replicate_Nil: "encodePayload16k (replicate n v) = [] \<longleftrightarrow> n = 0"
  by (cases n) (simp_all add: put16_def)

lemma tone_full [simp]: "encodePayload16k (replicate wireSamplesPerFrame v) \<noteq> []"
  by (simp add: encode_replicate_Nil) (simp add: wire_defs)

text \<open>
  Hanging up can take the gateway down: when a call closes its media session between the moment the
  read loop has checked that it is open and the moment it sends the frame, the send hits a closed channel and the
  process panics; and a packet that was read just before the server is closed panics on the
  closed accept channel. Both happen from a fresh server, with any well-formed packet.
\<close>

theorem close_races_with_delivery:
  "media_run [MvRecv (tone sq ts ssrc v) remote, MvBind rnd, MvCheck, MvCloseSession 0, MvSend] NewExternalMediaServer = Crash \<and>
   media_run [MvRecv (tone sq ts ssrc v) remote, MvCloseServer, MvBind rnd] NewExternalMediaServer = Crash"
  by (simp add: NewExternalMediaServer_def tone_parsed sv_session_def put_session_def deliver_frame_def newMediaSession_def
      Let_def deliver_check_def close_session_def mx_Close_def deliver_send_def sv_Close_def shutdown_def)

section \<open>Safety when sessions close between packets\<close>

definition between_packets :: "media_server \<Rightarrow> bool" where
  "between_packets s \<longleftrightarrow> sv_reader s = Idle \<or> sv_reader s = Stopped"

definition polite :: "media_move \<Rightarrow> media_server \<Rightarrow> bool" where
  "polite m s = (case m of MvCloseSession i \<Rightarrow> between_packets s | MvCloseServer \<Rightarrow> between_packets s | _ \<Rightarrow> True)"

definition media_step :: "media_server \<Rightarrow> media_server \<Rightarrow> bool" where
  "media_step s s' \<longleftrightarrow> (\<exists>m. polite m s \<and> media_do m s = Next s')"

definition session_ok :: "media_session \<Rightarrow> bool" where
  "session_ok m \<longleftrightarrow> mx_closed m = mx_frames_closed m \<and> length (mx_frames m) \<le> framesCap \<and> length (mx_out m) \<le> outQueueMax"

definition live :: "media_server \<Rightarrow> nat \<Rightarrow> bool" where
  "live s i \<longleftrightarrow> (\<exists>m. sv_heap s i = Some m \<and> \<not> mx_closed m)"

definition source_of :: "media_server \<Rightarrow> nat \<Rightarrow> 32 word option" where
  "source_of s i = map_option mx_ssrc (sv_heap s i)"

definition heap_ok :: "media_server \<Rightarrow> bool" where
  "heap_ok s \<longleftrightarrow> (\<forall>i m. sv_heap s i = Some m \<longrightarrow> session_ok m \<and> i < sv_next s)"

definition sessions_ok :: "media_server \<Rightarrow> bool" where
  "sessions_ok s \<longleftrightarrow> (\<forall>c i. sv_sessions s c = Some i \<longrightarrow> live s i \<and> source_of s i = Some c)"

definition accept_ok :: "media_server \<Rightarrow> bool" where
  "accept_ok s \<longleftrightarrow> sv_accept_closed s = sv_closed s \<and> length (sv_accept s) \<le> acceptCap \<and>
     (sv_closed s \<longrightarrow> \<not> sv_conn s \<and> sv_sessions s = Map.empty)"

definition reader_ok :: "media_server \<Rightarrow> bool" where
  "reader_ok s =
     (case sv_reader s of
        Parsed p r \<Rightarrow> \<not> sv_closed s
      | Bound i p \<Rightarrow> live s i
      | Sending i f \<Rightarrow> live s i
      | _ \<Rightarrow> True)"

definition sv_inv :: "media_server \<Rightarrow> bool" where
  "sv_inv s \<longleftrightarrow> heap_ok s \<and> sessions_ok s \<and> accept_ok s \<and> reader_ok s"

lemmas sv_inv_defs = sv_inv_def heap_ok_def sessions_ok_def accept_ok_def reader_ok_def

lemma live_reader [simp]: "live (s\<lparr>sv_reader := r\<rparr>) i = live s i" "source_of (s\<lparr>sv_reader := r\<rparr>) i = source_of s i"
  by (simp_all add: live_def source_of_def)

lemma sv_inv_set_reader: "sv_inv s \<Longrightarrow> reader_ok (s\<lparr>sv_reader := r\<rparr>) \<Longrightarrow> sv_inv (s\<lparr>sv_reader := r\<rparr>)"
  by (simp add: sv_inv_def heap_ok_def sessions_ok_def accept_ok_def)

lemma session_ok_ops:
  "session_ok m \<Longrightarrow> session_ok (snd (mx_Write pcm m)) \<and> session_ok (mx_Flush m) \<and> session_ok (snd (send_tick m)) \<and>
     session_ok (m\<lparr>mx_frames := tl (mx_frames m)\<rparr>) \<and> session_ok (mx_Close m)"
  using write_loop_frames [of "mx_out m" "mx_ssrc m" "le_samples pcm"]
  by (auto simp: session_ok_def mx_Write_def mx_Flush_def send_tick_def nextPayload_def mx_Close_def split: prod.splits list.splits)

lemma session_ids:
  "mx_ssrc (snd (mx_Write pcm m)) = mx_ssrc m \<and> mx_closed (snd (mx_Write pcm m)) = mx_closed m"
  "mx_ssrc (mx_Flush m) = mx_ssrc m \<and> mx_closed (mx_Flush m) = mx_closed m"
  "mx_ssrc (snd (send_tick m)) = mx_ssrc m \<and> mx_closed (snd (send_tick m)) = mx_closed m"
  by (auto simp: mx_Write_def mx_Flush_def send_tick_def nextPayload_def split: prod.splits list.splits)

text \<open>Replacing a session by one of the same source, as open as it was, keeps the invariant.\<close>

lemma put_session_inv:
  assumes "sv_inv s" and "sv_heap s i = Some m" and "session_ok m'" and "mx_ssrc m' = mx_ssrc m" and "mx_closed m' = mx_closed m"
  shows "sv_inv (put_session i m' s)"
proof -
  have p: "live (put_session i m' s) = live s" "source_of (put_session i m' s) = source_of s"
    using assms by (auto simp: live_def source_of_def put_session_def fun_eq_iff)
  have "heap_ok (put_session i m' s)" using assms by (auto simp: sv_inv_def heap_ok_def put_session_def)
  moreover have "sessions_ok (put_session i m' s)"
    using assms(1) unfolding sv_inv_def sessions_ok_def p by (simp add: put_session_def)
  moreover have "reader_ok (put_session i m' s)"
    using assms(1) unfolding sv_inv_def reader_ok_def p by (simp add: put_session_def split: reader.splits)
  moreover have "accept_ok (put_session i m' s)"
    using assms(1) by (simp add: sv_inv_def accept_ok_def put_session_def)
  ultimately show ?thesis by (simp add: sv_inv_def)
qed

lemma on_session_inv:
  assumes "sv_inv s" and "on_session i f s = Next s'"
    and "\<And>m. session_ok m \<Longrightarrow> session_ok (f m) \<and> mx_ssrc (f m) = mx_ssrc m \<and> mx_closed (f m) = mx_closed m"
  shows "sv_inv s'"
proof -
  obtain m where m: "sv_heap s i = Some m" "s' = put_session i (f m) s"
    using assms(2) by (auto simp: on_session_def split: option.splits)
  moreover have "session_ok m" using assms(1) m by (auto simp: sv_inv_def heap_ok_def)
  ultimately show ?thesis using put_session_inv [OF assms(1) m(1)] assms(3) by blast
qed

lemma deliver_frame_ok:
  "deliver_frame pkt m = (r, m') \<Longrightarrow> session_ok m \<Longrightarrow> session_ok m' \<and> mx_ssrc m' = mx_ssrc m \<and> mx_closed m' = mx_closed m"
  by (auto simp: deliver_frame_def session_ok_def Let_def split: if_splits)

lemma deliver_send_ok:
  "deliver_send f m = Some m' \<Longrightarrow> session_ok m \<Longrightarrow> session_ok m' \<and> mx_ssrc m' = mx_ssrc m \<and> mx_closed m' = mx_closed m"
  by (auto simp: deliver_send_def session_ok_def split: if_splits)

lemma sv_session_inv:
  assumes "sv_inv s" and "sv_reader s = Parsed pkt remote" and "sv_session rnd pkt remote s = Next s'"
  shows "sv_inv s'"
proof (cases "sv_sessions s (rp_ssrc pkt)")
  case (Some i)
  then have "live s i" using assms(1) by (simp add: sv_inv_def sessions_ok_def)
  with Some assms(1,3) show ?thesis
    by (auto simp: sv_session_def reader_ok_def intro!: sv_inv_set_reader)
next
  case None
  define i where "i = sv_next s"
  define new where "new = newMediaSession rnd (rp_ssrc pkt) remote"
  have free: "sv_heap s i = None"
    using assms(1) by (cases "sv_heap s i") (auto simp: sv_inv_def heap_ok_def i_def)
  have s': "s' = s\<lparr>sv_heap := (sv_heap s)(i \<mapsto> new), sv_next := i + 1, sv_sessions := (sv_sessions s)(rp_ssrc pkt \<mapsto> i),
      sv_accept := (if length (sv_accept s) < acceptCap then sv_accept s @ [i] else sv_accept s), sv_reader := Bound i pkt\<rparr>"
    using assms(3) None by (auto simp: sv_session_def put_session_def Let_def i_def new_def split: if_splits)
  have new: "session_ok new" "mx_ssrc new = rp_ssrc pkt" "\<not> mx_closed new"
    by (simp_all add: new_def newMediaSession_def session_ok_def)
  have "heap_ok s'" using assms(1) new by (auto simp: s' sv_inv_def heap_ok_def i_def less_SucI)
  moreover have "sessions_ok s'"
    using assms(1) new free by (fastforce simp: s' sv_inv_def sessions_ok_def live_def source_of_def)
  moreover have "accept_ok s'" using assms(1,2) by (auto simp: s' sv_inv_def accept_ok_def reader_ok_def)
  moreover have "reader_ok s'" using new by (simp add: s' reader_ok_def live_def)
  ultimately show ?thesis by (simp add: sv_inv_def)
qed

lemma session_ok_Close: "session_ok m \<Longrightarrow> session_ok (mx_Close m)"
  using session_ok_ops by blast

lemma mx_Close_ssrc [simp]: "mx_ssrc (mx_Close m) = mx_ssrc m"
  by (simp add: mx_Close_def)

lemma close_session_inv:
  assumes "sv_inv s" and "between_packets s"
  shows "sv_inv (close_session i s)"
proof (cases "sv_heap s i")
  case (Some m)
  show ?thesis
  proof (cases "mx_frames_closed m")
    case False
    have m: "session_ok m" "i < sv_next s" using assms(1) Some by (auto simp: sv_inv_def heap_ok_def)
    let ?s = "close_session i s"
    have h: "sv_heap ?s = (sv_heap s)(i \<mapsto> mx_Close m)" "sv_next ?s = sv_next s" "sv_closed ?s = sv_closed s"
      "sv_conn ?s = sv_conn s" "sv_accept_closed ?s = sv_accept_closed s" "sv_accept ?s = sv_accept s" "sv_reader ?s = sv_reader s"
      "sv_sessions ?s = (if sv_closed s then sv_sessions s else (sv_sessions s)(mx_ssrc m := None))"
      using Some False by (simp_all add: close_session_def put_session_def Let_def)
    have "heap_ok ?s" using assms(1) m session_ok_Close by (auto simp: heap_ok_def h sv_inv_def)
    moreover have "accept_ok ?s" using assms(1) by (simp add: sv_inv_def accept_ok_def h)
    moreover have "reader_ok ?s" using assms(2) by (auto simp: reader_ok_def h between_packets_def)
    moreover have "sessions_ok ?s"
      unfolding sessions_ok_def
    proof (intro allI impI)
      fix c j assume "sv_sessions ?s c = Some j"
      then have c: "sv_sessions s c = Some j" "c \<noteq> mx_ssrc m"
        using assms(1) by (auto simp: h sv_inv_def accept_ok_def split: if_splits)
      then have "live s j" "source_of s j = Some c" using assms(1) by (auto simp: sv_inv_def sessions_ok_def)
      moreover from this c have "j \<noteq> i" using Some by (auto simp: source_of_def)
      ultimately show "live ?s j \<and> source_of ?s j = Some c" by (simp add: live_def source_of_def h)
    qed
    ultimately show ?thesis by (simp add: sv_inv_def)
  qed (use assms Some in \<open>simp add: close_session_def\<close>)
qed (use assms in \<open>simp add: close_session_def\<close>)

lemma shutdown_inv:
  "sv_inv s \<Longrightarrow> between_packets s \<Longrightarrow> \<not> sv_conn s \<Longrightarrow> sv_inv ((shutdown s)\<lparr>sv_reader := Stopped\<rparr>)"
  using session_ok_Close
  by (auto simp: sv_inv_defs shutdown_def between_packets_def split: option.splits if_splits reader.splits)

lemma sv_Close_inv: "sv_inv s \<Longrightarrow> between_packets s \<Longrightarrow> sv_inv (sv_Close s)"
  using session_ok_Close
  by (auto simp: sv_inv_defs sv_Close_def shutdown_def between_packets_def live_def split: option.splits if_splits reader.splits)

lemma media_do_inv:
  assumes "sv_inv s" and "polite mv s" and "media_do mv s = Next s'"
  shows "sv_inv s'"
proof (cases mv)
  case (MvRecv d remote)
  with assms show ?thesis
    by (auto simp: sv_inv_defs live_def source_of_def split: sum.splits if_splits)
next
  case MvReadError
  with assms(3) have "between_packets s" "\<not> sv_conn s" "s' = (shutdown s)\<lparr>sv_reader := Stopped\<rparr>"
    by (auto simp: between_packets_def split: if_splits)
  with shutdown_inv assms(1) show ?thesis by simp
next
  case (MvBind rnd)
  with assms show ?thesis by (auto intro: sv_session_inv split: reader.splits)
next
  case MvCheck
  then obtain i pkt m where s0: "sv_reader s = Bound i pkt" "sv_heap s i = Some m"
    using assms(3) by (auto split: reader.splits option.splits)
  obtain r m' where "deliver_frame pkt m = (r, m')" by fastforce
  note s = s0 this
  have "session_ok m" using assms(1) s by (auto simp: sv_inv_def heap_ok_def)
  then have p: "sv_inv (put_session i m' s)"
    using put_session_inv [OF assms(1) s(2)] deliver_frame_ok [OF s(3)] by blast
  have "live (put_session i m' s) i \<longleftrightarrow> \<not> mx_closed m'" by (simp add: live_def put_session_def)
  then show ?thesis
    using assms(3) MvCheck s p
    by (auto simp: reader_ok_def deliver_check_def split: option.splits intro!: sv_inv_set_reader)
next
  case MvSend
  then obtain i f m m' where s: "sv_heap s i = Some m" "deliver_send f m = Some m'"
    "s' = (put_session i m' s)\<lparr>sv_reader := Idle\<rparr>"
    using assms(3) by (auto split: reader.splits option.splits)
  have "session_ok m" using assms(1) s by (auto simp: sv_inv_def heap_ok_def)
  then have "sv_inv (put_session i m' s)"
    using put_session_inv [OF assms(1) s(1)] deliver_send_ok [OF s(2)] by blast
  with s show ?thesis by (auto simp: reader_ok_def intro!: sv_inv_set_reader)
next
  case (MvCloseSession i)
  with assms show ?thesis by (auto simp: polite_def intro: close_session_inv)
next
  case MvCloseServer
  with assms show ?thesis by (auto simp: polite_def intro: sv_Close_inv)
next
  case MvAccept
  then obtain i a where a: "sv_accept s = i # a" "s' = s\<lparr>sv_accept := a\<rparr>"
    using assms(3) by (simp split: list.splits)
  have "live s' = live s" "source_of s' = source_of s"
    by (simp_all add: a(2) live_def source_of_def fun_eq_iff)
  then show ?thesis
    using assms(1) a(1) unfolding sv_inv_defs by (simp add: a(2) cong: reader.case_cong)
qed (use assms session_ok_ops session_ids in \<open>auto elim!: on_session_inv\<close>)

declare media_do.simps [simp del]

lemma new_server_inv: "sv_inv NewExternalMediaServer"
  by (simp add: sv_inv_defs NewExternalMediaServer_def)

interpretation mxs: step_system "\<lambda>s. s = NewExternalMediaServer" media_step sv_inv
  by unfold_locales (auto simp: media_step_def new_server_inv intro: media_do_inv)

lemma no_crash:
  assumes "sv_inv s"
  shows "media_do mv s \<noteq> Crash"
proof (cases mv)
  case (MvBind rnd)
  with assms show ?thesis
    by (auto simp: media_do.simps sv_session_def put_session_def sv_inv_def accept_ok_def reader_ok_def Let_def
        split: reader.splits option.splits)
next
  case MvSend
  with assms show ?thesis
    by (auto simp: media_do.simps deliver_send_def sv_inv_def heap_ok_def reader_ok_def session_ok_def live_def
        split: reader.splits option.splits if_splits)
qed (auto simp: media_do.simps on_session_def split: reader.splits option.splits list.splits prod.splits)

text \<open>
  C12: as long as sessions and the server are only closed while the read loop waits for its socket,
  nothing panics: in every state such runs reach, no operation whatever sends on a closed channel, each source in the
  server's map is one open session, and no frame channel, outbound queue or accept queue exceeds its bound.
\<close>

theorem media_server_is_safe:
  assumes "run_of media_step NewExternalMediaServer s"
  shows "media_do mv s \<noteq> Crash \<and> length (sv_accept s) \<le> acceptCap \<and>
     (\<forall>i m. sv_heap s i = Some m \<longrightarrow> length (mx_frames m) \<le> framesCap \<and> QueuedPackets m \<le> outQueueMax) \<and>
     (\<forall>c i. sv_sessions s c = Some i \<longrightarrow> (\<exists>m. sv_heap s i = Some m \<and> mx_ssrc m = c \<and> \<not> mx_closed m))"
proof -
  have inv: "sv_inv s" using mxs.inv_reachable [OF refl assms] .
  then have "\<exists>m. sv_heap s i = Some m \<and> mx_ssrc m = c \<and> \<not> mx_closed m" if "sv_sessions s c = Some i" for c i
    using that by (fastforce simp: sv_inv_def sessions_ok_def live_def source_of_def)
  with inv no_crash [OF inv, of mv] show ?thesis
    by (auto simp: sv_inv_def heap_ok_def session_ok_def accept_ok_def QueuedPackets_def)
qed

theorem media_server_is_safe_witness:
  "\<exists>s. media_run [MvRecv (tone 1 0 9 5) ''pbx'', MvBind 7, MvCheck] NewExternalMediaServer = Next s \<and> media_do MvSend s \<noteq> Crash"
proof -
  obtain s1 where 1: "media_do (MvRecv (tone 1 0 9 5) ''pbx'') NewExternalMediaServer = Next s1"
    by (simp add: media_do.simps NewExternalMediaServer_def)
  then have s1: "s1 = NewExternalMediaServer\<lparr>sv_reader := Parsed \<lparr>rp_seq = 1, rp_timestamp = 0, rp_ssrc = 9,
      rp_payload = encodePayload16k (replicate wireSamplesPerFrame 5)\<rparr> ''pbx''\<rparr>"
    by (simp add: media_do.simps NewExternalMediaServer_def tone_parsed)
  obtain s2 where 2: "media_do (MvBind 7) s1 = Next s2"
    by (simp add: s1 media_do.simps NewExternalMediaServer_def sv_session_def put_session_def Let_def)
  then obtain s3 where 3: "media_do MvCheck s2 = Next s3"
    by (simp add: s1 media_do.simps NewExternalMediaServer_def sv_session_def put_session_def Let_def
        newMediaSession_def acceptCap_def)
      (auto simp: media_do.simps deliver_frame_def)
  have st: "media_do mv s = Next s' \<Longrightarrow> mv \<in> {MvRecv (tone 1 0 9 5) ''pbx'', MvBind 7, MvCheck} \<Longrightarrow> media_step s s'" for mv s s'
    by (auto simp: media_step_def polite_def intro: exI [of _ mv])
  have "run_of media_step NewExternalMediaServer s3"
    using st [OF 1] st [OF 2] st [OF 3] by simp (blast intro: run_refl run_step)
  from media_server_is_safe [OF this, of MvSend] 1 2 3 show ?thesis by simp
qed

end
