(* ===== verification/Gateway_Config.thy ===== *)
theory Gateway_Config
  imports Domain
begin

text \<open>
  \<open>cmd/telephony-gw/main.go\<close>, \<open>loadConfig\<close>, and the configuration of \<open>internal/asterisk/asterisk.go\<close>: what the gateway takes from
  its environment. The environment is a function (unset variables are empty); \<open>time.ParseDuration\<close> is a
  parameter.
\<close>

definition backendTelnyx :: string where "backendTelnyx = ''telnyx''"
definition backendAsterisk :: string where "backendAsterisk = ''asterisk''"

record asterisk_config =
  ac_url :: string
  ac_websocket_url :: string
  ac_application :: string
  ac_username :: string
  ac_password :: string
  ac_transfer_context :: string
  ac_external_media_addr :: string

definition asterisk_validate :: "asterisk_config \<Rightarrow> gerr option" where
  "asterisk_validate c =
     (if ac_url c = [] then Some (Errf ''asterisk: config: URL is required'' [])
      else if ac_application c = [] then Some (Errf ''asterisk: config: Application is required'' [])
      else None)"

record gw_config =
  gc_http_addr :: string
  gc_nats_url :: string
  gc_event_subject_prefix :: string
  gc_telnyx_api_key :: string
  gc_tenant_by_did :: "string \<Rightarrow> string option"
  gc_owner_phone :: string
  gc_drain_timeout :: int
  gc_media_backend :: string
  gc_asterisk :: asterisk_config
  gc_media_listen_addr :: string

definition no_asterisk :: asterisk_config where
  "no_asterisk = \<lparr>ac_url = [], ac_websocket_url = [], ac_application = [], ac_username = [], ac_password = [],
     ac_transfer_context = [], ac_external_media_addr = []\<rparr>"

definition envOr :: "(string \<Rightarrow> string) \<Rightarrow> string \<Rightarrow> string \<Rightarrow> string" where
  "envOr getenv key d = (if getenv key \<noteq> [] then getenv key else d)"

text \<open>The loop over the entries of \<open>TENANT_DIDS\<close>.\<close>

fun tenant_dids :: "string list \<Rightarrow> (string \<Rightarrow> string option) \<Rightarrow> (string \<Rightarrow> string option) res" where
  "tenant_dids [] m = Inr m"
| "tenant_dids (pair # ps) m =
     (case cut_char (CHR ''='') (trim_space pair) of
        (did, tenant, found) \<Rightarrow>
          if \<not> found \<or> did = [] \<or> tenant = [] then Inl (Errf ''malformed TENANT_DIDS entry %q'' [FS pair])
          else tenant_dids ps (m(did \<mapsto> tenant)))"

definition load_asterisk :: "(string \<Rightarrow> string) \<Rightarrow> asterisk_config" where
  "load_asterisk getenv =
     \<lparr>ac_url = getenv ''ASTERISK_ARI_URL'', ac_websocket_url = getenv ''ASTERISK_ARI_WS_URL'',
      ac_application = envOr getenv ''ASTERISK_APP'' ''frontdesk-v1'', ac_username = envOr getenv ''ARI_USERNAME'' ''frontdesk'',
      ac_password = getenv ''ARI_PASSWORD'', ac_transfer_context = envOr getenv ''ASTERISK_TRANSFER_CONTEXT'' ''transfer-owner'',
      ac_external_media_addr = getenv ''ASTERISK_EXTERNAL_MEDIA_ADDR''\<rparr>"

definition loadConfig :: "(string \<Rightarrow> int res) \<Rightarrow> (string \<Rightarrow> string) \<Rightarrow> gw_config res" where
  "loadConfig parse_duration getenv =
     (let cfg = \<lparr>gc_http_addr = envOr getenv ''HTTP_ADDR'' '':8080'', gc_nats_url = getenv ''NATS_URL'',
          gc_event_subject_prefix = envOr getenv ''EVENT_SUBJECT_PREFIX'' ''frontdesk.events'',
          gc_telnyx_api_key = getenv ''TELNYX_API_KEY'', gc_tenant_by_did = Map.empty, gc_owner_phone = getenv ''OWNER_PHONE'',
          gc_drain_timeout = 30 * 10 ^ 9, gc_media_backend = [], gc_asterisk = no_asterisk, gc_media_listen_addr = []\<rparr>;
          raw = getenv ''DRAIN_TIMEOUT'' in
      case (if raw \<noteq> [] then parse_duration raw else Inr (gc_drain_timeout cfg)) of
        Inl e \<Rightarrow> Inl (Wrap ''parse DRAIN_TIMEOUT: %w'' [] e)
      | Inr d \<Rightarrow>
          let cfg = cfg\<lparr>gc_drain_timeout := d\<rparr>; raw = getenv ''TENANT_DIDS'' in
          (case (if raw \<noteq> [] then tenant_dids (split_char (CHR '','') raw) (gc_tenant_by_did cfg) else Inr (gc_tenant_by_did cfg)) of
             Inl e \<Rightarrow> Inl e
           | Inr m \<Rightarrow>
               let cfg = cfg\<lparr>gc_tenant_by_did := m, gc_media_backend := envOr getenv ''MEDIA_BACKEND'' backendTelnyx\<rparr> in
               if gc_media_backend cfg = backendTelnyx then Inr cfg
               else if gc_media_backend cfg = backendAsterisk then
                 let cfg = cfg\<lparr>gc_asterisk := load_asterisk getenv, gc_media_listen_addr := envOr getenv ''MEDIA_LISTEN_ADDR'' '':4000''\<rparr> in
                 (if ac_url (gc_asterisk cfg) = [] then Inl (Errf ''MEDIA_BACKEND=asterisk requires ASTERISK_ARI_URL'' []) else Inr cfg)
               else Inl (Errf ''unknown MEDIA_BACKEND %q (want %q or %q)'' [FS (gc_media_backend cfg), FS backendTelnyx, FS backendAsterisk])))"

section \<open>Numbers of the tenants\<close>

definition did_entry :: "string \<times> string \<Rightarrow> string" where
  "did_entry p = fst p @ CHR ''='' # snd p"

fun print_dids :: "(string \<times> string) list \<Rightarrow> string" where
  "print_dids [] = []"
| "print_dids [p] = did_entry p"
| "print_dids (p # q # ps) = did_entry p @ CHR '','' # print_dids (q # ps)"

text \<open>Entries an operator can write: nothing empty, no separator inside, no space around.\<close>

definition entry_ok :: "string \<times> string \<Rightarrow> bool" where
  "entry_ok p \<longleftrightarrow> fst p \<noteq> [] \<and> snd p \<noteq> [] \<and> CHR ''='' \<notin> set (fst p) \<and> CHR '','' \<notin> set (fst p) \<and> CHR '','' \<notin> set (snd p) \<and>
     trim_space (did_entry p) = did_entry p"

lemma cut_char_at: "d \<notin> set a \<Longrightarrow> cut_char d (a @ d # b) = (a, b, True)"
  by (induction a) auto

lemma split_char_at: "d \<notin> set a \<Longrightarrow> split_char d (a @ d # b) = a # split_char d b"
  by (induction a) (auto split: list.splits)

lemma split_char_none: "d \<notin> set a \<Longrightarrow> split_char d a = [a]"
  by (induction a) (auto split: list.splits)

lemma split_print: "ps \<noteq> [] \<Longrightarrow> \<forall>p \<in> set ps. entry_ok p \<Longrightarrow> split_char (CHR '','') (print_dids ps) = map did_entry ps"
proof (induction ps rule: print_dids.induct)
  case (2 p)
  then have "CHR '','' \<notin> set (did_entry p)" by (simp add: did_entry_def entry_ok_def)
  then show ?case by (simp add: split_char_none)
next
  case (3 p q ps)
  then have "CHR '','' \<notin> set (did_entry p)" by (simp add: did_entry_def entry_ok_def)
  then show ?case using 3 by (simp add: split_char_at)
qed simp

lemma tenant_dids_entries: "\<forall>p \<in> set ps. entry_ok p \<Longrightarrow> tenant_dids (map did_entry ps) m = Inr (m ++ map_of (rev ps))"
proof (induction ps arbitrary: m)
  case (Cons p ps)
  have "cut_char (CHR ''='') (did_entry p) = (fst p, snd p, True)"
    using Cons.prems by (simp add: did_entry_def entry_ok_def cut_char_at)
  with Cons show ?case by (auto simp: entry_ok_def map_add_def fun_eq_iff split: option.split)
qed simp

text \<open>
  The routing table survives the environment: any non-empty list of well-formed entries, printed the way
  \<open>TENANT_DIDS\<close> is written, loads as the map of exactly these entries, where the last entry of a number wins.
\<close>

theorem tenant_dids_round_trip:
  assumes "ps \<noteq> []" and "\<forall>p \<in> set ps. entry_ok p"
    and "getenv ''TENANT_DIDS'' = print_dids ps" and "getenv ''DRAIN_TIMEOUT'' = []" and "getenv ''MEDIA_BACKEND'' = []"
  shows "map_sum id gc_tenant_by_did (loadConfig parse getenv) = Inr (map_of (rev ps))"
proof -
  have "print_dids ps \<noteq> []" using assms(1) by (cases ps rule: print_dids.cases) (simp_all add: did_entry_def)
  then show ?thesis
    using assms by (simp add: loadConfig_def split_print tenant_dids_entries envOr_def Let_def)
qed

theorem tenant_dids_round_trip_witness:
  "map_sum id (\<lambda>c. gc_tenant_by_did c ''+15145550100'')
     (loadConfig (\<lambda>s. Inr 0) (\<lambda>k. if k = ''TENANT_DIDS'' then ''+15145550100=acme,+14385550100=bob'' else [])) = Inr (Some ''acme'')"
proof -
  let ?ps = "[(''+15145550100'', ''acme''), (''+14385550100'', ''bob'')]"
  let ?env = "\<lambda>k. if k = ''TENANT_DIDS'' then ''+15145550100=acme,+14385550100=bob'' else []"
  have "map_sum id gc_tenant_by_did (loadConfig (\<lambda>s. Inr 0) ?env) = Inr (map_of (rev ?ps))"
    by (rule tenant_dids_round_trip) (simp_all add: entry_ok_def did_entry_def trim_space_def ascii_evals)
  then show ?thesis by (cases "loadConfig (\<lambda>s. Inr 0) ?env") simp_all
qed

end
