(* ===== verification/Gateway.thy ===== *)
theory Gateway
  imports Gateway_Config
begin

text \<open>
  \<open>cmd/telephony-gw/gateway.go\<close>: the webhook handler, one goroutine per call and the registry shutdown drains. A call's
  goroutine is a phase that advances by \<open>session_step\<close>; what the carrier answers is an argument
  of the step. Contexts are the set of the calls whose cancel function was called.
\<close>

section \<open>Webhooks\<close>

record webhook_payload =
  hk_call_control_id :: string
  hk_from :: string
  hk_to :: string

record webhook_data =
  hk_event_type :: string
  hk_payload :: webhook_payload

record telnyx_webhook =
  hk_data :: webhook_data

definition webhook_payload_fields :: "webhook_payload fields" where
  "webhook_payload_fields =
     [fld_string ''call_control_id'' hk_call_control_id (\<lambda>v p. p\<lparr>hk_call_control_id := v\<rparr>),
      fld_string ''from'' hk_from (\<lambda>v p. p\<lparr>hk_from := v\<rparr>),
      fld_string ''to'' hk_to (\<lambda>v p. p\<lparr>hk_to := v\<rparr>)]"

definition webhook_data_fields :: "webhook_data fields" where
  "webhook_data_fields =
     [fld_string ''event_type'' hk_event_type (\<lambda>v p. p\<lparr>hk_event_type := v\<rparr>),
      fld_struct ''payload'' webhook_payload_fields hk_payload (\<lambda>v p. p\<lparr>hk_payload := v\<rparr>)]"

definition webhook_fields :: "telnyx_webhook fields" where
  "webhook_fields = [fld_struct ''data'' webhook_data_fields hk_data (\<lambda>v p. p\<lparr>hk_data := v\<rparr>)]"

definition webhook0 :: telnyx_webhook where
  "webhook0 = \<lparr>hk_data = \<lparr>hk_event_type = [], hk_payload = \<lparr>hk_call_control_id = [], hk_from = [], hk_to = []\<rparr>\<rparr>\<rparr>"

section \<open>State\<close>

datatype call_phase = Answering | Publishing | Holding | Finished

record gw_call =
  gl_id :: string
  gl_ctx :: go_context
  gl_from :: string
  gl_to :: string
  gl_phase :: call_phase

datatype gw_cmd =
    CmdHangup string
  | CmdAnswer string
  | CmdTransfer string string
  | CmdPublish envelope

text \<open>The registry, the goroutines with their sessions, the cancelled contexts, and what was sent out.\<close>

record gateway =
  gw_sessions :: "string \<Rightarrow> nat option"
  gw_calls :: "nat \<Rightarrow> gw_call option"
  gw_next :: nat
  gw_cancelled :: "nat set"
  gw_log :: "gw_cmd list"

definition newGateway :: gateway where
  "newGateway = \<lparr>gw_sessions = Map.empty, gw_calls = Map.empty, gw_next = 0, gw_cancelled = {}, gw_log = []\<rparr>"

definition reg_add :: "string \<Rightarrow> nat \<Rightarrow> gateway \<Rightarrow> gateway" where
  "reg_add i s g = g\<lparr>gw_sessions := (gw_sessions g)(i \<mapsto> s)\<rparr>"

definition reg_remove :: "string \<Rightarrow> gateway \<Rightarrow> gateway" where
  "reg_remove i g = g\<lparr>gw_sessions := (gw_sessions g)(i := None)\<rparr>"

definition reg_end :: "string \<Rightarrow> gateway \<Rightarrow> gateway" where
  "reg_end i g = (case gw_sessions g i of None \<Rightarrow> g | Some s \<Rightarrow> g\<lparr>gw_cancelled := insert s (gw_cancelled g)\<rparr>)"

definition startCall :: "go_context \<Rightarrow> string \<Rightarrow> string \<Rightarrow> string \<Rightarrow> gateway \<Rightarrow> gateway" where
  "startCall ctx call_id src dst g =
     (let s = gw_next g in
      reg_add call_id s
        (g\<lparr>gw_next := s + 1,
           gw_calls := (gw_calls g)(s \<mapsto> \<lparr>gl_id = call_id, gl_ctx = ctx, gl_from = src, gl_to = dst, gl_phase = Answering\<rparr>)\<rparr>))"

definition emit_cmd :: "gw_cmd \<Rightarrow> gateway \<Rightarrow> gateway" where
  "emit_cmd c g = g\<lparr>gw_log := gw_log g @ [c]\<rparr>"

definition handleWebhook :: "gw_config \<Rightarrow> json option \<Rightarrow> gateway \<Rightarrow> nat \<times> gateway" where
  "handleWebhook cfg body g =
     (case unmarshal webhook_fields body webhook0 of
        Inl e \<Rightarrow> (400, g)
      | Inr hook \<Rightarrow>
          let payload = hk_payload (hk_data hook) in
          if hk_event_type (hk_data hook) = ''call.initiated'' then
            (case gc_tenant_by_did cfg (hk_to payload) of
               None \<Rightarrow> (200, emit_cmd (CmdHangup (hk_call_control_id payload)) g)
             | Some tenant \<Rightarrow>
                 (200, startCall (WithTenant None tenant) (hk_call_control_id payload) (hk_from payload) (hk_to payload) g))
          else if hk_event_type (hk_data hook) = ''call.hangup'' then (200, reg_end (hk_call_control_id payload) g)
          else (200, g))"

section \<open>The goroutine of a call\<close>

record gw_outcome =
  go_answer :: "gerr option"
  go_event_id :: string
  go_now :: gotime

definition finish_call :: "nat \<Rightarrow> gw_call \<Rightarrow> gateway \<Rightarrow> gateway" where
  "finish_call s c g = reg_remove (gl_id c) (g\<lparr>gw_calls := (gw_calls g)(s \<mapsto> c\<lparr>gl_phase := Finished\<rparr>)\<rparr>)"

definition set_phase :: "nat \<Rightarrow> call_phase \<Rightarrow> gw_call \<Rightarrow> gateway \<Rightarrow> gateway" where
  "set_phase s ph c g = g\<lparr>gw_calls := (gw_calls g)(s \<mapsto> c\<lparr>gl_phase := ph\<rparr>)\<rparr>"

definition started_payload :: "gw_call \<Rightarrow> json" where
  "started_payload c = JObj [(''from'', JStr (gl_from c)), (''to'', JStr (gl_to c)), (''mode'', JStr ModeOverflow)]"

definition session_step :: "gw_config \<Rightarrow> gw_outcome \<Rightarrow> nat \<Rightarrow> gateway \<Rightarrow> gateway option" where
  "session_step cfg oc s g =
     (case gw_calls g s of
        None \<Rightarrow> None
      | Some c \<Rightarrow>
          (case gl_phase c of
             Answering \<Rightarrow>
               (case FromContext (gl_ctx c) of
                  Inl e \<Rightarrow> Some (finish_call s c g)
                | Inr tenant \<Rightarrow>
                    let g = emit_cmd (CmdAnswer (gl_id c)) g in
                    (case go_answer oc of
                       Some e \<Rightarrow>
                         Some (finish_call s c (if gc_owner_phone cfg \<noteq> []
                                                then emit_cmd (CmdTransfer (gl_id c) (gc_owner_phone cfg)) g else g))
                     | None \<Rightarrow> Some (set_phase s Publishing c g)))
           | Publishing \<Rightarrow>
               (case FromContext (gl_ctx c) of
                  Inl e \<Rightarrow> None
                | Inr tenant \<Rightarrow>
                    (case New (go_event_id oc) (gl_id c) 1 (go_now oc) tenant [] 0 TypeCallStarted [] (Inr (started_payload c)) [] of
                       Inl e \<Rightarrow> Some (set_phase s Holding c g)
                     | Inr ev \<Rightarrow> Some (set_phase s Holding c (emit_cmd (CmdPublish ev) g))))
           | Holding \<Rightarrow> if s \<in> gw_cancelled g then Some (finish_call s c g) else None
           | Finished \<Rightarrow> None))"

text \<open>The timeout branch of \<open>drain\<close>, and what it waits for (the wait group at zero).\<close>

definition cancel_stragglers :: "gateway \<Rightarrow> gateway" where
  "cancel_stragglers g = g\<lparr>gw_cancelled := gw_cancelled g \<union> ran (gw_sessions g)\<rparr>"

definition drained :: "gateway \<Rightarrow> bool" where
  "drained g \<longleftrightarrow> (\<forall>s < gw_next g. case gw_calls g s of None \<Rightarrow> True | Some c \<Rightarrow> gl_phase c = Finished)"

datatype gw_move =
    GwWebhook "json option"
  | GwStep nat gw_outcome
  | GwDrainTimeout

fun gw_do :: "gw_config \<Rightarrow> gw_move \<Rightarrow> gateway \<Rightarrow> gateway option" where
  "gw_do cfg (GwWebhook body) g = Some (snd (handleWebhook cfg body g))"
| "gw_do cfg (GwStep s oc) g = session_step cfg oc s g"
| "gw_do cfg GwDrainTimeout g = Some (cancel_stragglers g)"

definition gw_step :: "gw_config \<Rightarrow> gateway \<Rightarrow> gateway \<Rightarrow> bool" where
  "gw_step cfg g g' \<longleftrightarrow> (\<exists>m. gw_do cfg m g = Some g')"

fun gw_run :: "gw_config \<Rightarrow> gw_move list \<Rightarrow> gateway \<Rightarrow> gateway option" where
  "gw_run cfg [] g = Some g"
| "gw_run cfg (m # ms) g = (case gw_do cfg m g of None \<Rightarrow> None | Some g' \<Rightarrow> gw_run cfg ms g')"

lemma gw_run_run_of: "gw_run cfg ms g = Some g' \<Longrightarrow> run_of (gw_step cfg) h g \<Longrightarrow> run_of (gw_step cfg) h g'"
proof (induction ms arbitrary: g)
  case (Cons m ms)
  then obtain g1 where "gw_do cfg m g = Some g1" "gw_run cfg ms g1 = Some g'" by (auto split: option.splits)
  moreover from this have "gw_step cfg g g1" unfolding gw_step_def by blast
  then have "run_of (gw_step cfg) h g1" using Cons.prems(2) by (blast intro: run_step)
  ultimately show ?case using Cons.IH by blast
qed simp

text \<open>The gateway's own numbers only grow: what a move does to the calls and the registry.\<close>

lemma webhook_effect:
  obtains (same) "snd (handleWebhook cfg body g) = g"
  | (unknown) i where "snd (handleWebhook cfg body g) = emit_cmd (CmdHangup i) g"
  | (hangup) i where "snd (handleWebhook cfg body g) = reg_end i g"
  | (start) t i a b where "gc_tenant_by_did cfg b = Some t" "snd (handleWebhook cfg body g) = startCall (WithTenant None t) i a b g"
proof (cases "unmarshal webhook_fields body webhook0")
  case (Inl e)
  then show ?thesis by (intro same) (simp add: handleWebhook_def)
next
  case (Inr hook)
  note d = handleWebhook_def Inr Let_def
  show ?thesis
  proof (cases "hk_event_type (hk_data hook) = ''call.initiated''")
    case True
    show ?thesis
    proof (cases "gc_tenant_by_did cfg (hk_to (hk_payload (hk_data hook)))")
      case None
      with True show ?thesis by (intro unknown) (simp add: d)
    next
      case (Some t)
      show ?thesis by (rule start [OF Some]) (simp add: d True Some)
    qed
  next
    case False
    show ?thesis
    proof (cases "hk_event_type (hk_data hook) = ''call.hangup''")
      case True
      then show ?thesis by (intro hangup) (simp add: d)
    next
      case no: False
      with False show ?thesis by (intro same) (simp add: d)
    qed
  qed
qed

lemma session_effect:
  assumes "session_step cfg oc s g = Some g'"
  obtains c where "gw_calls g s = Some c"
    "g' = finish_call s c g \<or> g' = finish_call s c (emit_cmd (CmdAnswer (gl_id c)) g) \<or>
       g' = finish_call s c (emit_cmd (CmdTransfer (gl_id c) (gc_owner_phone cfg)) (emit_cmd (CmdAnswer (gl_id c)) g)) \<or>
       g' = set_phase s Publishing c (emit_cmd (CmdAnswer (gl_id c)) g) \<or> g' = set_phase s Holding c g \<or>
       (\<exists>ev. g' = set_phase s Holding c (emit_cmd (CmdPublish ev) g))"
  using assms that by (auto simp: session_step_def Let_def split: option.splits call_phase.splits sum.splits if_splits)

section \<open>No call without a tenant\<close>

text \<open>What a command that went out must rest on.\<close>

definition routed :: "gw_config \<Rightarrow> gw_call \<Rightarrow> string \<Rightarrow> bool" where
  "routed cfg c t \<longleftrightarrow> gc_tenant_by_did cfg (gl_to c) = Some t \<and> gl_ctx c = Some t \<and> t \<noteq> []"

fun cmd_ok :: "gw_config \<Rightarrow> gateway \<Rightarrow> gw_cmd \<Rightarrow> bool" where
  "cmd_ok cfg g (CmdHangup i) = True"
| "cmd_ok cfg g (CmdTransfer i p) = (p = gc_owner_phone cfg \<and> p \<noteq> [])"
| "cmd_ok cfg g (CmdAnswer i) = (\<exists>s c t. gw_calls g s = Some c \<and> gl_id c = i \<and> routed cfg c t)"
| "cmd_ok cfg g (CmdPublish ev) =
     (\<exists>s c. gw_calls g s = Some c \<and> CallID ev = gl_id c \<and> routed cfg c (TenantID ev) \<and> Seq ev = 1 \<and> Type ev = TypeCallStarted \<and>
        Payload ev = Some (started_payload c))"

definition call_ok :: "gw_config \<Rightarrow> nat \<Rightarrow> nat \<Rightarrow> gw_call \<Rightarrow> bool" where
  "call_ok cfg n s c \<longleftrightarrow>
     s < n \<and> (\<exists>t. gl_ctx c = Some t \<and> gc_tenant_by_did cfg (gl_to c) = Some t \<and> (gl_phase c = Publishing \<longrightarrow> t \<noteq> []))"

definition calls_ok :: "gw_config \<Rightarrow> gateway \<Rightarrow> bool" where
  "calls_ok cfg g \<longleftrightarrow> (\<forall>s c. gw_calls g s = Some c \<longrightarrow> call_ok cfg (gw_next g) s c)"

definition registry_ok :: "gateway \<Rightarrow> bool" where
  "registry_ok g \<longleftrightarrow> (\<forall>i s. gw_sessions g i = Some s \<longrightarrow> s < gw_next g) \<and> (\<forall>s \<in> gw_cancelled g. s < gw_next g)"

definition gw_inv :: "gw_config \<Rightarrow> gateway \<Rightarrow> bool" where
  "gw_inv cfg g \<longleftrightarrow> calls_ok cfg g \<and> registry_ok g \<and> (\<forall>c \<in> set (gw_log g). cmd_ok cfg g c)"

lemmas gw_inv_defs = gw_inv_def calls_ok_def call_ok_def registry_ok_def

definition same_calls :: "gateway \<Rightarrow> gateway \<Rightarrow> bool" where
  "same_calls g g' \<longleftrightarrow> (\<forall>s c. gw_calls g s = Some c \<longrightarrow> (\<exists>ph. gw_calls g' s = Some (c\<lparr>gl_phase := ph\<rparr>)))"

lemma routed_phase [simp]: "routed cfg (c\<lparr>gl_phase := ph\<rparr>) t = routed cfg c t" "started_payload (c\<lparr>gl_phase := ph\<rparr>) = started_payload c"
  by (simp_all add: routed_def started_payload_def)

lemma cmd_ok_mono: "same_calls g g' \<Longrightarrow> cmd_ok cfg g c \<Longrightarrow> cmd_ok cfg g' c"
proof (cases c)
  case (CmdAnswer i)
  assume "same_calls g g'" "cmd_ok cfg g c"
  then obtain s k t where "gw_calls g s = Some k" "gl_id k = i" "routed cfg k t" using CmdAnswer by auto
  moreover from this obtain ph where "gw_calls g' s = Some (k\<lparr>gl_phase := ph\<rparr>)" using \<open>same_calls g g'\<close> by (auto simp: same_calls_def)
  ultimately show ?thesis
    unfolding CmdAnswer cmd_ok.simps by (intro exI [of _ s] exI [of _ "k\<lparr>gl_phase := ph\<rparr>"] exI [of _ t]) simp
next
  case (CmdPublish ev)
  assume "same_calls g g'" "cmd_ok cfg g c"
  then obtain s k where "gw_calls g s = Some k" "CallID ev = gl_id k \<and> routed cfg k (TenantID ev) \<and> Seq ev = 1 \<and>
      Type ev = TypeCallStarted \<and> Payload ev = Some (started_payload k)" using CmdPublish by auto
  moreover from this obtain ph where "gw_calls g' s = Some (k\<lparr>gl_phase := ph\<rparr>)" using \<open>same_calls g g'\<close> by (auto simp: same_calls_def)
  ultimately show ?thesis
    unfolding CmdPublish cmd_ok.simps by (intro exI [of _ s] exI [of _ "k\<lparr>gl_phase := ph\<rparr>"]) simp
qed simp_all

lemma call_phase_ex [simp]: "\<exists>ph. (c :: gw_call) = c\<lparr>gl_phase := ph\<rparr>"
  by (rule exI [of _ "gl_phase c"]) simp

lemma same_phase: "gw_calls g s = Some c \<Longrightarrow> gw_calls g' = (gw_calls g)(s \<mapsto> c\<lparr>gl_phase := ph\<rparr>) \<Longrightarrow> same_calls g g'"
  by (auto simp: same_calls_def)

lemma session_step_log:
  assumes "session_step cfg oc s g = Some g'" and "gw_inv cfg g"
  shows "\<exists>c ph cs. gw_calls g s = Some c \<and> gw_calls g' = (gw_calls g)(s \<mapsto> c\<lparr>gl_phase := ph\<rparr>) \<and>
     (ph = Publishing \<longrightarrow> gl_ctx c \<noteq> Some []) \<and> gw_next g' = gw_next g \<and>
     gw_cancelled g' = gw_cancelled g \<and> gw_sessions g' \<subseteq>\<^sub>m gw_sessions g \<and> gw_log g' = gw_log g @ cs \<and> (\<forall>x \<in> set cs. cmd_ok cfg g' x)"
proof -
  obtain c where c: "gw_calls g s = Some c" using assms(1) by (auto simp: session_step_def split: option.splits)
  obtain t where t: "gl_ctx c = Some t" "gc_tenant_by_did cfg (gl_to c) = Some t" using assms(2) c unfolding gw_inv_defs by blast
  let ?up = "\<lambda>ph. (gw_calls g)(s \<mapsto> c\<lparr>gl_phase := ph\<rparr>)"
  have a: "cmd_ok cfg g' (CmdAnswer (gl_id c))" if "t \<noteq> []" "gw_calls g' = ?up ph" for ph
    using that t by (auto simp: routed_def intro!: exI [of _ s] exI [of _ "c\<lparr>gl_phase := ph\<rparr>"])
  have p: "cmd_ok cfg g' (CmdPublish ev)"
    if "t \<noteq> []" "gw_calls g' = ?up ph" "New e (gl_id c) 1 n t [] 0 TypeCallStarted [] (Inr (started_payload c)) [] = Inr ev" for ph ev e n
    using that t by (auto simp: routed_def New_def started_payload_def intro!: exI [of _ s] exI [of _ "c\<lparr>gl_phase := ph\<rparr>"])
  have m: "(gw_sessions g)(i := None) \<subseteq>\<^sub>m gw_sessions g" for i by (simp add: map_le_def)
  note defs = session_step_def finish_call_def set_phase_def reg_remove_def emit_cmd_def FromContext_def
  show ?thesis
  proof (cases "gl_phase c")
    case Answering
    with assms(1) c t m a show ?thesis
      by (auto simp: defs Let_def intro!: exI [of _ c] split: if_splits option.splits)
  next
    case Publishing
    with assms(1) c t m p show ?thesis
      by (auto simp: defs intro!: exI [of _ c] split: if_splits sum.splits)
  next
    case Holding
    with assms(1) c t m show ?thesis by (auto simp: defs intro!: exI [of _ c] split: if_splits)
  qed (use assms(1) c in \<open>simp add: defs\<close>)
qed

lemma startCall_inv:
  assumes "gw_inv cfg g" and "gc_tenant_by_did cfg b = Some t"
  shows "gw_inv cfg (startCall (WithTenant None t) i a b g)" "same_calls g (startCall (WithTenant None t) i a b g)"
proof -
  let ?g = "startCall (WithTenant None t) i a b g"
  have f: "gw_calls g (gw_next g) = None"
    using assms(1) by (cases "gw_calls g (gw_next g)") (auto simp: gw_inv_defs)
  show s: "same_calls g ?g" using f by (auto simp: same_calls_def startCall_def reg_add_def Let_def)
  have "\<forall>c \<in> set (gw_log ?g). cmd_ok cfg ?g c"
    using assms(1) cmd_ok_mono [OF s] by (auto simp: gw_inv_def startCall_def reg_add_def Let_def)
  then show "gw_inv cfg ?g"
    using assms by (auto simp: gw_inv_defs startCall_def reg_add_def Let_def WithTenant_def less_SucI)
qed

lemma session_step_inv:
  assumes "session_step cfg oc s g = Some g'" and "gw_inv cfg g"
  shows "gw_inv cfg g'" "same_calls g g'"
proof -
  obtain c ph cs where e: "gw_calls g s = Some c" "gw_calls g' = (gw_calls g)(s \<mapsto> c\<lparr>gl_phase := ph\<rparr>)"
    "ph = Publishing \<longrightarrow> gl_ctx c \<noteq> Some []" "gw_next g' = gw_next g"
    "gw_cancelled g' = gw_cancelled g" "gw_sessions g' \<subseteq>\<^sub>m gw_sessions g" "gw_log g' = gw_log g @ cs" "\<forall>x \<in> set cs. cmd_ok cfg g' x"
    using session_step_log [OF assms] by blast
  show s: "same_calls g g'" using same_phase [OF e(1,2)] .
  have sub: "\<forall>i s. gw_sessions g' i = Some s \<longrightarrow> gw_sessions g i = Some s"
    using e(6) by (auto simp: map_le_def dom_def)
  have "registry_ok g'"
    using assms(2) sub unfolding gw_inv_def registry_ok_def e(4,5) by blast
  moreover have "call_ok cfg (gw_next g) s c" using assms(2) e(1) by (simp add: gw_inv_def calls_ok_def)
  then have "call_ok cfg (gw_next g) s (c\<lparr>gl_phase := ph\<rparr>)" using e(3) by (auto simp: call_ok_def)
  then have "calls_ok cfg g'" using assms(2) e(2,4) by (simp add: gw_inv_def calls_ok_def)
  moreover have "\<forall>x \<in> set (gw_log g'). cmd_ok cfg g' x"
    using assms(2) cmd_ok_mono [OF s] e(7,8) by (auto simp: gw_inv_def)
  ultimately show "gw_inv cfg g'" by (simp add: gw_inv_def)
qed

lemma gw_do_inv [fd_inv]:
  assumes "gw_do cfg m g = Some g'" and "gw_inv cfg g"
  shows "gw_inv cfg g'" "same_calls g g'"
proof -
  have "gw_inv cfg g' \<and> same_calls g g'"
  proof (cases m)
    case (GwWebhook body)
    then have g': "g' = snd (handleWebhook cfg body g)" using assms(1) by simp
    have eq: "same_calls g h" if "gw_calls h = gw_calls g" for h using that by (simp add: same_calls_def)
    from webhook_effect [of cfg body g] show ?thesis
    proof cases
      case (unknown i)
      have "\<forall>c \<in> set (gw_log g). cmd_ok cfg g' c"
        using assms(2) cmd_ok_mono [OF eq, of g'] by (auto simp: gw_inv_defs g' unknown emit_cmd_def)
      with assms(2) show ?thesis using eq [of g'] by (auto simp: gw_inv_defs g' unknown emit_cmd_def)
    next
      case (hangup i)
      have "\<forall>c \<in> set (gw_log g). cmd_ok cfg g' c"
        using assms(2) cmd_ok_mono [OF eq, of g'] by (auto simp: gw_inv_defs g' hangup reg_end_def split: option.splits)
      with assms(2) show ?thesis
        using eq [of g'] by (auto simp: gw_inv_defs g' hangup reg_end_def split: option.splits)
    next
      case (start t i a b)
      with startCall_inv [OF assms(2)] g' show ?thesis by simp
    qed (use assms eq g' in simp)
  next
    case (GwStep s oc)
    with assms session_step_inv show ?thesis by simp
  next
    case GwDrainTimeout
    have "\<forall>c \<in> set (gw_log g). cmd_ok cfg g' c"
      using assms GwDrainTimeout cmd_ok_mono [of g g'] by (auto simp: gw_inv_def cancel_stragglers_def same_calls_def)
    then show ?thesis
      using assms GwDrainTimeout by (auto simp: gw_inv_defs cancel_stragglers_def same_calls_def ran_def)
  qed
  then show "gw_inv cfg g'" "same_calls g g'" by simp_all
qed

lemma gw_step_inv: "gw_step cfg g g' \<Longrightarrow> gw_inv cfg g \<Longrightarrow> gw_inv cfg g'"
  unfolding gw_step_def using gw_do_inv(1) by blast

interpretation gws: step_system "\<lambda>g. g = newGateway" "gw_step cfg" "gw_inv cfg" for cfg
  by unfold_locales (simp add: gw_inv_defs newGateway_def, rule gw_step_inv)

text \<open>
  No call is taken without a tenant: in every run, whatever webhooks arrive and whatever the carrier
  answers, a call is answered only when its number is routed to a tenant, every event published is the
  first of its call, a call start that carries the tenant of the number that was dialled, and a call is only
  ever handed to the configured owner.
\<close>

theorem gateway_resolves_every_tenant:
  assumes "run_of (gw_step cfg) newGateway g"
  shows "list_all (cmd_ok cfg g) (gw_log g)"
  using gws.inv_reachable [OF refl assms] by (simp add: gw_inv_def list_all_iff)

definition initiated :: "string \<Rightarrow> string \<Rightarrow> string \<Rightarrow> json option" where
  "initiated i a b = Some (JObj [(''data'', JObj [(''event_type'', JStr ''call.initiated''),
     (''payload'', JObj [(''call_control_id'', JStr i), (''from'', JStr a), (''to'', JStr b)])])])"

definition hung_up :: "string \<Rightarrow> json option" where
  "hung_up i = Some (JObj [(''data'', JObj [(''event_type'', JStr ''call.hangup''),
     (''payload'', JObj [(''call_control_id'', JStr i)])])])"

lemmas webhook_decoding = unmarshal_def webhook_fields_def webhook_data_fields_def webhook_payload_fields_def fld_defs
  field_for_def fold_name_def fold_rune_def ascii_evals webhook0_def

lemma handle_initiated:
  "handleWebhook cfg (initiated i a b) g =
     (200, case gc_tenant_by_did cfg b of None \<Rightarrow> emit_cmd (CmdHangup i) g | Some t \<Rightarrow> startCall (WithTenant None t) i a b g)"
  by (simp add: handleWebhook_def initiated_def webhook_decoding split: option.splits)

lemma handle_hung_up: "handleWebhook cfg (hung_up i) g = (200, reg_end i g)"
  by (simp add: handleWebhook_def hung_up_def webhook_decoding)

definition demo_gateway_config :: gw_config where
  "demo_gateway_config = \<lparr>gc_http_addr = [], gc_nats_url = [], gc_event_subject_prefix = [], gc_telnyx_api_key = [],
     gc_tenant_by_did = [''+15145550100'' \<mapsto> ''acme''], gc_owner_phone = ''+15145550199'', gc_drain_timeout = 0,
     gc_media_backend = backendTelnyx, gc_asterisk = no_asterisk, gc_media_listen_addr = []\<rparr>"

definition answered_ok :: gw_outcome where
  "answered_ok = \<lparr>go_answer = None, go_event_id = ''e1'', go_now = 7\<rparr>"

definition one_call :: "gw_move list" where
  "one_call = [GwWebhook (initiated ''c1'' ''+1438'' ''+15145550100''), GwStep 0 answered_ok, GwStep 0 answered_ok]"

lemmas gw_eval = startCall_def reg_add_def Let_def session_step_def WithTenant_def FromContext_def emit_cmd_def set_phase_def
  answered_ok_def demo_gateway_config_def newGateway_def New_def handle_initiated handle_hung_up

lemma one_call_run:
  "\<exists>g. gw_run demo_gateway_config one_call newGateway = Some g \<and> length (gw_log g) = 2 \<and> gw_sessions g ''c1'' = Some 0"
  by (simp add: one_call_def gw_eval)

theorem gateway_resolves_every_tenant_witness:
  "\<exists>g. gw_run demo_gateway_config one_call newGateway = Some g \<and> length (gw_log g) = 2 \<and>
     list_all (cmd_ok demo_gateway_config g) (gw_log g)"
proof -
  obtain g where g: "gw_run demo_gateway_config one_call newGateway = Some g" "length (gw_log g) = 2" using one_call_run by blast
  from gateway_resolves_every_tenant [OF gw_run_run_of [OF g(1) run_refl]] g show ?thesis by blast
qed

section \<open>Drain\<close>

definition weight :: "call_phase \<Rightarrow> nat" where
  "weight ph = (case ph of Answering \<Rightarrow> 3 | Publishing \<Rightarrow> 2 | Holding \<Rightarrow> 1 | Finished \<Rightarrow> 0)"

definition work :: "gateway \<Rightarrow> nat" where
  "work g = (\<Sum>s < gw_next g. case gw_calls g s of None \<Rightarrow> 0 | Some c \<Rightarrow> weight (gl_phase c))"

definition unique_ids :: "gateway \<Rightarrow> bool" where
  "unique_ids g \<longleftrightarrow> (\<forall>s s' c c'. gw_calls g s = Some c \<longrightarrow> gw_calls g s' = Some c' \<longrightarrow> gl_id c = gl_id c' \<longrightarrow> s = s')"

definition unfinished :: "gateway \<Rightarrow> nat \<Rightarrow> bool" where
  "unfinished g s \<longleftrightarrow> (\<exists>c. gw_calls g s = Some c \<and> gl_phase c \<noteq> Finished)"

text \<open>Every call whose goroutine runs can be found in the registry.\<close>

definition registered :: "gateway \<Rightarrow> bool" where
  "registered g \<longleftrightarrow> (\<forall>s c. gw_calls g s = Some c \<longrightarrow> gl_phase c \<noteq> Finished \<longrightarrow> gw_sessions g (gl_id c) = Some s)"

lemma unique_ids_mono: "same_calls g g' \<Longrightarrow> unique_ids g' \<Longrightarrow> unique_ids g"
  unfolding same_calls_def unique_ids_def by (metis gw_call.select_convs(1) gw_call.surjective gw_call.update_convs(5))

lemma weight_drops:
  assumes "session_step cfg oc s g = Some g'"
  shows "\<exists>c ph. gw_calls g s = Some c \<and> gw_calls g' = (gw_calls g)(s \<mapsto> c\<lparr>gl_phase := ph\<rparr>) \<and> gw_next g' = gw_next g \<and>
     weight ph < weight (gl_phase c)"
proof -
  obtain c where c: "gw_calls g s = Some c" using assms by (auto simp: session_step_def split: option.splits)
  note defs = session_step_def finish_call_def set_phase_def reg_remove_def emit_cmd_def weight_def
  show ?thesis
  proof (cases "gl_phase c")
    case Answering
    with assms c show ?thesis by (auto simp: defs Let_def intro!: exI [of _ c] split: if_splits option.splits sum.splits)
  next
    case Publishing
    with assms c show ?thesis by (auto simp: defs intro!: exI [of _ c] split: if_splits sum.splits)
  next
    case Holding
    with assms c show ?thesis by (auto simp: defs intro!: exI [of _ c] split: if_splits)
  qed (use assms c in \<open>simp add: defs\<close>)
qed

lemma work_drops:
  assumes "session_step cfg oc s g = Some g'" and "gw_inv cfg g"
  shows "work g' < work g" "gw_next g' = gw_next g"
proof -
  obtain c ph where e: "gw_calls g s = Some c" "gw_calls g' = (gw_calls g)(s \<mapsto> c\<lparr>gl_phase := ph\<rparr>)" "gw_next g' = gw_next g"
    "weight ph < weight (gl_phase c)"
    using weight_drops [OF assms(1)] by blast
  have s: "s < gw_next g" using assms(2) e(1) by (auto simp: gw_inv_defs)
  show "work g' < work g"
    unfolding work_def e(3) by (rule sum_strict_mono_ex1) (use e s in auto)
  show "gw_next g' = gw_next g" by (rule e(3))
qed

lemma session_step_registry:
  assumes "session_step cfg oc s g = Some g'"
  shows "\<exists>c. gw_calls g s = Some c \<and> (gw_sessions g' = gw_sessions g \<or>
     (gw_sessions g' = (gw_sessions g)(gl_id c := None) \<and> \<not> unfinished g' s))"
proof -
  obtain c where c: "gw_calls g s = Some c" using assms by (auto simp: session_step_def split: option.splits)
  note defs = session_step_def finish_call_def set_phase_def reg_remove_def emit_cmd_def unfinished_def
  show ?thesis
  proof (cases "gl_phase c")
    case Answering
    with assms c show ?thesis by (auto simp: defs Let_def split: if_splits option.splits sum.splits)
  next
    case Publishing
    with assms c show ?thesis by (auto simp: defs split: if_splits sum.splits)
  next
    case Holding
    with assms c show ?thesis by (auto simp: defs split: if_splits)
  qed (use assms c in \<open>simp add: defs\<close>)
qed

lemma gw_do_registered:
  assumes "gw_do cfg m g = Some g'" and "gw_inv cfg g" and "registered g" and "unique_ids g'"
  shows "registered g'"
proof (cases m)
  case (GwWebhook body)
  then have g': "g' = snd (handleWebhook cfg body g)" using assms(1) by simp
  from webhook_effect [of cfg body g] show ?thesis
  proof cases
    case (start t i a b)
    have new: "gw_calls g (gw_next g) = None"
      using assms(2) by (cases "gw_calls g (gw_next g)") (auto simp: gw_inv_defs)
    show ?thesis
      unfolding registered_def
    proof (intro allI impI)
      fix s c assume c: "gw_calls g' s = Some c" "gl_phase c \<noteq> Finished"
      let ?k = "\<lparr>gl_id = i, gl_ctx = WithTenant None t, gl_from = a, gl_to = b, gl_phase = Answering\<rparr>"
      have calls: "gw_calls g' = (gw_calls g)(gw_next g \<mapsto> ?k)" "gw_sessions g' = (gw_sessions g)(i \<mapsto> gw_next g)"
        by (simp_all add: g' start startCall_def reg_add_def Let_def)
      show "gw_sessions g' (gl_id c) = Some s"
      proof (cases "s = gw_next g")
        case False
        have k: "gw_calls g' (gw_next g) = Some ?k" using calls by simp
        have "gl_id c \<noteq> gl_id ?k" using assms(4) c(1) k False unfolding unique_ids_def by blast
        with False assms(3) c calls show ?thesis by (simp add: registered_def)
      qed (use c calls in auto)
    qed
  qed (use assms(3) g' in \<open>simp_all add: registered_def emit_cmd_def reg_end_def split: option.splits\<close>)
next
  case (GwStep s oc)
  then have st: "session_step cfg oc s g = Some g'" using assms(1) by simp
  obtain c ph where e: "gw_calls g s = Some c" "gw_calls g' = (gw_calls g)(s \<mapsto> c\<lparr>gl_phase := ph\<rparr>)"
    "weight ph < weight (gl_phase c)"
    using weight_drops [OF st] by blast
  have live: "gl_phase c \<noteq> Finished" using e(3) by (auto simp: weight_def)
  have u: "unique_ids g" using unique_ids_mono [OF gw_do_inv(2) [OF assms(1,2)] assms(4)] .
  from session_step_registry [OF st] e(1)
  have reg: "gw_sessions g' = gw_sessions g \<or> (gw_sessions g' = (gw_sessions g)(gl_id c := None) \<and> \<not> unfinished g' s)" by auto
  then have others: "gw_sessions g' (gl_id k) = Some r" if "gw_calls g r = Some k" "gl_phase k \<noteq> Finished" "r \<noteq> s" for r k
    using assms(3) u e(1) that unfolding registered_def unique_ids_def by auto
  have "gw_sessions g' (gl_id c) = Some s" if "ph \<noteq> Finished"
    using reg assms(3) e that live by (auto simp: registered_def unfinished_def)
  with others e(2) show ?thesis unfolding registered_def by (auto split: if_splits)
next
  case GwDrainTimeout
  with assms show ?thesis by (simp add: registered_def cancel_stragglers_def) auto
qed

lemma reachable_registered: "run_of (gw_step cfg) newGateway g \<Longrightarrow> unique_ids g \<Longrightarrow> registered g"
proof (induction "newGateway" g rule: run_of.induct)
  case run_refl
  then show ?case by (simp add: registered_def newGateway_def)
next
  case (run_step g g')
  then obtain m where m: "gw_do cfg m g = Some g'" by (auto simp: gw_step_def)
  have inv: "gw_inv cfg g" using gws.inv_reachable [OF refl run_step(1)] .
  have "unique_ids g" using unique_ids_mono [OF gw_do_inv(2) [OF m inv] run_step(4)] .
  then show ?case using gw_do_registered [OF m inv] run_step by blast
qed

text \<open>After the timeout every unfinished call is cancelled; then each has a step until all are done.\<close>

definition reached :: "gateway \<Rightarrow> bool" where
  "reached g \<longleftrightarrow> (\<forall>s. unfinished g s \<longrightarrow> s \<in> gw_cancelled g)"

lemma reached_step:
  assumes "session_step cfg oc s g = Some g'" and "gw_inv cfg g" and "reached g"
  shows "reached g'"
  unfolding reached_def
proof (intro allI impI)
  obtain c ph where e: "gw_calls g s = Some c" "gw_calls g' = (gw_calls g)(s \<mapsto> c\<lparr>gl_phase := ph\<rparr>)"
    "weight ph < weight (gl_phase c)" and k: "gw_cancelled g' = gw_cancelled g"
    using session_step_log [OF assms(1,2)] weight_drops [OF assms(1)] by auto
  have "unfinished g s" using e(1,3) by (auto simp: unfinished_def weight_def)
  fix r assume "unfinished g' r"
  then have "unfinished g r" using \<open>unfinished g s\<close> e(2) by (cases "r = s") (auto simp: unfinished_def)
  with assms(3) k show "r \<in> gw_cancelled g'" by (simp add: reached_def)
qed

lemma unfinished_moves:
  assumes "gw_inv cfg g" and "reached g" and "unfinished g s"
  shows "session_step cfg oc s g \<noteq> None"
proof -
  obtain c where c: "gw_calls g s = Some c" "gl_phase c \<noteq> Finished" using assms(3) by (auto simp: unfinished_def)
  have "call_ok cfg (gw_next g) s c" using assms(1) c by (auto simp: gw_inv_def calls_ok_def)
  moreover have "s \<in> gw_cancelled g" using assms(2,3) by (simp add: reached_def)
  ultimately show ?thesis
    using c by (cases "gl_phase c")
      (auto simp: session_step_def call_ok_def FromContext_def Let_def split: option.splits sum.splits)
qed

fun session_run :: "gw_config \<Rightarrow> (nat \<times> gw_outcome) list \<Rightarrow> gateway \<Rightarrow> gateway option" where
  "session_run cfg [] g = Some g"
| "session_run cfg ((s, oc) # ps) g = (case session_step cfg oc s g of None \<Rightarrow> None | Some g' \<Rightarrow> session_run cfg ps g')"

text \<open>Winding down: only the goroutines move.\<close>

definition wind_step :: "gw_config \<Rightarrow> gateway \<Rightarrow> gateway \<Rightarrow> bool" where
  "wind_step cfg g g' \<longleftrightarrow> (\<exists>s oc. session_step cfg oc s g = Some g')"

interpretation gwd: winding_system "\<lambda>g. gw_inv cfg g \<and> reached g" "wind_step cfg" "\<lambda>g. gw_inv cfg g \<and> reached g" work for cfg
  by unfold_locales (auto simp: wind_step_def intro: session_step_inv(1) reached_step work_drops(1))

lemma session_run_steps: "session_run cfg ps g = Some g' \<Longrightarrow> (wind_step cfg ^^ length ps) g g'"
proof (induction ps arbitrary: g)
  case (Cons p ps)
  obtain s oc where p: "p = (s, oc)" by fastforce
  with Cons.prems obtain g1 where g1: "session_step cfg oc s g = Some g1" "session_run cfg ps g1 = Some g'"
    by (auto split: option.splits)
  then have "wind_step cfg g g1" by (auto simp: wind_step_def)
  from relpowp_Suc_I2 [OF this Cons.IH [OF g1(2)]] show ?case by simp
qed simp

lemma session_run_bounds:
  "session_run cfg ps g = Some g' \<Longrightarrow> gw_inv cfg g \<Longrightarrow> reached g \<Longrightarrow>
   length ps + work g' \<le> work g \<and> gw_inv cfg g' \<and> reached g'"
  using gwd.winds_down [of cfg g "length ps" g'] session_run_steps [of cfg ps g g'] by simp

lemma work_bound: "work g \<le> 3 * gw_next g"
proof -
  have "work g \<le> (\<Sum>s < gw_next g. 3)"
    unfolding work_def by (rule sum_mono) (auto simp: weight_def split: option.splits call_phase.splits)
  then show ?thesis by simp
qed


definition held :: "gw_cmd list \<Rightarrow> gateway" where
  "held l = \<lparr>gw_sessions = [''c1'' \<mapsto> 0], gw_calls = [0 \<mapsto> \<lparr>gl_id = ''c1'', gl_ctx = Some ''acme'', gl_from = ''+1438'',
     gl_to = ''+15145550100'', gl_phase = Holding\<rparr>], gw_next = 1, gw_cancelled = {}, gw_log = l\<rparr>"

lemma one_call_held: "\<exists>l. gw_run demo_gateway_config one_call newGateway = Some (held l)"
  by (simp add: one_call_def gw_eval held_def)


section \<open>A repeated webhook\<close>

text \<open>A session nothing can cancel any more: it is no longer in the registry.\<close>

definition unreachable :: "nat \<Rightarrow> gateway \<Rightarrow> bool" where
  "unreachable s g \<longleftrightarrow> s \<notin> ran (gw_sessions g) \<and> s \<notin> gw_cancelled g \<and> s < gw_next g"

definition holds_phase :: "nat \<Rightarrow> gateway \<Rightarrow> bool" where
  "holds_phase s g \<longleftrightarrow> (\<exists>c. gw_calls g s = Some c \<and> gl_phase c = Holding)"

lemma unreachable_start:
  "unreachable s g \<Longrightarrow> unreachable s (startCall ctx i a b g) \<and> (holds_phase s g \<longrightarrow> holds_phase s (startCall ctx i a b g))"
  by (auto simp: unreachable_def holds_phase_def startCall_def reg_add_def Let_def ran_def split: if_splits)

lemma unreachable_step:
  assumes "gw_step cfg g g'" and "gw_inv cfg g" and "unreachable s g"
  shows "unreachable s g' \<and> (holds_phase s g \<longrightarrow> holds_phase s g')"
proof -
  obtain m where m: "gw_do cfg m g = Some g'" using assms(1) unfolding gw_step_def by blast
  show ?thesis
  proof (cases m)
    case (GwWebhook body)
    then have g': "g' = snd (handleWebhook cfg body g)" using m by simp
    from webhook_effect [of cfg body g] show ?thesis
      using assms(3) unreachable_start g'
      by cases (auto simp: unreachable_def holds_phase_def emit_cmd_def reg_end_def ran_def split: option.splits)
  next
    case (GwStep r oc)
    then have st: "session_step cfg oc r g = Some g'" using m by simp
    obtain c ph where e: "gw_calls g r = Some c" "gw_calls g' = (gw_calls g)(r \<mapsto> c\<lparr>gl_phase := ph\<rparr>)" "gw_next g' = gw_next g"
      "gw_cancelled g' = gw_cancelled g" "gw_sessions g' \<subseteq>\<^sub>m gw_sessions g"
      using session_step_log [OF st assms(2)] by auto
    have u: "unreachable s g'" using assms(3) e unfolding unreachable_def ran_def map_le_def by (auto simp: dom_def)
    moreover have "r \<noteq> s" if "holds_phase s g"
      using that st assms(3) by (auto simp: holds_phase_def unreachable_def session_step_def)
    then have "holds_phase s g \<longrightarrow> holds_phase s g'" using e(2) by (auto simp: holds_phase_def)
    ultimately show ?thesis ..
  next
    case GwDrainTimeout
    with m assms(3) show ?thesis by (auto simp: unreachable_def holds_phase_def cancel_stragglers_def)
  qed
qed

lemma unreachable_run:
  "run_of (gw_step cfg) g g' \<Longrightarrow> gw_inv cfg g \<Longrightarrow> unreachable s g \<Longrightarrow>
   gw_inv cfg g' \<and> unreachable s g' \<and> (holds_phase s g \<longrightarrow> holds_phase s g')"
  by (induction rule: run_of.induct) (use unreachable_step gw_step_inv in blast)+

text \<open>
  A carrier that repeats the webhook of a new call makes shutdown hang. The second session replaces the
  first one in the registry, so from then on nothing cancels the first, not the hangup of the
  call and not the drain timeout: once its goroutine holds the line, the wait group never comes to zero again.
\<close>

theorem repeated_webhook_hangs_shutdown:
  assumes "run_of (gw_step cfg) newGateway g" and "gc_tenant_by_did cfg b = Some t"
    and "gw_run cfg [GwWebhook (initiated i a b), GwWebhook (initiated i a b)] g = Some g2"
    and "run_of (gw_step cfg) g2 g3" and "holds_phase (gw_next g) g3" and "run_of (gw_step cfg) g3 g4"
  shows "gw_next g \<notin> gw_cancelled g4 \<and> \<not> drained g4"
proof -
  have inv: "gw_inv cfg g" using gws.inv_reachable [OF refl assms(1)] .
  have g2: "g2 = startCall (WithTenant None t) i a b (startCall (WithTenant None t) i a b g)"
    using assms(2,3) by (simp add: handle_initiated)
  have "unreachable (gw_next g) g2"
    using inv by (force simp: g2 unreachable_def startCall_def reg_add_def Let_def ran_def gw_inv_defs split: if_splits)
  moreover have "gw_inv cfg g2" using startCall_inv(1) inv assms(2) by (simp add: g2)
  ultimately have 3: "gw_inv cfg g3" "unreachable (gw_next g) g3" using unreachable_run [OF assms(4)] by blast+
  then have "unreachable (gw_next g) g4" "holds_phase (gw_next g) g4" using unreachable_run [OF assms(6)] assms(5) by blast+
  then show ?thesis by (auto simp: unreachable_def holds_phase_def drained_def split: option.splits)
qed

definition shutdown_moves :: "gw_move list" where
  "shutdown_moves = [GwWebhook (hung_up ''c1''), GwStep 1 answered_ok, GwDrainTimeout]"

theorem repeated_webhook_hangs_shutdown_witness:
  "\<exists>g2 g3 g4. gw_run demo_gateway_config [GwWebhook (initiated ''c1'' ''+1438'' ''+15145550100''),
       GwWebhook (initiated ''c1'' ''+1438'' ''+15145550100'')] newGateway = Some g2 \<and>
     gw_run demo_gateway_config [GwStep 0 answered_ok, GwStep 0 answered_ok, GwStep 1 answered_ok, GwStep 1 answered_ok] g2 = Some g3 \<and>
     gw_run demo_gateway_config shutdown_moves g3 = Some g4 \<and> gw_sessions g4 ''c1'' = None \<and> \<not> drained g4"
proof -
  let ?c = demo_gateway_config
  obtain g2 where g2: "gw_run ?c [GwWebhook (initiated ''c1'' ''+1438'' ''+15145550100''),
       GwWebhook (initiated ''c1'' ''+1438'' ''+15145550100'')] newGateway = Some g2"
    by (simp add: gw_eval)
  then have g2': "g2 = startCall (Some ''acme'') ''c1'' ''+1438'' ''+15145550100'' (startCall (Some ''acme'') ''c1'' ''+1438'' ''+15145550100'' newGateway)"
    by (simp add: handle_initiated demo_gateway_config_def WithTenant_def)
  have "\<exists>g3. gw_run ?c [GwStep 0 answered_ok, GwStep 0 answered_ok, GwStep 1 answered_ok, GwStep 1 answered_ok] g2 = Some g3 \<and>
     holds_phase 0 g3 \<and> (\<exists>g4. gw_run ?c shutdown_moves g3 = Some g4 \<and> gw_sessions g4 ''c1'' = None)"
    by (simp add: g2' gw_eval holds_phase_def shutdown_moves_def reg_end_def finish_call_def reg_remove_def cancel_stragglers_def)
  then obtain g3 g4 where g3: "gw_run ?c [GwStep 0 answered_ok, GwStep 0 answered_ok, GwStep 1 answered_ok, GwStep 1 answered_ok] g2 = Some g3"
    "holds_phase 0 g3" and g4: "gw_run ?c shutdown_moves g3 = Some g4" "gw_sessions g4 ''c1'' = None" by blast
  have t: "gc_tenant_by_did ?c ''+15145550100'' = Some ''acme''" "gw_next newGateway = 0"
    by (simp_all add: demo_gateway_config_def newGateway_def)
  from repeated_webhook_hangs_shutdown [OF run_refl t(1) g2 gw_run_run_of [OF g3(1) run_refl] _ gw_run_run_of [OF g4(1) run_refl]]
  show ?thesis using g2 g3 g4 t(2) by auto
qed

end
