(* ===== verification/Drain.thy ===== *)
theory Drain
  imports FD_Prelude
begin

text \<open>
  \<open>internal/asterisk/drain.go\<close>: the blue/green drain. Channels are numbers; a channel is ready to be received from once it is
  closed, and closing it twice would panic (\<open>None\<close>).
\<close>

definition ErrDrainTimeout :: gerr where
  "ErrDrainTimeout = Sentinel ''asterisk: drain ceiling reached with active calls''"

record drainer =
  dr_active :: "string set"
  dr_draining :: bool
  dr_empty :: "nat option"
  dr_next :: nat
  dr_closed :: "nat set"

definition NewDrainer :: drainer where
  "NewDrainer = \<lparr>dr_active = {}, dr_draining = False, dr_empty = None, dr_next = 0, dr_closed = {}\<rparr>"

definition close_chan :: "nat \<Rightarrow> drainer \<Rightarrow> drainer option" where
  "close_chan ch d = (if ch \<in> dr_closed d then None else Some (d\<lparr>dr_closed := insert ch (dr_closed d)\<rparr>))"

definition CallStarted :: "string \<Rightarrow> drainer \<Rightarrow> drainer" where
  "CallStarted i d = d\<lparr>dr_active := insert i (dr_active d)\<rparr>"

definition CallEnded :: "string \<Rightarrow> drainer \<Rightarrow> drainer option" where
  "CallEnded i d0 =
     (let d = d0\<lparr>dr_active := dr_active d0 - {i}\<rparr> in
      case dr_empty d of
        Some ch \<Rightarrow>
          if dr_draining d \<and> dr_active d = {} then map_option (\<lambda>d. d\<lparr>dr_empty := None\<rparr>) (close_chan ch d)
          else Some d
      | None \<Rightarrow> Some d)"

definition Active :: "drainer \<Rightarrow> nat" where "Active d = card (dr_active d)"
definition Ready :: "drainer \<Rightarrow> bool" where "Ready d = (\<not> dr_draining d)"

text \<open>\<open>Drain\<close> up to its select: \<open>None\<close> when it returns at once, else the channel it waits on.\<close>

definition drain_begin :: "drainer \<Rightarrow> nat option \<times> drainer" where
  "drain_begin d0 =
     (let d = d0\<lparr>dr_draining := True\<rparr> in
      if dr_active d = {} then (None, d)
      else let d = (if dr_empty d = None then d\<lparr>dr_empty := Some (dr_next d), dr_next := dr_next d + 1\<rparr> else d)
           in (dr_empty d, d))"

datatype drain_wake = WakeEmpty | WakeTimer | WakeCtx gerr

text \<open>The select of \<open>Drain\<close>: \<open>None\<close> when the case is not ready.\<close>

definition drain_end :: "nat \<Rightarrow> int \<Rightarrow> drain_wake \<Rightarrow> drainer \<Rightarrow> gerr option option" where
  "drain_end ch maxDrain wake d =
     (case wake of
        WakeEmpty \<Rightarrow> if ch \<in> dr_closed d then Some None else None
      | WakeTimer \<Rightarrow> Some (Some (Wrap ''%w: %d call(s) after %s'' [FI (int (Active d)), FI maxDrain] ErrDrainTimeout))
      | WakeCtx e \<Rightarrow> Some (Some (Wrap ''asterisk: drain interrupted: %w'' [] e)))"

datatype drain_op = OpStarted string | OpEnded string | OpDrain

fun drain_do :: "drain_op \<Rightarrow> drainer \<Rightarrow> drainer option" where
  "drain_do (OpStarted i) d = Some (CallStarted i d)"
| "drain_do (OpEnded i) d = CallEnded i d"
| "drain_do OpDrain d = Some (snd (drain_begin d))"

fun drain_run :: "drain_op list \<Rightarrow> drainer \<Rightarrow> drainer option" where
  "drain_run [] d = Some d"
| "drain_run (x # xs) d = (case drain_do x d of None \<Rightarrow> None | Some d' \<Rightarrow> drain_run xs d')"

section \<open>Specification\<close>

text \<open>What a caller of the package sees: the set of active calls after each operation.\<close>

fun spec_active :: "drain_op \<Rightarrow> string set \<Rightarrow> string set" where
  "spec_active (OpStarted i) A = insert i A"
| "spec_active (OpEnded i) A = A - {i}"
| "spec_active OpDrain A = A"

fun spec_run :: "drain_op list \<Rightarrow> string set \<Rightarrow> string set" where
  "spec_run [] A = A"
| "spec_run (x # xs) A = spec_run xs (spec_active x A)"

text \<open>Did the line fall idle at some point of the sequence?\<close>

fun falls_idle :: "drain_op list \<Rightarrow> string set \<Rightarrow> bool" where
  "falls_idle [] A = False"
| "falls_idle (x # xs) A = (spec_active x A = {} \<or> falls_idle xs (spec_active x A))"

definition drain_inv :: "drainer \<Rightarrow> bool" where
  "drain_inv d \<longleftrightarrow>
     (\<forall>ch \<in> dr_closed d. ch < dr_next d) \<and>
     (\<forall>ch. dr_empty d = Some ch \<longrightarrow> ch < dr_next d \<and> ch \<notin> dr_closed d \<and> dr_draining d \<and> dr_active d \<noteq> {})"

lemmas drain_defs = drain_inv_def CallStarted_def CallEnded_def drain_begin_def close_chan_def Let_def

lemma drain_do_inv [fd_inv]:
  assumes "drain_inv d"
  shows "\<exists>d'. drain_do x d = Some d' \<and> drain_inv d' \<and> dr_active d' = spec_active x (dr_active d) \<and>
     dr_closed d \<subseteq> dr_closed d' \<and> (dr_draining d \<longrightarrow> dr_draining d') \<and>
     (\<forall>ch. dr_empty d = Some ch \<longrightarrow> (if spec_active x (dr_active d) = {} then ch \<in> dr_closed d' else dr_empty d' = Some ch))"
proof (cases x)
  case (OpStarted i)
  with assms show ?thesis by (simp add: drain_defs)
next
  case (OpEnded i)
  with assms show ?thesis by (cases "dr_empty d") (auto simp: drain_defs)
next
  case OpDrain
  with assms show ?thesis by (cases "dr_empty d") (auto simp: drain_defs less_SucI)
qed

interpretation drn: step_system "\<lambda>d. d = NewDrainer" "\<lambda>d d'. \<exists>x. drain_do x d = Some d'" drain_inv
proof
  fix d d' assume "drain_inv d" "\<exists>x. drain_do x d = Some d'"
  then show "drain_inv d'" using drain_do_inv [of d] by (metis option.inject)
qed (simp add: drain_inv_def NewDrainer_def)

lemma drain_run_spec:
  "drain_inv d \<Longrightarrow> \<exists>d'. drain_run xs d = Some d' \<and> drain_inv d' \<and> dr_active d' = spec_run xs (dr_active d) \<and>
     dr_closed d \<subseteq> dr_closed d' \<and> (dr_draining d \<longrightarrow> dr_draining d')"
proof (induction xs arbitrary: d)
  case (Cons x xs)
  from drain_do_inv [OF Cons.prems, of x] obtain d1 where d1: "drain_do x d = Some d1" "drain_inv d1"
    "dr_active d1 = spec_active x (dr_active d)" "dr_closed d \<subseteq> dr_closed d1" "dr_draining d \<longrightarrow> dr_draining d1" by blast
  with Cons.IH [OF d1(2)] show ?case by auto
qed simp

lemma drain_run_released:
  "drain_inv d \<Longrightarrow> dr_empty d = Some ch \<Longrightarrow> drain_run xs d = Some d' \<Longrightarrow> ch \<in> dr_closed d' \<longleftrightarrow> falls_idle xs (dr_active d)"
proof (induction xs arbitrary: d)
  case Nil
  then show ?case by (simp add: drain_inv_def)
next
  case (Cons x xs)
  from drain_do_inv [OF Cons.prems(1), of x] Cons.prems(2) obtain d1 where d1: "drain_do x d = Some d1" "drain_inv d1"
    "dr_active d1 = spec_active x (dr_active d)"
    "if spec_active x (dr_active d) = {} then ch \<in> dr_closed d1 else dr_empty d1 = Some ch" by blast
  have r: "drain_run xs d1 = Some d'" using Cons.prems(3) d1(1) by simp
  show ?case
  proof (cases "spec_active x (dr_active d) = {}")
    case True
    then have "ch \<in> dr_closed d1" using d1(4) by simp
    then have "ch \<in> dr_closed d'" using drain_run_spec [OF d1(2), of xs] r by auto
    with True show ?thesis by simp
  next
    case False
    with d1 Cons.IH [OF d1(2) _ r] show ?thesis by simp
  qed
qed

text \<open>
  C14: the drainer refines its specification and never panics: every sequence of starts, ends and drains runs to its
  end (no channel is closed twice), the active calls are those of the specification, and from the
  first drain on the process is never ready again.
\<close>

theorem drainer_refines_active_set:
  "\<exists>d. drain_run xs NewDrainer = Some d \<and> dr_active d = spec_run xs {} \<and> Active d = card (spec_run xs {}) \<and>
     Ready d = (OpDrain \<notin> set xs)"
proof -
  have "\<exists>d'. drain_run xs d = Some d' \<and> dr_active d' = spec_run xs (dr_active d) \<and>
      dr_draining d' = (dr_draining d \<or> OpDrain \<in> set xs)" if "drain_inv d" for d
    using that
  proof (induction xs arbitrary: d)
    case (Cons x xs)
    from drain_do_inv [OF Cons.prems, of x] obtain d1 where d1: "drain_do x d = Some d1" "drain_inv d1"
      "dr_active d1 = spec_active x (dr_active d)" by blast
    have "dr_draining d1 = (dr_draining d \<or> x = OpDrain)"
      using d1(1) by (cases x) (auto simp: drain_defs split: option.splits if_splits)
    with Cons.IH [OF d1(2)] d1 show ?case by auto
  qed simp
  from this [OF drn.inv_start [OF refl]] show ?thesis by (auto simp: Active_def Ready_def NewDrainer_def)
qed

text \<open>
  No drain is lost or released early: a \<open>Drain\<close> that had to wait may return without an error after a sequence of
  further starts, ends and drains exactly when the set of active calls became empty at some point of it, even if calls
  started again afterwards; until then only the ceiling or its context end it.
\<close>

theorem drain_released_iff_idle:
  assumes "drain_run xs NewDrainer = Some d" and "drain_begin d = (Some ch, d1)" and "drain_run ys d1 = Some d2"
  shows "drain_end ch maxDrain WakeEmpty d2 = (if falls_idle ys (dr_active d) then Some None else None)"
proof -
  have "drain_inv d" using drain_run_spec [OF drn.inv_start [OF refl], of xs] assms(1) by auto
  moreover from this have "drain_inv d1" using drain_do_inv [of d OpDrain] assms(2) by auto
  moreover have "dr_empty d1 = Some ch" "dr_active d1 = dr_active d"
    using assms(2) by (auto simp: drain_begin_def Let_def split: if_splits)
  ultimately show ?thesis using drain_run_released [of d1 ch ys d2] assms(3) by (simp add: drain_end_def)
qed

theorem drain_released_iff_idle_witness:
  "\<exists>d d1 d2. drain_run [OpStarted ''a'', OpStarted ''b''] NewDrainer = Some d \<and> drain_begin d = (Some 0, d1) \<and>
     drain_run [OpEnded ''a'', OpEnded ''b'', OpStarted ''c''] d1 = Some d2 \<and> drain_end 0 1 WakeEmpty d2 = Some None"
proof -
  obtain d where d: "drain_run [OpStarted ''a'', OpStarted ''b''] NewDrainer = Some d" by simp
  then have a: "dr_active d = {''a'', ''b''}" "dr_empty d = None" "dr_next d = 0"
    by (auto simp: NewDrainer_def CallStarted_def)
  obtain d1 where d1: "drain_begin d = (Some 0, d1)" using a by (simp add: drain_begin_def Let_def)
  have "drain_inv d" using drain_run_spec [OF drn.inv_start [OF refl], of "[OpStarted ''a'', OpStarted ''b'']"] d by auto
  then have "drain_inv d1" using drain_do_inv [of d OpDrain] d1 by auto
  then obtain d2 where d2: "drain_run [OpEnded ''a'', OpEnded ''b'', OpStarted ''c''] d1 = Some d2"
    using drain_run_spec by blast
  from drain_released_iff_idle [OF d d1 d2, of 1] d d1 d2 a show ?thesis by auto
qed

end
