(* ===== verification/Rehydrate.thy ===== *)
theory Rehydrate
  imports Audiobank Store_Mem
begin

text \<open>
  \<open>internal/asterisk/rehydrate.go\<close>: the recovery of the live channels at boot. The collaborators are the fields of the
  configuration; player and call control answer as they like, given what was commanded before. What the
  recovery relies on of the clip source is the locale of \<open>Audiobank\<close>.
\<close>

definition TransferRecoveredOrphan :: string where "TransferRecoveredOrphan = ''recovered_orphan''"

datatype rh_cmd =
    RhPlay string clip
  | RhTransfer string string
  | RhHangup string
  | HookResumed string call_snapshot
  | HookOrphan string
  | HookStale string

type_synonym 'a answers = "rh_cmd list \<Rightarrow> 'a"

text \<open>\<open>rc_calls\<close> is \<open>GetCall\<close> under the context of the boot; a nil collaborator is \<open>None\<close>.\<close>

record rehydrator =
  rc_ari :: "string list res option"
  rc_calls :: "(string \<Rightarrow> call res) option"
  rc_clips :: "(clip_key \<Rightarrow> go_locale \<Rightarrow> clip res) option"
  rc_player :: "(string \<Rightarrow> clip \<Rightarrow> rh_cmd list \<Rightarrow> gerr option) option"
  rc_control :: "((string \<Rightarrow> string \<Rightarrow> rh_cmd list \<Rightarrow> gerr option) \<times> (string \<Rightarrow> rh_cmd list \<Rightarrow> gerr option)) option"
  rc_owner_cell :: string
  rc_reanchor_key :: clip_key
  rc_on_resumed :: bool
  rc_on_orphan :: bool
  rc_on_stale :: bool

definition NewRehydrator :: "rehydrator \<Rightarrow> rehydrator res" where
  "NewRehydrator cfg =
     (if rc_ari cfg = None then Inl (Errf ''asterisk: rehydrator: ARI is required'' [])
      else if rc_calls cfg = None then Inl (Errf ''asterisk: rehydrator: Calls is required'' [])
      else if rc_clips cfg = None then Inl (Errf ''asterisk: rehydrator: Clips is required'' [])
      else if rc_player cfg = None then Inl (Errf ''asterisk: rehydrator: Player is required'' [])
      else if rc_control cfg = None then Inl (Errf ''asterisk: rehydrator: Control is required'' [])
      else if rc_owner_cell cfg = [] then Inl (Errf ''asterisk: rehydrator: OwnerCell is required'' [])
      else Inr (if rc_reanchor_key cfg = [] then cfg\<lparr>rc_reanchor_key := KeySayAgain\<rparr> else cfg))"

datatype rh_outcome = Resumed | Orphaned | Stale

record rh_report =
  rr_resumed :: "string list"
  rr_orphaned :: "string list"
  rr_stale :: "string list"

definition rh_transfer :: "rehydrator \<Rightarrow> string \<Rightarrow> rh_cmd list \<Rightarrow> gerr option" where
  "rh_transfer r ch l = fst (the (rc_control r)) ch (rc_owner_cell r) l"

definition rh_hangup :: "rehydrator \<Rightarrow> string \<Rightarrow> rh_cmd list \<Rightarrow> gerr option" where
  "rh_hangup r ch l = snd (the (rc_control r)) ch l"

definition orphan :: "rehydrator \<Rightarrow> string \<Rightarrow> rh_cmd list \<Rightarrow> gerr option \<times> rh_cmd list" where
  "orphan r ch l =
     (let l' = l @ [RhTransfer ch (rc_owner_cell r)] in
      case rh_transfer r ch l of
        Some e \<Rightarrow> (Some (Wrap ''asterisk: rehydrate %s: orphan transfer: %w'' [FS ch] e), l')
      | None \<Rightarrow> (None, if rc_on_orphan r then l' @ [HookOrphan ch] else l'))"

definition rehydrateChannel :: "rehydrator \<Rightarrow> string \<Rightarrow> rh_cmd list \<Rightarrow> rh_outcome \<times> gerr option \<times> rh_cmd list" where
  "rehydrateChannel r ch l =
     (case the (rc_calls r) ch of
        Inl e \<Rightarrow> (Orphaned, orphan r ch l)
      | Inr c \<Rightarrow>
          let snap = ca_snapshot c in
          if sn_status snap = StatusEnded \<or> sn_status snap = StatusTransferred then
            let l' = l @ [RhHangup ch] in
            (case rh_hangup r ch l of
               Some e \<Rightarrow> (Stale, Some (Wrap ''asterisk: rehydrate %s: hangup stale channel: %w'' [FS ch] e), l')
             | None \<Rightarrow> (Stale, None, if rc_on_stale r then l' @ [HookStale ch] else l'))
          else
            let loc = (if sn_locale snap = [] then LocaleENCA else sn_locale snap) in
            (case the (rc_clips r) (rc_reanchor_key r) loc of
               Inl e \<Rightarrow> (Orphaned, orphan r ch l)
             | Inr cl \<Rightarrow>
                 let l' = l @ [RhPlay ch cl] in
                 (case the (rc_player r) ch cl l of
                    Some e \<Rightarrow> (Orphaned, orphan r ch l')
                  | None \<Rightarrow> (Resumed, None, if rc_on_resumed r then l' @ [HookResumed ch snap] else l'))))"

definition add_outcome :: "rh_outcome \<Rightarrow> string \<Rightarrow> rh_report \<Rightarrow> rh_report" where
  "add_outcome o' ch rep =
     (case o' of
        Resumed \<Rightarrow> rep\<lparr>rr_resumed := rr_resumed rep @ [ch]\<rparr>
      | Orphaned \<Rightarrow> rep\<lparr>rr_orphaned := rr_orphaned rep @ [ch]\<rparr>
      | Stale \<Rightarrow> rep\<lparr>rr_stale := rr_stale rep @ [ch]\<rparr>)"

fun rehydrate_loop ::
  "rehydrator \<Rightarrow> string list \<Rightarrow> rh_report \<Rightarrow> gerr option \<Rightarrow> rh_cmd list \<Rightarrow> rh_report \<times> gerr option \<times> rh_cmd list" where
  "rehydrate_loop r [] rep first l = (rep, first, l)"
| "rehydrate_loop r (ch # chs) rep first l =
     (case rehydrateChannel r ch l of
        (o', e, l) \<Rightarrow> rehydrate_loop r chs (add_outcome o' ch rep) (if e \<noteq> None \<and> first = None then e else first) l)"

definition Rehydrate :: "rehydrator \<Rightarrow> rh_report \<times> gerr option \<times> rh_cmd list" where
  "Rehydrate r =
     (let rep = \<lparr>rr_resumed = [], rr_orphaned = [], rr_stale = []\<rparr> in
      case the (rc_ari r) of
        Inl e \<Rightarrow> (rep, Some (Wrap ''asterisk: rehydrate: list live channels: %w'' [] e), [])
      | Inr chs \<Rightarrow> rehydrate_loop r chs rep None [])"

section \<open>Nobody is left in silence\<close>

text \<open>What was done for a channel: it heard the phrase, was handed to a person, or was hung up.\<close>

fun serves :: "string \<Rightarrow> rh_cmd \<Rightarrow> bool" where
  "serves ch (RhPlay c cl) = (c = ch)"
| "serves ch (RhTransfer c d) = (c = ch)"
| "serves ch (RhHangup c) = (c = ch)"
| "serves ch _ = False"

definition outcome_in :: "rh_report \<Rightarrow> rh_outcome \<Rightarrow> string list" where
  "outcome_in rep o' = (case o' of Resumed \<Rightarrow> rr_resumed rep | Orphaned \<Rightarrow> rr_orphaned rep | Stale \<Rightarrow> rr_stale rep)"

lemma outcome_in_add: "outcome_in (add_outcome o' ch rep) p = outcome_in rep p @ (if p = o' then [ch] else [])"
  by (cases o'; cases p) (simp_all add: outcome_in_def add_outcome_def)

lemma orphan_appends: "orphan r ch l = (e, l') \<Longrightarrow> \<exists>k. l' = l @ RhTransfer ch (rc_owner_cell r) # k"
  by (auto simp: orphan_def Let_def split: option.splits)

lemma channel_appends:
  assumes "rehydrateChannel r ch l = (o', e, l')"
  shows "\<exists>k. l' = l @ k \<and> (\<exists>x \<in> set k. serves ch x) \<and>
     (o' = Orphaned \<longrightarrow> RhTransfer ch (rc_owner_cell r) \<in> set k)"
  using assms
  by (auto simp: rehydrateChannel_def Let_def dest!: orphan_appends split: sum.splits option.splits if_splits)

lemma loop_appends:
  "rehydrate_loop r chs rep first l = (rep', first', l') \<Longrightarrow>
   \<exists>k. l' = l @ k \<and> (\<forall>ch \<in> set chs. \<exists>x \<in> set k. serves ch x)"
proof (induction chs arbitrary: rep first l)
  case (Cons ch chs)
  obtain o' e l1 where c: "rehydrateChannel r ch l = (o', e, l1)" by (cases "rehydrateChannel r ch l") auto
  obtain k1 where k1: "l1 = l @ k1" "\<exists>x \<in> set k1. serves ch x" using channel_appends [OF c] by blast
  obtain k2 where k2: "l' = l1 @ k2" "\<forall>ch \<in> set chs. \<exists>x \<in> set k2. serves ch x"
    using Cons.IH Cons.prems c by fastforce
  show ?case by (rule exI [of _ "k1 @ k2"]) (use k1 k2 in auto)
qed simp

lemma loop_counts:
  "rehydrate_loop r chs rep first l = (rep', first', l') \<Longrightarrow>
   mset (rr_resumed rep' @ rr_orphaned rep' @ rr_stale rep') =
     mset chs + mset (rr_resumed rep @ rr_orphaned rep @ rr_stale rep)"
proof (induction chs arbitrary: rep first l)
  case (Cons ch chs)
  obtain o' e l1 where c: "rehydrateChannel r ch l = (o', e, l1)" by (cases "rehydrateChannel r ch l") auto
  have "mset (rr_resumed (add_outcome o' ch rep) @ rr_orphaned (add_outcome o' ch rep) @ rr_stale (add_outcome o' ch rep)) =
    add_mset ch (mset (rr_resumed rep @ rr_orphaned rep @ rr_stale rep))"
    by (cases o') (simp_all add: add_outcome_def)
  with Cons c show ?case by fastforce
qed simp

lemma loop_orphans:
  "rehydrate_loop r chs rep first l = (rep', first', l') \<Longrightarrow> ch \<in> set (rr_orphaned rep') \<Longrightarrow>
   ch \<in> set (rr_orphaned rep) \<or> RhTransfer ch (rc_owner_cell r) \<in> set l'"
proof (induction chs arbitrary: rep first l)
  case (Cons c chs)
  obtain o' e l1 where c: "rehydrateChannel r c l = (o', e, l1)" by (cases "rehydrateChannel r c l") auto
  from Cons.prems c have run: "rehydrate_loop r chs (add_outcome o' c rep) (if e \<noteq> None \<and> first = None then e else first) l1 = (rep', first', l')"
    by simp
  obtain k where k: "l' = l1 @ k" using loop_appends [OF run] by blast
  have "RhTransfer c (rc_owner_cell r) \<in> set l1" if "o' = Orphaned" using channel_appends [OF c] that by auto
  with Cons.IH [OF run Cons.prems(2)] k show ?case by (cases o') (auto simp: add_outcome_def)
qed simp


definition quiet_control :: "(string \<Rightarrow> string \<Rightarrow> rh_cmd list \<Rightarrow> gerr option) \<times> (string \<Rightarrow> rh_cmd list \<Rightarrow> gerr option)" where
  "quiet_control = ((\<lambda>ch d l. None), (\<lambda>ch l. None))"

text \<open>A recovery that loads calls through a store and phrases through a bank.\<close>

definition store_recovery :: "go_context \<Rightarrow> mem \<Rightarrow> bank \<Rightarrow> string list \<Rightarrow> rehydrator" where
  "store_recovery ctx m b chs =
     \<lparr>rc_ari = Some (Inr chs), rc_calls = Some (\<lambda>i. GetCall ctx i m), rc_clips = Some (bank_Lookup b),
      rc_player = Some (\<lambda>ch cl l. None), rc_control = Some quiet_control, rc_owner_cell = ''+15145550199'',
      rc_reanchor_key = KeySayAgain, rc_on_resumed = False, rc_on_orphan = False, rc_on_stale = False\<rparr>"

lemma store_recovery_valid: "NewRehydrator (store_recovery ctx m b chs) = Inr (store_recovery ctx m b chs)"
  by (simp add: NewRehydrator_def store_recovery_def KeySayAgain_def)


section \<open>With the store and the bank\<close>

definition over_status :: "call_status \<Rightarrow> bool" where
  "over_status st \<longleftrightarrow> st = StatusEnded \<or> st = StatusTransferred"

definition call_locale :: "call \<Rightarrow> go_locale" where
  "call_locale c = (if sn_locale (ca_snapshot c) = [] then LocaleENCA else sn_locale (ca_snapshot c))"

text \<open>
  A call under way at the restart is resumed with the phrase of its language: when the store knows the call for the
  tenant of the boot context, the call has not ended and the bank passed its boot check for the language of the call,
  the channel hears the bank's re-anchoring phrase and is reported as resumed, unless the player itself fails.
\<close>

theorem live_call_is_resumed:
  assumes "rc_calls r = Some (\<lambda>i. GetCall ctx i m)" and "rc_clips r = Some (bank_Lookup b)" and "rc_reanchor_key r = KeySayAgain"
    and "GetCall ctx ch m = Inr c" and "\<not> over_status (sn_status (ca_snapshot c))" and "bank_Validate b [call_locale c] = None"
  shows "\<exists>cl. bank_Lookup b KeySayAgain (call_locale c) = Inr cl \<and>
     (the (rc_player r) ch cl l = None \<longrightarrow>
        (\<exists>k. rehydrateChannel r ch l = (Resumed, None, l @ RhPlay ch cl # k) \<and> (\<forall>x \<in> set k. \<not> serves ch x)))"
proof -
  have "call_locale c \<in> valid_locales b" using assms(6) by (simp add: valid_locales_def)
  from bnk.say_again_found [OF this] obtain cl where cl: "bank_Lookup b KeySayAgain (call_locale c) = Inr cl" by blast
  with assms show ?thesis
    by (auto simp: rehydrateChannel_def over_status_def call_locale_def Let_def)
qed

text \<open>
  But the boot has no tenant. The store keeps calls per tenant and \<open>GetCall\<close> takes the tenant from the context, so a
  recovery that runs under the context of the process finds no call at all: every live channel of every tenant, however well
  it was going, is treated as an orphan and sent to the same owner's cell, and none is resumed.
\<close>

theorem tenantless_boot_orphans_every_call:
  assumes "rc_calls r = Some (\<lambda>i. GetCall ctx i m)" and "FromContext ctx = Inl e" and "rc_ari r = Some (Inr chs)"
    and "Rehydrate r = (rep, err, l)"
  shows "rr_resumed rep = [] \<and> rr_stale rep = [] \<and> rr_orphaned rep = chs \<and>
     (\<forall>ch \<in> set chs. RhTransfer ch (rc_owner_cell r) \<in> set l)"
proof -
  have c: "fst (rehydrateChannel r ch l) = Orphaned" for ch l
    using assms(1,2) by (simp add: rehydrateChannel_def GetCall_def)
  have "rehydrate_loop r chs rep0 first l0 = (rep, err, l) \<Longrightarrow>
     rr_resumed rep = rr_resumed rep0 \<and> rr_stale rep = rr_stale rep0 \<and> rr_orphaned rep = rr_orphaned rep0 @ chs" for rep0 first l0
  proof (induction chs arbitrary: rep0 first l0)
    case (Cons ch chs)
    obtain e' l1 where "rehydrateChannel r ch l0 = (Orphaned, e', l1)" using c [of ch l0] by (metis prod.collapse)
    with Cons.IH Cons.prems show ?case by (fastforce simp: add_outcome_def)
  qed simp
  moreover have run: "rehydrate_loop r chs \<lparr>rr_resumed = [], rr_orphaned = [], rr_stale = []\<rparr> None [] = (rep, err, l)"
    using assms(3,4) by (simp add: Rehydrate_def)
  ultimately have "rr_resumed rep = [] \<and> rr_stale rep = [] \<and> rr_orphaned rep = chs" by fastforce
  with loop_orphans [OF run] show ?thesis by auto
qed

definition ringing_call :: call where
  "ringing_call = \<lparr>ca_snapshot = snapshot0\<lparr>sn_call_id := ''c1'', sn_tenant_id := ''a'', sn_status := StatusAnswered\<rparr>, ca_recording_url = []\<rparr>"

definition say_again_bank :: bank where
  "say_again_bank = \<lparr>bk_persona = [], bk_version = [], bk_clips = (\<lambda>loc. Some (\<lambda>k. Some \<lparr>cl_text = k, cl_audio = [], cl_duration_ms = 800\<rparr>))\<rparr>"

theorem live_call_is_resumed_witness:
  "fst (rehydrateChannel (store_recovery (Some ''a'') (snd (PutCall (Some ''a'') ringing_call NewMem)) say_again_bank [''c1'']) ''c1'' []) = Resumed"
proof -
  let ?m = "snd (PutCall (Some ''a'') ringing_call NewMem)"
  let ?r = "store_recovery (Some ''a'') ?m say_again_bank [''c1'']"
  have r: "rc_calls ?r = Some (\<lambda>i. GetCall (Some ''a'') i ?m)" "rc_clips ?r = Some (bank_Lookup say_again_bank)"
    "rc_reanchor_key ?r = KeySayAgain" "\<And>cl. the (rc_player ?r) ''c1'' cl [] = None"
    by (simp_all add: store_recovery_def)
  have g: "GetCall (Some ''a'') ''c1'' ?m = Inr ringing_call"
    by (simp add: GetCall_def PutCall_def FromContext_def NewMem_def ringing_call_def call_ID_def)
  have s: "\<not> over_status (sn_status (ca_snapshot ringing_call))" by (simp add: ringing_call_def over_status_def)
  have v: "bank_Validate say_again_bank [call_locale ringing_call] = None"
    by (simp add: Validate_iff ok_Lookup_iff bank_rows_def say_again_bank_def)
  from live_call_is_resumed [OF r(1-3) g s v, of "[]"] r(4) show ?thesis by auto
qed

theorem tenantless_boot_orphans_every_call_witness:
  "\<exists>rep err l. Rehydrate (store_recovery None (snd (PutCall (Some ''a'') ringing_call NewMem)) say_again_bank [''c1'']) = (rep, err, l) \<and>
     rr_orphaned rep = [''c1'']"
proof -
  let ?r = "store_recovery None (snd (PutCall (Some ''a'') ringing_call NewMem)) say_again_bank [''c1'']"
  obtain rep err l where r: "Rehydrate ?r = (rep, err, l)" by (cases "Rehydrate ?r") auto
  have a: "rc_calls ?r = Some (\<lambda>i. GetCall None i (snd (PutCall (Some ''a'') ringing_call NewMem)))" "rc_ari ?r = Some (Inr [''c1''])"
    by (simp_all add: store_recovery_def)
  have n: "FromContext None = Inl (Sentinel ErrNoTenant)" by (simp add: FromContext_def)
  from tenantless_boot_orphans_every_call [OF a(1) n a(2) r] r show ?thesis by auto
qed

end
