(* ===== verification/Call_Control.thy ===== *)
theory Call_Control
  imports Go_Text
begin

text \<open>
  \<open>internal/asterisk/callcontrol.go\<close>: call control over ARI. Asterisk is a function of the commands it was sent before and
  of the command, so any of them may fail at any time. \<open>Playback\<close> is two steps, the command and the bookkeeping, because
  the mutex is only taken for the second.
\<close>

datatype ari_cmd =
    AriAnswer string
  | AriHangup string
  | AriContinueTo string string string nat
  | AriPlay string string string
  | AriStopPlayback string
  | AriSendDTMF string string
  | AriRecord string string

type_synonym ari = "ari_cmd list \<Rightarrow> ari_cmd \<Rightarrow> gerr option"

record call_control =
  cc_transfer_context :: string
  cc_pb_seq :: "64 word"
  cc_playbacks :: "string \<Rightarrow> string list"
  cc_log :: "ari_cmd list"

definition NewCallControl :: "string \<Rightarrow> call_control" where
  "NewCallControl transferContext =
     \<lparr>cc_transfer_context = (if transferContext = [] then ''transfer-owner'' else transferContext), cc_pb_seq = 0,
      cc_playbacks = (\<lambda>_. []), cc_log = []\<rparr>"

definition send_ari :: "ari \<Rightarrow> ari_cmd \<Rightarrow> call_control \<Rightarrow> gerr option \<times> call_control" where
  "send_ari A cmd c = (A (cc_log c) cmd, c\<lparr>cc_log := cc_log c @ [cmd]\<rparr>)"

definition cc_forget :: "string \<Rightarrow> call_control \<Rightarrow> call_control" where
  "cc_forget ch c = c\<lparr>cc_playbacks := (cc_playbacks c)(ch := [])\<rparr>"

definition cc_Answer :: "ari \<Rightarrow> string \<Rightarrow> call_control \<Rightarrow> gerr option \<times> call_control" where
  "cc_Answer A ch c = send_ari A (AriAnswer ch) c"

definition cc_Hangup :: "ari \<Rightarrow> string \<Rightarrow> call_control \<Rightarrow> gerr option \<times> call_control" where
  "cc_Hangup A ch c = send_ari A (AriHangup ch) (cc_forget ch c)"

definition cc_Transfer :: "ari \<Rightarrow> string \<Rightarrow> string \<Rightarrow> call_control \<Rightarrow> gerr option \<times> call_control" where
  "cc_Transfer A ch dst c = send_ari A (AriContinueTo ch (cc_transfer_context c) dst 1) (cc_forget ch c)"

definition cc_StartRecording :: "ari \<Rightarrow> string \<Rightarrow> call_control \<Rightarrow> gerr option \<times> call_control" where
  "cc_StartRecording A ch c = send_ari A (AriRecord ch (''call-'' @ ch)) c"

definition cc_SendDTMF :: "ari \<Rightarrow> string \<Rightarrow> string \<Rightarrow> call_control \<Rightarrow> gerr option \<times> call_control" where
  "cc_SendDTMF A ch digits c = send_ari A (AriSendDTMF ch digits) c"

definition pb_id :: "string \<Rightarrow> 64 word \<Rightarrow> string" where
  "pb_id ch n = ''pb-'' @ ch @ CHR ''-'' # dec_digits (unat n)"

definition play_start :: "ari \<Rightarrow> string \<Rightarrow> string \<Rightarrow> call_control \<Rightarrow> string \<times> gerr option \<times> call_control" where
  "play_start A ch url c =
     (let n = cc_pb_seq c + 1; i = pb_id ch n in (i, send_ari A (AriPlay ch i url) (c\<lparr>cc_pb_seq := n\<rparr>)))"

definition play_track :: "string \<Rightarrow> string \<Rightarrow> call_control \<Rightarrow> call_control" where
  "play_track ch i c = c\<lparr>cc_playbacks := (cc_playbacks c)(ch := cc_playbacks c ch @ [i])\<rparr>"

definition cc_Playback :: "ari \<Rightarrow> string \<Rightarrow> string \<Rightarrow> call_control \<Rightarrow> gerr option \<times> call_control" where
  "cc_Playback A ch url c =
     (case play_start A ch url c of
        (i, Some e, c) \<Rightarrow> (Some e, c)
      | (i, None, c) \<Rightarrow> (None, play_track ch i c))"

fun stop_all :: "ari \<Rightarrow> string list \<Rightarrow> gerr option \<Rightarrow> call_control \<Rightarrow> gerr option \<times> call_control" where
  "stop_all A [] first c = (first, c)"
| "stop_all A (i # is') first c =
     (case send_ari A (AriStopPlayback i) c of
        (e, c) \<Rightarrow> stop_all A is' (if e \<noteq> None \<and> first = None then e else first) c)"

definition cc_FlushPlayback :: "ari \<Rightarrow> string \<Rightarrow> call_control \<Rightarrow> gerr option \<times> call_control" where
  "cc_FlushPlayback A ch c =
     (case stop_all A (cc_playbacks c ch) None (cc_forget ch c) of
        (first, c) \<Rightarrow> (map_option (Wrap ''asterisk: flush playback on %s: %w'' [FS ch]) first, c))"

definition cc_PlaybackFinished :: "string \<Rightarrow> string \<Rightarrow> call_control \<Rightarrow> call_control" where
  "cc_PlaybackFinished ch i c = c\<lparr>cc_playbacks := (cc_playbacks c)(ch := remove1 i (cc_playbacks c ch))\<rparr>"

definition ActivePlaybacks :: "string \<Rightarrow> call_control \<Rightarrow> string list" where
  "ActivePlaybacks ch c = cc_playbacks c ch"

section \<open>The hard cut\<close>

lemma stop_all_effect:
  "\<exists>e. stop_all A is' first c = (e, c\<lparr>cc_log := cc_log c @ map AriStopPlayback is'\<rparr>) \<and>
     (e = None \<longleftrightarrow> first = None \<and>
       (\<forall>k < length is'. A (cc_log c @ map AriStopPlayback (take k is')) (AriStopPlayback (is' ! k)) = None))"
proof (induction is' arbitrary: first c)
  case (Cons i is')
  let ?e = "A (cc_log c) (AriStopPlayback i)"
  let ?c = "c\<lparr>cc_log := cc_log c @ [AriStopPlayback i]\<rparr>"
  let ?f = "if ?e \<noteq> None \<and> first = None then ?e else first"
  from Cons.IH [of ?f ?c] obtain e where e: "stop_all A is' ?f ?c = (e, ?c\<lparr>cc_log := cc_log ?c @ map AriStopPlayback is'\<rparr>)"
    "e = None \<longleftrightarrow> ?f = None \<and>
       (\<forall>k < length is'. A (cc_log ?c @ map AriStopPlayback (take k is')) (AriStopPlayback (is' ! k)) = None)" by blast
  have "stop_all A (i # is') first c = (e, c\<lparr>cc_log := cc_log c @ map AriStopPlayback (i # is')\<rparr>)"
    using e(1) by (simp add: send_ari_def)
  moreover have "(\<forall>k < Suc (length is'). A (cc_log c @ map AriStopPlayback (take k (i # is'))) (AriStopPlayback ((i # is') ! k)) = None) \<longleftrightarrow>
      ?e = None \<and> (\<forall>k < length is'. A (cc_log ?c @ map AriStopPlayback (take k is')) (AriStopPlayback (is' ! k)) = None)"
    by (auto simp: less_Suc_eq_0_disj)
  ultimately show ?case using e(2) by auto
qed simp

lemma flush_effect:
  "\<exists>r c'. cc_FlushPlayback A ch c = (r, c') \<and> cc_log c' = cc_log c @ map AriStopPlayback (ActivePlaybacks ch c) \<and>
     (\<forall>ch'. ActivePlaybacks ch' c' = (if ch' = ch then [] else ActivePlaybacks ch' c)) \<and>
     (r = None \<longleftrightarrow> (\<forall>k < length (ActivePlaybacks ch c).
        A (cc_log c @ map AriStopPlayback (take k (ActivePlaybacks ch c))) (AriStopPlayback (ActivePlaybacks ch c ! k)) = None))"
proof -
  from stop_all_effect [of A "cc_playbacks c ch" None "cc_forget ch c"] obtain e where
    e: "stop_all A (cc_playbacks c ch) None (cc_forget ch c) =
         (e, (cc_forget ch c)\<lparr>cc_log := cc_log (cc_forget ch c) @ map AriStopPlayback (cc_playbacks c ch)\<rparr>)"
      "e = None \<longleftrightarrow> (\<forall>k < length (cc_playbacks c ch).
         A (cc_log (cc_forget ch c) @ map AriStopPlayback (take k (cc_playbacks c ch))) (AriStopPlayback (cc_playbacks c ch ! k)) = None)"
    by auto
  then show ?thesis by (auto simp: cc_FlushPlayback_def ActivePlaybacks_def cc_forget_def)
qed

text \<open>
  The hard cut of a barge-in stops everything that is tracked: whatever Asterisk answers, flushing a channel sends one stop for
  each of its playbacks, in order, even after one has failed, leaves none of them tracked, touches no other
  channel, and reports an error exactly when one of the stops failed.
\<close>

theorem flush_stops_every_playback:
  "\<exists>r c'. cc_FlushPlayback A ch c = (r, c') \<and> cc_log c' = cc_log c @ map AriStopPlayback (ActivePlaybacks ch c) \<and>
     (\<forall>ch'. ActivePlaybacks ch' c' = (if ch' = ch then [] else ActivePlaybacks ch' c)) \<and>
     (r = None \<longleftrightarrow> (\<forall>k < length (ActivePlaybacks ch c).
        A (cc_log c @ map AriStopPlayback (take k (ActivePlaybacks ch c))) (AriStopPlayback (ActivePlaybacks ch c ! k)) = None))"
  by (rule flush_effect)

theorem flush_stops_every_playback_witness:
  "\<exists>r c'. cc_FlushPlayback (\<lambda>l cmd. if cmd = AriStopPlayback ''p'' then Some (Sentinel ''gone'') else None) ''c1''
       (play_track ''c1'' ''q'' (play_track ''c1'' ''p'' (NewCallControl []))) = (r, c') \<and>
     cc_log c' = [AriStopPlayback ''p'', AriStopPlayback ''q''] \<and> r \<noteq> None"
proof -
  let ?A = "\<lambda>l cmd. if cmd = AriStopPlayback ''p'' then Some (Sentinel ''gone'') else None"
  let ?c = "play_track ''c1'' ''q'' (play_track ''c1'' ''p'' (NewCallControl []))"
  have a: "ActivePlaybacks ''c1'' ?c = [''p'', ''q'']" "cc_log ?c = []"
    by (simp_all add: ActivePlaybacks_def play_track_def NewCallControl_def)
  from flush_stops_every_playback [of ?A "''c1''" ?c] obtain r c' where r: "cc_FlushPlayback ?A ''c1'' ?c = (r, c')"
    "cc_log c' = cc_log ?c @ map AriStopPlayback (ActivePlaybacks ''c1'' ?c)"
    "r = None \<longleftrightarrow> (\<forall>k < length (ActivePlaybacks ''c1'' ?c).
        ?A (cc_log ?c @ map AriStopPlayback (take k (ActivePlaybacks ''c1'' ?c))) (AriStopPlayback (ActivePlaybacks ''c1'' ?c ! k)) = None)"
    by blast
  have "\<not> (\<forall>k < length [''p'', ''q'']. ?A [] (AriStopPlayback ([''p'', ''q''] ! k)) = None)"
    by (rule notI, drule spec [of _ 0]) simp
  then have "r \<noteq> None" using r(3) unfolding a by simp
  with r show ?thesis by (simp add: a)
qed

section \<open>Playback identifiers\<close>

lemma last_dash:
  "CHR ''-'' \<notin> set u \<Longrightarrow> CHR ''-'' \<notin> set v \<Longrightarrow> a @ CHR ''-'' # u = b @ CHR ''-'' # v \<Longrightarrow> a = b \<and> u = v"
  by (auto simp: append_eq_append_conv2 append_eq_Cons_conv Cons_eq_append_conv)

lemma no_dash: "CHR ''-'' \<notin> set (dec_digits n)"
  using dec_digits_chars [of "CHR ''-''" n] by (auto simp: digit_char_def)

lemma pb_id_inj: "pb_id ch n = pb_id ch' n' \<longleftrightarrow> ch = ch' \<and> n = n'"
proof
  assume "pb_id ch n = pb_id ch' n'"
  then have "(''pb-'' @ ch) @ CHR ''-'' # dec_digits (unat n) = (''pb-'' @ ch') @ CHR ''-'' # dec_digits (unat n')"
    by (simp add: pb_id_def)
  from last_dash [OF no_dash no_dash this] show "ch = ch' \<and> n = n'" by (auto dest!: dec_digits_inj simp: word_unat_eq_iff)
qed simp

fun play_all :: "ari \<Rightarrow> (string \<times> string) list \<Rightarrow> call_control \<Rightarrow> string list" where
  "play_all A [] c = []"
| "play_all A ((ch, url) # ps) c = (case play_start A ch url c of (i, e, c) \<Rightarrow> i # play_all A ps c)"

lemma play_all_ids:
  "play_all A ps c = map (\<lambda>k. pb_id (fst (ps ! k)) (cc_pb_seq c + 1 + of_nat k)) [0..<length ps]"
proof (induction ps arbitrary: c)
  case (Cons p ps)
  obtain ch url where p: "p = (ch, url)" by fastforce
  let ?c = "snd (snd (play_start A ch url c))"
  have q: "cc_pb_seq ?c = cc_pb_seq c + 1" "fst (play_start A ch url c) = pb_id ch (cc_pb_seq c + 1)"
    by (simp_all add: play_start_def send_ari_def Let_def)
  have sh: "[0..<Suc (length ps)] = 0 # map Suc [0..<length ps]" by (simp add: map_Suc_upt upt_conv_Cons del: upt_Suc)
  show ?case
    using Cons.IH [of ?c] q by (auto simp: p sh algebra_simps split: prod.splits simp del: upt_Suc)
qed simp

text \<open>
  No two playbacks share an identifier: among any fewer than 2^64 playbacks started on any channels, whatever Asterisk
  answers, all identifiers differ, so a stop never cuts the audio of another call.
\<close>

theorem playback_ids_never_collide:
  assumes "length ps < 2 ^ 64"
  shows "distinct (play_all A ps c)"
proof -
  have "inj_on (\<lambda>k. pb_id (fst (ps ! k)) (cc_pb_seq c + 1 + of_nat k)) {0..<length ps}"
  proof (rule inj_onI)
    fix k k' assume k: "k \<in> {0..<length ps}" "k' \<in> {0..<length ps}"
      "pb_id (fst (ps ! k)) (cc_pb_seq c + 1 + of_nat k) = pb_id (fst (ps ! k')) (cc_pb_seq c + 1 + of_nat k')"
    then have "(of_nat k :: 64 word) = of_nat k'" by (simp add: pb_id_inj)
    then have "unat (of_nat k :: 64 word) = unat (of_nat k' :: 64 word)" by simp
    with k assms show "k = k'" by (simp add: unat_of_nat)
  qed
  then show ?thesis by (simp add: play_all_ids distinct_map)
qed

theorem playback_ids_never_collide_witness:
  "play_all (\<lambda>l cmd. None) [(''a'', ''x''), (''a-1'', ''y'')] (NewCallControl []) = [''pb-a-1'', ''pb-a-1-2''] \<and>
   distinct (play_all (\<lambda>l cmd. None) [(''a'', ''x''), (''a-1'', ''y'')] (NewCallControl []))"
  using playback_ids_never_collide [of "[(''a'', ''x''), (''a-1'', ''y'')]" "\<lambda>l cmd. None" "NewCallControl []"]
  by (simp add: play_start_def send_ari_def NewCallControl_def pb_id_def dec_digits_one char_of_def bit_Suc_0_iff Let_def)

text \<open>
  The cut can miss a phrase. When a barge-in flushes the channel after Asterisk has started a playback and before
  \<open>Playback\<close> has recorded it, only the earlier playbacks are stopped; the new one plays on over the caller, and a
  playback that ends in that window stays tracked although it is over.
\<close>

theorem flush_misses_starting_playback:
  assumes "play_start A ch url c = (i, None, c1)" and "cc_FlushPlayback A ch c1 = (r, c2)"
  shows "cc_log (play_track ch i c2) = cc_log c @ AriPlay ch i url # map AriStopPlayback (ActivePlaybacks ch c) \<and>
     ActivePlaybacks ch (play_track ch i c2) = [i] \<and>
     (i \<notin> set (ActivePlaybacks ch c) \<longrightarrow>
        ActivePlaybacks ch (play_track ch i (cc_PlaybackFinished ch i c1)) = ActivePlaybacks ch c @ [i])"
proof -
  have c1: "cc_log c1 = cc_log c @ [AriPlay ch i url]" "ActivePlaybacks ch c1 = ActivePlaybacks ch c"
    using assms(1) by (auto simp: play_start_def send_ari_def Let_def ActivePlaybacks_def)
  have c2: "cc_log c2 = cc_log c1 @ map AriStopPlayback (ActivePlaybacks ch c1)" "ActivePlaybacks ch c2 = []"
    using flush_effect [of A ch c1] assms(2) by auto
  show ?thesis
    using c1 c2 by (auto simp: ActivePlaybacks_def play_track_def cc_PlaybackFinished_def remove1_idem)
qed

theorem flush_misses_starting_playback_witness:
  "\<exists>c1 r c2. play_start (\<lambda>l cmd. None) ''c1'' ''bye'' (NewCallControl []) = (''pb-c1-1'', None, c1) \<and>
     cc_FlushPlayback (\<lambda>l cmd. None) ''c1'' c1 = (r, c2) \<and>
     cc_log (play_track ''c1'' ''pb-c1-1'' c2) = [AriPlay ''c1'' ''pb-c1-1'' ''bye'']"
proof -
  obtain c1 where p: "play_start (\<lambda>l cmd. None) ''c1'' ''bye'' (NewCallControl []) = (''pb-c1-1'', None, c1)"
    by (simp add: play_start_def send_ari_def NewCallControl_def pb_id_def dec_digits_one char_of_def bit_Suc_0_iff Let_def)
  obtain r c2 where f: "cc_FlushPlayback (\<lambda>l cmd. None) ''c1'' c1 = (r, c2)" by fastforce
  from flush_misses_starting_playback [OF p f] p f show ?thesis
    by (auto simp: NewCallControl_def ActivePlaybacks_def)
qed

end
