(* ===== verification/Api.thy ===== *)
theory Api
  imports Billing Store_Mem
begin

text \<open>
  \<open>internal/api\<close>: the REST surface of the core API over any store (a record \<open>stores\<close> of operations, as the interfaces
  of \<open>api.go\<close> say), the static website extractor and the fake payment gateway, the parts \<open>cmd/core-api\<close> wires. The
  in-memory store is \<open>mem_stores\<close>; \<open>Api_Pg\<close> has the PostgreSQL one. A request is one endpoint of the router, its two credential headers, its body as
  the parse tree of the first JSON value, and what the surroundings answer while it is served:
  the clock, the random key bytes, the fresh identifiers. SHA-256 (\<open>sha\<close>) and the text form of
  times (\<open>parse_time\<close>) are parameters. A response is a status with a body; which of several
  defects of a malformed body its message names is left open.
\<close>

section \<open>Requests and responses\<close>

datatype endpoint =
    PostTenants
  | GetMe
  | PutMode
  | PostDIDs
  | GetDIDs
  | GetCalls
  | GetCallByID string
  | PostAppointments
  | GetAppointments
  | PostMessages
  | GetMessages
  | GetUsage

record request =
  rq_endpoint :: endpoint
  rq_authorization :: string
  rq_x_api_key :: string
  rq_body :: "json option"
  rq_now :: gotime
  rq_key_bytes :: "string res"     \<comment> \<open>24 bytes of \<open>crypto/rand\<close>, or its error\<close>
  rq_id :: string                  \<comment> \<open>\<open>domain.NewID\<close>\<close>
  rq_extract_now :: gotime
  rq_stripe_now :: gotime
  rq_stripe_id :: string

record call_summary =
  cs_call_id :: string
  cs_status :: call_status
  cs_started_at :: gotime
  cs_ended_at :: gotime
  cs_end_reason :: string
  cs_locale :: go_locale
  cs_call_minutes :: int
  cs_recorded :: bool

datatype body =
    ErrorBody gerr
  | CreatedTenant tenant string "onboarding_profile option" subscription
  | TenantBody tenant
  | DIDBody did
  | DIDList "did list"
  | CallList "call_summary list"
  | CallBody call
  | AppointmentBody appointment
  | AppointmentList "appointment list"
  | MessageBody message
  | MessageList "message list"
  | UsageBody usage invoice

type_synonym response = "nat \<times> body"

text \<open>
  The stores the server is configured with (the interfaces of \<open>api.go\<close>), over whatever state their implementation keeps.
  A write answers with its error, if any, and the state after it.
\<close>

record 'm stores =
  st_CreateTenant :: "tenant \<Rightarrow> 'm \<Rightarrow> gerr option \<times> 'm"
  st_TenantByAPIKeyHash :: "string \<Rightarrow> 'm \<Rightarrow> tenant res"
  st_CurrentTenant :: "go_context \<Rightarrow> 'm \<Rightarrow> tenant res"
  st_UpdateTenantMode :: "go_context \<Rightarrow> string \<Rightarrow> int \<Rightarrow> 'm \<Rightarrow> gerr option \<times> 'm"
  st_AddDID :: "go_context \<Rightarrow> did \<Rightarrow> 'm \<Rightarrow> gerr option \<times> 'm"
  st_ListDIDs :: "go_context \<Rightarrow> 'm \<Rightarrow> did list res"
  st_ListCalls :: "go_context \<Rightarrow> 'm \<Rightarrow> call list res"
  st_GetCall :: "go_context \<Rightarrow> string \<Rightarrow> 'm \<Rightarrow> call res"
  st_CreateAppointment :: "go_context \<Rightarrow> appointment \<Rightarrow> 'm \<Rightarrow> gerr option \<times> 'm"
  st_ListAppointments :: "go_context \<Rightarrow> 'm \<Rightarrow> appointment list res"
  st_CreateMessage :: "go_context \<Rightarrow> message \<Rightarrow> 'm \<Rightarrow> gerr option \<times> 'm"
  st_ListMessages :: "go_context \<Rightarrow> 'm \<Rightarrow> message list res"

record 'm server =
  sv_store :: 'm
  sv_stripe :: fake_stripe

definition writeError :: "nat \<Rightarrow> gerr \<Rightarrow> response" where
  "writeError status msg = (status, ErrorBody msg)"

definition writeStoreError :: "gerr \<Rightarrow> string \<Rightarrow> response" where
  "writeStoreError err notFoundMsg =
     (if is_err ErrNotFound err then writeError 404 (Errf notFoundMsg [])
      else if is_err ErrConflict err then writeError 409 err
      else writeError 500 (Errf ''internal error'' []))"

section \<open>API keys\<close>

definition hex_char :: "nat \<Rightarrow> char" where
  "hex_char n = (if n < 10 then char_of (0x30 + n) else char_of (0x57 + n))"

definition hex_encode :: "string \<Rightarrow> string" where
  "hex_encode s = concat (map (\<lambda>c. [hex_char (byte c div 16), hex_char (byte c mod 16)]) s)"

definition apiKeyPrefix :: string where "apiKeyPrefix = ''fdk_''"

definition NewAPIKey :: "string res \<Rightarrow> string res" where
  "NewAPIKey raw =
     (case raw of
        Inl e \<Rightarrow> Inl (Wrap ''api: generate key: %w'' [] e)
      | Inr b \<Rightarrow> Inr (apiKeyPrefix @ hex_encode b))"

definition HashAPIKey :: "(string \<Rightarrow> string) \<Rightarrow> string \<Rightarrow> string" where
  "HashAPIKey sha key = hex_encode (sha key)"

definition bearerToken :: "request \<Rightarrow> string" where
  "bearerToken r =
     (if has_prefix (rq_authorization r) ''Bearer ''
      then trim_space (drop (length ''Bearer '') (rq_authorization r))
      else trim_space (rq_x_api_key r))"

definition zero_tenant :: tenant where
  "zero_tenant = \<lparr>tn_id = [], tn_name = [], tn_plan = [], tn_mode = [], tn_overflow_seconds = 0,
     tn_hours = [], tn_coverage = [], tn_owner_mobile = [], tn_default_locale = [], tn_api_key_hash = [],
     tn_trial_ends_at = 0, tn_created_at = 0\<rparr>"

definition withTenant ::
  "'m stores \<Rightarrow> (string \<Rightarrow> string) \<Rightarrow> (go_context \<Rightarrow> request \<Rightarrow> 'm server \<Rightarrow> response \<times> 'm server) \<Rightarrow>
   go_context \<Rightarrow> request \<Rightarrow> 'm server \<Rightarrow> response \<times> 'm server" where
  "withTenant S sha next_handler ctx r s =
     (let key = bearerToken r in
      if key = [] then (writeError 401 (Errf ''missing API key'' []), s)
      else case st_TenantByAPIKeyHash S (HashAPIKey sha key) (sv_store s) of
             Inl e \<Rightarrow>
               if is_err ErrNotFound e then (writeError 401 (Errf ''unknown API key'' []), s)
               else (writeError 500 (Errf ''auth failed'' []), s)
           | Inr t \<Rightarrow> next_handler (WithTenant ctx (tn_id t)) r s)"

section \<open>Strict decoding of request bodies\<close>

text \<open>Under \<open>DisallowUnknownFields\<close> a member without a field is an error.\<close>

fun dec_members_strict :: "'p fields \<Rightarrow> (string \<times> json) list \<Rightarrow> 'p \<Rightarrow> 'p res" where
  "dec_members_strict fs [] p = Inr p"
| "dec_members_strict fs ((k, v) # ms) p =
     (case field_for fs k of
        None \<Rightarrow> Inl (Errf ''json: unknown field %q'' [FS k])
      | Some d \<Rightarrow> (case d v p of Inl e \<Rightarrow> Inl e | Inr p' \<Rightarrow> dec_members_strict fs ms p'))"

fun dec_struct_strict :: "'p fields \<Rightarrow> json \<Rightarrow> 'p \<Rightarrow> 'p res" where
  "dec_struct_strict fs (JObj ms) p = dec_members_strict fs ms p"
| "dec_struct_strict fs JNull p = Inr p"
| "dec_struct_strict fs _ p = Inl json_type_error"

text \<open>
  An array decodes into a slice element by element: an element that was there before is the
  start of its successor, a new one starts from zero.
\<close>

fun dec_elems :: "(json \<Rightarrow> 'e \<Rightarrow> 'e res) \<Rightarrow> 'e \<Rightarrow> json list \<Rightarrow> 'e list \<Rightarrow> 'e list res" where
  "dec_elems d zero [] old = Inr []"
| "dec_elems d zero (j # js) old =
     (case d j (case old of x # _ \<Rightarrow> x | [] \<Rightarrow> zero) of
        Inl e \<Rightarrow> Inl e
      | Inr x \<Rightarrow> map_sum id ((#) x) (dec_elems d zero js (drop 1 old)))"

fun dec_slice :: "(json \<Rightarrow> 'e \<Rightarrow> 'e res) \<Rightarrow> 'e \<Rightarrow> json \<Rightarrow> 'e list \<Rightarrow> 'e list res" where
  "dec_slice d zero (JArr js) old = dec_elems d zero js old"
| "dec_slice d zero JNull old = Inr []"
| "dec_slice d zero _ old = Inl json_type_error"

text \<open>An object decodes into a map; every value starts from zero and a later key replaces an earlier one.\<close>

fun dec_entries :: "(json \<Rightarrow> 'e \<Rightarrow> 'e res) \<Rightarrow> 'e \<Rightarrow> (string \<times> json) list \<Rightarrow> (string \<times> 'e) list \<Rightarrow> (string \<times> 'e) list res" where
  "dec_entries d zero [] m = Inr m"
| "dec_entries d zero ((k, v) # ms) m =
     (case d v zero of Inl e \<Rightarrow> Inl e | Inr x \<Rightarrow> dec_entries d zero ms (AList.update k x m))"

fun dec_map :: "(json \<Rightarrow> 'e \<Rightarrow> 'e res) \<Rightarrow> 'e \<Rightarrow> json \<Rightarrow> (string \<times> 'e) list \<Rightarrow> (string \<times> 'e) list res" where
  "dec_map d zero (JObj ms) m = dec_entries d zero ms m"
| "dec_map d zero JNull m = Inr []"
| "dec_map d zero _ m = Inl json_type_error"

definition fld_with :: "string \<Rightarrow> (json \<Rightarrow> 'v \<Rightarrow> 'v res) \<Rightarrow> ('p \<Rightarrow> 'v) \<Rightarrow> ('v \<Rightarrow> 'p \<Rightarrow> 'p) \<Rightarrow> string \<times> (json \<Rightarrow> 'p \<Rightarrow> 'p res)" where
  "fld_with k d get put = (k, \<lambda>j p. map_sum id (\<lambda>v. put v p) (d j (get p)))"

definition decodeJSON :: "'p fields \<Rightarrow> 'p \<Rightarrow> request \<Rightarrow> 'p res" where
  "decodeJSON fs zero r =
     (case rq_body r of None \<Rightarrow> Inl json_syntax_error | Some j \<Rightarrow> dec_struct_strict fs j zero)"

definition bad_body :: "gerr \<Rightarrow> response" where
  "bad_body e = writeError 400 (Wrap ''invalid JSON body: '' [] e)"

text \<open>The text form of a time.\<close>

fun dec_time :: "(string \<Rightarrow> gotime option) \<Rightarrow> json \<Rightarrow> gotime \<Rightarrow> gotime res" where
  "dec_time parse_time (JStr s) old =
     (case parse_time s of Some t \<Rightarrow> Inr t | None \<Rightarrow> Inl (Sentinel ErrParse))"
| "dec_time parse_time JNull old = Inr old"
| "dec_time parse_time _ old = Inl json_type_error"

section \<open>Handlers\<close>

record create_tenant_request =
  cr_name :: string
  cr_plan :: string
  cr_mode :: string
  cr_overflow_seconds :: int
  cr_website_url :: string
  cr_owner_mobile :: string
  cr_default_locale :: go_locale
  cr_hours :: business_hours
  cr_postal_prefixes :: "string list"

definition time_range_fields :: "time_range fields" where
  "time_range_fields =
     [fld_string ''open'' tr_open (\<lambda>v. tr_open_update (\<lambda>_. v)),
      fld_string ''close'' tr_close (\<lambda>v. tr_close_update (\<lambda>_. v))]"

definition create_tenant_fields :: "create_tenant_request fields" where
  "create_tenant_fields =
     [fld_string ''name'' cr_name (\<lambda>v. cr_name_update (\<lambda>_. v)),
      fld_string ''plan'' cr_plan (\<lambda>v. cr_plan_update (\<lambda>_. v)),
      fld_string ''mode'' cr_mode (\<lambda>v. cr_mode_update (\<lambda>_. v)),
      fld_int ''overflowSeconds'' cr_overflow_seconds (\<lambda>v. cr_overflow_seconds_update (\<lambda>_. v)),
      fld_string ''websiteUrl'' cr_website_url (\<lambda>v. cr_website_url_update (\<lambda>_. v)),
      fld_string ''ownerMobile'' cr_owner_mobile (\<lambda>v. cr_owner_mobile_update (\<lambda>_. v)),
      fld_string ''defaultLocale'' cr_default_locale (\<lambda>v. cr_default_locale_update (\<lambda>_. v)),
      fld_with ''hours''
        (dec_map (dec_slice (dec_struct_strict time_range_fields) \<lparr>tr_open = [], tr_close = []\<rparr>) [])
        cr_hours (\<lambda>v. cr_hours_update (\<lambda>_. v)),
      fld_with ''postalPrefixes'' (dec_slice dec_string [])
        cr_postal_prefixes (\<lambda>v. cr_postal_prefixes_update (\<lambda>_. v))]"

definition create_tenant0 :: create_tenant_request where
  "create_tenant0 = \<lparr>cr_name = [], cr_plan = [], cr_mode = [], cr_overflow_seconds = 0, cr_website_url = [],
     cr_owner_mobile = [], cr_default_locale = [], cr_hours = [], cr_postal_prefixes = []\<rparr>"

definition onboarding_defaults :: "create_tenant_request \<Rightarrow> create_tenant_request" where
  "onboarding_defaults req =
     (let req = (if cr_mode req = [] then req\<lparr>cr_mode := ModeOverflow\<rparr> else req);
          req = (if cr_mode req = ModeOverflow \<and> cr_overflow_seconds req = 0
                 then req\<lparr>cr_overflow_seconds := 15\<rparr> else req)
      in if cr_default_locale req = [] then req\<lparr>cr_default_locale := LocaleENCA\<rparr> else req)"

definition new_tenant :: "(string \<Rightarrow> string) \<Rightarrow> string \<Rightarrow> request \<Rightarrow> create_tenant_request \<Rightarrow> tenant" where
  "new_tenant sha api_key r req =
     \<lparr>tn_id = rq_id r, tn_name = cr_name req, tn_plan = cr_plan req, tn_mode = cr_mode req,
      tn_overflow_seconds = cr_overflow_seconds req, tn_hours = cr_hours req,
      tn_coverage = cr_postal_prefixes req, tn_owner_mobile = cr_owner_mobile req,
      tn_default_locale = cr_default_locale req, tn_api_key_hash = HashAPIKey sha api_key,
      tn_trial_ends_at = rq_now r + TrialDays * day_ns, tn_created_at = rq_now r\<rparr>"

definition extract_profile :: "request \<Rightarrow> create_tenant_request \<Rightarrow> onboarding_profile option" where
  "extract_profile r req =
     (if cr_website_url req \<noteq> []
      then (case ExtractProfile (rq_extract_now r) (cr_website_url req) of Inr p \<Rightarrow> Some p | Inl e \<Rightarrow> None)
      else None)"

definition handleCreateTenant ::
  "'m stores \<Rightarrow> (string \<Rightarrow> string) \<Rightarrow> go_context \<Rightarrow> request \<Rightarrow> 'm server \<Rightarrow> response \<times> 'm server" where
  "handleCreateTenant S sha ctx r s =
     (case decodeJSON create_tenant_fields create_tenant0 r of
        Inl e \<Rightarrow> (bad_body e, s)
      | Inr req \<Rightarrow>
          let req = onboarding_defaults req in
          (case NewAPIKey (rq_key_bytes r) of
             Inl e \<Rightarrow> (writeError 500 (Errf ''internal error'' []), s)
           | Inr api_key \<Rightarrow>
               let t = new_tenant sha api_key r req in
               (case tenant_Validate t of
                  Some e \<Rightarrow> (writeError 400 e, s)
                | None \<Rightarrow>
                    (case st_CreateTenant S t (sv_store s) of
                       (Some e, m) \<Rightarrow> (writeStoreError e ''tenant not found'', s\<lparr>sv_store := m\<rparr>)
                     | (None, m) \<Rightarrow>
                         (case CreateSubscription (\<lambda>_. rq_stripe_id r) (rq_stripe_now r)
                                 (WithTenant ctx (tn_id t)) (tn_plan t) (sv_stripe s) of
                            (Inl e, st) \<Rightarrow>
                              (writeError 500 (Errf ''subscription failed'' []), \<lparr>sv_store = m, sv_stripe = st\<rparr>)
                          | (Inr sub, st) \<Rightarrow>
                              ((201, CreatedTenant t api_key (extract_profile r req) sub),
                               \<lparr>sv_store = m, sv_stripe = st\<rparr>))))))"

text \<open>The answer of a read, and of a write that returns what it stored.\<close>

definition answer :: "nat \<Rightarrow> ('a \<Rightarrow> body) \<Rightarrow> string \<Rightarrow> 'a res \<Rightarrow> response" where
  "answer status shape not_found v =
     (case v of Inl e \<Rightarrow> writeStoreError e not_found | Inr x \<Rightarrow> (status, shape x))"

definition handleGetTenant :: "'m stores \<Rightarrow> go_context \<Rightarrow> request \<Rightarrow> 'm server \<Rightarrow> response \<times> 'm server" where
  "handleGetTenant S ctx r s = (answer 200 TenantBody ''tenant not found'' (st_CurrentTenant S ctx (sv_store s)), s)"

record update_mode_request =
  um_mode :: string
  um_overflow_seconds :: int

definition update_mode_fields :: "update_mode_request fields" where
  "update_mode_fields =
     [fld_string ''mode'' um_mode (\<lambda>v. um_mode_update (\<lambda>_. v)),
      fld_int ''overflowSeconds'' um_overflow_seconds (\<lambda>v. um_overflow_seconds_update (\<lambda>_. v))]"

definition handleUpdateMode :: "'m stores \<Rightarrow> go_context \<Rightarrow> request \<Rightarrow> 'm server \<Rightarrow> response \<times> 'm server" where
  "handleUpdateMode S ctx r s =
     (case decodeJSON update_mode_fields \<lparr>um_mode = [], um_overflow_seconds = 0\<rparr> r of
        Inl e \<Rightarrow> (bad_body e, s)
      | Inr req \<Rightarrow>
          if \<not> mode_Valid (um_mode req) then (writeError 400 (Errf ''unknown mode'' []), s)
          else
            let secs = (if um_mode req = ModeOverflow \<and> um_overflow_seconds req \<le> 0 then 15
                        else um_overflow_seconds req) in
            (case st_UpdateTenantMode S ctx (um_mode req) secs (sv_store s) of
               (Some e, m) \<Rightarrow> (writeStoreError e ''tenant not found'', s\<lparr>sv_store := m\<rparr>)
             | (None, m) \<Rightarrow>
                 (answer 200 TenantBody ''tenant not found'' (st_CurrentTenant S ctx m), s\<lparr>sv_store := m\<rparr>)))"

record add_did_request =
  ad_number :: string
  ad_provider :: string

definition add_did_fields :: "add_did_request fields" where
  "add_did_fields =
     [fld_string ''number'' ad_number (\<lambda>v. ad_number_update (\<lambda>_. v)),
      fld_string ''provider'' ad_provider (\<lambda>v. ad_provider_update (\<lambda>_. v))]"

definition requested_did :: "request \<Rightarrow> add_did_request \<Rightarrow> did" where
  "requested_did r req =
     \<lparr>di_number = ad_number req, di_provider = (if ad_provider req = [] then ''telnyx'' else ad_provider req),
      di_active = True, di_created_at = rq_now r\<rparr>"

definition handleAddDID :: "'m stores \<Rightarrow> go_context \<Rightarrow> request \<Rightarrow> 'm server \<Rightarrow> response \<times> 'm server" where
  "handleAddDID S ctx r s =
     (case decodeJSON add_did_fields \<lparr>ad_number = [], ad_provider = []\<rparr> r of
        Inl e \<Rightarrow> (bad_body e, s)
      | Inr req \<Rightarrow>
          let d = requested_did r req in
          (case did_Validate d of
             Some e \<Rightarrow> (writeError 400 e, s)
           | None \<Rightarrow>
               (case st_AddDID S ctx d (sv_store s) of
                  (Some e, m) \<Rightarrow>
                    (if is_err ErrConflict e then writeError 409 (Errf ''number already provisioned'' [])
                     else writeStoreError e ''did not found'', s\<lparr>sv_store := m\<rparr>)
                | (None, m) \<Rightarrow> ((201, DIDBody d), s\<lparr>sv_store := m\<rparr>))))"

definition handleListDIDs :: "'m stores \<Rightarrow> go_context \<Rightarrow> request \<Rightarrow> 'm server \<Rightarrow> response \<times> 'm server" where
  "handleListDIDs S ctx r s = (answer 200 DIDList ''dids not found'' (st_ListDIDs S ctx (sv_store s)), s)"

definition call_summary_of :: "call \<Rightarrow> call_summary" where
  "call_summary_of c =
     (let n = ca_snapshot c in
      \<lparr>cs_call_id = sn_call_id n, cs_status = sn_status n, cs_started_at = sn_started_at n,
       cs_ended_at = sn_ended_at n, cs_end_reason = sn_end_reason n, cs_locale = sn_locale n,
       cs_call_minutes = CallMinutes (sn_usage n), cs_recorded = (ca_recording_url c \<noteq> [])\<rparr>)"

definition handleListCalls :: "'m stores \<Rightarrow> go_context \<Rightarrow> request \<Rightarrow> 'm server \<Rightarrow> response \<times> 'm server" where
  "handleListCalls S ctx r s =
     (answer 200 (\<lambda>calls. CallList (map call_summary_of calls)) ''calls not found'' (st_ListCalls S ctx (sv_store s)), s)"

definition handleGetCall :: "'m stores \<Rightarrow> string \<Rightarrow> go_context \<Rightarrow> request \<Rightarrow> 'm server \<Rightarrow> response \<times> 'm server" where
  "handleGetCall S call_id ctx r s =
     (answer 200 CallBody ''call not found'' (st_GetCall S ctx call_id (sv_store s)), s)"

record create_appointment_request =
  ca_call_id :: string
  ca_customer_name :: string
  ca_customer_phone :: string
  ca_service :: string
  ca_postal_code :: string
  ca_starts_at :: gotime
  ca_ends_at :: gotime
  ca_notes :: string

definition create_appointment_fields :: "(string \<Rightarrow> gotime option) \<Rightarrow> create_appointment_request fields" where
  "create_appointment_fields parse_time =
     [fld_string ''callId'' ca_call_id (\<lambda>v. ca_call_id_update (\<lambda>_. v)),
      fld_string ''customerName'' ca_customer_name (\<lambda>v. ca_customer_name_update (\<lambda>_. v)),
      fld_string ''customerPhone'' ca_customer_phone (\<lambda>v. ca_customer_phone_update (\<lambda>_. v)),
      fld_string ''service'' ca_service (\<lambda>v. ca_service_update (\<lambda>_. v)),
      fld_string ''postalCode'' ca_postal_code (\<lambda>v. ca_postal_code_update (\<lambda>_. v)),
      fld_with ''startsAt'' (dec_time parse_time) ca_starts_at (\<lambda>v. ca_starts_at_update (\<lambda>_. v)),
      fld_with ''endsAt'' (dec_time parse_time) ca_ends_at (\<lambda>v. ca_ends_at_update (\<lambda>_. v)),
      fld_string ''notes'' ca_notes (\<lambda>v. ca_notes_update (\<lambda>_. v))]"

definition create_appointment0 :: create_appointment_request where
  "create_appointment0 = \<lparr>ca_call_id = [], ca_customer_name = [], ca_customer_phone = [], ca_service = [],
     ca_postal_code = [], ca_starts_at = 0, ca_ends_at = 0, ca_notes = []\<rparr>"

definition requested_appointment :: "request \<Rightarrow> create_appointment_request \<Rightarrow> appointment" where
  "requested_appointment r req =
     \<lparr>ap_id = rq_id r, ap_call_id = ca_call_id req, ap_customer_name = ca_customer_name req,
      ap_customer_phone = ca_customer_phone req, ap_service = ca_service req,
      ap_postal_code = ca_postal_code req, ap_starts_at = ca_starts_at req, ap_ends_at = ca_ends_at req,
      ap_notes = ca_notes req, ap_created_at = rq_now r\<rparr>"

definition handleCreateAppointment ::
  "'m stores \<Rightarrow> (string \<Rightarrow> gotime option) \<Rightarrow> go_context \<Rightarrow> request \<Rightarrow> 'm server \<Rightarrow> response \<times> 'm server" where
  "handleCreateAppointment S parse_time ctx r s =
     (case decodeJSON (create_appointment_fields parse_time) create_appointment0 r of
        Inl e \<Rightarrow> (bad_body e, s)
      | Inr req \<Rightarrow>
          let a = requested_appointment r req in
          (case appointment_Validate a of
             Some e \<Rightarrow> (writeError 400 e, s)
           | None \<Rightarrow>
               (case st_CreateAppointment S ctx a (sv_store s) of
                  (Some e, m) \<Rightarrow> (writeStoreError e ''appointment not found'', s\<lparr>sv_store := m\<rparr>)
                | (None, m) \<Rightarrow> ((201, AppointmentBody a), s\<lparr>sv_store := m\<rparr>))))"

definition handleListAppointments :: "'m stores \<Rightarrow> go_context \<Rightarrow> request \<Rightarrow> 'm server \<Rightarrow> response \<times> 'm server" where
  "handleListAppointments S ctx r s =
     (answer 200 AppointmentList ''appointments not found'' (st_ListAppointments S ctx (sv_store s)), s)"

record create_message_request =
  cm_call_id :: string
  cm_who :: string
  cm_what :: string
  cm_urgency :: string
  cm_callback_phone :: string

definition create_message_fields :: "create_message_request fields" where
  "create_message_fields =
     [fld_string ''callId'' cm_call_id (\<lambda>v. cm_call_id_update (\<lambda>_. v)),
      fld_string ''who'' cm_who (\<lambda>v. cm_who_update (\<lambda>_. v)),
      fld_string ''what'' cm_what (\<lambda>v. cm_what_update (\<lambda>_. v)),
      fld_string ''urgency'' cm_urgency (\<lambda>v. cm_urgency_update (\<lambda>_. v)),
      fld_string ''callbackPhone'' cm_callback_phone (\<lambda>v. cm_callback_phone_update (\<lambda>_. v))]"

definition create_message0 :: create_message_request where
  "create_message0 = \<lparr>cm_call_id = [], cm_who = [], cm_what = [], cm_urgency = [], cm_callback_phone = []\<rparr>"

definition requested_message :: "request \<Rightarrow> create_message_request \<Rightarrow> message" where
  "requested_message r req =
     \<lparr>ms_id = rq_id r, ms_call_id = cm_call_id req, ms_who = cm_who req, ms_what = cm_what req,
      ms_urgency = (if cm_urgency req = [] then UrgencyNormal else cm_urgency req),
      ms_callback_phone = cm_callback_phone req, ms_created_at = rq_now r\<rparr>"

definition handleCreateMessage :: "'m stores \<Rightarrow> go_context \<Rightarrow> request \<Rightarrow> 'm server \<Rightarrow> response \<times> 'm server" where
  "handleCreateMessage S ctx r s =
     (case decodeJSON create_message_fields create_message0 r of
        Inl e \<Rightarrow> (bad_body e, s)
      | Inr req \<Rightarrow>
          let msg = requested_message r req in
          (case message_Validate msg of
             Some e \<Rightarrow> (writeError 400 e, s)
           | None \<Rightarrow>
               (case st_CreateMessage S ctx msg (sv_store s) of
                  (Some e, m) \<Rightarrow> (writeStoreError e ''message not found'', s\<lparr>sv_store := m\<rparr>)
                | (None, m) \<Rightarrow> ((201, MessageBody msg), s\<lparr>sv_store := m\<rparr>))))"

definition handleListMessages :: "'m stores \<Rightarrow> go_context \<Rightarrow> request \<Rightarrow> 'm server \<Rightarrow> response \<times> 'm server" where
  "handleListMessages S ctx r s =
     (answer 200 MessageList ''messages not found'' (st_ListMessages S ctx (sv_store s)), s)"

definition handleGetUsage :: "'m stores \<Rightarrow> go_context \<Rightarrow> request \<Rightarrow> 'm server \<Rightarrow> response \<times> 'm server" where
  "handleGetUsage S ctx r s =
     (case st_CurrentTenant S ctx (sv_store s) of
        Inl e \<Rightarrow> (writeStoreError e ''tenant not found'', s)
      | Inr t \<Rightarrow>
          (case st_ListCalls S ctx (sv_store s) of
             Inl e \<Rightarrow> (writeStoreError e ''calls not found'', s)
           | Inr calls \<Rightarrow>
               let u = SumUsage (map ca_snapshot calls);
                   in_tr = rq_now r < tn_trial_ends_at t in
               (case Compute (tn_plan t) u in_tr of
                  Inl e \<Rightarrow> (writeError 500 (Errf ''internal error'' []), s)
                | Inr bill \<Rightarrow> ((200, UsageBody u bill), s))))"

section \<open>The router\<close>

text \<open>The group of endpoints behind the key, and the whole surface.\<close>

definition tenant_endpoint ::
  "'m stores \<Rightarrow> (string \<Rightarrow> gotime option) \<Rightarrow> go_context \<Rightarrow> request \<Rightarrow> 'm server \<Rightarrow> response \<times> 'm server" where
  "tenant_endpoint S parse_time ctx r s =
     (case rq_endpoint r of
        PostTenants \<Rightarrow> (writeError 404 (Errf ''404 page not found'' []), s)
      | GetMe \<Rightarrow> handleGetTenant S ctx r s
      | PutMode \<Rightarrow> handleUpdateMode S ctx r s
      | PostDIDs \<Rightarrow> handleAddDID S ctx r s
      | GetDIDs \<Rightarrow> handleListDIDs S ctx r s
      | GetCalls \<Rightarrow> handleListCalls S ctx r s
      | GetCallByID call_id \<Rightarrow> handleGetCall S call_id ctx r s
      | PostAppointments \<Rightarrow> handleCreateAppointment S parse_time ctx r s
      | GetAppointments \<Rightarrow> handleListAppointments S ctx r s
      | PostMessages \<Rightarrow> handleCreateMessage S ctx r s
      | GetMessages \<Rightarrow> handleListMessages S ctx r s
      | GetUsage \<Rightarrow> handleGetUsage S ctx r s)"

definition Router ::
  "'m stores \<Rightarrow> (string \<Rightarrow> string) \<Rightarrow> (string \<Rightarrow> gotime option) \<Rightarrow> request \<Rightarrow> 'm server \<Rightarrow> response \<times> 'm server" where
  "Router S sha parse_time r s =
     (if rq_endpoint r = PostTenants then handleCreateTenant S sha None r s
      else withTenant S sha (tenant_endpoint S parse_time) None r s)"

fun serve_all ::
  "'m stores \<Rightarrow> (string \<Rightarrow> string) \<Rightarrow> (string \<Rightarrow> gotime option) \<Rightarrow> request list \<Rightarrow> 'm server \<Rightarrow> 'm server" where
  "serve_all S sha parse_time [] s = s"
| "serve_all S sha parse_time (r # rs) s = serve_all S sha parse_time rs (snd (Router S sha parse_time r s))"

section \<open>Over the in-memory store\<close>

definition mem_stores :: "mem stores" where
  "mem_stores =
     \<lparr>st_CreateTenant = CreateTenant, st_TenantByAPIKeyHash = TenantByAPIKeyHash zero_tenant,
      st_CurrentTenant = CurrentTenant, st_UpdateTenantMode = UpdateTenantMode, st_AddDID = AddDID, st_ListDIDs = ListDIDs,
      st_ListCalls = ListCalls, st_GetCall = GetCall, st_CreateAppointment = CreateAppointment,
      st_ListAppointments = ListAppointments, st_CreateMessage = CreateMessage, st_ListMessages = ListMessages\<rparr>"

lemma mem_stores_ops [simp]:
  "st_CreateTenant mem_stores = CreateTenant" "st_TenantByAPIKeyHash mem_stores = TenantByAPIKeyHash zero_tenant"
  "st_CurrentTenant mem_stores = CurrentTenant" "st_UpdateTenantMode mem_stores = UpdateTenantMode"
  "st_AddDID mem_stores = AddDID" "st_ListDIDs mem_stores = ListDIDs" "st_ListCalls mem_stores = ListCalls"
  "st_GetCall mem_stores = GetCall" "st_CreateAppointment mem_stores = CreateAppointment"
  "st_ListAppointments mem_stores = ListAppointments" "st_CreateMessage mem_stores = CreateMessage"
  "st_ListMessages mem_stores = ListMessages"
  by (simp_all add: mem_stores_def)

definition fresh_server :: "mem server" where
  "fresh_server = \<lparr>sv_store = NewMem, sv_stripe = Map.empty\<rparr>"

end
