(* ===== verification/Api_Props.thy ===== *)
theory Api_Props
  imports Api
begin

text \<open>
  Properties of the REST surface: what a served request can change and see, the invariant of the
  server, the status of every answer, onboarding and the trial.
\<close>

section \<open>What an endpoint writes\<close>

lemmas handler_defs = handleGetTenant_def handleUpdateMode_def handleAddDID_def handleListDIDs_def
  handleListCalls_def handleGetCall_def handleCreateAppointment_def handleListAppointments_def
  handleCreateMessage_def handleListMessages_def handleGetUsage_def

lemma tenant_endpoint_writes:
  "snd (tenant_endpoint mem_stores pt ctx r s) = s \<or>
   (\<exists>op. snd (tenant_endpoint mem_stores pt ctx r s) = s\<lparr>sv_store := mem_exec ctx op (sv_store s)\<rparr>)"
proof (cases "rq_endpoint r")
  case PutMode
  have "snd (handleUpdateMode mem_stores ctx r s) = s \<or>
    (\<exists>mode secs. snd (handleUpdateMode mem_stores ctx r s) = s\<lparr>sv_store := mem_exec ctx (OpUpdateMode mode secs) (sv_store s)\<rparr>)"
    unfolding handleUpdateMode_def Let_def mem_exec.simps
    by (auto split: sum.split prod.split option.split) (metis snd_conv)+
  then show ?thesis unfolding tenant_endpoint_def PutMode endpoint.case by blast
next
  case PostDIDs
  have "snd (handleAddDID mem_stores ctx r s) = s \<or>
    (\<exists>d. snd (handleAddDID mem_stores ctx r s) = s\<lparr>sv_store := mem_exec ctx (OpAddDID d) (sv_store s)\<rparr>)"
    unfolding handleAddDID_def Let_def mem_exec.simps
    by (auto split: sum.split prod.split option.split) (metis snd_conv)+
  then show ?thesis unfolding tenant_endpoint_def PostDIDs endpoint.case by blast
next
  case PostAppointments
  have "snd (handleCreateAppointment mem_stores pt ctx r s) = s \<or>
    (\<exists>d. snd (handleCreateAppointment mem_stores pt ctx r s) = s\<lparr>sv_store := mem_exec ctx (OpAppointment d) (sv_store s)\<rparr>)"
    unfolding handleCreateAppointment_def Let_def mem_exec.simps
    by (auto split: sum.split prod.split option.split) (metis snd_conv)+
  then show ?thesis unfolding tenant_endpoint_def PostAppointments endpoint.case by blast
next
  case PostMessages
  have "snd (handleCreateMessage mem_stores ctx r s) = s \<or>
    (\<exists>d. snd (handleCreateMessage mem_stores ctx r s) = s\<lparr>sv_store := mem_exec ctx (OpMessage d) (sv_store s)\<rparr>)"
    unfolding handleCreateMessage_def Let_def mem_exec.simps
    by (auto split: sum.split prod.split option.split) (metis snd_conv)+
  then show ?thesis unfolding tenant_endpoint_def PostMessages endpoint.case by blast
qed (auto simp: tenant_endpoint_def handler_defs Let_def split: sum.split)

lemma tenant_endpoint_stripe [simp]: "sv_stripe (snd (tenant_endpoint mem_stores pt ctx r s)) = sv_stripe s"
  using tenant_endpoint_writes [of pt ctx r s] by auto

definition sv_view where "sv_view i s = mem_view i (sv_store s)"

lemma tenant_endpoint_other:
  "FromContext ctx \<noteq> Inr t \<Longrightarrow> sv_view t (snd (tenant_endpoint mem_stores pt ctx r s)) = sv_view t s"
  using tenant_endpoint_writes [of pt ctx r s] by (auto simp: sv_view_def mem_exec_other)

interpretation api_sc: tenant_scoped "\<lambda>ctx r s. snd (tenant_endpoint mem_stores pt ctx r s)" sv_view for pt
  by unfold_locales (rule tenant_endpoint_other)

text \<open>An answer that needs no global table depends on the tenant's view alone.\<close>

lemma tenant_endpoint_sees:
  assumes "sv_view t s = sv_view t s'" and "FromContext ctx = Inr t" and "rq_endpoint r \<noteq> PostDIDs"
  shows "fst (tenant_endpoint mem_stores pt ctx r s) = fst (tenant_endpoint mem_stores pt ctx r s')"
proof (cases "rq_endpoint r")
  case PutMode
  have "fst (handleUpdateMode mem_stores ctx r s) = fst (handleUpdateMode mem_stores ctx r s')"
    using assms by (auto simp: handleUpdateMode_def UpdateTenantMode_def CurrentTenant_def Let_def sv_view_def mem_view_def
        split: sum.split option.split)
  then show ?thesis by (simp add: tenant_endpoint_def PutMode)
next
  case PostAppointments
  have "fst (handleCreateAppointment mem_stores pt ctx r s) = fst (handleCreateAppointment mem_stores pt ctx r s')"
    using assms by (auto simp: handleCreateAppointment_def CreateAppointment_def Let_def sv_view_def mem_view_def
        split: sum.split option.split)
  then show ?thesis by (simp add: tenant_endpoint_def PostAppointments)
next
  case PostMessages
  have "fst (handleCreateMessage mem_stores ctx r s) = fst (handleCreateMessage mem_stores ctx r s')"
    using assms by (auto simp: handleCreateMessage_def CreateMessage_def Let_def sv_view_def mem_view_def
        split: sum.split option.split)
  then show ?thesis by (simp add: tenant_endpoint_def PostMessages)
next
  case GetUsage
  have "fst (handleGetUsage mem_stores ctx r s) = fst (handleGetUsage mem_stores ctx r s')"
    using assms by (auto simp: handleGetUsage_def CurrentTenant_def ListCalls_def Let_def sv_view_def mem_view_def
        split: sum.split option.split)
  then show ?thesis by (simp add: tenant_endpoint_def GetUsage)
qed (use assms in \<open>simp_all add: tenant_endpoint_def handler_defs CurrentTenant_def ListDIDs_def ListCalls_def
      GetCall_def ListAppointments_def ListMessages_def sv_view_def mem_view_def\<close>)

section \<open>The invariant of the server\<close>

definition server_inv :: "mem server \<Rightarrow> bool" where
  "server_inv s \<longleftrightarrow>
     (\<forall>i t. mem_tenants (sv_store s) i = Some t \<longrightarrow> tn_id t = i \<and> tenant_Validate t = None) \<and>
     (\<forall>h i. mem_apiKeys (sv_store s) h = Some i \<longrightarrow> mem_tenants (sv_store s) i \<noteq> None) \<and>
     (\<forall>i. sv_stripe s i \<noteq> None \<longrightarrow> mem_tenants (sv_store s) i \<noteq> None)"

lemma server_inv_fresh: "server_inv fresh_server"
  by (simp add: server_inv_def fresh_server_def NewMem_def)

lemma row_id: "server_inv s \<Longrightarrow> mem_tenants (sv_store s) i = Some t \<Longrightarrow> tn_id t = i \<and> i \<noteq> []"
  by (auto simp: server_inv_def tenant_Validate_def split: if_splits)

lemma mem_exec_keys [simp]: "mem_apiKeys (mem_exec ctx op m) = mem_apiKeys m"
  by (cases op) (auto simp: mem_defs Let_def split: sum.split option.split)

lemma mem_exec_rows:
  "mem_tenants (mem_exec ctx op m) i = mem_tenants m i \<or>
   (\<exists>t mode secs. mem_tenants m i = Some t \<and> tenant_Validate (t\<lparr>tn_mode := mode, tn_overflow_seconds := secs\<rparr>) = None \<and>
      mem_tenants (mem_exec ctx op m) i = Some (t\<lparr>tn_mode := mode, tn_overflow_seconds := secs\<rparr>))"
  by (cases op) (auto simp: mem_defs Let_def split: sum.split option.split)

lemma mem_exec_rows_some: "mem_tenants (mem_exec ctx op m) i = None \<longleftrightarrow> mem_tenants m i = None"
  using mem_exec_rows [of ctx op m i] by auto

lemma mem_exec_server_inv:
  assumes "server_inv s"
  shows "server_inv (s\<lparr>sv_store := mem_exec ctx op (sv_store s)\<rparr>)"
proof -
  let ?m = "mem_exec ctx op (sv_store s)"
  have "tn_id t = i \<and> tenant_Validate t = None" if "mem_tenants ?m i = Some t" for i t
  proof (cases "mem_tenants ?m i = mem_tenants (sv_store s) i")
    case True
    with assms that show ?thesis by (simp add: server_inv_def)
  next
    case False
    with mem_exec_rows [of ctx op "sv_store s" i] that obtain t0 mode secs where
      "mem_tenants (sv_store s) i = Some t0" "tenant_Validate t = None"
      "t = t0\<lparr>tn_mode := mode, tn_overflow_seconds := secs\<rparr>" by auto
    with assms show ?thesis by (simp add: server_inv_def)
  qed
  with assms show ?thesis by (simp add: server_inv_def mem_exec_rows_some)
qed

lemma plan_priced: "plan_Valid p \<Longrightarrow> \<exists>pr. PricingFor p = Inr pr"
  by (auto simp: PricingFor_def pricingByPlan_def plan_Valid_def PlanStarter_def PlanPro_def PlanGrowth_def)

lemma tenant_endpoint_inv: "server_inv s \<Longrightarrow> server_inv (snd (tenant_endpoint mem_stores pt ctx r s))"
  using tenant_endpoint_writes [of pt ctx r s] by (auto simp: mem_exec_server_inv)

lemma create_tenant_cases:
  assumes "server_inv s"
  obtains
    (refused) status e where "handleCreateTenant mem_stores sha ctx r s = ((status, ErrorBody e), s)"
      "status \<in> {400, 409} \<or> status = 500 \<and> (\<exists>x. rq_key_bytes r = Inl x)"
  | (created) t k p sub where
      "handleCreateTenant mem_stores sha ctx r s =
         ((201, CreatedTenant t k p sub),
          \<lparr>sv_store = snd (CreateTenant t (sv_store s)), sv_stripe = (sv_stripe s)(tn_id t \<mapsto> sub)\<rparr>)"
      "NewAPIKey (rq_key_bytes r) = Inr k" "tenant_Validate t = None" "mem_tenants (sv_store s) (tn_id t) = None"
      "tn_api_key_hash t = HashAPIKey sha k" "tn_trial_ends_at t = rq_now r + TrialDays * day_ns"
      "sb_status sub = StatusTrialing" "sb_plan sub = tn_plan t"
proof (cases "decodeJSON create_tenant_fields create_tenant0 r")
  case (Inl e)
  then show ?thesis by (intro refused [of 400]) (simp_all add: handleCreateTenant_def bad_body_def writeError_def)
next
  case (Inr req0)
  define req where "req = onboarding_defaults req0"
  show ?thesis
  proof (cases "NewAPIKey (rq_key_bytes r)")
    case (Inl e)
    with Inr show ?thesis
      by (intro refused [of 500]) (auto simp: handleCreateTenant_def writeError_def NewAPIKey_def split: sum.splits)
  next
    case key: (Inr k)
    define t where "t = new_tenant sha k r req"
    note h = handleCreateTenant_def Inr key req_def [symmetric] t_def [symmetric] Let_def
    show ?thesis
    proof (cases "tenant_Validate t")
      case (Some e)
      then show ?thesis by (intro refused [of 400]) (simp_all add: h writeError_def)
    next
      case None
      show ?thesis
      proof (cases "mem_tenants (sv_store s) (tn_id t)")
        case (Some t')
        with None show ?thesis
          by (intro refused [of 409])
            (simp_all add: h writeError_def writeStoreError_def CreateTenant_def ErrNotFound_def ErrConflict_def)
      next
        case free: None
        have "tn_id t \<noteq> []" "plan_Valid (tn_plan t)" using None by (auto simp: tenant_Validate_def split: if_splits)
        moreover from this obtain pr where "PricingFor (tn_plan t) = Inr pr"
          using plan_priced by blast
        moreover have "sv_stripe s (tn_id t) = None" using assms free unfolding server_inv_def by metis
        ultimately obtain sub where sub: "CreateSubscription (\<lambda>_. rq_stripe_id r) (rq_stripe_now r)
            (WithTenant ctx (tn_id t)) (tn_plan t) (sv_stripe s) = (Inr sub, (sv_stripe s)(tn_id t \<mapsto> sub))"
          "sb_status sub = StatusTrialing" "sb_plan sub = tn_plan t"
          by (simp add: CreateSubscription_def FromContext_def WithTenant_def Let_def)
        show ?thesis
        proof (rule created [of t k "extract_profile r req" sub])
          show "handleCreateTenant mem_stores sha ctx r s =
             ((201, CreatedTenant t k (extract_profile r req) sub),
              \<lparr>sv_store = snd (CreateTenant t (sv_store s)), sv_stripe = (sv_stripe s)(tn_id t \<mapsto> sub)\<rparr>)"
            using None free sub by (simp add: h CreateTenant_def)
        qed (use None free sub key in \<open>simp_all add: t_def new_tenant_def\<close>)
      qed
    qed
  qed
qed

text \<open>The tenant whose key a request presents.\<close>

definition caller :: "(string \<Rightarrow> string) \<Rightarrow> request \<Rightarrow> mem server \<Rightarrow> string option" where
  "caller sha r s =
     (if bearerToken r = [] then None else mem_apiKeys (sv_store s) (HashAPIKey sha (bearerToken r)))"

lemma caller_row:
  "server_inv s \<Longrightarrow> caller sha r s = Some t \<Longrightarrow>
   \<exists>x. mem_apiKeys (sv_store s) (HashAPIKey sha (bearerToken r)) = Some t \<and> bearerToken r \<noteq> [] \<and>
       mem_tenants (sv_store s) t = Some x"
  unfolding server_inv_def caller_def by (metis not_None_eq option.distinct(1))

lemma Router_unknown:
  "rq_endpoint r \<noteq> PostTenants \<Longrightarrow> caller sha r s = None \<Longrightarrow> \<exists>e. Router mem_stores sha pt r s = ((401, ErrorBody e), s)"
  by (auto simp: Router_def withTenant_def caller_def TenantByAPIKeyHash_def writeError_def Let_def ErrNotFound_def
      split: if_splits)

lemma Router_known:
  assumes "server_inv s" and "rq_endpoint r \<noteq> PostTenants" and "caller sha r s = Some t"
  shows "Router mem_stores sha pt r s = tenant_endpoint mem_stores pt (Some t) r s"
proof -
  from assms obtain x where x: "mem_apiKeys (sv_store s) (HashAPIKey sha (bearerToken r)) = Some t"
    "bearerToken r \<noteq> []" "mem_tenants (sv_store s) t = Some x"
    using caller_row by blast
  with row_id [OF assms(1) x(3)] assms(2) show ?thesis
    by (simp add: Router_def withTenant_def TenantByAPIKeyHash_def WithTenant_def)
qed

lemma caller_known:
  assumes "server_inv s" and "caller sha r s = Some t"
  shows "t \<noteq> []" and "FromContext (Some t) = Inr t" and "mem_tenants (sv_store s) t \<noteq> None"
proof -
  from assms obtain x where "mem_tenants (sv_store s) t = Some x"
    using caller_row by blast
  with row_id [OF assms(1)] show "t \<noteq> []" "FromContext (Some t) = Inr t" "mem_tenants (sv_store s) t \<noteq> None"
    by (auto simp: FromContext_def)
qed

lemma CreateTenant_ok:
  assumes "tenant_Validate t = None" and "mem_tenants m (tn_id t) = None"
  shows "snd (CreateTenant t m) = m\<lparr>mem_tenants := (mem_tenants m)(tn_id t \<mapsto> t),
           mem_apiKeys := (if tn_api_key_hash t \<noteq> [] then (mem_apiKeys m)(tn_api_key_hash t \<mapsto> tn_id t) else mem_apiKeys m)\<rparr>"
  using assms by (simp add: CreateTenant_def)

lemma Router_inv:
  assumes "server_inv s"
  shows "server_inv (snd (Router mem_stores sha pt r s))"
proof (cases "rq_endpoint r = PostTenants")
  case True
  from assms show ?thesis
  proof (cases rule: create_tenant_cases [of s sha None r])
    case (created t k p sub)
    then show ?thesis using assms True
      by (auto simp: Router_def CreateTenant_ok server_inv_def)
  qed (use True assms in \<open>simp add: Router_def\<close>)
next
  case False
  show ?thesis
  proof (cases "caller sha r s")
    case None
    with Router_unknown [OF False] obtain e where "Router mem_stores sha pt r s = ((401, ErrorBody e), s)" by blast
    with assms show ?thesis by simp
  next
    case (Some t)
    with Router_known [OF assms False] assms show ?thesis by (simp add: tenant_endpoint_inv)
  qed
qed

lemma serve_all_inv: "server_inv s \<Longrightarrow> server_inv (serve_all mem_stores sha pt rs s)"
  by (induction rs arbitrary: s) (auto simp: Router_inv)

section \<open>The statuses\<close>

lemma read_status:
  assumes "v = Inr x \<or> (\<exists>e. v = Inl e \<and> is_err ErrNotFound e)"
  shows "fst (answer 200 f nf v) \<in> {200, 404}"
  using assms by (auto simp: answer_def writeStoreError_def writeError_def)

definition outcome_ok :: "mem server \<Rightarrow> response \<times> mem server \<Rightarrow> bool" where
  "outcome_ok s out \<longleftrightarrow> fst (fst out) \<in> {200, 201, 400, 401, 404, 409} \<and> (400 \<le> fst (fst out) \<longrightarrow> snd out = s)"

lemma tenant_endpoint_outcome:
  assumes "server_inv s" and "mem_tenants (sv_store s) t = Some x"
  shows "outcome_ok s (tenant_endpoint mem_stores pt (Some t) r s)"
proof -
  have t: "t \<noteq> []" "tenant_Validate x = None" using assms by (auto simp: server_inv_def dest: row_id [OF assms(1)])
  note s = FromContext_def outcome_ok_def writeError_def writeStoreError_def bad_body_def answer_def Let_def
  show ?thesis
  proof (cases "rq_endpoint r")
    case PutMode
    have "outcome_ok s (handleUpdateMode mem_stores (Some t) r s)"
      using assms(2) t
      by (auto simp: handleUpdateMode_def UpdateTenantMode_def CurrentTenant_def update_mode_valid s
          split: sum.split)
    then show ?thesis by (simp add: tenant_endpoint_def PutMode)
  next
    case PostDIDs
    have "outcome_ok s (handleAddDID mem_stores (Some t) r s)"
      using t by (auto simp: handleAddDID_def AddDID_def s split: sum.split option.split)
    then show ?thesis by (simp add: tenant_endpoint_def PostDIDs)
  next
    case PostAppointments
    have "outcome_ok s (handleCreateAppointment mem_stores pt (Some t) r s)"
      using t by (auto simp: handleCreateAppointment_def CreateAppointment_def s split: sum.split option.split)
    then show ?thesis by (simp add: tenant_endpoint_def PostAppointments)
  next
    case PostMessages
    have "outcome_ok s (handleCreateMessage mem_stores (Some t) r s)"
      using t by (auto simp: handleCreateMessage_def CreateMessage_def s split: sum.split option.split)
    then show ?thesis by (simp add: tenant_endpoint_def PostMessages)
  next
    case GetUsage
    have "plan_Valid (tn_plan x)" using t(2) by (auto simp: tenant_Validate_def split: if_splits)
    then obtain pr where "PricingFor (tn_plan x) = Inr pr" using plan_priced by blast
    then have "outcome_ok s (handleGetUsage mem_stores (Some t) r s)"
      using assms(2) t by (auto simp: handleGetUsage_def CurrentTenant_def ListCalls_def Compute_def s)
    then show ?thesis by (simp add: tenant_endpoint_def GetUsage)
  qed (use assms t in \<open>auto simp: tenant_endpoint_def handler_defs CurrentTenant_def ListDIDs_def ListCalls_def
      GetCall_def ListAppointments_def ListMessages_def s split: option.split\<close>)
qed

section \<open>Rows, keys and views along the requests\<close>

text \<open>A request that mints no key with the hash \<open>h\<close>.\<close>

definition mints_other_key :: "(string \<Rightarrow> string) \<Rightarrow> string \<Rightarrow> request \<Rightarrow> bool" where
  "mints_other_key sha h r =
     (case NewAPIKey (rq_key_bytes r) of Inr k \<Rightarrow> HashAPIKey sha k \<noteq> h | Inl e \<Rightarrow> True)"

definition same_account :: "tenant \<Rightarrow> tenant \<Rightarrow> bool" where
  "same_account x y \<longleftrightarrow> tn_plan x = tn_plan y \<and> tn_trial_ends_at x = tn_trial_ends_at y \<and> tn_name x = tn_name y"

lemma tenant_endpoint_keys [simp]: "mem_apiKeys (sv_store (snd (tenant_endpoint mem_stores pt ctx r s))) = mem_apiKeys (sv_store s)"
  using tenant_endpoint_writes [of pt ctx r s] by auto

lemma tenant_endpoint_row:
  assumes "mem_tenants (sv_store s) t = Some x"
  shows "\<exists>y. mem_tenants (sv_store (snd (tenant_endpoint mem_stores pt ctx r s))) t = Some y \<and> same_account x y"
proof -
  consider "snd (tenant_endpoint mem_stores pt ctx r s) = s"
    | op where "snd (tenant_endpoint mem_stores pt ctx r s) = s\<lparr>sv_store := mem_exec ctx op (sv_store s)\<rparr>"
    using tenant_endpoint_writes by blast
  then show ?thesis
  proof cases
    case (2 op)
    with assms mem_exec_rows [of ctx op "sv_store s" t] show ?thesis by (auto simp: same_account_def)
  qed (use assms in \<open>simp add: same_account_def\<close>)
qed

text \<open>One step of the router, as its clients see it.\<close>

lemma Router_step:
  fixes sha pt r
  assumes "server_inv s" and "mem_tenants (sv_store s) t = Some x"
  defines "s' \<equiv> snd (Router mem_stores sha pt r s)"
  shows "\<exists>y. mem_tenants (sv_store s') t = Some y \<and> same_account x y"
    and "mem_apiKeys (sv_store s') h = Some t \<Longrightarrow> mem_apiKeys (sv_store s) h = Some t"
    and "mem_apiKeys (sv_store s) h = Some t \<Longrightarrow> mints_other_key sha h r \<Longrightarrow> mem_apiKeys (sv_store s') h = Some t"
    and "caller sha r s \<noteq> Some t \<or> rq_endpoint r = PostTenants \<Longrightarrow> sv_view t s' = sv_view t s"
proof -
  have "(\<exists>y. mem_tenants (sv_store s') t = Some y \<and> same_account x y) \<and>
     (mem_apiKeys (sv_store s') h = Some t \<longrightarrow> mem_apiKeys (sv_store s) h = Some t) \<and>
     (mem_apiKeys (sv_store s) h = Some t \<longrightarrow> mints_other_key sha h r \<longrightarrow> mem_apiKeys (sv_store s') h = Some t) \<and>
     (caller sha r s \<noteq> Some t \<or> rq_endpoint r = PostTenants \<longrightarrow> sv_view t s' = sv_view t s)"
  proof (cases "rq_endpoint r = PostTenants")
    case True
    from assms(1) show ?thesis
    proof (cases rule: create_tenant_cases [of s sha None r])
      case (refused status e)
      with True assms(2) show ?thesis by (simp add: s'_def Router_def same_account_def)
    next
      case (created u k p sub)
      have "tn_id u \<noteq> t" using created(4) assms(2) by auto
      with created True assms(2) show ?thesis
        by (simp add: s'_def Router_def CreateTenant_ok same_account_def mints_other_key_def sv_view_def mem_view_def)
    qed
  next
    case False
    show ?thesis
    proof (cases "caller sha r s")
      case None
      with Router_unknown [OF False] obtain e where "Router mem_stores sha pt r s = ((401, ErrorBody e), s)" by blast
      with assms(2) show ?thesis by (simp add: s'_def same_account_def)
    next
      case (Some u)
      with Router_known [OF assms(1) False] have s': "s' = snd (tenant_endpoint mem_stores pt (Some u) r s)"
        by (simp add: s'_def)
      have "sv_view t s' = sv_view t s" if "u \<noteq> t"
        using that caller_known(2) [OF assms(1) Some] unfolding s' by (intro tenant_endpoint_other) simp
      with tenant_endpoint_row [OF assms(2)] Some False show ?thesis by (auto simp: s')
    qed
  qed
  then show "\<exists>y. mem_tenants (sv_store s') t = Some y \<and> same_account x y"
    and "mem_apiKeys (sv_store s') h = Some t \<Longrightarrow> mem_apiKeys (sv_store s) h = Some t"
    and "mem_apiKeys (sv_store s) h = Some t \<Longrightarrow> mints_other_key sha h r \<Longrightarrow> mem_apiKeys (sv_store s') h = Some t"
    and "caller sha r s \<noteq> Some t \<or> rq_endpoint r = PostTenants \<Longrightarrow> sv_view t s' = sv_view t s" by blast+
qed

lemma serve_all_account:
  assumes "server_inv s" and "mem_tenants (sv_store s) t = Some x" and "mem_apiKeys (sv_store s) h = Some t"
    and "\<forall>r \<in> set rs. mints_other_key sha h r"
  shows "mem_apiKeys (sv_store (serve_all mem_stores sha pt rs s)) h = Some t \<and>
     (\<exists>y. mem_tenants (sv_store (serve_all mem_stores sha pt rs s)) t = Some y \<and> same_account x y)"
  using assms
proof (induction rs arbitrary: s x)
  case (Cons r rs)
  from Router_step(1) [OF Cons.prems(1,2)] obtain y where
    y: "mem_tenants (sv_store (snd (Router mem_stores sha pt r s))) t = Some y" "same_account x y" by blast
  with Cons.IH [OF Router_inv [OF Cons.prems(1)] y(1) Router_step(3) [OF Cons.prems(1-3)]] Cons.prems(4)
  show ?case by (auto simp: same_account_def)
qed (simp add: same_account_def)

lemma serve_all_view:
  assumes "server_inv s" and "mem_tenants (sv_store s) t = Some x"
    and "\<forall>r \<in> set rs. caller sha r s \<noteq> Some t"
  shows "sv_view t (serve_all mem_stores sha pt rs s) = sv_view t s"
  using assms
proof (induction rs arbitrary: s x)
  case (Cons r rs)
  let ?s = "snd (Router mem_stores sha pt r s)"
  from Router_step(1) [OF Cons.prems(1,2)] obtain y where y: "mem_tenants (sv_store ?s) t = Some y" by blast
  have "\<forall>r' \<in> set rs. caller sha r' ?s \<noteq> Some t"
    using Cons.prems(3) Router_step(2) [OF Cons.prems(1,2)] by (auto simp: caller_def split: if_splits)
  with Cons.IH [OF Router_inv [OF Cons.prems(1)] y] Router_step(4) [OF Cons.prems(1,2)] Cons.prems(3)
  show ?case by auto
qed simp

section \<open>Stored records\<close>

text \<open>The rows of a tenant under an identifier, each valid and stored under its own identifier.\<close>

definition rows_ok :: "('a \<Rightarrow> string) \<Rightarrow> ('a \<Rightarrow> gerr option) \<Rightarrow> (string \<times> 'a) list \<Rightarrow> bool" where
  "rows_ok key valid rows \<longleftrightarrow> wf_al rows \<and> (\<forall>(k, x) \<in> set rows. k = key x \<and> valid x = None)"

lemma rows_ok_Nil [simp]: "rows_ok key valid []"
  by (simp add: rows_ok_def)

lemma rows_ok_update: "rows_ok key valid rows \<Longrightarrow> valid x = None \<Longrightarrow> rows_ok key valid (AList.update (key x) x rows)"
  using set_update_sub [of "key x" x rows] by (auto simp: rows_ok_def)

lemma rows_ok_list:
  assumes "rows_ok key valid rows"
  shows "distinct (map key (sort_by lt (map snd rows)))" and "x \<in> set (sort_by lt (map snd rows)) \<Longrightarrow> valid x = None"
proof -
  have "map key (map snd rows) = map fst rows" using assms by (auto simp: rows_ok_def)
  then have "distinct (map key (map snd rows))" using assms unfolding rows_ok_def wf_al_def by metis
  moreover have "mset (map key (sort_by lt (map snd rows))) = mset (map key (map snd rows))"
    by (simp add: multiset.map_comp)
  ultimately show "distinct (map key (sort_by lt (map snd rows)))" by (metis mset_eq_imp_distinct_iff)
  show "x \<in> set (sort_by lt (map snd rows)) \<Longrightarrow> valid x = None" using assms by (auto simp: rows_ok_def)
qed

definition records_ok :: "mem \<Rightarrow> bool" where
  "records_ok m \<longleftrightarrow> (\<forall>i. rows_ok di_number did_Validate (mem_dids m i) \<and>
     rows_ok ap_id appointment_Validate (mem_appointments m i) \<and> rows_ok ms_id message_Validate (mem_messages m i))"

lemma mem_exec_records: "records_ok m \<Longrightarrow> records_ok (mem_exec ctx op m)"
  by (cases op) (auto simp: mem_defs Let_def records_ok_def rows_ok_update split: sum.split option.split)

lemma Router_records:
  assumes "server_inv s" and "records_ok (sv_store s)"
  shows "records_ok (sv_store (snd (Router mem_stores sha pt r s)))"
proof (cases "rq_endpoint r = PostTenants")
  case True
  from assms(1) show ?thesis
    by (cases rule: create_tenant_cases [of s sha None r])
      (use assms(2) True in \<open>simp_all add: Router_def CreateTenant_ok records_ok_def\<close>)
next
  case False
  show ?thesis
  proof (cases "caller sha r s")
    case None
    with Router_unknown [OF False] obtain e where "Router mem_stores sha pt r s = ((401, ErrorBody e), s)" by blast
    with assms show ?thesis by simp
  next
    case (Some t)
    with Router_known [OF assms(1) False] tenant_endpoint_writes [of pt "Some t" r s] assms(2) show ?thesis
      by (auto simp: mem_exec_records)
  qed
qed

lemma serve_all_records: "server_inv s \<Longrightarrow> records_ok (sv_store s) \<Longrightarrow> records_ok (sv_store (serve_all mem_stores sha pt rs s))"
  by (induction rs arbitrary: s) (auto simp: Router_inv Router_records)

section \<open>Keys as text\<close>

lemma byte_hex_char: "n < 16 \<Longrightarrow> 0x30 \<le> byte (hex_char n) \<and> byte (hex_char n) < 0x67"
  by (simp add: hex_char_def)

lemma hex_encode_bytes: "c \<in> set (hex_encode b) \<Longrightarrow> 0x30 \<le> byte c \<and> byte c < 0x67"
proof -
  have "byte x mod 16 < 16" "byte x div 16 < 16" for x :: char
    using of_char_of [of "byte x"] by (simp_all add: less_mult_imp_div_less)
  then show "c \<in> set (hex_encode b) \<Longrightarrow> 0x30 \<le> byte c \<and> byte c < 0x67"
    by (auto simp: hex_encode_def intro: byte_hex_char [THEN conjunct1] byte_hex_char [THEN conjunct2])
qed

lemma key_bytes: "NewAPIKey raw = Inr k \<Longrightarrow> c \<in> set k \<Longrightarrow> 0x30 \<le> byte c \<and> byte c < 0x80"
  using hex_encode_bytes by (fastforce simp: NewAPIKey_def apiKeyPrefix_def split: sum.splits)

lemma dropWhile_none: "\<forall>c \<in> set xs. \<not> P c \<Longrightarrow> dropWhile P xs = xs"
  by (cases xs) auto

lemma trim_space_key:
  assumes "NewAPIKey raw = Inr k"
  shows "trim_space k = k"
proof -
  have a: "ascii k" using key_bytes [OF assms] by (auto simp: ascii_def list_all_iff)
  have "\<not> is_space n" if "0x30 \<le> n" "n < 0x80" for n using that by (auto simp: is_space_def)
  then have n: "\<forall>c \<in> set k. \<not> is_space (byte c)" using key_bytes [OF assms] by blast
  then have "dropWhile (\<lambda>c. is_space (byte c)) k = k" "dropWhile (\<lambda>c. is_space (byte c)) (rev k) = rev k"
    by (simp_all add: dropWhile_none)
  with a show ?thesis by (simp add: trim_space_def trim_func_ascii)
qed

lemma key_nonempty: "NewAPIKey raw = Inr k \<Longrightarrow> k \<noteq> []"
  by (auto simp: NewAPIKey_def apiKeyPrefix_def split: sum.splits)

lemma hex_encode_nonempty: "b \<noteq> [] \<Longrightarrow> hex_encode b \<noteq> []"
  by (cases b) (simp_all add: hex_encode_def)

lemma bearer_key:
  assumes "NewAPIKey raw = Inr k" and "rq_authorization g = ''Bearer '' @ k"
  shows "bearerToken g = k"
  using trim_space_key [OF assms(1)] assms(2) by (simp add: bearerToken_def)

lemma created_account:
  assumes "server_inv s" and "rq_endpoint r = PostTenants"
    and "Router mem_stores sha pt r s = ((201, CreatedTenant t k p sub), s')" and "sha k \<noteq> []"
  shows "NewAPIKey (rq_key_bytes r) = Inr k" and "mem_tenants (sv_store s') (tn_id t) = Some t"
    and "mem_apiKeys (sv_store s') (HashAPIKey sha k) = Some (tn_id t)"
    and "mem_tenants (sv_store s) (tn_id t) = None" and "sb_status sub = StatusTrialing"
    and "sb_plan sub = tn_plan t" and "tn_trial_ends_at t = rq_now r + TrialDays * day_ns"
    and "tenant_Validate t = None" and "Subscription (Some (tn_id t)) (sv_stripe s') = Inr sub"
proof -
  have "NewAPIKey (rq_key_bytes r) = Inr k \<and> mem_tenants (sv_store s') (tn_id t) = Some t \<and>
     mem_apiKeys (sv_store s') (HashAPIKey sha k) = Some (tn_id t) \<and> mem_tenants (sv_store s) (tn_id t) = None \<and>
     sb_status sub = StatusTrialing \<and> sb_plan sub = tn_plan t \<and>
     tn_trial_ends_at t = rq_now r + TrialDays * day_ns \<and> tenant_Validate t = None \<and>
     Subscription (Some (tn_id t)) (sv_stripe s') = Inr sub"
    using assms(1)
  proof (cases rule: create_tenant_cases [of s sha None r])
    case (created t0 k0 p0 sub0)
    with assms(2,3) have e: "t0 = t" "k0 = k" "sub0 = sub"
      and s': "s' = \<lparr>sv_store = snd (CreateTenant t (sv_store s)), sv_stripe = (sv_stripe s)(tn_id t \<mapsto> sub)\<rparr>"
      by (auto simp: Router_def)
    have "tn_id t \<noteq> []" using created(3) by (auto simp: e tenant_Validate_def split: if_splits)
    moreover have "HashAPIKey sha k \<noteq> []" using hex_encode_nonempty [OF assms(4)] by (simp add: HashAPIKey_def)
    ultimately show ?thesis
      using created by (simp add: e s' CreateTenant_ok Subscription_def FromContext_def)
  qed (use assms(2,3) in \<open>simp add: Router_def\<close>)
  then show "NewAPIKey (rq_key_bytes r) = Inr k" "mem_tenants (sv_store s') (tn_id t) = Some t"
    "mem_apiKeys (sv_store s') (HashAPIKey sha k) = Some (tn_id t)"
    "mem_tenants (sv_store s) (tn_id t) = None" "sb_status sub = StatusTrialing"
    "sb_plan sub = tn_plan t" "tn_trial_ends_at t = rq_now r + TrialDays * day_ns"
    "tenant_Validate t = None" "Subscription (Some (tn_id t)) (sv_stripe s') = Inr sub" by blast+
qed

section \<open>Properties\<close>

text \<open>
  C29: the API never fails by itself and a refusal leaves no trace. From a fresh server, after any
  requests, every request whose random bytes could be drawn is answered with one of the statuses
  200, 201, 400, 401, 404 and 409, never 500, and an answer of 400 and above leaves the store and
  the subscriptions exactly as they were.
\<close>

theorem api_refusals_leave_no_trace:
  assumes "s = serve_all mem_stores sha pt rs fresh_server" and "rq_key_bytes r = Inr b"
  shows "fst (fst (Router mem_stores sha pt r s)) \<in> {200, 201, 400, 401, 404, 409} \<and>
     (400 \<le> fst (fst (Router mem_stores sha pt r s)) \<longrightarrow> snd (Router mem_stores sha pt r s) = s)"
proof -
  have i: "server_inv s" by (simp add: assms(1) serve_all_inv server_inv_fresh)
  have "outcome_ok s (Router mem_stores sha pt r s)"
  proof (cases "rq_endpoint r = PostTenants")
    case True
    from i show ?thesis
      by (cases rule: create_tenant_cases [of s sha None r]) (auto simp: True Router_def outcome_ok_def assms(2))
  next
    case False
    show ?thesis
    proof (cases "caller sha r s")
      case None
      with Router_unknown [OF False] obtain e where "Router mem_stores sha pt r s = ((401, ErrorBody e), s)" by blast
      then show ?thesis by (simp add: outcome_ok_def)
    next
      case (Some t)
      with caller_row [OF i] obtain x where "mem_tenants (sv_store s) t = Some x" by blast
      with tenant_endpoint_outcome [OF i] Router_known [OF i False Some] show ?thesis by simp
    qed
  qed
  then show ?thesis by (simp add: outcome_ok_def)
qed

text \<open>
  C2: tenants share nothing through the API. Whatever requests other callers send, with other
  keys, wrong keys or none, new tenants included, the answer to a tenant's own request is the
  one it would have been given before them (only provisioning a number is excepted: numbers are
  unique across tenants), and serving it changes nothing that another tenant can read.
\<close>

theorem tenants_share_nothing:
  assumes "s = serve_all mem_stores sha pt before fresh_server" and "caller sha r s = Some t"
    and "rq_endpoint r \<notin> {PostTenants, PostDIDs}"
    and "\<forall>q \<in> set others. caller sha q s \<noteq> Some t \<and> mints_other_key sha (HashAPIKey sha (bearerToken r)) q"
  shows "fst (Router mem_stores sha pt r (serve_all mem_stores sha pt others s)) = fst (Router mem_stores sha pt r s) \<and>
     (\<forall>u. u \<noteq> t \<longrightarrow> sv_view u (snd (Router mem_stores sha pt r s)) = sv_view u s)"
proof -
  let ?s = "serve_all mem_stores sha pt others s"
  have i: "server_inv s" "server_inv ?s" by (simp_all add: assms(1) serve_all_inv server_inv_fresh)
  from caller_row [OF i(1) assms(2)] obtain x where
    x: "mem_tenants (sv_store s) t = Some x" "mem_apiKeys (sv_store s) (HashAPIKey sha (bearerToken r)) = Some t"
    "bearerToken r \<noteq> []" by blast
  have "mem_apiKeys (sv_store ?s) (HashAPIKey sha (bearerToken r)) = Some t"
    using serve_all_account [OF i(1) x(1,2)] assms(4) by blast
  with x(3) have c: "caller sha r ?s = Some t" by (simp add: caller_def)
  have v: "sv_view t ?s = sv_view t s" using serve_all_view [OF i(1) x(1)] assms(4) by blast
  have e: "rq_endpoint r \<noteq> PostTenants" "rq_endpoint r \<noteq> PostDIDs" using assms(3) by auto
  have "fst (Router mem_stores sha pt r ?s) = fst (Router mem_stores sha pt r s)"
    using tenant_endpoint_sees [OF v caller_known(2) [OF i(1) assms(2)] e(2)]
    by (simp add: Router_known [OF i(2) e(1) c] Router_known [OF i(1) e(1) assms(2)])
  moreover have "sv_view u (snd (Router mem_stores sha pt r s)) = sv_view u s" if "u \<noteq> t" for u
    using that caller_known(2) [OF i(1) assms(2)]
    by (simp add: Router_known [OF i(1) e(1) assms(2)] tenant_endpoint_other)
  ultimately show ?thesis by blast
qed

text \<open>
  C30: the key shown at onboarding opens the account. When a tenant is created, the key in the
  answer, sent back as a bearer token, is answered with exactly the tenant that was created: the
  identifier was free, the record is valid, its trial ends fourteen days after the creation and
  its subscription is stored as trialing on the chosen plan.
\<close>

theorem onboarding_key_opens_the_account:
  assumes "s = serve_all mem_stores sha pt rs fresh_server" and "rq_endpoint r = PostTenants"
    and "Router mem_stores sha pt r s = ((201, CreatedTenant t k p sub), s')" and "sha k \<noteq> []"
    and "rq_endpoint g = GetMe" and "rq_authorization g = ''Bearer '' @ k"
  shows "Router mem_stores sha pt g s' = ((200, TenantBody t), s') \<and> tenant_Validate t = None \<and>
     mem_tenants (sv_store s) (tn_id t) = None \<and> tn_trial_ends_at t = rq_now r + 14 * day_ns \<and>
     Subscription (Some (tn_id t)) (sv_stripe s') = Inr sub \<and>
     sb_status sub = StatusTrialing \<and> sb_plan sub = tn_plan t"
proof -
  have i: "server_inv s" by (simp add: assms(1) serve_all_inv server_inv_fresh)
  note c = created_account [OF i assms(2,3,4)]
  have i': "server_inv s'" using Router_inv [OF i, of sha pt r] by (simp add: assms(3))
  have "caller sha g s' = Some (tn_id t)"
    using c(3) key_nonempty [OF c(1)] bearer_key [OF c(1) assms(6)] by (simp add: caller_def)
  with Router_known [OF i'] assms(5) have "Router mem_stores sha pt g s' = handleGetTenant mem_stores (Some (tn_id t)) g s'"
    by (simp add: tenant_endpoint_def)
  moreover have "tn_id t \<noteq> []" using c(8) by (auto simp: tenant_Validate_def split: if_splits)
  ultimately show ?thesis using c
    by (simp add: handleGetTenant_def CurrentTenant_def FromContext_def answer_def TrialDays_def)
qed


text \<open>
  C32: everything the API has stored is well formed. After any requests to a fresh server every
  tenant record is valid and stored under its own identifier, every key leads to a tenant, and
  the numbers, appointments and messages that a tenant lists are valid records with pairwise
  different identifiers.
\<close>

theorem stored_records_are_well_formed:
  assumes "s = serve_all mem_stores sha pt rs fresh_server"
  shows "(\<forall>i t. mem_tenants (sv_store s) i = Some t \<longrightarrow> tn_id t = i \<and> tenant_Validate t = None) \<and>
     (\<forall>h i. mem_apiKeys (sv_store s) h = Some i \<longrightarrow> mem_tenants (sv_store s) i \<noteq> None) \<and>
     (\<forall>ctx ds. ListDIDs ctx (sv_store s) = Inr ds \<longrightarrow> distinct (map di_number ds) \<and> (\<forall>d \<in> set ds. did_Validate d = None)) \<and>
     (\<forall>ctx ps. ListAppointments ctx (sv_store s) = Inr ps \<longrightarrow>
        distinct (map ap_id ps) \<and> (\<forall>p \<in> set ps. appointment_Validate p = None)) \<and>
     (\<forall>ctx ms. ListMessages ctx (sv_store s) = Inr ms \<longrightarrow> distinct (map ms_id ms) \<and> (\<forall>x \<in> set ms. message_Validate x = None))"
proof -
  have i: "server_inv s" by (simp add: assms serve_all_inv server_inv_fresh)
  have "records_ok (sv_store fresh_server)" by (simp add: records_ok_def fresh_server_def NewMem_def)
  then have r: "records_ok (sv_store s)" by (simp add: assms serve_all_records server_inv_fresh)
  have d: "distinct (map di_number ds) \<and> (\<forall>d \<in> set ds. did_Validate d = None)"
    if "ListDIDs ctx (sv_store s) = Inr ds" for ctx ds
  proof -
    from that obtain j lt where "ds = sort_by lt (map snd (mem_dids (sv_store s) j))"
      unfolding ListDIDs_def by (auto split: sum.splits)
    with r rows_ok_list show ?thesis unfolding records_ok_def by metis
  qed
  have a: "distinct (map ap_id ps) \<and> (\<forall>p \<in> set ps. appointment_Validate p = None)"
    if "ListAppointments ctx (sv_store s) = Inr ps" for ctx ps
  proof -
    from that obtain j lt where "ps = sort_by lt (map snd (mem_appointments (sv_store s) j))"
      unfolding ListAppointments_def by (auto split: sum.splits)
    with r rows_ok_list show ?thesis unfolding records_ok_def by metis
  qed
  have m: "distinct (map ms_id ms) \<and> (\<forall>x \<in> set ms. message_Validate x = None)"
    if "ListMessages ctx (sv_store s) = Inr ms" for ctx ms
  proof -
    from that obtain j lt where "ms = sort_by lt (map snd (mem_messages (sv_store s) j))"
      unfolding ListMessages_def by (auto split: sum.splits)
    with r rows_ok_list show ?thesis unfolding records_ok_def by metis
  qed
  have t: "(\<forall>i t. mem_tenants (sv_store s) i = Some t \<longrightarrow> tn_id t = i \<and> tenant_Validate t = None) \<and>
     (\<forall>h i. mem_apiKeys (sv_store s) h = Some i \<longrightarrow> mem_tenants (sv_store s) i \<noteq> None)"
    using i unfolding server_inv_def by blast
  show ?thesis using t d a m by blast
qed

section \<open>Examples\<close>

text \<open>A shop signs up with the defaults; the hash of the example is the identity.\<close>

definition ex_request :: "endpoint \<Rightarrow> string \<Rightarrow> json option \<Rightarrow> gotime \<Rightarrow> request" where
  "ex_request ep auth b now =
     \<lparr>rq_endpoint = ep, rq_authorization = auth, rq_x_api_key = [], rq_body = b, rq_now = now,
      rq_key_bytes = Inr ''k'', rq_id = ''t1'', rq_extract_now = now, rq_stripe_now = now, rq_stripe_id = ''s''\<rparr>"

definition ex_signup :: request where
  "ex_signup = ex_request PostTenants [] (Some (JObj [(''name'', JStr ''Shop''), (''plan'', JStr ''pro'')])) 1000"

definition ex_tenant :: tenant where
  "ex_tenant = \<lparr>tn_id = ''t1'', tn_name = ''Shop'', tn_plan = ''pro'', tn_mode = ''overflow'', tn_overflow_seconds = 15,
     tn_hours = [], tn_coverage = [], tn_owner_mobile = [], tn_default_locale = ''en-CA'',
     tn_api_key_hash = HashAPIKey id ''fdk_6b'', tn_trial_ends_at = 1000 + TrialDays * day_ns, tn_created_at = 1000\<rparr>"

definition ex_sub :: subscription where
  "ex_sub = \<lparr>sb_id = ''sub_s'', sb_plan = ''pro'', sb_status = ''trialing'', sb_trial_ends_at = 1000 + TrialDays * day_ns\<rparr>"

lemma ex_key: "NewAPIKey (Inr ''k'') = Inr ''fdk_6b''"
  by (simp add: NewAPIKey_def apiKeyPrefix_def hex_encode_def hex_char_def char_of_def bit_Suc_0_iff)

lemma ex_body:
  "decodeJSON create_tenant_fields create_tenant0 ex_signup =
     Inr (create_tenant0\<lparr>cr_name := ''Shop'', cr_plan := ''pro''\<rparr>)"
  by (simp add: decodeJSON_def ex_signup_def ex_request_def create_tenant_fields_def field_for_def fld_defs
      create_tenant0_def fold_name_def runes_ascii ascii_evals fold_rune_def fld_with_def)

lemma ex_created:
  "Router mem_stores id pt ex_signup fresh_server =
     ((201, CreatedTenant ex_tenant ''fdk_6b'' None ex_sub),
      \<lparr>sv_store = snd (CreateTenant ex_tenant NewMem), sv_stripe = [''t1'' \<mapsto> ex_sub]\<rparr>)"
proof -
  have "new_tenant id ''fdk_6b'' ex_signup (onboarding_defaults (create_tenant0\<lparr>cr_name := ''Shop'', cr_plan := ''pro''\<rparr>)) = ex_tenant"
    by (simp add: new_tenant_def ex_tenant_def onboarding_defaults_def create_tenant0_def ex_signup_def ex_request_def
        ModeOverflow_def LocaleENCA_def)
  moreover have "extract_profile ex_signup (onboarding_defaults (create_tenant0\<lparr>cr_name := ''Shop'', cr_plan := ''pro''\<rparr>)) = None"
    by (simp add: extract_profile_def onboarding_defaults_def create_tenant0_def Let_def)
  moreover have "tenant_Validate ex_tenant = None"
    by (simp add: tenant_Validate_def ex_tenant_def plan_Valid_def mode_Valid_def PlanPro_def ModeOverflow_def LocaleENCA_def)
  moreover have "NewAPIKey (rq_key_bytes ex_signup) = Inr ''fdk_6b''"
    by (simp add: ex_signup_def ex_request_def ex_key)
  moreover have "rq_endpoint ex_signup = PostTenants" "rq_stripe_id ex_signup = ''s''" "rq_stripe_now ex_signup = 1000"
    by (simp_all add: ex_signup_def ex_request_def)
  moreover have "tn_id ex_tenant = ''t1''" "tn_plan ex_tenant = ''pro''" by (simp_all add: ex_tenant_def)
  ultimately show ?thesis
    by (simp add: Router_def handleCreateTenant_def ex_body Let_def CreateTenant_def fresh_server_def NewMem_def
        CreateSubscription_def FromContext_def WithTenant_def PricingFor_def pricingByPlan_def PlanPro_def
        PlanStarter_def PlanGrowth_def ex_sub_def StatusTrialing_def)
qed

definition ex_server :: "mem server" where
  "ex_server = \<lparr>sv_store = snd (CreateTenant ex_tenant NewMem), sv_stripe = [''t1'' \<mapsto> ex_sub]\<rparr>"

lemma ex_server_reached: "ex_server = serve_all mem_stores id pt [ex_signup] fresh_server"
  by (simp add: ex_created ex_server_def)

theorem api_refusals_leave_no_trace_witness:
  "fst (fst (Router mem_stores id (\<lambda>_. None) (ex_request GetMe [] None 1) fresh_server)) = 401 \<and>
   snd (Router mem_stores id (\<lambda>_. None) (ex_request GetMe [] None 1) fresh_server) = fresh_server"
proof -
  have r: "fst (fst (Router mem_stores id (\<lambda>_. None) (ex_request GetMe [] None 1) fresh_server)) = 401"
    by (simp add: Router_def withTenant_def bearerToken_def ex_request_def writeError_def ascii_evals trim_space_def)
  have "fresh_server = serve_all mem_stores id (\<lambda>_. None) [] fresh_server"
    and "rq_key_bytes (ex_request GetMe [] None 1) = Inr ''k''" by (simp_all add: ex_request_def)
  from api_refusals_leave_no_trace [OF this] r show ?thesis by simp
qed

definition ex_get :: "endpoint \<Rightarrow> request" where
  "ex_get ep = ex_request ep ''Bearer fdk_6b'' None 2000"

lemma ex_get_bearer: "bearerToken (ex_get ep) = ''fdk_6b''"
  by (rule bearer_key [OF ex_key]) (simp add: ex_get_def ex_request_def)

lemma ex_tenant_stored:
  "snd (CreateTenant ex_tenant NewMem) =
     NewMem\<lparr>mem_tenants := [''t1'' \<mapsto> ex_tenant], mem_apiKeys := [HashAPIKey id ''fdk_6b'' \<mapsto> ''t1'']\<rparr>"
proof -
  have "tenant_Validate ex_tenant = None"
    by (simp add: tenant_Validate_def ex_tenant_def plan_Valid_def mode_Valid_def PlanPro_def ModeOverflow_def LocaleENCA_def)
  moreover have "HashAPIKey id ''fdk_6b'' \<noteq> []" by (simp add: HashAPIKey_def hex_encode_def)
  ultimately show ?thesis by (simp add: CreateTenant_def NewMem_def ex_tenant_def)
qed

lemma ex_caller: "caller id (ex_get ep) ex_server = Some ''t1''"
  by (simp add: caller_def ex_get_bearer ex_server_def ex_tenant_stored)

theorem tenants_share_nothing_witness:
  "fst (Router mem_stores id (\<lambda>_. None) (ex_get GetMe)
          (serve_all mem_stores id (\<lambda>_. None) [(ex_request GetMe [] None 2)\<lparr>rq_key_bytes := Inr ''z''\<rparr>] ex_server)) =
   fst (Router mem_stores id (\<lambda>_. None) (ex_get GetMe) ex_server)"
proof -
  let ?q = "(ex_request GetMe [] None 2)\<lparr>rq_key_bytes := Inr ''z''\<rparr>"
  note c = ex_caller [of GetMe]
  have "caller id ?q ex_server = None"
    by (simp add: caller_def bearerToken_def ex_request_def ascii_evals trim_space_def)
  moreover have "mints_other_key id (HashAPIKey id ''fdk_6b'') ?q"
    by (simp add: mints_other_key_def NewAPIKey_def HashAPIKey_def hex_encode_def hex_char_def apiKeyPrefix_def
        char_of_def bit_Suc_0_iff)
  ultimately have "\<forall>q \<in> set [?q]. caller id q ex_server \<noteq> Some ''t1'' \<and>
      mints_other_key id (HashAPIKey id (bearerToken (ex_get GetMe))) q"
    by (simp add: ex_get_bearer)
  moreover have "rq_endpoint (ex_get GetMe) \<notin> {PostTenants, PostDIDs}" by (simp add: ex_get_def ex_request_def)
  ultimately show ?thesis using tenants_share_nothing [OF ex_server_reached c] by blast
qed

theorem onboarding_key_opens_the_account_witness:
  "Router mem_stores id (\<lambda>_. None) (ex_get GetMe) ex_server = ((200, TenantBody ex_tenant), ex_server)"
proof -
  have "fresh_server = serve_all mem_stores id (\<lambda>_. None) [] fresh_server"
    and "rq_endpoint ex_signup = PostTenants" by (simp_all add: ex_signup_def ex_request_def)
  moreover have "id ''fdk_6b'' \<noteq> []" "rq_endpoint (ex_get GetMe) = GetMe"
    "rq_authorization (ex_get GetMe) = ''Bearer '' @ ''fdk_6b''" by (simp_all add: ex_get_def ex_request_def)
  ultimately show ?thesis
    using onboarding_key_opens_the_account [OF _ _ ex_created [folded ex_server_def]] by blast
qed


theorem stored_records_are_well_formed_witness:
  "mem_tenants (sv_store ex_server) ''t1'' = Some ex_tenant \<and> tn_id ex_tenant = ''t1'' \<and> tenant_Validate ex_tenant = None"
proof -
  have "mem_tenants (sv_store ex_server) ''t1'' = Some ex_tenant"
    by (simp add: ex_server_def ex_tenant_stored)
  with stored_records_are_well_formed [OF ex_server_reached [of "\<lambda>_. None"]] show ?thesis by blast
qed

end
