(* ===== verification/Pg_Store.thy ===== *)
theory Pg_Store
  imports Store_Mem
begin

text \<open>
  \<open>internal/store/pgstore.go\<close> over the schema of \<open>migrations/0001_init.sql\<close>: tables as lists of rows in the
  order of their insertion, the row-level policies (a row is visible, and may be written, when its
  tenant is the transaction's \<open>app.tenant_id\<close>), primary keys across all rows, foreign keys to the
  tenants. Any command of an operation may fail (\<open>faults\<close>). A \<open>timestamptz\<close> keeps microseconds; a \<open>jsonb\<close>
  column gives back the value it was given.
\<close>

section \<open>Database\<close>

record pg_db =
  pg_tenants :: "(string \<times> tenant) list"
  pg_keys :: "string \<rightharpoonup> string"
  pg_dids :: "(string \<times> did) list"                 \<comment> \<open>with the tenant of the row\<close>
  pg_calls :: "(string \<times> call) list"
  pg_appointments :: "(string \<times> appointment) list"
  pg_messages :: "(string \<times> message) list"

definition empty_db :: pg_db where
  "empty_db = \<lparr>pg_tenants = [], pg_keys = Map.empty, pg_dids = [], pg_calls = [], pg_appointments = [], pg_messages = []\<rparr>"

definition uniqueViolation :: string where "uniqueViolation = ''23505''"
definition foreignKeyViolation :: string where "foreignKeyViolation = ''23503''"
definition rlsViolation :: string where "rlsViolation = ''42501''"

definition isUnique :: "gerr \<Rightarrow> bool" where "isUnique e = is_err uniqueViolation e"

definition pg_time :: "gotime \<Rightarrow> gotime" where "pg_time t = t - t mod 1000"

definition nullableTime :: "gotime \<Rightarrow> gotime option" where
  "nullableTime t = (if is_zero t then None else Some t)"

text \<open>A nullable time through a column and back.\<close>

definition null_time :: "gotime \<Rightarrow> gotime" where
  "null_time t = (case nullableTime t of Some x \<Rightarrow> pg_time x | None \<Rightarrow> 0)"

text \<open>The rows of a table that a policy shows under a setting.\<close>

definition visible :: "string \<Rightarrow> (string \<times> 'a) list \<Rightarrow> 'a list" where
  "visible setting rows = map snd (filter (\<lambda>(t, x). t = setting) rows)"

definition tenant_row :: "tenant \<Rightarrow> tenant" where
  "tenant_row t = t\<lparr>tn_api_key_hash := [], tn_trial_ends_at := null_time (tn_trial_ends_at t),
     tn_created_at := pg_time (tn_created_at t)\<rparr>"

type_synonym 'a stmt = "string \<Rightarrow> pg_db \<Rightarrow> 'a res \<times> pg_db"

definition ins_tenant :: "tenant \<Rightarrow> unit stmt" where
  "ins_tenant t setting db =
     (if tn_id t \<noteq> setting then (Inl (Sentinel rlsViolation), db)
      else if map_of (pg_tenants db) (tn_id t) \<noteq> None then (Inl (Sentinel uniqueViolation), db)
      else (Inr (), db\<lparr>pg_tenants := pg_tenants db @ [(tn_id t, tenant_row t)]\<rparr>))"

definition ins_key :: "string \<Rightarrow> string \<Rightarrow> unit stmt" where
  "ins_key key_hash tenant_id setting db =
     (if pg_keys db key_hash \<noteq> None then (Inl (Sentinel uniqueViolation), db)
      else if map_of (pg_tenants db) tenant_id = None then (Inl (Sentinel foreignKeyViolation), db)
      else (Inr (), db\<lparr>pg_keys := (pg_keys db)(key_hash \<mapsto> tenant_id)\<rparr>))"

definition upd_mode :: "string \<Rightarrow> int \<Rightarrow> nat stmt" where
  "upd_mode mode secs setting db =
     (Inr (length (filter (\<lambda>(i, t). i = setting) (pg_tenants db))),
      db\<lparr>pg_tenants := map (\<lambda>(i, t). if i = setting then (i, t\<lparr>tn_mode := mode, tn_overflow_seconds := secs\<rparr>) else (i, t))
           (pg_tenants db)\<rparr>)"

text \<open>An insert under the current setting, into the table with the key \<open>taken\<close>.\<close>

definition insert_under ::
  "(pg_db \<Rightarrow> bool) \<Rightarrow> (string \<Rightarrow> pg_db \<Rightarrow> pg_db) \<Rightarrow> unit stmt" where
  "insert_under taken put setting db =
     (if taken db then (Inl (Sentinel uniqueViolation), db)
      else if map_of (pg_tenants db) setting = None then (Inl (Sentinel foreignKeyViolation), db)
      else (Inr (), put setting db))"

definition ins_did :: "did \<Rightarrow> unit stmt" where
  "ins_did d setting db =
     insert_under (\<lambda>db. di_number d \<in> di_number ` snd ` set (pg_dids db))
       (\<lambda>t db. db\<lparr>pg_dids := pg_dids db @ [(t, d\<lparr>di_created_at := pg_time (di_created_at d)\<rparr>)]\<rparr>) setting db"

definition appointment_row :: "appointment \<Rightarrow> appointment" where
  "appointment_row a = a\<lparr>ap_starts_at := pg_time (ap_starts_at a), ap_ends_at := pg_time (ap_ends_at a),
     ap_created_at := pg_time (ap_created_at a)\<rparr>"

definition ins_appointment :: "appointment \<Rightarrow> unit stmt" where
  "ins_appointment a setting db =
     insert_under (\<lambda>db. ap_id a \<in> ap_id ` set (visible setting (pg_appointments db)))
       (\<lambda>t db. db\<lparr>pg_appointments := pg_appointments db @ [(t, appointment_row a)]\<rparr>) setting db"

definition ins_message :: "message \<Rightarrow> unit stmt" where
  "ins_message m setting db =
     insert_under (\<lambda>db. ms_id m \<in> ms_id ` set (visible setting (pg_messages db)))
       (\<lambda>t db. db\<lparr>pg_messages := pg_messages db @ [(t, m\<lparr>ms_created_at := pg_time (ms_created_at m)\<rparr>)]\<rparr>) setting db"

fun upsert :: "string \<Rightarrow> call \<Rightarrow> (string \<times> call) list \<Rightarrow> (string \<times> call) list" where
  "upsert t c [] = [(t, c)]"
| "upsert t c ((t', c') # rows) =
     (if t' = t \<and> call_ID c' = call_ID c then (t, c) # rows else (t', c') # upsert t c rows)"

definition ups_call :: "call \<Rightarrow> unit stmt" where
  "ups_call c setting db =
     insert_under (\<lambda>_. False) (\<lambda>t db. db\<lparr>pg_calls := upsert t c (pg_calls db)\<rparr>) setting db"

section \<open>Transactions\<close>

text \<open>\<open>CEncode\<close> and \<open>CRows\<close> are not commands of the server: the JSON writer of a snapshot, and reading rows into structs.\<close>

datatype pg_cmd = CLookup | CBegin | CSet | CStmt nat | CCommit | CEncode | CRows

type_synonym faults = "pg_cmd \<Rightarrow> gerr option"

definition stmt :: "faults \<Rightarrow> nat \<Rightarrow> 'a stmt \<Rightarrow> 'a stmt" where
  "stmt flt n f setting db = (case flt (CStmt n) of Some e \<Rightarrow> (Inl e, db) | None \<Rightarrow> f setting db)"

text \<open>An error before the commit rolls back, and so does a commit that fails.\<close>

definition inTxAs :: "faults \<Rightarrow> string \<Rightarrow> 'a stmt \<Rightarrow> pg_db \<Rightarrow> 'a res \<times> pg_db" where
  "inTxAs flt tenant_id f db =
     (case flt CBegin of
        Some e \<Rightarrow> (Inl (Wrap ''begin tx: %w'' [] e), db)
      | None \<Rightarrow>
          (case flt CSet of
             Some e \<Rightarrow> (Inl (Wrap ''set app.tenant_id: %w'' [] e), db)
           | None \<Rightarrow>
               (case f tenant_id db of
                  (Inl e, _) \<Rightarrow> (Inl e, db)
                | (Inr x, db') \<Rightarrow>
                    (case flt CCommit of
                       Some e \<Rightarrow> (Inl (Wrap ''commit tx: %w'' [] e), db)
                     | None \<Rightarrow> (Inr x, db')))))"

definition inTenantTx :: "faults \<Rightarrow> go_context \<Rightarrow> 'a stmt \<Rightarrow> pg_db \<Rightarrow> 'a res \<times> pg_db" where
  "inTenantTx flt ctx f db =
     (case FromContext ctx of
        Inl e \<Rightarrow> (Inl (Wrap ''resolve tenant: %w'' [] e), db)
      | Inr i \<Rightarrow> inTxAs flt i f db)"

definition wrap_stmt :: "(gerr \<Rightarrow> gerr) \<Rightarrow> 'a stmt \<Rightarrow> 'a stmt" where
  "wrap_stmt w f setting db = (case f setting db of (Inl e, db) \<Rightarrow> (Inl (w e), db) | (Inr x, db) \<Rightarrow> (Inr x, db))"

text \<open>A statement that reads.\<close>

definition reading :: "(string \<Rightarrow> pg_db \<Rightarrow> 'a res) \<Rightarrow> 'a stmt" where
  "reading f setting db = (f setting db, db)"

section \<open>Operations\<close>

definition pg_CreateTenant :: "faults \<Rightarrow> tenant \<Rightarrow> pg_db \<Rightarrow> unit res \<times> pg_db" where
  "pg_CreateTenant flt t db =
     (case tenant_Validate t of
        Some e \<Rightarrow> (Inl (Wrap ''create tenant: %w'' [] e), db)
      | None \<Rightarrow>
          (case inTxAs flt (tn_id t)
                  (\<lambda>setting db.
                     (case stmt flt 0 (ins_tenant t) setting db of
                        (Inl e, db) \<Rightarrow> (Inl (Wrap ''insert tenant: %w'' [] e), db)
                      | (Inr _, db) \<Rightarrow>
                          if tn_api_key_hash t \<noteq> []
                          then wrap_stmt (Wrap ''insert api key: %w'' []) (stmt flt 1 (ins_key (tn_api_key_hash t) (tn_id t))) setting db
                          else (Inr (), db))) db of
             (Inl e, db) \<Rightarrow>
               (Inl (if isUnique e then Wrap ''create tenant %s: %w'' [FS (tn_id t)] (Sentinel ErrConflict) else e), db)
           | (Inr x, db) \<Rightarrow> (Inr x, db)))"

definition scanTenant :: "string \<Rightarrow> pg_db \<Rightarrow> tenant res" where
  "scanTenant setting db =
     (case map_of (pg_tenants db) setting of
        None \<Rightarrow> Inl (Wrap ''scan tenant: %w'' [] (Sentinel ErrNotFound))
      | Some t \<Rightarrow> Inr t)"

definition scan_stmt :: "faults \<Rightarrow> tenant stmt" where
  "scan_stmt flt setting db =
     (case flt (CStmt 0) of
        Some e \<Rightarrow> (Inl (Wrap ''scan tenant: %w'' [] e), db)
      | None \<Rightarrow> (scanTenant setting db, db))"

definition pg_TenantByAPIKeyHash :: "faults \<Rightarrow> string \<Rightarrow> pg_db \<Rightarrow> tenant res" where
  "pg_TenantByAPIKeyHash flt key_hash db =
     (case flt CLookup of
        Some e \<Rightarrow> Inl (Wrap ''tenant by api key: %w'' [] e)
      | None \<Rightarrow>
          (case pg_keys db key_hash of
             None \<Rightarrow> Inl (Wrap ''tenant by api key: %w'' [] (Sentinel ErrNotFound))
           | Some i \<Rightarrow>
               (case fst (inTxAs flt i (scan_stmt flt) db) of
                  Inl e \<Rightarrow> Inl e
                | Inr t \<Rightarrow> Inr (t\<lparr>tn_api_key_hash := key_hash\<rparr>))))"

definition pg_CurrentTenant :: "faults \<Rightarrow> go_context \<Rightarrow> pg_db \<Rightarrow> tenant res" where
  "pg_CurrentTenant flt ctx db = fst (inTenantTx flt ctx (scan_stmt flt) db)"

definition pg_UpdateTenantMode :: "faults \<Rightarrow> go_context \<Rightarrow> string \<Rightarrow> int \<Rightarrow> pg_db \<Rightarrow> unit res \<times> pg_db" where
  "pg_UpdateTenantMode flt ctx mode secs db =
     (if \<not> mode_Valid mode then (Inl (Errf ''update mode: unknown mode %q'' [FS mode]), db)
      else inTenantTx flt ctx
        (\<lambda>setting db.
           (case stmt flt 0 (upd_mode mode secs) setting db of
              (Inl e, db) \<Rightarrow> (Inl (Wrap ''update mode: %w'' [] e), db)
            | (Inr n, db) \<Rightarrow>
                if n = 0 then (Inl (Wrap ''update mode: %w'' [] (Sentinel ErrNotFound)), db) else (Inr (), db))) db)"

text \<open>A query and \<open>pgx.CollectRows\<close> over its rows, whose error is not wrapped.\<close>

definition collected :: "faults \<Rightarrow> string \<Rightarrow> 'a stmt \<Rightarrow> 'a stmt" where
  "collected flt fmt f setting db =
     (case wrap_stmt (Wrap fmt []) (stmt flt 0 f) setting db of
        (Inl e, db) \<Rightarrow> (Inl e, db)
      | (Inr x, db) \<Rightarrow> (case flt CRows of Some e \<Rightarrow> (Inl e, db) | None \<Rightarrow> (Inr x, db)))"

text \<open>The inserts share the way their errors are reported.\<close>

definition inserted :: "string \<Rightarrow> string \<Rightarrow> string \<Rightarrow> unit res \<times> pg_db \<Rightarrow> unit res \<times> pg_db" where
  "inserted conflict_fmt key fmt out =
     (case out of
        (Inl e, db) \<Rightarrow> (Inl (if isUnique e then Wrap conflict_fmt [FS key] (Sentinel ErrConflict) else Wrap fmt [] e), db)
      | (Inr x, db) \<Rightarrow> (Inr x, db))"

definition pg_AddDID :: "faults \<Rightarrow> go_context \<Rightarrow> did \<Rightarrow> pg_db \<Rightarrow> unit res \<times> pg_db" where
  "pg_AddDID flt ctx d db =
     (case did_Validate d of
        Some e \<Rightarrow> (Inl (Wrap ''add did: %w'' [] e), db)
      | None \<Rightarrow> inserted ''add did %s: %w'' (di_number d) ''add did: %w'' (inTenantTx flt ctx (stmt flt 0 (ins_did d)) db))"

definition pg_ListDIDs :: "faults \<Rightarrow> go_context \<Rightarrow> pg_db \<Rightarrow> did list res" where
  "pg_ListDIDs flt ctx db =
     fst (inTenantTx flt ctx
       (collected flt ''list dids: %w'' (reading (\<lambda>setting db.
          Inr (sort_by (\<lambda>a b. str_less (di_number a) (di_number b)) (visible setting (pg_dids db)))))) db)"

definition pg_PutCall :: "faults \<Rightarrow> go_context \<Rightarrow> call \<Rightarrow> pg_db \<Rightarrow> unit res \<times> pg_db" where
  "pg_PutCall flt ctx c db =
     (if call_ID c = [] then (Inl (Errf ''put call: missing call id'' []), db)
      else (case flt CEncode of
              Some e \<Rightarrow> (Inl (Wrap ''put call: marshal snapshot: %w'' [] e), db)
            | None \<Rightarrow> inTenantTx flt ctx (wrap_stmt (Wrap ''put call: %w'' []) (stmt flt 0 (ups_call c))) db))"

definition call_newer :: "call \<Rightarrow> call \<Rightarrow> bool" where
  "call_newer a b \<longleftrightarrow> null_time (sn_started_at (ca_snapshot a)) > null_time (sn_started_at (ca_snapshot b))"

definition pg_ListCalls :: "faults \<Rightarrow> go_context \<Rightarrow> pg_db \<Rightarrow> call list res" where
  "pg_ListCalls flt ctx db =
     fst (inTenantTx flt ctx
       (collected flt ''list calls: %w'' (reading (\<lambda>setting db.
          Inr (sort_by call_newer (visible setting (pg_calls db)))))) db)"

definition pg_GetCall :: "faults \<Rightarrow> go_context \<Rightarrow> string \<Rightarrow> pg_db \<Rightarrow> call res" where
  "pg_GetCall flt ctx call_id db =
     fst (inTenantTx flt ctx (\<lambda>setting db.
       (case flt (CStmt 0) of
          Some e \<Rightarrow> (Inl (Wrap ''get call: %w'' [] e), db)
        | None \<Rightarrow>
            (case find (\<lambda>c. call_ID c = call_id) (visible setting (pg_calls db)) of
               None \<Rightarrow> (Inl (Wrap ''get call %s: %w'' [FS call_id] (Sentinel ErrNotFound)), db)
             | Some c \<Rightarrow>
                 (case flt CRows of
                    Some e \<Rightarrow> (Inl (Wrap ''get call: unmarshal snapshot: %w'' [] e), db)
                  | None \<Rightarrow> (Inr c, db))))) db)"

definition pg_CreateAppointment :: "faults \<Rightarrow> go_context \<Rightarrow> appointment \<Rightarrow> pg_db \<Rightarrow> unit res \<times> pg_db" where
  "pg_CreateAppointment flt ctx a db =
     (case appointment_Validate a of
        Some e \<Rightarrow> (Inl (Wrap ''create appointment: %w'' [] e), db)
      | None \<Rightarrow> inserted ''create appointment %s: %w'' (ap_id a) ''create appointment: %w''
          (inTenantTx flt ctx (stmt flt 0 (ins_appointment a)) db))"

definition pg_ListAppointments :: "faults \<Rightarrow> go_context \<Rightarrow> pg_db \<Rightarrow> appointment list res" where
  "pg_ListAppointments flt ctx db =
     fst (inTenantTx flt ctx
       (collected flt ''list appointments: %w'' (reading (\<lambda>setting db.
          Inr (sort_by (\<lambda>a b. ap_starts_at a < ap_starts_at b) (visible setting (pg_appointments db)))))) db)"

definition pg_CreateMessage :: "faults \<Rightarrow> go_context \<Rightarrow> message \<Rightarrow> pg_db \<Rightarrow> unit res \<times> pg_db" where
  "pg_CreateMessage flt ctx msg db =
     (case message_Validate msg of
        Some e \<Rightarrow> (Inl (Wrap ''create message: %w'' [] e), db)
      | None \<Rightarrow> inserted ''create message %s: %w'' (ms_id msg) ''create message: %w''
          (inTenantTx flt ctx (stmt flt 0 (ins_message msg)) db))"

definition pg_ListMessages :: "faults \<Rightarrow> go_context \<Rightarrow> pg_db \<Rightarrow> message list res" where
  "pg_ListMessages flt ctx db =
     fst (inTenantTx flt ctx
       (collected flt ''list messages: %w'' (reading (\<lambda>setting db.
          Inr (sort_by (\<lambda>a b. ms_created_at a > ms_created_at b) (visible setting (pg_messages db)))))) db)"

end
