(* ===== verification/Pg_Props.thy ===== *)
theory Pg_Props
  imports Pg_Store
begin

text \<open>
  The PostgreSQL store: failed operations change nothing, the policies isolate the tenants (the
  contract \<open>tenant_scoped\<close> again), and the store answers as the in-memory store does.
\<close>

section \<open>Writes\<close>

definition no_faults :: faults where "no_faults = (\<lambda>_. None)"

fun pg_write :: "faults \<Rightarrow> go_context \<Rightarrow> mem_op \<Rightarrow> pg_db \<Rightarrow> unit res \<times> pg_db" where
  "pg_write flt ctx (OpUpdateMode mode secs) db = pg_UpdateTenantMode flt ctx mode secs db"
| "pg_write flt ctx (OpAddDID d) db = pg_AddDID flt ctx d db"
| "pg_write flt ctx (OpPutCall c) db = pg_PutCall flt ctx c db"
| "pg_write flt ctx (OpAppointment a) db = pg_CreateAppointment flt ctx a db"
| "pg_write flt ctx (OpMessage msg) db = pg_CreateMessage flt ctx msg db"

lemma inTxAs_cases:
  "inTxAs flt i f db = (r, db') \<Longrightarrow> (\<exists>e. r = Inl e \<and> db' = db) \<or> (\<exists>x. r = Inr x \<and> f i db = (Inr x, db'))"
  by (auto simp: inTxAs_def split: option.splits prod.splits sum.splits)

lemma inTenantTx_cases:
  "inTenantTx flt ctx f db = (r, db') \<Longrightarrow>
     (\<exists>e. r = Inl e \<and> db' = db) \<or> (\<exists>i x. FromContext ctx = Inr i \<and> r = Inr x \<and> f i db = (Inr x, db'))"
  by (auto simp: inTenantTx_def split: sum.splits dest: inTxAs_cases)

lemma inserted_cases:
  "inserted cf k fm out = (r, db') \<Longrightarrow>
     (\<exists>e e'. r = Inl e \<and> out = (Inl e', db')) \<or> (\<exists>x. r = Inr x \<and> out = (Inr x, db'))"
  by (auto simp: inserted_def split: prod.splits sum.splits)

text \<open>What a write that succeeds has done, and under which setting.\<close>

fun effect :: "mem_op \<Rightarrow> unit stmt" where
  "effect (OpUpdateMode mode secs) i db = (Inr (), snd (upd_mode mode secs i db))"
| "effect (OpAddDID d) i db = ins_did d i db"
| "effect (OpPutCall c) i db = ups_call c i db"
| "effect (OpAppointment a) i db = ins_appointment a i db"
| "effect (OpMessage msg) i db = ins_message msg i db"

lemma stmt_ok: "stmt flt n f i db = (Inr x, db') \<Longrightarrow> f i db = (Inr x, db')"
  by (auto simp: stmt_def split: option.splits)

lemma wrap_stmt_ok: "wrap_stmt w f i db = (Inr x, db') \<Longrightarrow> f i db = (Inr x, db')"
  by (auto simp: wrap_stmt_def split: prod.splits sum.splits)

lemma pg_write_cases:
  assumes "pg_write flt ctx op db = (r, db')"
  shows "(\<exists>e. r = Inl e \<and> db' = db) \<or>
     (\<exists>i. FromContext ctx = Inr i \<and> r = Inr () \<and> effect op i db = (Inr (), db'))"
proof (cases op)
  case (OpUpdateMode mode secs)
  with assms show ?thesis
    by (auto simp: pg_UpdateTenantMode_def upd_mode_def split: if_splits sum.splits prod.splits
        dest!: inTenantTx_cases stmt_ok)
next
  case (OpAddDID d)
  with assms show ?thesis
    by (auto simp: pg_AddDID_def split: option.splits dest!: inserted_cases inTenantTx_cases stmt_ok)
next
  case (OpPutCall c)
  with assms show ?thesis
    by (auto simp: pg_PutCall_def split: if_splits option.splits dest!: inTenantTx_cases wrap_stmt_ok stmt_ok)
next
  case (OpAppointment a)
  with assms show ?thesis
    by (auto simp: pg_CreateAppointment_def split: option.splits dest!: inserted_cases inTenantTx_cases stmt_ok)
next
  case (OpMessage msg)
  with assms show ?thesis
    by (auto simp: pg_CreateMessage_def split: option.splits dest!: inserted_cases inTenantTx_cases stmt_ok)
qed

section \<open>Isolation\<close>

lemma visible_append: "visible i (rows @ [(t, x)]) = visible i rows @ (if t = i then [x] else [])"
  by (simp add: visible_def)

lemma visible_upsert_other: "i \<noteq> t \<Longrightarrow> visible i (upsert t c rows) = visible i rows"
  by (induction t c rows rule: upsert.induct) (auto simp: visible_def)

definition pg_view where
  "pg_view i db = (map_of (pg_tenants db) i, visible i (pg_dids db), visible i (pg_calls db),
     visible i (pg_appointments db), visible i (pg_messages db))"

lemma map_of_upd_mode:
  "map_of (map (\<lambda>(i, t). if i = s then (i, f t) else (i, t)) rows) j =
     (if j = s then map_option f (map_of rows j) else map_of rows j)"
  by (induction rows) auto

lemma effect_other: "effect op i db = (Inr (), db') \<Longrightarrow> i \<noteq> j \<Longrightarrow> pg_view j db' = pg_view j db"
  by (cases op)
    (auto simp: pg_view_def ins_did_def ups_call_def ins_appointment_def ins_message_def insert_under_def upd_mode_def
      map_of_upd_mode visible_append visible_upsert_other split: if_splits)

lemma pg_write_other:
  assumes "FromContext ctx \<noteq> Inr j"
  shows "pg_view j (snd (pg_write flt ctx op db)) = pg_view j db"
proof -
  obtain r db' where w: "pg_write flt ctx op db = (r, db')" by (metis prod.exhaust)
  from pg_write_cases [OF w] assms effect_other [of op _ db db' j] show ?thesis by (auto simp: w)
qed

interpretation pgs: tenant_scoped "\<lambda>ctx (flt, op) db. snd (pg_write flt ctx op db)" pg_view
  by unfold_locales (auto simp: pg_write_other)


section \<open>The two stores answer alike\<close>

definition keyed :: "('a \<Rightarrow> string) \<Rightarrow> 'a list \<Rightarrow> (string \<times> 'a) list" where
  "keyed key xs = map (\<lambda>x. (key x, x)) xs"

text \<open>The in-memory state that a database stands for; the hash of a key is only in the key table.\<close>

definition no_hash :: "tenant \<Rightarrow> tenant" where "no_hash t = t\<lparr>tn_api_key_hash := []\<rparr>"

definition related :: "mem \<Rightarrow> pg_db \<Rightarrow> bool" where
  "related m db \<longleftrightarrow>
     (\<forall>i. map_option no_hash (mem_tenants m i) = map_of (pg_tenants db) i) \<and>
     distinct (map fst (pg_tenants db)) \<and>
     (\<forall>i t. mem_tenants m i = Some t \<longrightarrow> tenant_Validate t = None) \<and>
     mem_apiKeys m = pg_keys db \<and>
     (\<forall>h i. mem_apiKeys m h = Some i \<longrightarrow> mem_tenants m i \<noteq> None) \<and>
     mem_didOwners m = map_of (map (\<lambda>(t, d). (di_number d, t)) (pg_dids db)) \<and>
     (\<forall>i. mem_dids m i = keyed di_number (visible i (pg_dids db)) \<and>
          mem_calls m i = keyed call_ID (visible i (pg_calls db)) \<and>
          mem_appointments m i = keyed ap_id (visible i (pg_appointments db)) \<and>
          mem_messages m i = keyed ms_id (visible i (pg_messages db))) \<and>
     (\<forall>(t, c) \<in> set (pg_calls db). null_time (sn_started_at (ca_snapshot c)) = sn_started_at (ca_snapshot c))"

lemma related_empty: "related NewMem empty_db"
  by (simp add: related_def NewMem_def empty_db_def visible_def keyed_def)

lemma map_of_keyed_None: "map_of (keyed key xs) k = None \<longleftrightarrow> k \<notin> key ` set xs"
  by (force simp: keyed_def map_of_eq_None_iff)

lemma update_keyed_new: "key x \<notin> key ` set xs \<Longrightarrow> AList.update (key x) x (keyed key xs) = keyed key (xs @ [x])"
  by (induction xs) (auto simp: keyed_def)

lemma update_keyed_upsert:
  "AList.update (call_ID c) c (keyed call_ID (visible i rows)) = keyed call_ID (visible i (upsert i c rows))"
  by (induction i c rows rule: upsert.induct) (auto simp: visible_def keyed_def)

lemma find_keyed: "find (\<lambda>x. key x = k) xs = map_of (keyed key xs) k"
  by (induction xs) (auto simp: keyed_def)

lemma map_snd_keyed [simp]: "map snd (keyed key xs) = xs"
  by (simp add: keyed_def comp_def)

text \<open>The class of an answer: the status the API gives it, or the value.\<close>

definition err_class :: "gerr \<Rightarrow> nat" where
  "err_class e = (if is_err ErrNotFound e then 404 else if is_err ErrConflict e then 409 else 500)"

definition class_of :: "'a res \<Rightarrow> nat + 'a" where "class_of r = map_sum err_class id r"

definition done_of :: "gerr option \<Rightarrow> unit res" where
  "done_of r = (case r of Some e \<Rightarrow> Inl e | None \<Rightarrow> Inr ())"

fun mem_write :: "go_context \<Rightarrow> mem_op \<Rightarrow> mem \<Rightarrow> gerr option \<times> mem" where
  "mem_write ctx (OpUpdateMode mode secs) m = UpdateTenantMode ctx mode secs m"
| "mem_write ctx (OpAddDID d) m = AddDID ctx d m"
| "mem_write ctx (OpPutCall c) m = PutCall ctx c m"
| "mem_write ctx (OpAppointment a) m = CreateAppointment ctx a m"
| "mem_write ctx (OpMessage msg) m = CreateMessage ctx msg m"

text \<open>
  What the API guarantees of a write: an existing tenant, times in whole microseconds, a valid
  mode with its seconds.
\<close>

fun exact_op :: "mem_op \<Rightarrow> bool" where
  "exact_op (OpUpdateMode mode secs) \<longleftrightarrow> mode_Valid mode \<and> (if mode = ModeOverflow then 0 < secs else True)"
| "exact_op (OpAddDID d) \<longleftrightarrow> 1000 dvd di_created_at d"
| "exact_op (OpPutCall c) \<longleftrightarrow> 1000 dvd sn_started_at (ca_snapshot c)"
| "exact_op (OpAppointment a) \<longleftrightarrow> 1000 dvd ap_starts_at a \<and> 1000 dvd ap_ends_at a \<and> 1000 dvd ap_created_at a"
| "exact_op (OpMessage msg) \<longleftrightarrow> 1000 dvd ms_created_at msg"

lemma pg_time_exact: "1000 dvd t \<Longrightarrow> pg_time t = t"
  by (simp add: pg_time_def)

lemma null_time_exact: "1000 dvd t \<Longrightarrow> null_time t = t"
  by (simp add: null_time_def nullableTime_def is_zero_def pg_time_exact)

lemma err_classes [simp]:
  "err_class (Wrap f as e) = err_class e" "err_class (Errf f as) = 500" "err_class (Sentinel ErrNotFound) = 404"
  "err_class (Sentinel ErrConflict) = 409" "err_class (Sentinel ErrNoTenant) = 500"
  by (simp_all add: err_class_def ErrNotFound_def ErrConflict_def ErrNoTenant_def)

lemma validation_class:
  "did_Validate d = Some e \<Longrightarrow> err_class e = 500"
  "appointment_Validate a = Some e \<Longrightarrow> err_class e = 500"
  "message_Validate x = Some e \<Longrightarrow> err_class e = 500"
  by (auto simp: did_Validate_def appointment_Validate_def message_Validate_def Let_def split: if_splits)

lemma no_context: "FromContext ctx = Inl e \<Longrightarrow> err_class e = 500"
  by (auto simp: FromContext_def split: option.splits if_splits)

lemma unique_classes [simp]:
  "isUnique (Sentinel uniqueViolation)" "isUnique (Wrap f as e) = isUnique e" "\<not> isUnique (Sentinel ErrNoTenant)"
  by (simp_all add: isUnique_def uniqueViolation_def ErrNoTenant_def)

lemma no_context_unique: "FromContext ctx = Inl e \<Longrightarrow> \<not> isUnique e"
  by (auto simp: FromContext_def split: option.splits if_splits)

lemma quiet [simp]:
  "no_faults c = None"
  "stmt no_faults n f i db = f i db"
  "inTxAs no_faults i f db = (case f i db of (Inl e, _) \<Rightarrow> (Inl e, db) | (Inr x, db') \<Rightarrow> (Inr x, db'))"
  by (simp_all add: stmt_def inTxAs_def no_faults_def split: prod.split sum.split)

definition alike :: "(gerr option \<times> mem) \<Rightarrow> (unit res \<times> pg_db) \<Rightarrow> bool" where
  "alike x y \<longleftrightarrow> class_of (done_of (fst x)) = class_of (fst y) \<and> related (snd x) (snd y)"

lemma alike_error: "related m db \<Longrightarrow> err_class e = err_class e' \<Longrightarrow> alike (Some e, m) (Inl e', db)"
  by (simp add: alike_def class_of_def done_of_def)

lemma alike_done: "related m db \<Longrightarrow> alike (None, m) (Inr (), db)"
  by (simp add: alike_def class_of_def done_of_def)

lemma owned_iff: "map_of (map (\<lambda>(t, d). (di_number d, t)) rows) n = None \<longleftrightarrow> n \<notin> di_number ` snd ` set rows"
  by (force simp: map_of_eq_None_iff)

lemma single_add: "f n = None \<Longrightarrow> [n \<mapsto> i] ++ f = f(n \<mapsto> i)"
  by (auto simp: map_add_def fun_eq_iff split: option.split)

lemma did_alike:
  assumes r: "related m db" and x: "exact_op (OpAddDID d)" and t: "\<forall>i. FromContext ctx = Inr i \<longrightarrow> mem_tenants m i \<noteq> None"
  shows "alike (AddDID ctx d m) (pg_AddDID no_faults ctx d db)"
proof (cases "FromContext ctx")
  case (Inl e)
  then show ?thesis using r no_context [OF Inl] no_context_unique [OF Inl] validation_class(1) [of d]
    by (auto simp: AddDID_def pg_AddDID_def inTenantTx_def inserted_def intro!: alike_error split: option.split)
next
  case (Inr i)
  have ex: "map_of (pg_tenants db) i \<noteq> None" using t Inr r unfolding related_def by (metis option.map_disc_iff)
  have ow: "mem_didOwners m (di_number d) = None \<longleftrightarrow> di_number d \<notin> di_number ` snd ` set (pg_dids db)"
    using r owned_iff [of "pg_dids db"] unfolding related_def by simp
  have "pg_time (di_created_at d) = di_created_at d" using x by (intro pg_time_exact) simp
  then have d: "d\<lparr>di_created_at := pg_time (di_created_at d)\<rparr> = d" by (cases d) (simp only: did.simps)
  show ?thesis
  proof (cases "did_Validate d")
    case (Some e)
    with r Inr show ?thesis by (auto simp: AddDID_def pg_AddDID_def intro!: alike_error)
  next
    case None
    show ?thesis
    proof (cases "mem_didOwners m (di_number d)")
      case (Some j)
      with None Inr r ow show ?thesis
        by (auto simp: AddDID_def pg_AddDID_def inTenantTx_def inserted_def ins_did_def insert_under_def intro!: alike_error)
    next
      case free: None
      with ow have nk: "di_number d \<notin> di_number ` snd ` set (pg_dids db)" by simp
      then have nv: "di_number d \<notin> di_number ` set (visible i (pg_dids db))" by (auto simp: visible_def)
      have "related (m\<lparr>mem_didOwners := (mem_didOwners m)(di_number d \<mapsto> i),
          mem_dids := (mem_dids m)(i := AList.update (di_number d) d (mem_dids m i))\<rparr>)
        (db\<lparr>pg_dids := pg_dids db @ [(i, d)]\<rparr>)"
        using r nk unfolding related_def
        by (auto simp: update_keyed_new [OF nv] visible_append single_add owned_iff)
      with None Inr free nk ex d show ?thesis
        by (auto simp: AddDID_def pg_AddDID_def inTenantTx_def inserted_def ins_did_def insert_under_def intro!: alike_done)
    qed
  qed
qed

lemma tenant_exists:
  "related m db \<Longrightarrow> mem_tenants m i \<noteq> None \<Longrightarrow> map_of (pg_tenants db) i \<noteq> None"
  unfolding related_def by (metis option.map_disc_iff)

lemma appointment_alike:
  assumes r: "related m db" and x: "exact_op (OpAppointment a)" and t: "\<forall>i. FromContext ctx = Inr i \<longrightarrow> mem_tenants m i \<noteq> None"
  shows "alike (CreateAppointment ctx a m) (pg_CreateAppointment no_faults ctx a db)"
proof (cases "FromContext ctx")
  case (Inl e)
  then show ?thesis using r no_context [OF Inl] no_context_unique [OF Inl] validation_class(2) [of a]
    by (auto simp: CreateAppointment_def pg_CreateAppointment_def inTenantTx_def inserted_def intro!: alike_error
        split: option.split)
next
  case (Inr i)
  have ex: "map_of (pg_tenants db) i \<noteq> None" using tenant_exists [OF r] t Inr by blast
  have rows: "mem_appointments m i = keyed ap_id (visible i (pg_appointments db))" using r by (simp add: related_def)
  have "appointment_row a = a" using x by (cases a) (simp add: appointment_row_def pg_time_def)
  with r Inr ex rows show ?thesis
    by (cases "appointment_Validate a"; cases "ap_id a \<in> ap_id ` set (visible i (pg_appointments db))")
      (auto simp: CreateAppointment_def pg_CreateAppointment_def inTenantTx_def inserted_def ins_appointment_def
        insert_under_def map_of_keyed_None related_def update_keyed_new visible_append intro!: alike_error alike_done)
qed

lemma message_alike:
  assumes r: "related m db" and x: "exact_op (OpMessage a)" and t: "\<forall>i. FromContext ctx = Inr i \<longrightarrow> mem_tenants m i \<noteq> None"
  shows "alike (CreateMessage ctx a m) (pg_CreateMessage no_faults ctx a db)"
proof (cases "FromContext ctx")
  case (Inl e)
  then show ?thesis using r no_context [OF Inl] no_context_unique [OF Inl] validation_class(3) [of a]
    by (auto simp: CreateMessage_def pg_CreateMessage_def inTenantTx_def inserted_def intro!: alike_error
        split: option.split)
next
  case (Inr i)
  have ex: "map_of (pg_tenants db) i \<noteq> None" using tenant_exists [OF r] t Inr by blast
  have rows: "mem_messages m i = keyed ms_id (visible i (pg_messages db))" using r by (simp add: related_def)
  have "a\<lparr>ms_created_at := pg_time (ms_created_at a)\<rparr> = a" using x by (cases a) (simp add: pg_time_def)
  then have row: "ins_message a i db = insert_under (\<lambda>db. ms_id a \<in> ms_id ` set (visible i (pg_messages db)))
      (\<lambda>t db. db\<lparr>pg_messages := pg_messages db @ [(t, a)]\<rparr>) i db" by (simp add: ins_message_def)
  have new: "related (m\<lparr>mem_messages := (mem_messages m)(i := AList.update (ms_id a) a (mem_messages m i))\<rparr>)
      (db\<lparr>pg_messages := pg_messages db @ [(i, a)]\<rparr>)" if "ms_id a \<notin> ms_id ` set (visible i (pg_messages db))"
    using r that unfolding related_def by (simp add: update_keyed_new visible_append)
  note s = CreateMessage_def pg_CreateMessage_def inTenantTx_def inserted_def insert_under_def row
  show ?thesis
  proof (cases "message_Validate a")
    case (Some e)
    with r Inr show ?thesis by (simp add: s alike_error)
  next
    case None
    with r Inr ex rows new show ?thesis
      by (cases "ms_id a \<in> ms_id ` set (visible i (pg_messages db))")
        (auto simp: s map_of_keyed_None intro!: alike_error alike_done)
  qed
qed

lemma upsert_in: "(t', c') \<in> set (upsert t c rows) \<Longrightarrow> (t', c') = (t, c) \<or> (t', c') \<in> set rows"
  by (induction t c rows rule: upsert.induct) (auto split: if_splits)

lemma call_alike:
  assumes r: "related m db" and x: "exact_op (OpPutCall c)" and t: "\<forall>i. FromContext ctx = Inr i \<longrightarrow> mem_tenants m i \<noteq> None"
  shows "alike (PutCall ctx c m) (pg_PutCall no_faults ctx c db)"
proof (cases "FromContext ctx")
  case (Inl e)
  then show ?thesis using r no_context [OF Inl]
    by (auto simp: PutCall_def pg_PutCall_def inTenantTx_def intro!: alike_error)
next
  case (Inr i)
  have ex: "map_of (pg_tenants db) i \<noteq> None" using tenant_exists [OF r] t Inr by blast
  have n: "null_time (sn_started_at (ca_snapshot c)) = sn_started_at (ca_snapshot c)" using x by (simp add: null_time_exact)
  have rows: "\<forall>i. mem_calls m i = keyed call_ID (visible i (pg_calls db))" using r by (simp add: related_def)
  have "\<forall>(t, c) \<in> set (upsert i c (pg_calls db)). null_time (sn_started_at (ca_snapshot c)) = sn_started_at (ca_snapshot c)"
    using r n by (auto simp: related_def dest!: upsert_in)
  moreover have "mem_calls (m\<lparr>mem_calls := (mem_calls m)(i := AList.update (call_ID c) c (mem_calls m i))\<rparr>) j =
      keyed call_ID (visible j (upsert i c (pg_calls db)))" for j
    using rows by (simp add: update_keyed_upsert visible_upsert_other)
  ultimately have "related (m\<lparr>mem_calls := (mem_calls m)(i := AList.update (call_ID c) c (mem_calls m i))\<rparr>)
      (db\<lparr>pg_calls := upsert i c (pg_calls db)\<rparr>)"
    using r unfolding related_def by simp
  with r Inr ex show ?thesis
    by (cases "call_ID c = []")
      (auto simp: PutCall_def pg_PutCall_def inTenantTx_def wrap_stmt_def ups_call_def insert_under_def
        intro!: alike_error alike_done)
qed

lemma fst_upd_mode: "map fst (map (\<lambda>(i, t). if i = s then (i, f t) else (i, t)) rows) = map fst rows"
  by (induction rows) auto

lemma row_count: "map_of rows i \<noteq> None \<Longrightarrow> length (filter (\<lambda>(j, t). j = i) rows) \<noteq> 0"
  by (induction rows) (auto split: if_splits)

lemma mode_alike:
  assumes r: "related m db" and x: "exact_op (OpUpdateMode mode secs)"
    and t: "\<forall>i. FromContext ctx = Inr i \<longrightarrow> mem_tenants m i \<noteq> None"
  shows "alike (UpdateTenantMode ctx mode secs m) (pg_UpdateTenantMode no_faults ctx mode secs db)"
proof (cases "FromContext ctx")
  case (Inl e)
  then show ?thesis using r x no_context [OF Inl]
    by (simp add: UpdateTenantMode_def pg_UpdateTenantMode_def inTenantTx_def alike_error)
next
  case (Inr i)
  with t obtain u where u: "mem_tenants m i = Some u" by blast
  let ?u = "u\<lparr>tn_mode := mode, tn_overflow_seconds := secs\<rparr>"
  have v: "tenant_Validate ?u = None"
    using r u x by (intro update_mode_valid) (auto simp: related_def split: if_splits)
  have ex: "map_of (pg_tenants db) i \<noteq> None" using tenant_exists [OF r] u by simp
  have nh: "no_hash ?u = (no_hash u)\<lparr>tn_mode := mode, tn_overflow_seconds := secs\<rparr>" by (simp add: no_hash_def)
  have row: "map_of (pg_tenants db) i = Some (no_hash u)" using r u unfolding related_def by (metis option.simps(9))
  let ?db = "snd (upd_mode mode secs i db)"
  have rows: "map_of (pg_tenants ?db) j = (if j = i then Some (no_hash ?u) else map_of (pg_tenants db) j)" for j
    using row by (simp add: upd_mode_def map_of_upd_mode nh)
  have "distinct (map fst (pg_tenants ?db))" using r by (simp add: upd_mode_def fst_upd_mode related_def del: map_map)
  moreover have "pg_keys ?db = pg_keys db" "pg_dids ?db = pg_dids db" "pg_calls ?db = pg_calls db"
    "pg_appointments ?db = pg_appointments db" "pg_messages ?db = pg_messages db" by (simp_all add: upd_mode_def)
  ultimately have "related (m\<lparr>mem_tenants := (mem_tenants m)(i \<mapsto> ?u)\<rparr>) ?db"
    using r v unfolding related_def by (simp add: rows)
  moreover have "pg_UpdateTenantMode no_faults ctx mode secs db = (Inr (), ?db)"
    using x Inr row_count [OF ex] by (simp add: pg_UpdateTenantMode_def inTenantTx_def upd_mode_def)
  ultimately show ?thesis using Inr u v by (simp add: UpdateTenantMode_def Let_def alike_done)
qed

lemma write_alike:
  assumes "related m db" and "exact_op op" and "\<forall>i. FromContext ctx = Inr i \<longrightarrow> mem_tenants m i \<noteq> None"
  shows "alike (mem_write ctx op m) (pg_write no_faults ctx op db)"
  using assms did_alike mode_alike call_alike appointment_alike message_alike by (cases op) simp_all

text \<open>A new tenant: its times exact, the hash of its key unused.\<close>

lemma create_alike:
  assumes r: "related m db" and x: "1000 dvd tn_trial_ends_at t" "1000 dvd tn_created_at t"
    and k: "mem_apiKeys m (tn_api_key_hash t) = None"
  shows "alike (CreateTenant t m) (pg_CreateTenant no_faults t db)"
proof (cases "tenant_Validate t")
  case (Some e)
  with r show ?thesis by (simp add: CreateTenant_def pg_CreateTenant_def alike_error)
next
  case None
  have row: "tenant_row t = no_hash t"
    using x by (simp add: tenant_row_def no_hash_def null_time_exact pg_time_exact)
  have keys: "pg_keys db = mem_apiKeys m" using r by (simp add: related_def)
  have iff: "map_of (pg_tenants db) (tn_id t) = None \<longleftrightarrow> mem_tenants m (tn_id t) = None"
    using r unfolding related_def by (metis option.map_disc_iff)
  show ?thesis
  proof (cases "mem_tenants m (tn_id t)")
    case (Some u)
    with iff have "map_of (pg_tenants db) (tn_id t) \<noteq> None" by simp
    with None Some r show ?thesis
      by (simp add: CreateTenant_def pg_CreateTenant_def ins_tenant_def alike_error)
  next
    case free: None
    with iff have nf: "map_of (pg_tenants db) (tn_id t) = None" by simp
    let ?rows = "pg_tenants db @ [(tn_id t, no_hash t)]"
    have rows: "map_of ?rows j = (if j = tn_id t then Some (no_hash t) else map_of (pg_tenants db) j)" for j
      using nf by (auto simp: map_add_def split: option.split)
    have dist: "distinct (map fst ?rows)" using r nf by (simp add: related_def map_of_eq_None_iff)
    define ks where "ks = (if tn_api_key_hash t \<noteq> [] then (mem_apiKeys m)(tn_api_key_hash t \<mapsto> tn_id t) else mem_apiKeys m)"
    have mem: "CreateTenant t m = (None, m\<lparr>mem_tenants := (mem_tenants m)(tn_id t \<mapsto> t), mem_apiKeys := ks\<rparr>)"
      using None free by (simp add: CreateTenant_def ks_def)
    have ins: "ins_tenant t (tn_id t) db = (Inr (), db\<lparr>pg_tenants := ?rows\<rparr>)"
      using nf row by (simp add: ins_tenant_def)
    have key: "ins_key (tn_api_key_hash t) (tn_id t) (tn_id t) (db\<lparr>pg_tenants := ?rows\<rparr>) =
        (Inr (), db\<lparr>pg_tenants := ?rows, pg_keys := (mem_apiKeys m)(tn_api_key_hash t \<mapsto> tn_id t)\<rparr>)"
      using k rows [of "tn_id t"] by (simp add: ins_key_def keys del: map_of_append)
    have "db\<lparr>pg_tenants := ?rows\<rparr> = db\<lparr>pg_tenants := ?rows, pg_keys := mem_apiKeys m\<rparr>"
      by (cases db) (use keys in simp)
    then have pg: "pg_CreateTenant no_faults t db = (Inr (), db\<lparr>pg_tenants := ?rows, pg_keys := ks\<rparr>)"
      using None ins key by (simp add: pg_CreateTenant_def wrap_stmt_def ks_def)
    have kr: "\<forall>h i. ks h = Some i \<longrightarrow> i = tn_id t \<or> mem_tenants m i \<noteq> None"
      using r by (auto simp: related_def ks_def)
    have "related (m\<lparr>mem_tenants := (mem_tenants m)(tn_id t \<mapsto> t), mem_apiKeys := ks\<rparr>)
        (db\<lparr>pg_tenants := ?rows, pg_keys := ks\<rparr>)"
      using r None kr dist unfolding related_def by (auto simp: rows simp del: map_of_append)
    then show ?thesis by (simp add: mem pg alike_done)
  qed
qed

section \<open>Reads\<close>

lemma insert_by_cong: "\<forall>y \<in> set ys. lt y x = lt' y x \<Longrightarrow> insert_by lt x ys = insert_by lt' x ys"
  by (induction ys) auto

lemma sort_by_cong: "\<forall>x \<in> set xs. \<forall>y \<in> set xs. lt y x = lt' y x \<Longrightarrow> sort_by lt xs = sort_by lt' xs"
  by (induction xs) (auto intro!: insert_by_cong)

lemma class_simps [simp]: "class_of (Inl e) = Inl (err_class e)" "class_of (Inr x) = Inr x"
  by (simp_all add: class_of_def)

definition forget_hash :: "nat + tenant \<Rightarrow> nat + tenant" where "forget_hash = map_sum id no_hash"

text \<open>Everything a client of the stores can read: the tenant, by context and by key, and the lists.\<close>

definition reads_alike :: "go_context \<Rightarrow> string \<Rightarrow> mem \<Rightarrow> pg_db \<Rightarrow> bool" where
  "reads_alike ctx k m db \<longleftrightarrow>
     forget_hash (class_of (CurrentTenant ctx m)) = forget_hash (class_of (pg_CurrentTenant no_faults ctx db)) \<and>
     (\<forall>zero. forget_hash (class_of (TenantByAPIKeyHash zero k m)) =
        forget_hash (class_of (pg_TenantByAPIKeyHash no_faults k db))) \<and>
     class_of (ListDIDs ctx m) = class_of (pg_ListDIDs no_faults ctx db) \<and>
     class_of (ListCalls ctx m) = class_of (pg_ListCalls no_faults ctx db) \<and>
     class_of (GetCall ctx k m) = class_of (pg_GetCall no_faults ctx k db) \<and>
     class_of (ListAppointments ctx m) = class_of (pg_ListAppointments no_faults ctx db) \<and>
     class_of (ListMessages ctx m) = class_of (pg_ListMessages no_faults ctx db)"

lemma no_hash_idem [simp]: "no_hash (no_hash t) = no_hash t" "no_hash (t\<lparr>tn_api_key_hash := k\<rparr>) = no_hash t"
  by (simp_all add: no_hash_def)

lemma scan_related:
  assumes "related m db"
  shows "scanTenant i db = (case mem_tenants m i of None \<Rightarrow> Inl (Wrap ''scan tenant: %w'' [] (Sentinel ErrNotFound))
     | Some t \<Rightarrow> Inr (no_hash t))"
proof -
  have "map_of (pg_tenants db) i = map_option no_hash (mem_tenants m i)" using assms by (simp add: related_def)
  then show ?thesis by (simp add: scanTenant_def split: option.split)
qed

lemma related_reads:
  assumes r: "related m db"
  shows "reads_alike ctx k m db"
proof -
  have q: "no_faults c = None" for c by (simp add: no_faults_def)
  have rows: "mem_dids m i = keyed di_number (visible i (pg_dids db))"
    "mem_calls m i = keyed call_ID (visible i (pg_calls db))"
    "mem_appointments m i = keyed ap_id (visible i (pg_appointments db))"
    "mem_messages m i = keyed ms_id (visible i (pg_messages db))" for i using r by (simp_all add: related_def)
  have calls: "sort_by (\<lambda>a b. sn_started_at (ca_snapshot b) < sn_started_at (ca_snapshot a)) (visible i (pg_calls db)) =
      sort_by call_newer (visible i (pg_calls db))" for i
  proof (rule sort_by_cong)
    have "\<forall>c \<in> set (visible i (pg_calls db)). null_time (sn_started_at (ca_snapshot c)) = sn_started_at (ca_snapshot c)"
      using r unfolding related_def visible_def by fastforce
    then show "\<forall>x \<in> set (visible i (pg_calls db)). \<forall>y \<in> set (visible i (pg_calls db)).
        (sn_started_at (ca_snapshot x) < sn_started_at (ca_snapshot y)) = call_newer y x"
      by (simp add: call_newer_def)
  qed
  have key: "mem_apiKeys m = pg_keys db" "\<And>h i. mem_apiKeys m h = Some i \<Longrightarrow> mem_tenants m i \<noteq> None"
    using r by (auto simp: related_def)
  have "forget_hash (class_of (TenantByAPIKeyHash zero k m)) =
      forget_hash (class_of (pg_TenantByAPIKeyHash no_faults k db))" for zero
  proof (cases "mem_apiKeys m k")
    case None
    then show ?thesis using key(1) by (simp add: TenantByAPIKeyHash_def pg_TenantByAPIKeyHash_def q)
  next
    case (Some i)
    then obtain t where "mem_tenants m i = Some t" using key(2) by blast
    with Some show ?thesis using key(1) scan_related [OF r, of i]
      by (simp add: TenantByAPIKeyHash_def pg_TenantByAPIKeyHash_def q scan_stmt_def forget_hash_def)
  qed
  moreover have "forget_hash (class_of (CurrentTenant ctx m)) = forget_hash (class_of (pg_CurrentTenant no_faults ctx db)) \<and>
     class_of (ListDIDs ctx m) = class_of (pg_ListDIDs no_faults ctx db) \<and>
     class_of (ListCalls ctx m) = class_of (pg_ListCalls no_faults ctx db) \<and>
     class_of (GetCall ctx k m) = class_of (pg_GetCall no_faults ctx k db) \<and>
     class_of (ListAppointments ctx m) = class_of (pg_ListAppointments no_faults ctx db) \<and>
     class_of (ListMessages ctx m) = class_of (pg_ListMessages no_faults ctx db)"
  proof (cases "FromContext ctx")
    case (Inl e)
    then show ?thesis using no_context [OF Inl]
      by (simp add: CurrentTenant_def pg_CurrentTenant_def ListDIDs_def pg_ListDIDs_def collected_def ListCalls_def pg_ListCalls_def
          GetCall_def pg_GetCall_def ListAppointments_def pg_ListAppointments_def ListMessages_def pg_ListMessages_def
          inTenantTx_def)
  next
    case (Inr i)
    have "forget_hash (class_of (CurrentTenant ctx m)) = forget_hash (class_of (pg_CurrentTenant no_faults ctx db))"
      using Inr scan_related [OF r, of i]
      by (simp add: CurrentTenant_def pg_CurrentTenant_def inTenantTx_def scan_stmt_def q forget_hash_def split: option.split)
    moreover have "class_of (GetCall ctx k m) = class_of (pg_GetCall no_faults ctx k db)"
      using Inr by (simp add: GetCall_def pg_GetCall_def inTenantTx_def q find_keyed rows split: option.split)
    ultimately show ?thesis
      using Inr by (simp add: ListDIDs_def pg_ListDIDs_def collected_def ListCalls_def pg_ListCalls_def calls
          ListAppointments_def pg_ListAppointments_def ListMessages_def pg_ListMessages_def
          inTenantTx_def wrap_stmt_def reading_def rows)
  qed
  ultimately show ?thesis unfolding reads_alike_def by blast
qed

section \<open>Refinement\<close>

datatype store_op = Create tenant | Write go_context mem_op

fun mem_step :: "store_op \<Rightarrow> mem \<Rightarrow> gerr option \<times> mem" where
  "mem_step (Create t) m = CreateTenant t m"
| "mem_step (Write ctx op) m = mem_write ctx op m"

fun pg_step :: "store_op \<Rightarrow> pg_db \<Rightarrow> unit res \<times> pg_db" where
  "pg_step (Create t) db = pg_CreateTenant no_faults t db"
| "pg_step (Write ctx op) db = pg_write no_faults ctx op db"

fun admissible :: "store_op \<Rightarrow> mem \<Rightarrow> bool" where
  "admissible (Create t) m \<longleftrightarrow>
     1000 dvd tn_trial_ends_at t \<and> 1000 dvd tn_created_at t \<and> mem_apiKeys m (tn_api_key_hash t) = None"
| "admissible (Write ctx op) m \<longleftrightarrow>
     exact_op op \<and> (case FromContext ctx of Inr i \<Rightarrow> mem_tenants m i \<noteq> None | Inl e \<Rightarrow> True)"

lemma step_alike: "related m db \<Longrightarrow> admissible op m \<Longrightarrow> alike (mem_step op m) (pg_step op db)"
  by (cases op) (auto simp: create_alike intro: write_alike split: sum.splits)

text \<open>The answers of a sequence of operations and the state after them.\<close>

fun mem_session :: "store_op list \<Rightarrow> mem \<Rightarrow> (nat + unit) list \<times> mem" where
  "mem_session [] m = ([], m)"
| "mem_session (op # ops) m =
     (let out = mem_step op m; later = mem_session ops (snd out) in (class_of (done_of (fst out)) # fst later, snd later))"

fun pg_session :: "store_op list \<Rightarrow> pg_db \<Rightarrow> (nat + unit) list \<times> pg_db" where
  "pg_session [] db = ([], db)"
| "pg_session (op # ops) db =
     (let out = pg_step op db; later = pg_session ops (snd out) in (class_of (fst out) # fst later, snd later))"

fun all_admissible :: "store_op list \<Rightarrow> mem \<Rightarrow> bool" where
  "all_admissible [] m \<longleftrightarrow> True"
| "all_admissible (op # ops) m \<longleftrightarrow> admissible op m \<and> all_admissible ops (snd (mem_step op m))"

lemma session_alike:
  "related m db \<Longrightarrow> all_admissible ops m \<Longrightarrow>
     fst (mem_session ops m) = fst (pg_session ops db) \<and> related (snd (mem_session ops m)) (snd (pg_session ops db))"
proof (induction ops arbitrary: m db)
  case (Cons op ops)
  with step_alike [of m db op] show ?case by (auto simp: Let_def alike_def)
qed simp


definition ex_owner :: tenant where
  "ex_owner = \<lparr>tn_id = ''t1'', tn_name = ''Shop'', tn_plan = ''pro'', tn_mode = ''overflow'', tn_overflow_seconds = 15,
     tn_hours = [], tn_coverage = [], tn_owner_mobile = [], tn_default_locale = ''en-CA'',
     tn_api_key_hash = ''h'', tn_trial_ends_at = 2000, tn_created_at = 1000\<rparr>"

definition ex_did :: did where
  "ex_did = \<lparr>di_number = ''+15145550100'', di_provider = ''telnyx'', di_active = True, di_created_at = 1000\<rparr>"

definition ex_ops :: "store_op list" where
  "ex_ops = [Create ex_owner, Write (Some ''t1'') (OpAddDID ex_did), Write (Some ''t1'') (OpAddDID ex_did)]"


text \<open>
  Outside those sequences the stores differ: the PostgreSQL store accepts the overflow mode
  without seconds, which the in-memory store refuses and no stored tenant may have.
\<close>

theorem pg_accepts_overflow_without_seconds:
  "fst (pg_UpdateTenantMode no_faults (Some ''t1'') ModeOverflow 0 (snd (pg_session [Create ex_owner] empty_db))) = Inr () \<and>
   fst (UpdateTenantMode (Some ''t1'') ModeOverflow 0 (snd (mem_session [Create ex_owner] NewMem))) \<noteq> None"
proof -
  have v: "tenant_Validate ex_owner = None"
    by (simp add: tenant_Validate_def ex_owner_def plan_Valid_def mode_Valid_def PlanPro_def ModeOverflow_def LocaleENCA_def)
  have i: "tn_id ex_owner = ''t1''" "tn_api_key_hash ex_owner = ''h''" by (simp_all add: ex_owner_def)
  have "tenant_Validate (ex_owner\<lparr>tn_mode := ModeOverflow, tn_overflow_seconds := 0\<rparr>) \<noteq> None"
    by (simp add: tenant_Validate_def ex_owner_def plan_Valid_def mode_Valid_def PlanPro_def)
  then show ?thesis
    using v by (auto simp: i CreateTenant_def NewMem_def UpdateTenantMode_def FromContext_def pg_CreateTenant_def
        pg_UpdateTenantMode_def ins_tenant_def ins_key_def wrap_stmt_def empty_db_def inTenantTx_def upd_mode_def
        mode_Valid_def Let_def)
qed

end
