(* ===== verification/Api_Pg.thy ===== *)
theory Api_Pg
  imports Api_Props Pg_Props "HOL-Library.Sublist"
begin

text \<open>
  The core API over PostgreSQL, which \<open>cmd/core-api\<close> wires when a database is configured: the handlers of \<open>Api\<close> over the
  operations of \<open>Pg_Store\<close>. Shown: without failures the API answers as over the in-memory store; with any failures of the
  database a request gets that same answer or a 500.
\<close>

section \<open>The store\<close>

text \<open>No handler calls a method of the store twice, so the failures of one request are given by method and command.\<close>

datatype pg_method =
    MCreateTenant
  | MTenantByKey
  | MCurrentTenant
  | MUpdateMode
  | MAddDID
  | MListDIDs
  | MListCalls
  | MGetCall
  | MCreateAppointment
  | MListAppointments
  | MCreateMessage
  | MListMessages

type_synonym outage = "pg_method \<Rightarrow> faults"

definition calm :: outage where "calm = (\<lambda>_. no_faults)"

definition as_write :: "unit res \<times> pg_db \<Rightarrow> gerr option \<times> pg_db" where
  "as_write out = (case fst out of Inl e \<Rightarrow> Some e | Inr _ \<Rightarrow> None, snd out)"

definition pg_stores :: "outage \<Rightarrow> pg_db stores" where
  "pg_stores F =
     \<lparr>st_CreateTenant = (\<lambda>t db. as_write (pg_CreateTenant (F MCreateTenant) t db)),
      st_TenantByAPIKeyHash = pg_TenantByAPIKeyHash (F MTenantByKey),
      st_CurrentTenant = pg_CurrentTenant (F MCurrentTenant),
      st_UpdateTenantMode = (\<lambda>ctx mode secs db. as_write (pg_UpdateTenantMode (F MUpdateMode) ctx mode secs db)),
      st_AddDID = (\<lambda>ctx d db. as_write (pg_AddDID (F MAddDID) ctx d db)),
      st_ListDIDs = pg_ListDIDs (F MListDIDs),
      st_ListCalls = pg_ListCalls (F MListCalls),
      st_GetCall = pg_GetCall (F MGetCall),
      st_CreateAppointment = (\<lambda>ctx a db. as_write (pg_CreateAppointment (F MCreateAppointment) ctx a db)),
      st_ListAppointments = pg_ListAppointments (F MListAppointments),
      st_CreateMessage = (\<lambda>ctx msg db. as_write (pg_CreateMessage (F MCreateMessage) ctx msg db)),
      st_ListMessages = pg_ListMessages (F MListMessages)\<rparr>"

lemma pg_stores_ops [simp]:
  "st_CreateTenant (pg_stores F) = (\<lambda>t db. as_write (pg_CreateTenant (F MCreateTenant) t db))"
  "st_TenantByAPIKeyHash (pg_stores F) = pg_TenantByAPIKeyHash (F MTenantByKey)"
  "st_CurrentTenant (pg_stores F) = pg_CurrentTenant (F MCurrentTenant)"
  "st_UpdateTenantMode (pg_stores F) = (\<lambda>ctx mode secs db. as_write (pg_UpdateTenantMode (F MUpdateMode) ctx mode secs db))"
  "st_AddDID (pg_stores F) = (\<lambda>ctx d db. as_write (pg_AddDID (F MAddDID) ctx d db))"
  "st_ListDIDs (pg_stores F) = pg_ListDIDs (F MListDIDs)"
  "st_ListCalls (pg_stores F) = pg_ListCalls (F MListCalls)"
  "st_GetCall (pg_stores F) = pg_GetCall (F MGetCall)"
  "st_CreateAppointment (pg_stores F) = (\<lambda>ctx a db. as_write (pg_CreateAppointment (F MCreateAppointment) ctx a db))"
  "st_ListAppointments (pg_stores F) = pg_ListAppointments (F MListAppointments)"
  "st_CreateMessage (pg_stores F) = (\<lambda>ctx msg db. as_write (pg_CreateMessage (F MCreateMessage) ctx msg db))"
  "st_ListMessages (pg_stores F) = pg_ListMessages (F MListMessages)"
  by (simp_all add: pg_stores_def)

lemma calm_quiet [simp]: "calm m = no_faults" by (simp add: calm_def)

section \<open>Answers\<close>

text \<open>What the JSON of an answer shows: the tag of the key's hash leaves it out.\<close>

fun on_wire :: "body \<Rightarrow> body" where
  "on_wire (CreatedTenant t k p sub) = CreatedTenant (no_hash t) k p sub"
| "on_wire (TenantBody t) = TenantBody (no_hash t)"
| "on_wire b = b"

definition same_answer :: "response \<Rightarrow> response \<Rightarrow> bool" where
  "same_answer x y \<longleftrightarrow> fst x = fst y \<and> on_wire (snd x) = on_wire (snd y)"

lemma same_answer_refl [simp]: "same_answer x x" by (simp add: same_answer_def)

lemma err_class_status:
  "is_err ErrNotFound e \<longleftrightarrow> err_class e = 404"
  "\<not> is_err ErrNotFound e \<Longrightarrow> is_err ErrConflict e \<longleftrightarrow> err_class e = 409"
  by (simp_all add: err_class_def)

lemma store_error_cong:
  "err_class e = err_class e' \<Longrightarrow> (err_class e = 409 \<Longrightarrow> e = e') \<Longrightarrow> writeStoreError e nf = writeStoreError e' nf"
  by (auto simp: writeStoreError_def err_class_def split: if_splits)

lemma read_cong:
  assumes "class_of v = class_of v'" and "class_of v \<noteq> Inl 409"
  shows "answer s f nf v = answer s f nf v'"
proof (cases v)
  case (Inl e)
  with assms(1) obtain e' where "v' = Inl e'" "err_class e = err_class e'" by (cases v') auto
  with Inl assms(2) show ?thesis by (auto simp: answer_def intro!: store_error_cong)
next
  case (Inr x)
  with assms(1) show ?thesis by (cases v') (auto simp: answer_def)
qed

lemma tenant_cong:
  assumes "forget_hash (class_of v) = forget_hash (class_of v')" and "class_of v \<noteq> Inl 409"
  shows "same_answer (answer s TenantBody nf v) (answer s TenantBody nf v')"
proof (cases v)
  case (Inl e)
  with assms(1) obtain e' where "v' = Inl e'" "err_class e = err_class e'" by (cases v') (auto simp: forget_hash_def)
  with Inl assms(2) have "writeStoreError e nf = writeStoreError e' nf" by (auto intro!: store_error_cong)
  with Inl \<open>v' = Inl e'\<close> show ?thesis by (simp add: answer_def)
next
  case (Inr x)
  with assms(1) obtain x' where "v' = Inr x'" "no_hash x = no_hash x'" by (cases v') (auto simp: forget_hash_def)
  with Inr show ?thesis by (simp add: answer_def same_answer_def)
qed

text \<open>No read of the in-memory store is a conflict, and the conflicts of the writes read alike.\<close>

lemma no_context_conflict: "FromContext ctx = Inl e \<Longrightarrow> err_class e \<noteq> 409"
  using no_context [of ctx e] by simp

lemma read_conflicts:
  "class_of (CurrentTenant ctx m) \<noteq> Inl 409" "class_of (ListDIDs ctx m) \<noteq> Inl 409" "class_of (ListCalls ctx m) \<noteq> Inl 409"
  "class_of (GetCall ctx i m) \<noteq> Inl 409" "class_of (ListAppointments ctx m) \<noteq> Inl 409" "class_of (ListMessages ctx m) \<noteq> Inl 409"
  using no_context_conflict [of ctx]
  by (auto simp: CurrentTenant_def ListDIDs_def ListCalls_def GetCall_def ListAppointments_def ListMessages_def
      split: sum.split option.split)

lemma violation_classes [simp]:
  "err_class (Sentinel uniqueViolation) = 500" "err_class (Sentinel foreignKeyViolation) = 500"
  "err_class (Sentinel rlsViolation) = 500" "\<not> isUnique (Sentinel foreignKeyViolation)" "\<not> isUnique (Sentinel rlsViolation)"
  by (simp_all add: err_class_def ErrNotFound_def ErrConflict_def uniqueViolation_def foreignKeyViolation_def rlsViolation_def
      isUnique_def)

lemma create_conflict:
  assumes "tenant_Validate t = None"
  shows "CreateTenant t m = (Some e, m') \<Longrightarrow> e = Wrap ''create tenant %s: %w'' [FS (tn_id t)] (Sentinel ErrConflict)"
    and "pg_CreateTenant no_faults t db = (Inl e, db') \<Longrightarrow> err_class e = 409 \<Longrightarrow>
           e = Wrap ''create tenant %s: %w'' [FS (tn_id t)] (Sentinel ErrConflict)"
  using assms
  by (auto simp: CreateTenant_def pg_CreateTenant_def ins_tenant_def ins_key_def wrap_stmt_def split: if_splits)

lemma mode_accepted:
  assumes "related m db" "exact_op (OpUpdateMode mode secs)" "FromContext ctx = Inr i" "mem_tenants m i \<noteq> None"
  shows "fst (UpdateTenantMode ctx mode secs m) = None"
proof -
  obtain u where u: "mem_tenants m i = Some u" using assms(4) by blast
  have "tenant_Validate (u\<lparr>tn_mode := mode, tn_overflow_seconds := secs\<rparr>) = None"
    using assms(1,2) u by (intro update_mode_valid) (auto simp: related_def split: if_splits)
  with assms(3) u show ?thesis by (simp add: UpdateTenantMode_def Let_def)
qed

lemma did_no_lookup:
  assumes "did_Validate d = None" "FromContext ctx = Inr i"
  shows "AddDID ctx d m = (Some e, m') \<Longrightarrow> err_class e = 409"
  using assms by (auto simp: AddDID_def split: if_splits)

lemma appointment_conflict:
  assumes "appointment_Validate a = None" "FromContext ctx = Inr i"
  shows "CreateAppointment ctx a m = (Some e, m') \<Longrightarrow> e = Wrap ''create appointment %s: %w'' [FS (ap_id a)] (Sentinel ErrConflict)"
    and "pg_CreateAppointment no_faults ctx a db = (Inl e, db') \<Longrightarrow> err_class e = 409 \<Longrightarrow>
           e = Wrap ''create appointment %s: %w'' [FS (ap_id a)] (Sentinel ErrConflict)"
  using assms
  by (auto simp: CreateAppointment_def pg_CreateAppointment_def inserted_def inTenantTx_def ins_appointment_def insert_under_def
      split: if_splits)

lemma message_conflict:
  assumes "message_Validate x = None" "FromContext ctx = Inr i"
  shows "CreateMessage ctx x m = (Some e, m') \<Longrightarrow> e = Wrap ''create message %s: %w'' [FS (ms_id x)] (Sentinel ErrConflict)"
    and "pg_CreateMessage no_faults ctx x db = (Inl e, db') \<Longrightarrow> err_class e = 409 \<Longrightarrow>
           e = Wrap ''create message %s: %w'' [FS (ms_id x)] (Sentinel ErrConflict)"
  using assms
  by (auto simp: CreateMessage_def pg_CreateMessage_def inserted_def inTenantTx_def ins_message_def insert_under_def
      split: if_splits)

lemma alike_cases:
  assumes "alike (x, m) y"
  obtains (written) db where "x = None" "y = (Inr (), db)" "as_write y = (None, db)" "related m db"
  | (failed) e e' db where "x = Some e" "y = (Inl e', db)" "as_write y = (Some e', db)" "err_class e = err_class e'" "related m db"
  using assms
  by (cases y; cases x; cases "fst y") (auto simp: alike_def class_of_def done_of_def as_write_def)

section \<open>Over calm water\<close>

text \<open>
  Requests whose times are in whole microseconds, all a column keeps of them, and whose new key hashes to an unused value.
\<close>

definition exact_request :: "(string \<Rightarrow> string) \<Rightarrow> (string \<Rightarrow> gotime option) \<Rightarrow> request \<Rightarrow> mem server \<Rightarrow> bool" where
  "exact_request sha pt r s \<longleftrightarrow>
     1000 dvd rq_now r \<and>
     (rq_endpoint r = PostAppointments \<longrightarrow>
        (\<forall>a. decodeJSON (create_appointment_fields pt) create_appointment0 r = Inr a \<longrightarrow>
           1000 dvd ca_starts_at a \<and> 1000 dvd ca_ends_at a)) \<and>
     (rq_endpoint r = PostTenants \<longrightarrow>
        (\<forall>k. NewAPIKey (rq_key_bytes r) = Inr k \<longrightarrow> mem_apiKeys (sv_store s) (HashAPIKey sha k) = None))"

definition sv_alike :: "mem server \<Rightarrow> pg_db server \<Rightarrow> bool" where
  "sv_alike s p \<longleftrightarrow> related (sv_store s) (sv_store p) \<and> sv_stripe s = sv_stripe p"

definition served_alike :: "response \<times> mem server \<Rightarrow> response \<times> pg_db server \<Rightarrow> bool" where
  "served_alike x y \<longleftrightarrow> same_answer (fst x) (fst y) \<and> sv_alike (snd x) (snd y)"

lemma served_same: "sv_alike s p \<Longrightarrow> served_alike (a, s) (a, p)"
  by (simp add: served_alike_def)

lemma update_mode_served:
  assumes s: "sv_alike s p" and i: "FromContext ctx = Inr i" "mem_tenants (sv_store s) i \<noteq> None"
  shows "served_alike (handleUpdateMode mem_stores ctx r s) (handleUpdateMode (pg_stores calm) ctx r p)"
proof (cases "decodeJSON update_mode_fields \<lparr>um_mode = [], um_overflow_seconds = 0\<rparr> r")
  case (Inl e)
  with s show ?thesis by (simp add: handleUpdateMode_def served_same)
next
  case (Inr req)
  define secs where "secs = (if um_mode req = ModeOverflow \<and> um_overflow_seconds req \<le> 0 then 15 else um_overflow_seconds req)"
  show ?thesis
  proof (cases "mode_Valid (um_mode req)")
    case False
    with Inr s show ?thesis by (simp add: handleUpdateMode_def served_same)
  next
    case True
    then have x: "exact_op (OpUpdateMode (um_mode req) secs)" by (simp add: secs_def)
    have rel: "related (sv_store s) (sv_store p)" using s by (simp add: sv_alike_def)
    have "\<forall>j. FromContext ctx = Inr j \<longrightarrow> mem_tenants (sv_store s) j \<noteq> None" using i by simp
    from mode_alike [OF rel x this] have "alike (UpdateTenantMode ctx (um_mode req) secs (sv_store s))
      (pg_UpdateTenantMode no_faults ctx (um_mode req) secs (sv_store p))" .
    moreover obtain m where out: "UpdateTenantMode ctx (um_mode req) secs (sv_store s) = (None, m)"
      using mode_accepted [OF rel x i] by (metis prod.collapse)
    ultimately have al: "alike (None, m) (pg_UpdateTenantMode no_faults ctx (um_mode req) secs (sv_store p))" by simp
    show ?thesis
    proof (cases rule: alike_cases [OF al])
      case (1 db)
      from related_reads [OF 1(4), of ctx "[]"]
      have "same_answer (answer 200 TenantBody ''tenant not found'' (CurrentTenant ctx m))
         (answer 200 TenantBody ''tenant not found'' (pg_CurrentTenant no_faults ctx db))"
        by (intro tenant_cong) (simp_all add: reads_alike_def read_conflicts)
      with 1 Inr True out s show ?thesis
        by (simp add: handleUpdateMode_def Let_def secs_def [symmetric] served_alike_def sv_alike_def)
    qed simp
  qed
qed

lemma add_did_served:
  assumes s: "sv_alike s p" and i: "FromContext ctx = Inr i" "mem_tenants (sv_store s) i \<noteq> None" and now: "1000 dvd rq_now r"
  shows "served_alike (handleAddDID mem_stores ctx r s) (handleAddDID (pg_stores calm) ctx r p)"
proof (cases "decodeJSON add_did_fields \<lparr>ad_number = [], ad_provider = []\<rparr> r")
  case (Inl e)
  with s show ?thesis by (simp add: handleAddDID_def served_same)
next
  case (Inr req)
  define d where "d = requested_did r req"
  show ?thesis
  proof (cases "did_Validate d")
    case (Some e)
    with Inr s show ?thesis by (simp add: handleAddDID_def d_def served_same)
  next
    case None
    have rel: "related (sv_store s) (sv_store p)" using s by (simp add: sv_alike_def)
    have x: "exact_op (OpAddDID d)" using now by (simp add: d_def requested_did_def)
    obtain mx m where out: "AddDID ctx d (sv_store s) = (mx, m)" by fastforce
    with did_alike [OF rel x, of ctx] i have al: "alike (mx, m) (pg_AddDID no_faults ctx d (sv_store p))" by simp
    show ?thesis
    proof (cases rule: alike_cases [OF al])
      case (1 db)
      with Inr None out s show ?thesis by (simp add: handleAddDID_def d_def [symmetric] served_alike_def sv_alike_def)
    next
      case (2 e e' db)
      have "err_class e = 409" using did_no_lookup [OF None i(1)] out 2(1) by blast
      with 2 have "is_err ErrConflict e" "is_err ErrConflict e'" by (auto simp: err_class_def split: if_splits)
      with 2 Inr None out s show ?thesis by (simp add: handleAddDID_def d_def [symmetric] served_alike_def sv_alike_def)
    qed
  qed
qed

lemma create_appointment_served:
  assumes s: "sv_alike s p" and i: "FromContext ctx = Inr i" "mem_tenants (sv_store s) i \<noteq> None"
    and x: "rq_endpoint r = PostAppointments" "exact_request sha pt r s"
  shows "served_alike (handleCreateAppointment mem_stores pt ctx r s) (handleCreateAppointment (pg_stores calm) pt ctx r p)"
proof (cases "decodeJSON (create_appointment_fields pt) create_appointment0 r")
  case (Inl e)
  with s show ?thesis by (simp add: handleCreateAppointment_def served_same)
next
  case (Inr req)
  define a where "a = requested_appointment r req"
  show ?thesis
  proof (cases "appointment_Validate a")
    case (Some e)
    with Inr s show ?thesis by (simp add: handleCreateAppointment_def a_def served_same)
  next
    case None
    have rel: "related (sv_store s) (sv_store p)" using s by (simp add: sv_alike_def)
    have x: "exact_op (OpAppointment a)" using x Inr by (simp add: a_def requested_appointment_def exact_request_def)
    obtain mx m where out: "CreateAppointment ctx a (sv_store s) = (mx, m)" by fastforce
    with appointment_alike [OF rel x, of ctx] i have al: "alike (mx, m) (pg_CreateAppointment no_faults ctx a (sv_store p))" by simp
    show ?thesis
    proof (cases rule: alike_cases [OF al])
      case (1 db)
      with Inr None out s show ?thesis by (simp add: handleCreateAppointment_def a_def [symmetric] served_alike_def sv_alike_def)
    next
      case (2 e e' db)
      have "err_class e = 409" using appointment_conflict(1) [OF None i(1), of "sv_store s" e m] out 2(1) by simp
      then have "e = e'" using appointment_conflict(1) [OF None i(1), of "sv_store s" e m] appointment_conflict(2) [OF None i(1) 2(2)]
        out 2(1,4) by simp
      with 2 Inr None out s show ?thesis by (simp add: handleCreateAppointment_def a_def [symmetric] served_alike_def sv_alike_def)
    qed
  qed
qed

lemma create_message_served:
  assumes s: "sv_alike s p" and i: "FromContext ctx = Inr i" "mem_tenants (sv_store s) i \<noteq> None" and now: "1000 dvd rq_now r"
  shows "served_alike (handleCreateMessage mem_stores ctx r s) (handleCreateMessage (pg_stores calm) ctx r p)"
proof (cases "decodeJSON create_message_fields create_message0 r")
  case (Inl e)
  with s show ?thesis by (simp add: handleCreateMessage_def served_same)
next
  case (Inr req)
  define a where "a = requested_message r req"
  show ?thesis
  proof (cases "message_Validate a")
    case (Some e)
    with Inr s show ?thesis by (simp add: handleCreateMessage_def a_def served_same)
  next
    case None
    have rel: "related (sv_store s) (sv_store p)" using s by (simp add: sv_alike_def)
    have x: "exact_op (OpMessage a)" using now by (simp add: a_def requested_message_def)
    obtain mx m where out: "CreateMessage ctx a (sv_store s) = (mx, m)" by fastforce
    with message_alike [OF rel x, of ctx] i have al: "alike (mx, m) (pg_CreateMessage no_faults ctx a (sv_store p))" by simp
    show ?thesis
    proof (cases rule: alike_cases [OF al])
      case (1 db)
      with Inr None out s show ?thesis by (simp add: handleCreateMessage_def a_def [symmetric] served_alike_def sv_alike_def)
    next
      case (2 e e' db)
      have "err_class e = 409" using message_conflict(1) [OF None i(1), of "sv_store s" e m] out 2(1) by simp
      then have "e = e'" using message_conflict(1) [OF None i(1), of "sv_store s" e m] message_conflict(2) [OF None i(1) 2(2)]
        out 2(1,4) by simp
      with 2 Inr None out s show ?thesis by (simp add: handleCreateMessage_def a_def [symmetric] served_alike_def sv_alike_def)
    qed
  qed
qed

lemma usage_served:
  assumes s: "sv_alike s p"
  shows "served_alike (handleGetUsage mem_stores ctx r s) (handleGetUsage (pg_stores calm) ctx r p)"
proof -
  have rd: "reads_alike ctx [] (sv_store s) (sv_store p)" using s by (simp add: sv_alike_def related_reads)
  then have t: "forget_hash (class_of (CurrentTenant ctx (sv_store s))) = forget_hash (class_of (pg_CurrentTenant no_faults ctx (sv_store p)))"
    and c: "class_of (ListCalls ctx (sv_store s)) = class_of (pg_ListCalls no_faults ctx (sv_store p))"
    unfolding reads_alike_def by blast+
  show ?thesis
  proof (cases "CurrentTenant ctx (sv_store s)")
    case (Inl e)
    with t obtain e' where e': "pg_CurrentTenant no_faults ctx (sv_store p) = Inl e'" "err_class e = err_class e'"
      by (cases "pg_CurrentTenant no_faults ctx (sv_store p)") (auto simp: forget_hash_def)
    moreover have "writeStoreError e ''tenant not found'' = writeStoreError e' ''tenant not found''"
      using e'(2) read_conflicts(1) [of ctx "sv_store s"] Inl by (auto intro!: store_error_cong)
    ultimately show ?thesis using Inl s by (simp add: handleGetUsage_def served_same)
  next
    case (Inr u)
    with t obtain u' where u': "pg_CurrentTenant no_faults ctx (sv_store p) = Inr u'" "no_hash u = no_hash u'"
      by (cases "pg_CurrentTenant no_faults ctx (sv_store p)") (auto simp: forget_hash_def)
    then have f: "tn_plan u = tn_plan u'" "tn_trial_ends_at u = tn_trial_ends_at u'"
      by (cases u; cases u'; simp add: no_hash_def)+
    show ?thesis
    proof (cases "ListCalls ctx (sv_store s)")
      case (Inl e)
      with c obtain e' where e': "pg_ListCalls no_faults ctx (sv_store p) = Inl e'" "err_class e = err_class e'"
        by (cases "pg_ListCalls no_faults ctx (sv_store p)") auto
      moreover have "writeStoreError e ''calls not found'' = writeStoreError e' ''calls not found''"
        using e'(2) read_conflicts(3) [of ctx "sv_store s"] Inl by (auto intro!: store_error_cong)
      ultimately show ?thesis using Inl Inr u' s by (simp add: handleGetUsage_def served_same)
    next
      case calls: (Inr cs)
      with c have "pg_ListCalls no_faults ctx (sv_store p) = Inr cs" by (cases "pg_ListCalls no_faults ctx (sv_store p)") auto
      with calls Inr u' f s show ?thesis by (simp add: handleGetUsage_def Let_def served_same split: sum.split)
    qed
  qed
qed

lemma read_served:
  assumes "sv_alike s p" "same_answer a b"
  shows "served_alike (a, s) (b, p)"
  using assms by (simp add: served_alike_def)

lemma endpoint_served:
  assumes s: "sv_alike s p" and i: "FromContext ctx = Inr i" "mem_tenants (sv_store s) i \<noteq> None" and x: "exact_request sha pt r s"
  shows "served_alike (tenant_endpoint mem_stores pt ctx r s) (tenant_endpoint (pg_stores calm) pt ctx r p)"
proof -
  have rd: "reads_alike ctx k (sv_store s) (sv_store p)" for k using s by (simp add: sv_alike_def related_reads)
  then have alike: "class_of (ListDIDs ctx (sv_store s)) = class_of (pg_ListDIDs no_faults ctx (sv_store p))"
    "class_of (ListCalls ctx (sv_store s)) = class_of (pg_ListCalls no_faults ctx (sv_store p))"
    "class_of (GetCall ctx k (sv_store s)) = class_of (pg_GetCall no_faults ctx k (sv_store p))"
    "class_of (ListAppointments ctx (sv_store s)) = class_of (pg_ListAppointments no_faults ctx (sv_store p))"
    "class_of (ListMessages ctx (sv_store s)) = class_of (pg_ListMessages no_faults ctx (sv_store p))" for k
    unfolding reads_alike_def by blast+
  have now: "1000 dvd rq_now r" using x by (simp add: exact_request_def)
  show ?thesis
  proof (cases "rq_endpoint r")
    case GetMe
    have "same_answer (answer 200 TenantBody ''tenant not found'' (CurrentTenant ctx (sv_store s)))
       (answer 200 TenantBody ''tenant not found'' (pg_CurrentTenant no_faults ctx (sv_store p)))"
      using rd by (intro tenant_cong) (simp_all add: reads_alike_def read_conflicts)
    with GetMe s show ?thesis by (simp add: tenant_endpoint_def handleGetTenant_def served_alike_def)
  next
    case GetDIDs
    have "answer 200 DIDList ''dids not found'' (ListDIDs ctx (sv_store s)) =
       answer 200 DIDList ''dids not found'' (pg_ListDIDs no_faults ctx (sv_store p))"
      by (intro read_cong alike read_conflicts)
    with GetDIDs s show ?thesis by (simp add: tenant_endpoint_def handleListDIDs_def served_same)
  next
    case GetCalls
    have "answer 200 (\<lambda>calls. CallList (map call_summary_of calls)) ''calls not found'' (ListCalls ctx (sv_store s)) =
       answer 200 (\<lambda>calls. CallList (map call_summary_of calls)) ''calls not found'' (pg_ListCalls no_faults ctx (sv_store p))"
      by (intro read_cong alike read_conflicts)
    with GetCalls s show ?thesis by (simp add: tenant_endpoint_def handleListCalls_def served_same)
  next
    case (GetCallByID k)
    have "answer 200 CallBody ''call not found'' (GetCall ctx k (sv_store s)) =
       answer 200 CallBody ''call not found'' (pg_GetCall no_faults ctx k (sv_store p))"
      by (intro read_cong alike read_conflicts)
    with GetCallByID s show ?thesis by (simp add: tenant_endpoint_def handleGetCall_def served_same)
  next
    case GetAppointments
    have "answer 200 AppointmentList ''appointments not found'' (ListAppointments ctx (sv_store s)) =
       answer 200 AppointmentList ''appointments not found'' (pg_ListAppointments no_faults ctx (sv_store p))"
      by (intro read_cong alike read_conflicts)
    with GetAppointments s show ?thesis by (simp add: tenant_endpoint_def handleListAppointments_def served_same)
  next
    case GetMessages
    have "answer 200 MessageList ''messages not found'' (ListMessages ctx (sv_store s)) =
       answer 200 MessageList ''messages not found'' (pg_ListMessages no_faults ctx (sv_store p))"
      by (intro read_cong alike read_conflicts)
    with GetMessages s show ?thesis by (simp add: tenant_endpoint_def handleListMessages_def served_same)
  next
    case PostTenants
    with s show ?thesis by (simp add: tenant_endpoint_def served_same)
  next
    case PutMode
    with update_mode_served [OF s i] show ?thesis by (simp add: tenant_endpoint_def)
  next
    case PostDIDs
    with add_did_served [OF s i now] show ?thesis by (simp add: tenant_endpoint_def)
  next
    case PostAppointments
    with create_appointment_served [OF s i PostAppointments x] show ?thesis by (simp add: tenant_endpoint_def)
  next
    case PostMessages
    with create_message_served [OF s i now] show ?thesis by (simp add: tenant_endpoint_def)
  next
    case GetUsage
    with usage_served [OF s] show ?thesis by (simp add: tenant_endpoint_def)
  qed
qed

lemma create_tenant_served:
  assumes s: "sv_alike s p" and x: "rq_endpoint r = PostTenants" "exact_request sha pt r s"
  shows "served_alike (handleCreateTenant mem_stores sha ctx r s) (handleCreateTenant (pg_stores calm) sha ctx r p)"
proof (cases "decodeJSON create_tenant_fields create_tenant0 r")
  case (Inl e)
  with s show ?thesis by (simp add: handleCreateTenant_def served_same)
next
  case (Inr req0)
  define req where "req = onboarding_defaults req0"
  show ?thesis
  proof (cases "NewAPIKey (rq_key_bytes r)")
    case (Inl e)
    with Inr s show ?thesis by (simp add: handleCreateTenant_def Let_def served_same)
  next
    case key: (Inr k)
    define t where "t = new_tenant sha k r req"
    note h = handleCreateTenant_def Inr key req_def [symmetric] t_def [symmetric] Let_def
    show ?thesis
    proof (cases "tenant_Validate t")
      case (Some e)
      with s show ?thesis by (simp add: h served_same)
    next
      case None
      have rel: "related (sv_store s) (sv_store p)" and st: "sv_stripe s = sv_stripe p" using s by (simp_all add: sv_alike_def)
      have "(1000 :: int) dvd TrialDays * day_ns" by (simp add: TrialDays_def day_ns_def)
      then have t: "1000 dvd tn_trial_ends_at t" "1000 dvd tn_created_at t" "mem_apiKeys (sv_store s) (tn_api_key_hash t) = None"
        using x key by (simp_all add: t_def new_tenant_def exact_request_def)
      obtain mx m where out: "CreateTenant t (sv_store s) = (mx, m)" by fastforce
      with create_alike [OF rel t] have al: "alike (mx, m) (pg_CreateTenant no_faults t (sv_store p))" by simp
      show ?thesis
      proof (cases rule: alike_cases [OF al])
        case (1 db)
        with None out st show ?thesis
          by (simp add: h served_alike_def sv_alike_def split: prod.split sum.split)
      next
        case (2 e e' db)
        have "e = Wrap ''create tenant %s: %w'' [FS (tn_id t)] (Sentinel ErrConflict)"
          using create_conflict(1) [OF None, of "sv_store s" e m] out 2(1) by simp
        then have "e = e'" using create_conflict(2) [OF None 2(2)] 2(4) by simp
        with 2 None out st show ?thesis by (simp add: h served_alike_def sv_alike_def)
      qed
    qed
  qed
qed

lemma router_served:
  assumes i: "server_inv s" and s: "sv_alike s p" and x: "exact_request sha pt r s"
  shows "served_alike (Router mem_stores sha pt r s) (Router (pg_stores calm) sha pt r p)"
proof (cases "rq_endpoint r = PostTenants")
  case True
  with create_tenant_served [OF s True x] show ?thesis by (simp add: Router_def)
next
  case False
  let ?h = "HashAPIKey sha (bearerToken r)"
  have "reads_alike None ?h (sv_store s) (sv_store p)" using s by (simp add: sv_alike_def related_reads)
  then have al: "forget_hash (class_of (TenantByAPIKeyHash zero_tenant ?h (sv_store s))) =
      forget_hash (class_of (pg_TenantByAPIKeyHash no_faults ?h (sv_store p)))" unfolding reads_alike_def by blast
  show ?thesis
  proof (cases "mem_apiKeys (sv_store s) ?h")
    case None
    then have m: "TenantByAPIKeyHash zero_tenant ?h (sv_store s) = Inl (Wrap ''tenant by api key: %w'' [] (Sentinel ErrNotFound))"
      by (simp add: TenantByAPIKeyHash_def)
    with al obtain e where e: "pg_TenantByAPIKeyHash no_faults ?h (sv_store p) = Inl e" "err_class e = 404"
      by (cases "pg_TenantByAPIKeyHash no_faults ?h (sv_store p)") (auto simp: forget_hash_def)
    have "is_err ErrNotFound e" "is_err ErrNotFound (Wrap ''tenant by api key: %w'' [] (Sentinel ErrNotFound))"
      using e(2) by (auto simp: err_class_def split: if_splits)
    with False e m s show ?thesis by (simp add: Router_def withTenant_def Let_def served_same)
  next
    case (Some j)
    with i obtain u where u: "mem_tenants (sv_store s) j = Some u" unfolding server_inv_def by blast
    with Some have m: "TenantByAPIKeyHash zero_tenant ?h (sv_store s) = Inr u" by (simp add: TenantByAPIKeyHash_def)
    with al obtain u' where u': "pg_TenantByAPIKeyHash no_faults ?h (sv_store p) = Inr u'" "no_hash u = no_hash u'"
      by (cases "pg_TenantByAPIKeyHash no_faults ?h (sv_store p)") (auto simp: forget_hash_def)
    then have id: "tn_id u' = j" using row_id [OF i u] by (cases u; cases u'; simp add: no_hash_def)
    have j: "tn_id u = j" "FromContext (Some j) = Inr j" "mem_tenants (sv_store s) j \<noteq> None"
      using row_id [OF i u] u by (simp_all add: FromContext_def)
    show ?thesis using False m u'(1) id j endpoint_served [OF s j(2,3) x] s
      by (simp add: Router_def withTenant_def Let_def WithTenant_def served_same)
  qed
qed

fun answers ::
  "'m stores \<Rightarrow> (string \<Rightarrow> string) \<Rightarrow> (string \<Rightarrow> gotime option) \<Rightarrow> request list \<Rightarrow> 'm server \<Rightarrow> response list" where
  "answers S sha pt [] s = []"
| "answers S sha pt (r # rs) s = fst (Router S sha pt r s) # answers S sha pt rs (snd (Router S sha pt r s))"

fun exact_requests :: "(string \<Rightarrow> string) \<Rightarrow> (string \<Rightarrow> gotime option) \<Rightarrow> request list \<Rightarrow> mem server \<Rightarrow> bool" where
  "exact_requests sha pt [] s \<longleftrightarrow> True"
| "exact_requests sha pt (r # rs) s \<longleftrightarrow>
     exact_request sha pt r s \<and> exact_requests sha pt rs (snd (Router mem_stores sha pt r s))"

definition fresh_pg_server :: "pg_db server" where
  "fresh_pg_server = \<lparr>sv_store = empty_db, sv_stripe = Map.empty\<rparr>"

lemma answers_alike:
  "server_inv s \<Longrightarrow> sv_alike s p \<Longrightarrow> exact_requests sha pt rs s \<Longrightarrow>
   list_all2 same_answer (answers mem_stores sha pt rs s) (answers (pg_stores calm) sha pt rs p)"
proof (induction rs arbitrary: s p)
  case (Cons r rs)
  then have "served_alike (Router mem_stores sha pt r s) (Router (pg_stores calm) sha pt r p)" by (simp add: router_served)
  with Cons Router_inv [OF Cons.prems(1), of sha pt r] show ?case
    by (simp add: served_alike_def del: calm_quiet quiet)
qed simp



section \<open>Outages\<close>

text \<open>
  The errors of a database that does not serve are none of the sentinels the store looks for; what the operations do with
  them keeps that.
\<close>

definition plain :: "gerr \<Rightarrow> bool" where "plain e \<longleftrightarrow> err_class e = 500 \<and> \<not> isUnique e"

definition plain_outage :: "outage \<Rightarrow> bool" where
  "plain_outage F \<longleftrightarrow> (\<forall>m c. case F m c of Some e \<Rightarrow> plain e | None \<Rightarrow> True)"

lemma plain_Wrap [simp]: "plain (Wrap f as e) = plain e" by (simp add: plain_def)

definition failing :: "faults \<Rightarrow> bool" where "failing flt \<longleftrightarrow> (\<forall>c. case flt c of Some e \<Rightarrow> plain e | None \<Rightarrow> True)"

lemma failingD: "failing flt \<Longrightarrow> flt c = Some e \<Longrightarrow> plain e"
  unfolding failing_def by (metis option.simps(5))

text \<open>A statement or transaction that may break does what it would, or reports a plain error; a transaction then changes nothing.\<close>

definition may_break :: "'a stmt \<Rightarrow> 'a stmt \<Rightarrow> bool" where
  "may_break f g \<longleftrightarrow> (\<forall>i db. f i db = g i db \<or> (\<exists>e db'. f i db = (Inl e, db') \<and> plain e))"

definition broke :: "'a res \<times> pg_db \<Rightarrow> 'a res \<times> pg_db \<Rightarrow> pg_db \<Rightarrow> bool" where
  "broke out out' db \<longleftrightarrow> out = out' \<or> (\<exists>e. out = (Inl e, db) \<and> plain e)"

lemma may_break_stmt: "failing flt \<Longrightarrow> may_break (stmt flt n f) f"
  by (auto simp: may_break_def stmt_def failingD split: option.split)

lemma may_break_wrap: "may_break f g \<Longrightarrow> may_break (wrap_stmt (Wrap fm as) f) (wrap_stmt (Wrap fm as) g)"
  unfolding may_break_def wrap_stmt_def by (metis (mono_tags, lifting) case_prod_conv old.sum.simps(5) plain_Wrap)

lemma inTxAs_broke:
  assumes flt: "failing flt" and f: "may_break f g"
  shows "broke (inTxAs flt i f db) (inTxAs no_faults i g db) db"
proof -
  consider (same) "f i db = g i db" | (broken) e db' where "f i db = (Inl e, db')" "plain e"
    using f unfolding may_break_def by blast
  then show ?thesis
  proof cases
    case same
    then show ?thesis
      using failingD [OF flt, of CBegin] failingD [OF flt, of CSet] failingD [OF flt, of CCommit]
      by (cases "g i db"; cases "fst (g i db)") (auto simp: broke_def inTxAs_def quiet(1) split: option.split)
  next
    case broken
    then show ?thesis
      using failingD [OF flt, of CBegin] failingD [OF flt, of CSet] by (auto simp: broke_def inTxAs_def quiet(1) split: option.split)
  qed
qed

lemma inTenantTx_broke:
  "failing flt \<Longrightarrow> may_break f g \<Longrightarrow> broke (inTenantTx flt ctx f db) (inTenantTx no_faults ctx g db) db"
  using inTxAs_broke [of flt f g] by (auto simp: inTenantTx_def broke_def split: sum.split)

definition read_broke :: "'a res \<Rightarrow> 'a res \<Rightarrow> bool" where
  "read_broke v v' \<longleftrightarrow> v = v' \<or> (\<exists>e. v = Inl e \<and> plain e)"

lemma broke_refl [simp]: "broke out out db" by (simp add: broke_def)

lemma read_broke_fst: "broke out out' db \<Longrightarrow> read_broke (fst out) (fst out')"
  by (auto simp: broke_def read_broke_def)

lemma inserted_broke: "broke out out' db \<Longrightarrow> broke (inserted cf k fm out) (inserted cf k fm out') db"
  by (auto simp: broke_def inserted_def plain_def)

lemma may_break_scan: "failing flt \<Longrightarrow> may_break (scan_stmt flt) (scan_stmt no_faults)"
  by (auto simp: may_break_def scan_stmt_def failingD quiet(1) split: option.split)

lemma may_break_collected: "failing flt \<Longrightarrow> may_break (collected flt fm f) (collected no_faults fm f)"
  by (auto simp: may_break_def collected_def wrap_stmt_def stmt_def failingD quiet(1) split: option.splits prod.splits sum.splits)

lemma may_break_create:
  "failing flt \<Longrightarrow> may_break
     (\<lambda>i db. case stmt flt 0 (ins_tenant t) i db of
          (Inl e, db) \<Rightarrow> (Inl (Wrap ''insert tenant: %w'' [] e), db)
        | (Inr _, db) \<Rightarrow> if tn_api_key_hash t \<noteq> []
            then wrap_stmt (Wrap ''insert api key: %w'' []) (stmt flt 1 (ins_key (tn_api_key_hash t) (tn_id t))) i db else (Inr (), db))
     (\<lambda>i db. case stmt no_faults 0 (ins_tenant t) i db of
          (Inl e, db) \<Rightarrow> (Inl (Wrap ''insert tenant: %w'' [] e), db)
        | (Inr _, db) \<Rightarrow> if tn_api_key_hash t \<noteq> []
            then wrap_stmt (Wrap ''insert api key: %w'' []) (stmt no_faults 1 (ins_key (tn_api_key_hash t) (tn_id t))) i db else (Inr (), db))"
  by (auto simp: may_break_def wrap_stmt_def stmt_def failingD quiet(1) split: option.splits prod.splits sum.splits)

lemma CreateTenant_broke:
  assumes "failing flt"
  shows "broke (pg_CreateTenant flt t db) (pg_CreateTenant no_faults t db) db"
  using inTxAs_broke [OF assms may_break_create [OF assms, of t], of "tn_id t" db]
  by (auto simp: pg_CreateTenant_def broke_def plain_def simp del: quiet split: option.split)

lemma UpdateTenantMode_broke:
  assumes "failing flt"
  shows "broke (pg_UpdateTenantMode flt ctx mode secs db) (pg_UpdateTenantMode no_faults ctx mode secs db) db"
proof -
  let ?f = "\<lambda>flt i db. case stmt flt 0 (upd_mode mode secs) i db of
      (Inl e, db) \<Rightarrow> (Inl (Wrap ''update mode: %w'' [] e), db)
    | (Inr n, db) \<Rightarrow> if n = 0 then (Inl (Wrap ''update mode: %w'' [] (Sentinel ErrNotFound)), db) else (Inr (), db)"
  have "may_break (?f flt) (?f no_faults)"
    using assms by (auto simp: may_break_def stmt_def failingD quiet(1) split: option.splits prod.splits sum.splits)
  from inTenantTx_broke [OF assms this, of ctx db] show ?thesis
    by (auto simp: pg_UpdateTenantMode_def broke_def simp del: quiet)
qed

lemma inserts_broke:
  assumes "failing flt"
  shows "broke (pg_AddDID flt ctx d db) (pg_AddDID no_faults ctx d db) db"
    and "broke (pg_CreateAppointment flt ctx a db) (pg_CreateAppointment no_faults ctx a db) db"
    and "broke (pg_CreateMessage flt ctx x db) (pg_CreateMessage no_faults ctx x db) db"
proof -
  have tx: "broke (inTenantTx flt ctx (stmt flt 0 f) db) (inTenantTx no_faults ctx (stmt no_faults 0 f) db) db" for f :: "unit stmt"
  proof -
    have "stmt no_faults 0 f = f" by (intro ext) simp
    with inTenantTx_broke [OF assms may_break_stmt [OF assms, of 0 f], of ctx db] show ?thesis by (simp only:)
  qed
  show "broke (pg_AddDID flt ctx d db) (pg_AddDID no_faults ctx d db) db"
    "broke (pg_CreateAppointment flt ctx a db) (pg_CreateAppointment no_faults ctx a db) db"
    "broke (pg_CreateMessage flt ctx x db) (pg_CreateMessage no_faults ctx x db) db"
    unfolding pg_AddDID_def pg_CreateAppointment_def pg_CreateMessage_def
    by (auto split: option.split intro!: inserted_broke tx)
qed

lemma reads_broke:
  assumes "failing flt"
  shows "read_broke (pg_ListDIDs flt ctx db) (pg_ListDIDs no_faults ctx db)"
    and "read_broke (pg_ListCalls flt ctx db) (pg_ListCalls no_faults ctx db)"
    and "read_broke (pg_ListAppointments flt ctx db) (pg_ListAppointments no_faults ctx db)"
    and "read_broke (pg_ListMessages flt ctx db) (pg_ListMessages no_faults ctx db)"
    and "read_broke (pg_CurrentTenant flt ctx db) (pg_CurrentTenant no_faults ctx db)"
  unfolding pg_ListDIDs_def pg_ListCalls_def pg_ListAppointments_def pg_ListMessages_def pg_CurrentTenant_def
  by (rule read_broke_fst inTenantTx_broke may_break_collected may_break_scan assms)+

lemma GetCall_broke: "failing flt \<Longrightarrow> read_broke (pg_GetCall flt ctx k db) (pg_GetCall no_faults ctx k db)"
  unfolding pg_GetCall_def
  by (rule read_broke_fst, rule inTenantTx_broke, assumption)
    (auto simp: may_break_def failingD quiet(1) split: option.split)

lemma TenantByAPIKeyHash_broke:
  assumes "failing flt"
  shows "read_broke (pg_TenantByAPIKeyHash flt h db) (pg_TenantByAPIKeyHash no_faults h db)"
proof -
  have "broke (inTxAs flt i (scan_stmt flt) db) (inTxAs no_faults i (scan_stmt no_faults) db) db" for i
    using inTxAs_broke [OF assms may_break_scan [OF assms]] .
  then have "read_broke (fst (inTxAs flt i (scan_stmt flt) db)) (fst (inTxAs no_faults i (scan_stmt no_faults) db))" for i
    by (rule read_broke_fst)
  then have tx: "fst (inTxAs flt i (scan_stmt flt) db) = fst (inTxAs no_faults i (scan_stmt no_faults) db) \<or>
      (\<exists>e. fst (inTxAs flt i (scan_stmt flt) db) = Inl e \<and> plain e)" for i
    unfolding read_broke_def .
  show ?thesis
  proof (cases "flt CLookup")
    case (Some e)
    with failingD [OF assms] show ?thesis by (auto simp: pg_TenantByAPIKeyHash_def read_broke_def simp del: quiet)
  next
    case None
    show ?thesis
    proof (cases "pg_keys db h")
      case (Some i)
      with None tx [of i] show ?thesis
        by (auto simp: pg_TenantByAPIKeyHash_def read_broke_def quiet(1) simp del: quiet(2,3))
    qed (use None in \<open>simp add: pg_TenantByAPIKeyHash_def read_broke_def\<close>)
  qed
qed

text \<open>A handler during an outage: the calm answer and state, or a 500 from the calm state or the one before.\<close>

definition endured :: "'m server \<Rightarrow> response \<times> 'm server \<Rightarrow> response \<times> 'm server \<Rightarrow> bool" where
  "endured p out out' \<longleftrightarrow> out = out' \<or> fst (fst out) = 500 \<and> snd out \<in> {p, snd out'}"

lemma endured_refl [simp]: "endured p out out" by (simp add: endured_def)

lemma plain_500: "plain e \<Longrightarrow> fst (writeStoreError e nf) = 500"
  by (auto simp: plain_def writeStoreError_def writeError_def err_class_def split: if_splits)

lemma answer_endured: "read_broke v v' \<Longrightarrow> endured p (answer s f nf v, q) (answer s f nf v', q)"
  by (auto simp: read_broke_def endured_def answer_def plain_500)

lemma as_write_broke:
  "broke out out' db \<Longrightarrow> as_write out = as_write out' \<or> (\<exists>e. as_write out = (Some e, db) \<and> plain e)"
  by (auto simp: broke_def as_write_def)

lemma plain_conflict: "plain e \<Longrightarrow> \<not> is_err ErrConflict e"
  by (auto simp: plain_def err_class_def split: if_splits)

lemma write_endured:
  assumes "broke out out' (sv_store p)" and "\<And>e. plain e \<Longrightarrow> fst (h e) = 500"
  shows "endured p (case as_write out of (Some e, m) \<Rightarrow> (h e, p\<lparr>sv_store := m\<rparr>) | (None, m) \<Rightarrow> k m)
     (case as_write out' of (Some e, m) \<Rightarrow> (h e, p\<lparr>sv_store := m\<rparr>) | (None, m) \<Rightarrow> k m)"
  using as_write_broke [OF assms(1)]
proof
  assume "\<exists>e. as_write out = (Some e, sv_store p) \<and> plain e"
  then obtain e where "as_write out = (Some e, sv_store p)" "plain e" by blast
  then show ?thesis by (simp add: endured_def assms(2))
qed simp

lemma endpoint_endured:
  assumes "plain_outage F"
  shows "endured p (tenant_endpoint (pg_stores F) pt ctx r p) (tenant_endpoint (pg_stores calm) pt ctx r p)"
proof -
  have f: "failing (F m)" for m using assms by (simp add: plain_outage_def failing_def)
  note reads = reads_broke [OF f] GetCall_broke [OF f]
  show ?thesis
  proof (cases "rq_endpoint r")
    case PutMode
    show ?thesis
    proof (cases "decodeJSON update_mode_fields \<lparr>um_mode = [], um_overflow_seconds = 0\<rparr> r")
      case (Inr req)
      define secs where "secs = (if um_mode req = ModeOverflow \<and> um_overflow_seconds req \<le> 0 then 15 else um_overflow_seconds req)"
      obtain o' db where out: "as_write (pg_UpdateTenantMode no_faults ctx (um_mode req) secs (sv_store p)) = (o', db)" by fastforce
      note h = PutMode Inr out tenant_endpoint_def handleUpdateMode_def Let_def secs_def [symmetric]
      from as_write_broke [OF UpdateTenantMode_broke [OF f [of MUpdateMode]], of ctx "um_mode req" secs "sv_store p"] show ?thesis
      proof
        assume "as_write (pg_UpdateTenantMode (F MUpdateMode) ctx (um_mode req) secs (sv_store p)) =
            as_write (pg_UpdateTenantMode no_faults ctx (um_mode req) secs (sv_store p))"
        then show ?thesis using reads(5) [of MCurrentTenant ctx db]
          by (cases o') (simp_all add: h answer_endured)
      next
        assume "\<exists>e. as_write (pg_UpdateTenantMode (F MUpdateMode) ctx (um_mode req) secs (sv_store p)) = (Some e, sv_store p) \<and> plain e"
        then obtain e where "as_write (pg_UpdateTenantMode (F MUpdateMode) ctx (um_mode req) secs (sv_store p)) = (Some e, sv_store p)"
          "plain e" by blast
        then show ?thesis by (simp add: h) (simp add: endured_def plain_500)
      qed
    qed (simp add: PutMode tenant_endpoint_def handleUpdateMode_def)
  next
    case PostDIDs
    show ?thesis
      by (auto simp: PostDIDs tenant_endpoint_def handleAddDID_def Let_def plain_500 plain_conflict split: sum.split option.split
          simp del: quiet intro!: write_endured inserts_broke f)
  next
    case PostAppointments
    show ?thesis
      by (auto simp: PostAppointments tenant_endpoint_def handleCreateAppointment_def Let_def plain_500 split: sum.split option.split
          simp del: quiet intro!: write_endured inserts_broke f)
  next
    case PostMessages
    show ?thesis
      by (auto simp: PostMessages tenant_endpoint_def handleCreateMessage_def Let_def plain_500 split: sum.split option.split
          simp del: quiet intro!: write_endured inserts_broke f)
  next
    case GetUsage
    have "endured p (handleGetUsage (pg_stores F) ctx r p) (handleGetUsage (pg_stores calm) ctx r p)"
      using reads(5) [of MCurrentTenant ctx "sv_store p"] reads(2) [of MListCalls ctx "sv_store p"]
      by (auto simp: handleGetUsage_def read_broke_def endured_def plain_500 split: sum.split)
    then show ?thesis by (simp add: GetUsage tenant_endpoint_def)
  qed (auto simp: tenant_endpoint_def handler_defs intro!: answer_endured reads)
qed

lemma create_endured:
  assumes "plain_outage F"
  shows "endured p (handleCreateTenant (pg_stores F) sha ctx r p) (handleCreateTenant (pg_stores calm) sha ctx r p)"
proof -
  have f: "failing (F m)" for m using assms by (simp add: plain_outage_def failing_def)
  show ?thesis
    by (auto simp: handleCreateTenant_def Let_def plain_500 split: sum.split option.split simp del: quiet
        intro!: write_endured CreateTenant_broke f)
qed

text \<open>
  An outage of the database is a 500 and nothing half done. Whichever commands of whichever methods of the PostgreSQL
  store fail while a request is served, the answer and the state after it are those of a database that works, or the answer
  is a 500 and the state is the one before the request or the one after it had been served without failures: no other
  status is invented, no transaction is left in part, and the failure never passes for a missing record, a conflict or a
  wrong key.
\<close>

theorem database_outage_is_a_500:
  assumes "plain_outage F"
  shows "Router (pg_stores F) sha pt r p = Router (pg_stores calm) sha pt r p \<or>
     fst (fst (Router (pg_stores F) sha pt r p)) = 500 \<and>
     snd (Router (pg_stores F) sha pt r p) \<in> {p, snd (Router (pg_stores calm) sha pt r p)}"
proof -
  have f: "failing (F m)" for m using assms by (simp add: plain_outage_def failing_def)
  have "endured p (Router (pg_stores F) sha pt r p) (Router (pg_stores calm) sha pt r p)"
  proof (cases "rq_endpoint r = PostTenants")
    case True
    with create_endured [OF assms] show ?thesis by (simp add: Router_def)
  next
    case False
    let ?h = "HashAPIKey sha (bearerToken r)"
    from TenantByAPIKeyHash_broke [OF f, of MTenantByKey ?h "sv_store p"]
    consider (same) "pg_TenantByAPIKeyHash (F MTenantByKey) ?h (sv_store p) = pg_TenantByAPIKeyHash no_faults ?h (sv_store p)"
      | (down) e where "pg_TenantByAPIKeyHash (F MTenantByKey) ?h (sv_store p) = Inl e" "plain e"
      unfolding read_broke_def by blast
    then show ?thesis
    proof cases
      case same
      with False show ?thesis
        by (auto simp: Router_def withTenant_def Let_def endpoint_endured [OF assms] split: sum.split)
    next
      case down
      then have "\<not> is_err ErrNotFound e" by (auto simp: plain_def err_class_def split: if_splits)
      with down False show ?thesis by (auto simp: Router_def withTenant_def Let_def endured_def writeError_def)
    qed
  qed
  then show ?thesis by (simp add: endured_def)
qed

text \<open>A run of requests, each with the failures the database has while it is served.\<close>

fun served_through ::
  "(string \<Rightarrow> string) \<Rightarrow> (string \<Rightarrow> gotime option) \<Rightarrow> (request \<times> outage) list \<Rightarrow> pg_db server \<Rightarrow> response list \<times> pg_db server" where
  "served_through sha pt [] p = ([], p)"
| "served_through sha pt ((r, F) # qs) p =
     (let out = Router (pg_stores F) sha pt r p; later = served_through sha pt qs (snd out)
      in (fst out # fst later, snd later))"


definition dark :: outage where "dark = (\<lambda>_ _. Some (Errf ''connection refused'' []))"

lemma dark_plain: "plain_outage dark"
  by (simp add: plain_outage_def dark_def plain_def isUnique_def)

theorem database_outage_is_a_500_witness:
  "fst (fst (Router (pg_stores dark) id (\<lambda>_. None) (ex_get GetMe) fresh_pg_server)) = 500 \<and>
   snd (Router (pg_stores dark) id (\<lambda>_. None) (ex_get GetMe) fresh_pg_server) = fresh_pg_server"
proof -
  note d = database_outage_is_a_500 [OF dark_plain, of id "\<lambda>_. None" "ex_get GetMe" fresh_pg_server]
  have ep: "rq_endpoint (ex_get GetMe) = GetMe" by (simp add: ex_get_def ex_request_def)
  have "fst (fst (Router (pg_stores dark) id (\<lambda>_. None) (ex_get GetMe) fresh_pg_server)) = 500"
    by (simp add: Router_def withTenant_def ep ex_get_bearer pg_TenantByAPIKeyHash_def dark_def ErrNotFound_def writeError_def)
  moreover have "Router (pg_stores calm) id (\<lambda>_. None) (ex_get GetMe) fresh_pg_server =
      ((401, ErrorBody (Errf ''unknown API key'' [])), fresh_pg_server)"
    by (simp add: Router_def withTenant_def ep ex_get_bearer pg_TenantByAPIKeyHash_def ErrNotFound_def writeError_def
        fresh_pg_server_def empty_db_def)
  ultimately show ?thesis using d by auto
qed


end
