(* ===== verification/Go_Regexp.thy ===== *)
theory Go_Regexp
  imports Go_Json
begin

text \<open>
  What the services use of package \<open>regexp\<close>: the patterns as a datatype and leftmost-first
  matching, the matches of a pattern at a place being listed in the order in which the package
  prefers them. A place in a text is the rune before it (for the word boundary, which is ASCII)
  and the runes after it with their bytes. No pattern of the services matches the empty string,
  so the rules of the package for empty matches are left out.
\<close>

datatype re =
    RSet "rune \<Rightarrow> bool"
  | RSeq re re
  | RAlt re re
  | ROpt re
  | RPlus "rune \<Rightarrow> bool"
  | RBound
  | REmpty

type_synonym place = "rune option \<times> (rune \<times> string) list"

definition is_word_rune :: "rune \<Rightarrow> bool" where
  "is_word_rune r \<longleftrightarrow> (0x30 \<le> r \<and> r \<le> 0x39) \<or> (0x41 \<le> r \<and> r \<le> 0x5A) \<or> r = 0x5F \<or> (0x61 \<le> r \<and> r \<le> 0x7A)"

definition word_at :: "rune option \<Rightarrow> bool" where
  "word_at p = (case p of Some r \<Rightarrow> is_word_rune r | None \<Rightarrow> False)"

definition next_rune :: "(rune \<times> string) list \<Rightarrow> rune option" where
  "next_rune ss = (case ss of (r, b) # _ \<Rightarrow> Some r | [] \<Rightarrow> None)"

fun plus_ends :: "(rune \<Rightarrow> bool) \<Rightarrow> (rune \<times> string) list \<Rightarrow> place list" where
  "plus_ends P [] = []"
| "plus_ends P ((r, b) # ss) = (if P r then plus_ends P ss @ [(Some r, ss)] else [])"

text \<open>Where a match that starts at a place may end, the preferred end first.\<close>

fun ends :: "re \<Rightarrow> place \<Rightarrow> place list" where
  "ends (RSet P) (p, ss) = (case ss of (r, b) # ss' \<Rightarrow> if P r then [(Some r, ss')] else [] | [] \<Rightarrow> [])"
| "ends (RSeq a b) x = concat (map (ends b) (ends a x))"
| "ends (RAlt a b) x = ends a x @ ends b x"
| "ends (ROpt a) x = ends a x @ [x]"
| "ends (RPlus P) (p, ss) = plus_ends P ss"
| "ends RBound (p, ss) = (if word_at p \<noteq> word_at (next_rune ss) then [(p, ss)] else [])"
| "ends REmpty x = [x]"

text \<open>\<open>FindAllStringIndex(text, -1)\<close>: the byte offsets of the successive matches.\<close>

function find_all :: "re \<Rightarrow> nat \<Rightarrow> rune option \<Rightarrow> (rune \<times> string) list \<Rightarrow> (nat \<times> nat) list" where
  "find_all e pos p [] = []"
| "find_all e pos p ((r, b) # ss) =
     (case ends e (p, (r, b) # ss) of
        (q, rest) # _ \<Rightarrow>
          if length rest < length ((r, b) # ss)
          then let stop = pos + (length (unsegs ((r, b) # ss)) - length (unsegs rest))
               in (pos, stop) # find_all e stop q rest
          else find_all e (pos + length b) (Some r) ss
      | [] \<Rightarrow> find_all e (pos + length b) (Some r) ss)"
  by pat_completeness auto
termination
  by (relation "measure (\<lambda>(e, pos, p, ss). length ss)") auto

definition FindAllStringIndex :: "re \<Rightarrow> string \<Rightarrow> (nat \<times> nat) list" where
  "FindAllStringIndex e s = find_all e 0 None (segs s)"

text \<open>\<open>MatchString\<close>: some place of the text starts a match.\<close>

fun match_from :: "re \<Rightarrow> rune option \<Rightarrow> (rune \<times> string) list \<Rightarrow> bool" where
  "match_from e p [] = (ends e (p, []) \<noteq> [])"
| "match_from e p ((r, b) # ss) = (ends e (p, (r, b) # ss) \<noteq> [] \<or> match_from e (Some r) ss)"

definition MatchString :: "re \<Rightarrow> string \<Rightarrow> bool" where
  "MatchString e s = match_from e None (segs s)"

section \<open>Patterns\<close>

text \<open>Under \<open>(?i)\<close> a letter stands for its case orbit; the patterns use ASCII letters and two French ones.\<close>

definition fold_case :: "rune \<Rightarrow> rune" where
  "fold_case r = (if 0xE0 \<le> r \<and> r \<le> 0xFE \<and> r \<noteq> 0xF7 then r - 0x20 else fold_rune r)"

definition lit :: "rune \<Rightarrow> re" where
  "lit c = RSet (\<lambda>r. fold_case r = fold_case c)"

definition digit_re :: re where "digit_re = RSet (\<lambda>r. 0x30 \<le> r \<and> r \<le> 0x39)"

definition space_set :: "rune \<Rightarrow> bool" where
  "space_set r \<longleftrightarrow> r \<in> {9, 10, 12, 13, 32}"

fun seq :: "re list \<Rightarrow> re" where
  "seq [] = REmpty"
| "seq [e] = e"
| "seq (e # f # es) = RSeq e (seq (f # es))"

fun alt :: "re list \<Rightarrow> re" where
  "alt [] = RSet (\<lambda>_. False)"
| "alt [e] = e"
| "alt (e # f # es) = RAlt e (alt (f # es))"

definition word_re :: "string \<Rightarrow> re" where
  "word_re s = seq (map lit (runes s))"

section \<open>Facts about matching\<close>

lemma plus_ends_suffix:
  "(q, rest) \<in> set (plus_ends P ss) \<Longrightarrow> \<exists>used. ss = used @ rest \<and> used \<noteq> [] \<and> (\<forall>(r, b) \<in> set used. P r)"
proof (induction ss)
  case (Cons x ss)
  obtain r b where x: "x = (r, b)" by (cases x)
  from Cons.prems have P: "P r" by (auto simp: x split: if_splits)
  from Cons.prems P consider "(q, rest) \<in> set (plus_ends P ss)" | "rest = ss" by (auto simp: x)
  then show ?case
  proof cases
    case 1
    with Cons.IH obtain used where "ss = used @ rest" "\<forall>(r, b) \<in> set used. P r" by blast
    then show ?thesis using P by (intro exI [of _ "x # used"]) (auto simp: x)
  qed (use P in \<open>auto simp: x\<close>)
qed simp

text \<open>A match ends at a later place of the same text.\<close>

lemma ends_suffix:
  "(q, rest) \<in> set (ends e (p, ss)) \<Longrightarrow> \<exists>used. ss = used @ rest"
proof (induction e arbitrary: p ss q rest)
  case (RSeq a b)
  then obtain p' ss' where "(p', ss') \<in> set (ends a (p, ss))" "(q, rest) \<in> set (ends b (p', ss'))" by auto
  with RSeq.IH show ?case by (metis append.assoc)
next
  case (RPlus P)
  then show ?case using plus_ends_suffix by fastforce
qed (auto split: list.splits if_splits)

text \<open>Every match of \<open>e\<close> uses a rune of the set \<open>P\<close>.\<close>

fun uses :: "(rune \<Rightarrow> bool) \<Rightarrow> re \<Rightarrow> bool" where
  "uses P (RSet Q) \<longleftrightarrow> (\<forall>r. Q r \<longrightarrow> P r)"
| "uses P (RSeq a b) \<longleftrightarrow> uses P a \<or> uses P b"
| "uses P (RAlt a b) \<longleftrightarrow> uses P a \<and> uses P b"
| "uses P (ROpt a) \<longleftrightarrow> False"
| "uses P (RPlus Q) \<longleftrightarrow> (\<forall>r. Q r \<longrightarrow> P r)"
| "uses P RBound \<longleftrightarrow> False"
| "uses P REmpty \<longleftrightarrow> False"

lemma ends_uses:
  "uses P e \<Longrightarrow> \<forall>(r, b) \<in> set ss. \<not> P r \<Longrightarrow> ends e (p, ss) = []"
proof (induction e arbitrary: p ss)
  case (RSeq a b)
  show ?case
  proof (cases "uses P a")
    case True
    with RSeq show ?thesis by simp
  next
    case False
    then have u: "uses P b" using RSeq.prems(1) by simp
    have "ends b x = []" if "x \<in> set (ends a (p, ss))" for x
    proof -
      obtain q rest where x: "x = (q, rest)" by (cases x)
      with that ends_suffix obtain used where "ss = used @ rest" by blast
      with RSeq.IH(2) [OF u, of rest q] RSeq.prems(2) show ?thesis by (simp add: x)
    qed
    then show ?thesis by simp
  qed
next
  case (RPlus Q)
  then show ?case by (cases ss) auto
qed (auto split: list.splits)

lemma uses_seq: "es \<noteq> [] \<Longrightarrow> uses P (seq es) \<longleftrightarrow> (\<exists>e \<in> set es. uses P e)"
  by (induction es rule: seq.induct) auto

lemma uses_alt: "es \<noteq> [] \<Longrightarrow> uses P (alt es) \<longleftrightarrow> (\<forall>e \<in> set es. uses P e)"
  by (induction es rule: alt.induct) auto

lemma find_all_uses:
  "uses P e \<Longrightarrow> \<forall>(r, b) \<in> set ss. \<not> P r \<Longrightarrow> find_all e pos p ss = []"
proof (induction e pos p ss rule: find_all.induct)
  case (2 e pos p r b ss)
  then have "ends e (p, (r, b) # ss) = []" by (intro ends_uses) auto
  with 2 show ?case by simp
qed simp

lemma FindAll_uses:
  assumes "uses P e" and "\<forall>r \<in> set (runes s). \<not> P r"
  shows "FindAllStringIndex e s = []"
  unfolding FindAllStringIndex_def
  by (rule find_all_uses [OF assms(1)]) (use assms(2) in \<open>auto simp: runes_def\<close>)

text \<open>Matches are nonempty, within the text, in order and disjoint.\<close>

definition laid_out :: "nat \<Rightarrow> nat \<Rightarrow> (nat \<times> nat) list \<Rightarrow> bool" where
  "laid_out lo hi ms \<longleftrightarrow>
     (\<forall>(a, b) \<in> set ms. lo \<le> a \<and> a < b \<and> b \<le> hi) \<and> sorted_wrt (\<lambda>m n. snd m \<le> fst n) ms"

lemma laid_out_Nil [simp]: "laid_out lo hi []"
  by (simp add: laid_out_def)

lemma laid_out_Cons: "lo \<le> a \<Longrightarrow> a < b \<Longrightarrow> b \<le> hi \<Longrightarrow> laid_out b hi ms \<Longrightarrow> laid_out lo hi ((a, b) # ms)"
  by (fastforce simp: laid_out_def)

lemma laid_out_mono: "laid_out lo hi ms \<Longrightarrow> lo' \<le> lo \<Longrightarrow> laid_out lo' hi ms"
  by (fastforce simp: laid_out_def)

lemma unsegs_nonempty: "\<forall>(r, b) \<in> set ss. b \<noteq> [] \<Longrightarrow> ss \<noteq> [] \<Longrightarrow> unsegs ss \<noteq> []"
  by (cases ss) auto

lemma find_all_laid_out:
  "\<forall>(r, b) \<in> set ss. b \<noteq> [] \<Longrightarrow> laid_out pos (pos + length (unsegs ss)) (find_all e pos p ss)"
proof (induction e pos p ss rule: find_all.induct)
  case (2 e pos p r b ss)
  have skip: "laid_out pos (pos + length (unsegs ((r, b) # ss))) (find_all e (pos + length b) (Some r) ss)"
    if "laid_out (pos + length b) (pos + length b + length (unsegs ss)) (find_all e (pos + length b) (Some r) ss)"
    using laid_out_mono [OF that] by (simp add: add.assoc)
  show ?case
  proof (cases "ends e (p, (r, b) # ss)")
    case Nil
    with 2 skip show ?thesis by (simp del: unsegs_Cons)
  next
    case (Cons x xs)
    obtain q rest where x: "x = (q, rest)" by (cases x)
    show ?thesis
    proof (cases "length rest < length ((r, b) # ss)")
      case False
      with 2 skip Cons x show ?thesis by (simp del: unsegs_Cons)
    next
      case True
      from ends_suffix [of q rest e p "(r, b) # ss"] Cons x
      obtain used where u: "(r, b) # ss = used @ rest" by auto
      with True have ne: "used \<noteq> []" by auto
      have nb: "unsegs used \<noteq> []" using 2(4) ne u by (intro unsegs_nonempty) auto
      moreover have "\<forall>(r, b) \<in> set rest. b \<noteq> []" using 2(4) u by auto
      moreover define stop where "stop = pos + (length (unsegs ((r, b) # ss)) - length (unsegs rest))"
      then have stop: "stop = pos + length (unsegs used)" unfolding u by simp
      ultimately have L: "laid_out stop (stop + length (unsegs rest)) (find_all e stop q rest)"
        by (intro 2(2) [OF Cons x [symmetric] True stop_def])
      have lt: "pos < stop" using nb by (simp add: stop)
      have eq: "stop + length (unsegs rest) = pos + length (unsegs ((r, b) # ss))"
        unfolding u stop by simp
      have "laid_out pos (pos + length (unsegs ((r, b) # ss))) ((pos, stop) # find_all e stop q rest)"
        by (rule laid_out_Cons [OF _ lt _ L [unfolded eq]]) (use eq in linarith)+
      with Cons x True show ?thesis by (simp add: stop_def Let_def del: unsegs_Cons)
    qed
  qed
qed simp

lemma FindAll_laid_out: "laid_out 0 (length s) (FindAllStringIndex e s)"
proof -
  have "\<forall>(r, b) \<in> set (segs s). b \<noteq> []" using segs_nonempty_bytes by blast
  from find_all_laid_out [OF this, of 0 e None] show ?thesis by (simp add: FindAllStringIndex_def)
qed

end
