(* ===== verification/Redact.thy ===== *)
theory Redact
  imports Go_Regexp Events
begin

text \<open>
  \<open>internal/event/redact.go\<close>: detection and redaction of personal data in a text, by digit runs
  with the Luhn checksum (cards and social insurance numbers, spoken or written), postal codes
  and dates of birth. The vault is a parameter: the state it keeps and its \<open>Store\<close>; a redactor
  without one has none. Offsets are byte offsets of the original text.
\<close>

section \<open>Texts and spans\<close>

definition byte_slice :: "string \<Rightarrow> nat \<Rightarrow> nat \<Rightarrow> string" where
  "byte_slice s a b = take (b - a) (drop a s)"

definition Mask :: "redaction_kind \<Rightarrow> string" where
  "Mask k = ''[redacted:'' @ kind_name k @ '']''"

definition span :: "nat \<Rightarrow> nat \<Rightarrow> redaction_kind \<Rightarrow> redaction" where
  "span a b k = \<lparr>rd_start = int a, rd_end = int b, rd_kind = k, rd_vault = []\<rparr>"

section \<open>Digit runs\<close>

definition numberWords :: "(string \<times> char) list" where
  "numberWords =
     [(''zero'', CHR ''0''), (''oh'', CHR ''0''), (''one'', CHR ''1''), (''two'', CHR ''2''), (''three'', CHR ''3''),
      (''four'', CHR ''4''), (''five'', CHR ''5''), (''six'', CHR ''6''), (''seven'', CHR ''7''), (''eight'', CHR ''8''),
      (''nine'', CHR ''9''),
      (''z'' @ [CHR 0xC3, CHR 0xA9] @ ''ro'', CHR ''0''), (''un'', CHR ''1''), (''une'', CHR ''1''), (''deux'', CHR ''2''),
      (''trois'', CHR ''3''), (''quatre'', CHR ''4''), (''cinq'', CHR ''5''), (''sept'', CHR ''7''), (''huit'', CHR ''8''),
      (''neuf'', CHR ''9'')]"

record token =
  tk_start :: nat
  tk_end :: nat
  tk_text :: string

fun tokenize_from :: "unicode \<Rightarrow> string \<Rightarrow> nat \<Rightarrow> nat option \<Rightarrow> (rune \<times> string) list \<Rightarrow> token list" where
  "tokenize_from U text i start [] =
     (case start of
        Some a \<Rightarrow> [\<lparr>tk_start = a, tk_end = length text, tk_text = drop a text\<rparr>]
      | None \<Rightarrow> [])"
| "tokenize_from U text i start ((r, b) # ss) =
     (if is_letter U r \<or> is_digit U r
      then tokenize_from U text (i + length b) (case start of None \<Rightarrow> Some i | Some a \<Rightarrow> Some a) ss
      else (case start of
              Some a \<Rightarrow> \<lparr>tk_start = a, tk_end = i, tk_text = byte_slice text a i\<rparr> # tokenize_from U text (i + length b) None ss
            | None \<Rightarrow> tokenize_from U text (i + length b) None ss))"

definition tokenize :: "unicode \<Rightarrow> string \<Rightarrow> token list" where
  "tokenize U text = tokenize_from U text 0 None (segs text)"

definition digitsOf :: "unicode \<Rightarrow> string \<Rightarrow> string" where
  "digitsOf U tok =
     (let lower = to_lower U tok in
      case map_of numberWords lower of
        Some d \<Rightarrow> [d]
      | None \<Rightarrow> if \<exists>r \<in> set (runes lower). r < 0x30 \<or> 0x39 < r then [] else lower)"

definition gapIsSeparator :: "string \<Rightarrow> bool" where
  "gapIsSeparator gap \<longleftrightarrow>
     length (runes gap) \<le> 3 \<and> (\<forall>r \<in> set (runes gap). is_space r \<or> r = 0x2D \<or> r = 0x2E \<or> r = 0x2C)"

text \<open>The loop from the last digit to the first.\<close>

fun luhn_loop :: "string \<Rightarrow> bool \<Rightarrow> int \<Rightarrow> int" where
  "luhn_loop [] double acc = acc"
| "luhn_loop (c # cs) double acc =
     (let d = int (byte c) - 0x30;
          d = (if double then (let e = d * 2 in if e > 9 then e - 9 else e) else d)
      in luhn_loop cs (\<not> double) (acc + d))"

definition luhnValid :: "string \<Rightarrow> bool" where
  "luhnValid digits \<longleftrightarrow> digits \<noteq> [] \<and> luhn_loop (rev digits) False 0 mod 10 = 0"

text \<open>The run that starts with the digits gathered so far and ends, so far, at \<open>stop\<close>.\<close>

fun extend_run :: "unicode \<Rightarrow> string \<Rightarrow> string \<Rightarrow> nat \<Rightarrow> token list \<Rightarrow> string \<times> nat \<times> token list" where
  "extend_run U text digits stop [] = (digits, stop, [])"
| "extend_run U text digits stop (t # ts) =
     (let d = digitsOf U (tk_text t) in
      if d = [] \<or> \<not> gapIsSeparator (byte_slice text stop (tk_start t)) then (digits, stop, t # ts)
      else extend_run U text (digits @ d) (tk_end t) ts)"

definition classify :: "string \<Rightarrow> redaction_kind option" where
  "classify digits =
     (if 13 \<le> length digits \<and> length digits \<le> 19 \<and> luhnValid digits then Some KindCard
      else if length digits = 9 \<and> luhnValid digits then Some KindSIN
      else None)"

lemma extend_run_length: "length (snd (snd (extend_run U text digits stop ts))) \<le> length ts"
  by (induction ts arbitrary: digits stop) (auto simp: Let_def le_SucI)

function digit_runs :: "unicode \<Rightarrow> string \<Rightarrow> token list \<Rightarrow> redaction list" where
  "digit_runs U text [] = []"
| "digit_runs U text (t # ts) =
     (if digitsOf U (tk_text t) = [] then digit_runs U text ts
      else let run = extend_run U text (digitsOf U (tk_text t)) (tk_end t) ts;
               later = digit_runs U text (snd (snd run))
           in case classify (fst run) of
                Some k \<Rightarrow> span (tk_start t) (fst (snd run)) k # later
              | None \<Rightarrow> later)"
  by pat_completeness auto
termination
  by (relation "measure (\<lambda>(U, text, ts). length ts)") (auto simp: extend_run_length less_Suc_eq_le)

definition detectDigitRuns :: "unicode \<Rightarrow> string \<Rightarrow> redaction list" where
  "detectDigitRuns U text = digit_runs U text (tokenize U text)"

section \<open>Postal codes and dates of birth\<close>

definition fsa_letter :: re where
  "fsa_letter = RSet (\<lambda>r. fold_case r \<in> set (map byte ''ABCEGHJKLMNPRSTVXY''))"

definition any_letter :: re where
  "any_letter = RSet (\<lambda>r. 0x41 \<le> fold_case r \<and> fold_case r \<le> 0x5A)"

definition postalRE :: re where
  "postalRE = seq [RBound, fsa_letter, digit_re, any_letter, ROpt (RSet (\<lambda>r. r = 0x20 \<or> r = 0x2D)),
     digit_re, any_letter, digit_re, RBound]"

definition detectPostalCodes :: "string \<Rightarrow> redaction list" where
  "detectPostalCodes text = map (\<lambda>(a, b). span a b KindPostalCode) (FindAllStringIndex postalRE text)"

definition dobContextRE :: re where
  "dobContextRE = alt
     [word_re ''date of birth'',
      seq [word_re ''birth'', ROpt (RSet space_set), word_re ''date''],
      word_re ''born'',
      word_re ''dob'',
      word_re ''date de naissance'',
      word_re ''naissance'',
      seq [lit 0x6E, lit 0xE9, ROpt (lit 0x65), RBound]]"

definition en_months :: re where
  "en_months = alt (map word_re
     [''january'', ''february'', ''march'', ''april'', ''may'', ''june'', ''july'', ''august'', ''september'',
      ''october'', ''november'', ''december''])"

definition fr_months :: re where
  "fr_months = alt
     [word_re ''janvier'',
      seq [lit 0x66, lit 0xE9, word_re ''vrier''], word_re ''fevrier'',
      word_re ''mars'', word_re ''avril'', word_re ''mai'', word_re ''juin'', word_re ''juillet'',
      seq [word_re ''ao'', lit 0xFB, lit 0x74], word_re ''aout'',
      word_re ''septembre'', word_re ''octobre'', word_re ''novembre'',
      seq [lit 0x64, lit 0xE9, word_re ''cembre''], word_re ''decembre'']"

definition one_or_two_digits :: re where "one_or_two_digits = seq [digit_re, ROpt digit_re]"
definition four_digits :: re where "four_digits = seq [digit_re, digit_re, digit_re, digit_re]"
definition ordinal :: re where "ordinal = alt [word_re ''st'', word_re ''nd'', word_re ''rd'', word_re ''th'']"

definition dateRE :: re where
  "dateRE = seq [RBound, alt
     [seq [four_digits, lit 0x2D, digit_re, digit_re, lit 0x2D, digit_re, digit_re],
      seq [one_or_two_digits, lit 0x2F, one_or_two_digits, lit 0x2F,
           digit_re, digit_re, ROpt (seq [digit_re, ROpt digit_re])],
      seq [en_months, RPlus space_set, one_or_two_digits, ROpt ordinal, ROpt (lit 0x2C), RPlus space_set, four_digits],
      seq [one_or_two_digits, ROpt ordinal, RPlus space_set, ROpt (seq [word_re ''of'', RPlus space_set]),
           en_months, ROpt (lit 0x2C), RPlus space_set, four_digits],
      seq [one_or_two_digits, ROpt (word_re ''er''), RPlus space_set, fr_months, RPlus space_set, four_digits]],
     RBound]"

definition dobContextWindow :: nat where "dobContextWindow = 48"

definition detectDOB :: "string \<Rightarrow> redaction list" where
  "detectDOB text =
     map (\<lambda>(a, b). span a b KindDOB)
       (filter (\<lambda>(a, b). MatchString dobContextRE (byte_slice text (a - dobContextWindow) a)) (FindAllStringIndex dateRE text))"

section \<open>Detect and Redact\<close>

definition span_less :: "redaction \<Rightarrow> redaction \<Rightarrow> bool" where
  "span_less s t = (if rd_start s \<noteq> rd_start t then rd_start s < rd_start t else rd_end t < rd_end s)"

fun drop_overlaps :: "int \<Rightarrow> redaction list \<Rightarrow> redaction list" where
  "drop_overlaps last_end [] = []"
| "drop_overlaps last_end (s # ss) =
     (if rd_start s < last_end then drop_overlaps last_end ss else s # drop_overlaps (rd_end s) ss)"

definition raw_spans :: "unicode \<Rightarrow> string \<Rightarrow> redaction list" where
  "raw_spans U text = detectDigitRuns U text @ detectPostalCodes text @ detectDOB text"

definition Detect :: "unicode \<Rightarrow> string \<Rightarrow> redaction list" where
  "Detect U text = drop_overlaps (- 1) (sort_by span_less (raw_spans U text))"

type_synonym 'v vault = "redaction_kind \<Rightarrow> string \<Rightarrow> 'v \<Rightarrow> string res \<times> 'v"

fun redact_loop ::
  "'v vault option \<Rightarrow> string \<Rightarrow> nat \<Rightarrow> redaction list \<Rightarrow> 'v \<Rightarrow> (string \<times> redaction list) res \<times> 'v" where
  "redact_loop vault text prev [] v = (Inr (drop prev text, []), v)"
| "redact_loop vault text prev (s # ss) v =
     (let a = nat (rd_start s); b = nat (rd_end s);
          stored = (case vault of
              None \<Rightarrow> (Inr s, v)
            | Some store \<Rightarrow>
                (case store (rd_kind s) (byte_slice text a b) v of
                   (Inl e, v) \<Rightarrow> (Inl (Wrap ''vault store %s span: %w'' [FS (kind_name (rd_kind s))] e), v)
                 | (Inr ref, v) \<Rightarrow> (Inr (s\<lparr>rd_vault := ref\<rparr>), v)))
      in case stored of
           (Inl e, v) \<Rightarrow> (Inl e, v)
         | (Inr s, v) \<Rightarrow>
             (case redact_loop vault text b ss v of
                (Inl e, v) \<Rightarrow> (Inl e, v)
              | (Inr (out, spans), v) \<Rightarrow> (Inr (byte_slice text prev a @ Mask (rd_kind s) @ out, s # spans), v)))"

definition Redact ::
  "unicode \<Rightarrow> 'v vault option \<Rightarrow> string \<Rightarrow> 'v \<Rightarrow> (string \<times> redaction list) res \<times> 'v" where
  "Redact U vault text v =
     (let spans = Detect U text in
      if spans = [] then (Inr (text, []), v) else redact_loop vault text 0 spans v)"

end
