(* ===== verification/Redact_Props.thy ===== *)
theory Redact_Props
  imports Redact
begin

text \<open>
  Properties of the redactor: the layout of the spans, what they cover, redaction as a reversible
  replacement, card numbers, and two kinds of personal data that it lets through.
\<close>

section \<open>Layout of the spans\<close>

definition tok_pair where "tok_pair t = (tk_start t, tk_end t)"

lemma tok_pair_simp [simp]: "tok_pair \<lparr>tk_start = a, tk_end = b, tk_text = s\<rparr> = (a, b)"
  by (simp add: tok_pair_def)

lemma tokenize_from_laid_out:
  assumes "\<forall>(r, b) \<in> set ss. b \<noteq> []" and "i + length (unsegs ss) = length tx"
    and "\<forall>a. start = Some a \<longrightarrow> a < i"
  shows "laid_out (case start of Some a \<Rightarrow> a | None \<Rightarrow> i) (length tx) (map tok_pair (tokenize_from U tx i start ss))"
  using assms
proof (induction U tx i start ss rule: tokenize_from.induct)
  case (1 U tx i start)
  then show ?case by (auto simp: laid_out_def tok_pair_def split: option.split)
next
  case (2 U tx i start r b ss)
  have b: "b \<noteq> []" and rest: "\<forall>(r, b) \<in> set ss. b \<noteq> []" using "2.prems"(1) by auto
  have len: "i + length b + length (unsegs ss) = length tx" using "2.prems"(2) by simp
  show ?case
  proof (cases "is_letter U r \<or> is_digit U r")
    case True
    have "laid_out (case start of None \<Rightarrow> i | Some a \<Rightarrow> a) (length tx)
      (map tok_pair (tokenize_from U tx (i + length b) (case start of None \<Rightarrow> Some i | Some a \<Rightarrow> Some a) ss))"
      using "2.IH"(1) [OF True rest len] "2.prems"(3) b by (cases start) auto
    with True show ?thesis by (cases start) simp_all
  next
    case False
    show ?thesis
    proof (cases start)
      case None
      from "2.IH"(2) [OF False None rest len] have "laid_out (i + length b) (length tx)
        (map tok_pair (tokenize_from U tx (i + length b) None ss))" by simp
      from laid_out_mono [OF this, of i] False None show ?thesis by simp
    next
      case (Some a)
      from "2.IH"(3) [OF False Some rest len] have "laid_out (i + length b) (length tx)
        (map tok_pair (tokenize_from U tx (i + length b) None ss))" by simp
      from laid_out_mono [OF this, of i] False Some "2.prems"(2,3) show ?thesis
        by (simp add: laid_out_Cons)
    qed
  qed
qed

lemma tokenize_laid_out: "laid_out 0 (length tx) (map tok_pair (tokenize U tx))"
proof -
  have "\<forall>(r, b) \<in> set (segs tx). b \<noteq> []" using segs_nonempty_bytes by blast
  from tokenize_from_laid_out [OF this, of 0 tx None U] show ?thesis by (simp add: tokenize_def)
qed

lemma laid_out_ConsD:
  assumes "laid_out lo hi ((a, b) # ms)"
  shows "lo \<le> a" and "a < b" and "b \<le> hi" and "laid_out b hi ms"
  using assms by (fastforce simp: laid_out_def)+

lemma extend_run_laid_out:
  assumes "laid_out stop hi (map tok_pair ts)" and "stop \<le> hi"
    and "extend_run U tx digits stop ts = (digits', stop', ts')"
  shows "stop \<le> stop' \<and> stop' \<le> hi \<and> laid_out stop' hi (map tok_pair ts')"
  using assms
proof (induction U tx digits stop ts rule: extend_run.induct)
  case (2 U tx digits stop t ts)
  note l = laid_out_ConsD [OF "2.prems"(1) [simplified list.map tok_pair_def [of t]]]
  show ?case
  proof (cases "digitsOf U (tk_text t) = [] \<or> \<not> gapIsSeparator (byte_slice tx stop (tk_start t))")
    case True
    with "2.prems" show ?thesis by (auto simp: Let_def)
  next
    case False
    then have "extend_run U tx (digits @ digitsOf U (tk_text t)) (tk_end t) ts = (digits', stop', ts')"
      using "2.prems"(3) by (simp add: Let_def)
    from "2.IH" [OF refl False l(4,3) this] l(1,2) show ?thesis by linarith
  qed
qed auto

definition span_ok :: "nat \<Rightarrow> redaction \<Rightarrow> bool" where
  "span_ok n s \<longleftrightarrow> 0 \<le> rd_start s \<and> rd_start s < rd_end s \<and> rd_end s \<le> int n"

lemma digit_runs_ok:
  "laid_out lo hi (map tok_pair ts) \<Longrightarrow> s \<in> set (digit_runs U tx ts) \<Longrightarrow> span_ok hi s"
proof (induction U tx ts arbitrary: lo rule: digit_runs.induct)
  case (2 U tx t ts)
  note l = laid_out_ConsD [OF "2.prems"(1) [simplified list.map tok_pair_def [of t]]]
  show ?case
  proof (cases "digitsOf U (tk_text t) = []")
    case True
    with "2.IH"(1) l(4) "2.prems"(2) show ?thesis by simp
  next
    case False
    obtain ds stop ts' where run: "extend_run U tx (digitsOf U (tk_text t)) (tk_end t) ts = (ds, stop, ts')"
      by (metis prod_cases3)
    note e = extend_run_laid_out [OF l(4,3) run]
    have "span_ok hi s" if "s \<in> set (digit_runs U tx ts')"
      using "2.IH"(2) [OF False refl, of stop] e that by (simp add: run)
    with "2.prems"(2) False run e l(2) show ?thesis
      by (auto simp: span_ok_def span_def Let_def split: option.splits)
  qed
qed simp

lemma matches_ok: "(a, b) \<in> set (FindAllStringIndex e tx) \<Longrightarrow> span_ok (length tx) (span a b k)"
  using FindAll_laid_out [of tx e] by (force simp: laid_out_def span_ok_def span_def)

lemma raw_spans_ok: "s \<in> set (raw_spans U tx) \<Longrightarrow> span_ok (length tx) s"
  using digit_runs_ok [OF tokenize_laid_out, of s U tx] matches_ok
  by (auto simp: raw_spans_def detectDigitRuns_def detectPostalCodes_def detectDOB_def)

lemma strict_weak_span_less: "strict_weak span_less"
  by (auto simp: strict_weak_def span_less_def split: if_splits)

lemma sorted_spans: "sorted_wrt (\<lambda>s t. rd_start s \<le> rd_start t) (sort_by span_less ss)"
proof -
  have "sorted_wrt (\<lambda>a b. \<not> span_less b a) (sort_by span_less ss)"
    using ordered_sort_by [OF strict_weak_span_less] by (simp add: ordered_def)
  then show ?thesis by (rule sorted_wrt_mono_rel [rotated]) (auto simp: span_less_def split: if_splits)
qed

lemma drop_overlaps_set: "set (drop_overlaps e ss) \<subseteq> set ss"
  by (induction ss arbitrary: e) auto

lemma drop_overlaps_from: "s \<in> set (drop_overlaps e ss) \<Longrightarrow> \<forall>s \<in> set ss. rd_start s < rd_end s \<Longrightarrow> e \<le> rd_start s"
proof (induction ss arbitrary: e)
  case (Cons x ss)
  then show ?case by (cases "rd_start x < e") (auto, force)
qed simp

lemma drop_overlaps_disjoint:
  "\<forall>s \<in> set ss. rd_start s < rd_end s \<Longrightarrow> sorted_wrt (\<lambda>s t. rd_end s \<le> rd_start t) (drop_overlaps e ss)"
  by (induction ss arbitrary: e) (auto dest: drop_overlaps_from)

text \<open>Dropping a span never uncovers its start.\<close>

lemma drop_overlaps_cover:
  assumes "sorted_wrt (\<lambda>s t. rd_start s \<le> rd_start t) ss" and "\<forall>s \<in> set ss. rd_start s < rd_end s"
    and "s \<in> set ss"
  shows "rd_start s < e \<or> (\<exists>t \<in> set (drop_overlaps e ss). rd_start t \<le> rd_start s \<and> rd_start s < rd_end t)"
  using assms
proof (induction ss arbitrary: e)
  case (Cons x ss)
  show ?case
  proof (cases "rd_start x < e")
    case True
    with Cons show ?thesis by (cases "s = x") auto
  next
    case False
    show ?thesis
    proof (cases "s = x")
      case True
      with Cons.prems(2) False show ?thesis by auto
    next
      case no: False
      with Cons.prems have "rd_start x \<le> rd_start s" by simp
      with Cons.IH [of "rd_end x"] Cons.prems no False show ?thesis by auto
    qed
  qed
qed simp

lemma raw_order: "\<forall>s \<in> set (sort_by span_less (raw_spans U tx)). rd_start s < rd_end s"
  using raw_spans_ok by (auto simp: span_ok_def)

lemma Detect_ok: "s \<in> set (Detect U tx) \<Longrightarrow> span_ok (length tx) s"
  using drop_overlaps_set [of "- 1" "sort_by span_less (raw_spans U tx)"] raw_spans_ok
  by (auto simp: Detect_def)

lemma Detect_disjoint: "sorted_wrt (\<lambda>s t. rd_end s \<le> rd_start t) (Detect U tx)"
  unfolding Detect_def by (rule drop_overlaps_disjoint [OF raw_order])

text \<open>
  C8: the layout of the detected spans. For every text, the spans of \<open>Detect\<close> are nonempty,
  lie within the text, come in ascending order and never overlap; and nothing that a detector
  found is lost without a trace: where a digit run, a postal code or a date of birth was found,
  its first byte lies in a span of the result.
\<close>

theorem detected_spans_are_laid_out:
  "sorted_wrt (\<lambda>s t. rd_end s \<le> rd_start t) (Detect U tx) \<and>
   (\<forall>s \<in> set (Detect U tx). 0 \<le> rd_start s \<and> rd_start s < rd_end s \<and> rd_end s \<le> int (length tx)) \<and>
   (\<forall>s \<in> set (detectDigitRuns U tx @ detectPostalCodes tx @ detectDOB tx).
      \<exists>t \<in> set (Detect U tx). rd_start t \<le> rd_start s \<and> rd_start s < rd_end t)"
proof (intro conjI)
  show "\<forall>s \<in> set (detectDigitRuns U tx @ detectPostalCodes tx @ detectDOB tx).
      \<exists>t \<in> set (Detect U tx). rd_start t \<le> rd_start s \<and> rd_start s < rd_end t"
  proof
    fix s assume "s \<in> set (detectDigitRuns U tx @ detectPostalCodes tx @ detectDOB tx)"
    then have s: "s \<in> set (sort_by span_less (raw_spans U tx))" by (simp only: raw_spans_def set_sort_by)
    then have "0 \<le> rd_start s" using raw_spans_ok by (auto simp: span_ok_def)
    with drop_overlaps_cover [OF sorted_spans raw_order s, of "- 1"]
    show "\<exists>t \<in> set (Detect U tx). rd_start t \<le> rd_start s \<and> rd_start s < rd_end t" by (simp add: Detect_def)
  qed
qed (use Detect_ok Detect_disjoint in \<open>auto simp: span_ok_def\<close>)

section \<open>Redaction can be undone with the vault\<close>

text \<open>A vault that keeps every original, and the text rebuilt from a redacted one and the originals.\<close>

definition keeping :: "(redaction_kind \<Rightarrow> string \<Rightarrow> string) \<Rightarrow> string list vault" where
  "keeping ref = (\<lambda>k original kept. (Inr (ref k original), kept @ [original]))"

fun restore :: "redaction list \<Rightarrow> string list \<Rightarrow> nat \<Rightarrow> string \<Rightarrow> string" where
  "restore [] originals prev out = out"
| "restore (s # ss) [] prev out = out"
| "restore (s # ss) (x # xs) prev out =
     (let gap = nat (rd_start s) - prev in
      take gap out @ x @ restore ss xs (nat (rd_end s)) (drop (gap + length (Mask (rd_kind s))) out))"

lemma byte_slice_append:
  assumes "a \<le> b" and "b \<le> length s"
  shows "byte_slice s a b @ drop b s = drop a s"
proof -
  have "drop b s = drop (b - a) (drop a s)" using assms(1) by simp
  then show ?thesis by (simp add: byte_slice_def del: drop_drop)
qed

lemma length_byte_slice: "b \<le> length s \<Longrightarrow> length (byte_slice s a b) = b - a"
  by (simp add: byte_slice_def)

lemma redact_loop_restore:
  assumes "sorted_wrt (\<lambda>s t. rd_end s \<le> rd_start t) ss" and "\<forall>s \<in> set ss. span_ok (length tx) s"
    and "\<forall>s \<in> set ss. int prev \<le> rd_start s" and "prev \<le> length tx"
  shows "\<exists>out spans originals. redact_loop (Some (keeping ref)) tx prev ss kept = (Inr (out, spans), kept @ originals) \<and>
     spans = map (\<lambda>s. s\<lparr>rd_vault := ref (rd_kind s) (byte_slice tx (nat (rd_start s)) (nat (rd_end s)))\<rparr>) ss \<and>
     originals = map (\<lambda>s. byte_slice tx (nat (rd_start s)) (nat (rd_end s))) ss \<and>
     restore spans originals prev out = drop prev tx"
  using assms
proof (induction ss arbitrary: prev kept)
  case (Cons s ss)
  define a b where "a = nat (rd_start s)" and "b = nat (rd_end s)"
  have ok: "span_ok (length tx) s" using Cons.prems(2) by simp
  then have ab: "prev \<le> a" "a \<le> b" "b \<le> length tx" "int b = rd_end s"
    using Cons.prems(3) by (auto simp: a_def b_def span_ok_def)
  from Cons.IH [of b "kept @ [byte_slice tx a b]"] Cons.prems ab obtain out spans originals where
    IH: "redact_loop (Some (keeping ref)) tx b ss (kept @ [byte_slice tx a b]) = (Inr (out, spans), kept @ byte_slice tx a b # originals)"
    "spans = map (\<lambda>s. s\<lparr>rd_vault := ref (rd_kind s) (byte_slice tx (nat (rd_start s)) (nat (rd_end s)))\<rparr>) ss"
    "originals = map (\<lambda>s. byte_slice tx (nat (rd_start s)) (nat (rd_end s))) ss"
    "restore spans originals b out = drop b tx" by auto
  let ?s = "s\<lparr>rd_vault := ref (rd_kind s) (byte_slice tx a b)\<rparr>"
  have "redact_loop (Some (keeping ref)) tx prev (s # ss) kept =
     (Inr (byte_slice tx prev a @ Mask (rd_kind s) @ out, ?s # spans), kept @ byte_slice tx a b # originals)"
    using IH(1) by (simp add: keeping_def a_def [symmetric] b_def [symmetric] Let_def)
  moreover have "restore (?s # spans) (byte_slice tx a b # originals) prev (byte_slice tx prev a @ Mask (rd_kind s) @ out)
     = byte_slice tx prev a @ byte_slice tx a b @ drop b tx"
    using IH(4) ab by (simp add: a_def [symmetric] b_def [symmetric] Let_def length_byte_slice)
  moreover have "\<dots> = drop prev tx" using ab by (simp add: byte_slice_append)
  ultimately show ?case using IH(2,3) by (auto simp: a_def [symmetric] b_def [symmetric])
qed (simp add: keeping_def)


section \<open>Numbers spoken in one piece\<close>

definition nondigit :: "rune \<Rightarrow> bool" where "nondigit r \<longleftrightarrow> r < 0x30 \<or> 0x39 < r"

lemma fold_case_digit: "\<not> nondigit r \<Longrightarrow> fold_case r = r"
  by (auto simp: nondigit_def fold_case_def fold_rune_def)

lemma uses_lit: "nondigit (fold_case c) \<Longrightarrow> uses nondigit (lit c)"
  using fold_case_digit by (fastforce simp: lit_def)

lemma uses_set: "(\<And>r. 0x30 \<le> r \<Longrightarrow> r \<le> 0x39 \<Longrightarrow> \<not> Q r) \<Longrightarrow> uses nondigit (RSet Q) \<and> uses nondigit (RPlus Q)"
  by (simp add: nondigit_def) (meson not_le)

lemma uses_fsa: "uses nondigit fsa_letter"
proof -
  have "\<not> fold_case r \<in> set (map byte ''ABCEGHJKLMNPRSTVXY'')" if "0x30 \<le> r" "r \<le> 0x39" for r
    using that fold_case_digit [of r] by (auto simp: nondigit_def)
  then show ?thesis unfolding fsa_letter_def by (rule uses_set [THEN conjunct1])
qed

lemma uses_spaces: "uses nondigit (RPlus space_set)"
proof -
  have "\<not> space_set r" if "0x30 \<le> r" "r \<le> 0x39" for r using that by (auto simp: space_set_def)
  then show ?thesis by (rule uses_set [THEN conjunct2])
qed

lemma uses_date_signs: "uses nondigit (lit 0x2D)" "uses nondigit (lit 0x2F)"
  by (intro uses_lit; simp add: nondigit_def fold_case_def fold_rune_def)+

lemma postal_uses: "uses nondigit postalRE"
  using uses_fsa by (simp add: postalRE_def uses_seq)

lemma date_uses: "uses nondigit dateRE"
  using uses_spaces uses_date_signs by (simp add: dateRE_def uses_seq uses_alt)

definition digits_only :: "string \<Rightarrow> bool" where
  "digits_only s \<longleftrightarrow> list_all (\<lambda>c. 0x30 \<le> byte c \<and> byte c \<le> 0x39) s"

lemma digits_only_ascii: "digits_only s \<Longrightarrow> ascii s"
  by (auto simp: digits_only_def ascii_def list_all_iff)

lemma digits_only_runes: "digits_only s \<Longrightarrow> r \<in> set (runes s) \<Longrightarrow> 0x30 \<le> r \<and> r \<le> 0x39"
  by (auto simp: runes_ascii digits_only_ascii) (auto simp: digits_only_def list_all_iff)

lemma digits_only_regex:
  assumes "digits_only s"
  shows "detectPostalCodes s = []" and "detectDOB s = []"
proof -
  have "\<forall>r \<in> set (runes s). \<not> nondigit r"
    using digits_only_runes [OF assms] by (simp add: nondigit_def not_less)
  with FindAll_uses [OF postal_uses] FindAll_uses [OF date_uses]
  show "detectPostalCodes s = []" "detectDOB s = []" by (simp_all add: detectPostalCodes_def detectDOB_def)
qed

lemma tokenize_digits:
  assumes "digits_only s" and "s \<noteq> []"
  shows "tokenize U s = [\<lparr>tk_start = 0, tk_end = length s, tk_text = s\<rparr>]"
proof -
  have d: "is_digit U (byte c)" if "0x30 \<le> byte c" "byte c \<le> 0x39" for c
    using that by (simp add: is_digit_def)
  have run: "tokenize_from U s i (Some 0) (map (\<lambda>c. (byte c, [c])) cs) = [\<lparr>tk_start = 0, tk_end = length s, tk_text = s\<rparr>]"
    if "digits_only cs" for cs i
    using that by (induction cs arbitrary: i) (auto simp: digits_only_def d)
  obtain c cs where s: "s = c # cs" using assms(2) by (cases s) auto
  with assms(1) have "digits_only cs" "0x30 \<le> byte c" "byte c \<le> 0x39" by (auto simp: digits_only_def)
  with run d show ?thesis
    unfolding tokenize_def segs_ascii [OF digits_only_ascii [OF assms(1)]] by (simp add: s)
qed

lemma digitsOf_digits:
  assumes "digits_only s" and "s \<noteq> []"
  shows "digitsOf U s = s"
proof -
  have "char_lower c = c" if "0x30 \<le> byte c" "byte c \<le> 0x39" for c using that by (simp add: char_lower_def)
  then have "map char_lower s = s"
    using assms(1) by (auto simp: digits_only_def list_all_iff intro!: map_idI)
  then have l: "to_lower U s = s" by (simp add: to_lower_ascii digits_only_ascii assms(1))
  obtain c cs where s: "s = c # cs" using assms(2) by (cases s) auto
  have first: "0x30 \<le> byte c \<and> byte c \<le> 0x39" using assms(1) by (simp add: s digits_only_def)
  have "k \<noteq> [] \<and> \<not> (0x30 \<le> byte (hd k) \<and> byte (hd k) \<le> 0x39)" if "k \<in> set (map fst numberWords)" for k
    using that by (auto simp: numberWords_def)
  with first have "s \<notin> set (map fst numberWords)" by (metis list.sel(1) s)
  then have "map_of numberWords s = None" by (simp add: map_of_eq_None_iff)
  moreover have "\<not> (\<exists>r \<in> set (runes s). r < 0x30 \<or> 0x39 < r)"
    using digits_only_runes [OF assms(1)] by force
  ultimately show ?thesis by (simp add: digitsOf_def l)
qed

lemma digits_redacted:
  assumes "digits_only s" and "s \<noteq> []"
  shows "Redact U None s v =
     (case classify s of
        Some k \<Rightarrow> (Inr (Mask k, [span 0 (length s) k]), v)
      | None \<Rightarrow> (Inr (s, []), v))"
proof -
  have "raw_spans U s = (case classify s of Some k \<Rightarrow> [span 0 (length s) k] | None \<Rightarrow> [])"
    using digits_only_regex [OF assms(1)] assms(2)
    by (simp add: raw_spans_def detectDigitRuns_def tokenize_digits [OF assms] digitsOf_digits [OF assms] Let_def
        split: option.split)
  then show ?thesis
    by (auto simp: Redact_def Detect_def span_def byte_slice_def Let_def split: option.split)
qed

text \<open>
  A number given in one piece is masked exactly when it is a card or a social insurance
  number. A text of digits alone becomes the mask of its kind, whole, when it has 13 to 19 digits
  or 9 digits and passes the Luhn checksum, and comes back unchanged otherwise.
\<close>

theorem number_is_masked_iff_card_or_sin:
  assumes "digits_only s" and "s \<noteq> []"
  shows "Redact U None s v =
     (case classify s of
        Some k \<Rightarrow> (Inr (Mask k, [span 0 (length s) k]), v)
      | None \<Rightarrow> (Inr (s, []), v))"
  by (rule digits_redacted [OF assms])

definition latin1_tables :: unicode where
  "latin1_tables = \<lparr>uc_punct = (\<lambda>_. False), uc_digit = (\<lambda>_. False), uc_letter = (\<lambda>_. False), uc_lower = id, uc_upper = id\<rparr>"

theorem number_is_masked_iff_card_or_sin_witness:
  "Redact latin1_tables None ''046454286'' () = (Inr (''[redacted:sin]'', [span 0 9 KindSIN]), ())"
proof -
  have c: "classify ''046454286'' = Some KindSIN"
    by (simp add: classify_def luhnValid_def Let_def)
  have d: "digits_only ''046454286''" by (simp add: digits_only_def)
  show ?thesis
    using number_is_masked_iff_card_or_sin [of "''046454286''" latin1_tables "()", OF d] c by (simp add: Mask_def eval_nat_numeral)
qed

theorem detected_spans_are_laid_out_witness:
  "\<exists>t. t \<in> set (Detect latin1_tables ''046454286'') \<and> rd_start t \<le> 0 \<and> 0 < rd_end t \<and> rd_end t \<le> 9"
proof -
  have d: "digits_only ''046454286''" by (simp add: digits_only_def)
  have c: "classify ''046454286'' = Some KindSIN" by (simp add: classify_def luhnValid_def Let_def)
  have r: "span 0 9 KindSIN \<in> set (detectDigitRuns latin1_tables ''046454286'')"
    by (simp add: detectDigitRuns_def tokenize_digits [OF d] digitsOf_digits [OF d] c Let_def eval_nat_numeral)
  note laid = detected_spans_are_laid_out [of latin1_tables "''046454286''"]
  have "span 0 9 KindSIN \<in> set (detectDigitRuns latin1_tables ''046454286'' @
      detectPostalCodes ''046454286'' @ detectDOB ''046454286'')" using r by simp
  with laid obtain t where t: "t \<in> set (Detect latin1_tables ''046454286'')"
    "rd_start t \<le> rd_start (span 0 9 KindSIN)" "rd_start (span 0 9 KindSIN) < rd_end t" by blast
  from t(1) laid have "rd_end t \<le> int (length ''046454286'')" by blast
  with t show ?thesis by (auto simp: span_def)
qed

section \<open>What the redactor lets through\<close>

lemma word_re_ascii: "ascii s \<Longrightarrow> word_re s = seq (map lit (map byte s))"
  by (simp add: word_re_def runes_ascii)

lemmas regex_evals = word_re_ascii ascii_evals lit_def fold_case_def fold_rune_def word_at_def next_rune_def
  is_word_rune_def Let_def unsegs_def digit_re_def space_set_def fsa_letter_def any_letter_def
  one_or_two_digits_def four_digits_def ordinal_def en_months_def fr_months_def

definition e_acute :: string where "e_acute = [CHR 0xC3, CHR 0xA9]"
definition born_masculine :: string where "born_masculine = ''n'' @ e_acute @ '' le 5 mai 1990''"
definition born_feminine :: string where "born_feminine = ''n'' @ e_acute @ ''e le 5 mai 1990''"

lemma born_segs:
  "segs born_masculine =
     [(0x6E, ''n''), (0xE9, e_acute), (0x20, '' ''), (0x6C, ''l''), (0x65, ''e''), (0x20, '' ''), 
      (0x35, ''5''), (0x20, '' ''), (0x6D, ''m''), (0x61, ''a''), (0x69, ''i''), (0x20, '' ''), 
      (0x31, ''1''), (0x39, ''9''), (0x39, ''9''), (0x30, ''0'')]"
  "segs born_feminine =
     [(0x6E, ''n''), (0xE9, e_acute), (0x65, ''e''), (0x20, '' ''), (0x6C, ''l''), (0x65, ''e''), 
      (0x20, '' ''), (0x35, ''5''), (0x20, '' ''), (0x6D, ''m''), (0x61, ''a''), (0x69, ''i''), 
      (0x20, '' ''), (0x31, ''1''), (0x39, ''9''), (0x39, ''9''), (0x30, ''0'')]"
  by code_simp+

lemma window_segs:
  "segs (''n'' @ e_acute @ '' le '') = [(0x6E, ''n''), (0xE9, e_acute), (0x20, '' ''), (0x6C, ''l''), (0x65, ''e''), (0x20, '' '')]"
  "segs (''n'' @ e_acute @ ''e le '') = [(0x6E, ''n''), (0xE9, e_acute), (0x65, ''e''), (0x20, '' ''), (0x6C, ''l''), (0x65, ''e''), 
      (0x20, '' '')]"
  by code_simp+

lemma born_dates:
  "FindAllStringIndex dateRE born_masculine = [(7, 17)]" "FindAllStringIndex dateRE born_feminine = [(8, 18)]"
  unfolding FindAllStringIndex_def born_segs by (simp_all add: dateRE_def regex_evals e_acute_def)

lemma born_windows:
  "byte_slice born_masculine 0 7 = ''n'' @ e_acute @ '' le ''"
  "byte_slice born_feminine 0 8 = ''n'' @ e_acute @ ''e le ''"
  by (simp_all add: byte_slice_def born_masculine_def born_feminine_def e_acute_def)

lemma born_context:
  "\<not> MatchString dobContextRE (''n'' @ e_acute @ '' le '')" "MatchString dobContextRE (''n'' @ e_acute @ ''e le '')"
  unfolding MatchString_def window_segs by (simp_all add: dobContextRE_def regex_evals)

lemma born_dob: "detectDOB born_masculine = []" "detectDOB born_feminine = [span 8 18 KindDOB]"
  by (simp_all add: detectDOB_def born_dates dobContextWindow_def born_windows born_context del: append.simps)

lemma born_postal: "detectPostalCodes born_masculine = []" "detectPostalCodes born_feminine = []"
  unfolding detectPostalCodes_def FindAllStringIndex_def born_segs by (simp_all add: postalRE_def regex_evals e_acute_def)

lemma segs_word_e_acute: "segs (''n'' @ e_acute) = [(0x6E, ''n''), (0xE9, e_acute)]"
  "segs (''n'' @ e_acute @ ''e'') = [(0x6E, ''n''), (0xE9, e_acute), (0x65, ''e'')]"
  by code_simp+

lemma digits_of_ne: "digitsOf U (''n'' @ e_acute) = []" "digitsOf U (''n'' @ e_acute @ ''e'') = []"
  unfolding digitsOf_def to_lower_def runes_def segs_word_e_acute
  by (simp_all add: rune_lower_def encode_rune_def Let_def numberWords_def char_of_def bit_Suc_0_iff runes_def
      segs.simps(2) decode_rune_def decode2_def cont_def)

lemma born_digit_runs: "detectDigitRuns U born_masculine = []" "detectDigitRuns U born_feminine = []"
proof -
  have f: "digitsOf U ''le'' = []" "digitsOf U ''mai'' = []"
    by (simp_all add: digitsOf_def Let_def to_lower_ascii ascii_evals runes_ascii numberWords_def)
  have g: "digitsOf U ''5'' = ''5''" "digitsOf U ''1990'' = ''1990''"
    by (rule digitsOf_digits; simp add: digits_only_def)+
  have tm: "map tk_text (tokenize U born_masculine) = [''n'' @ e_acute, ''le'', ''5'', ''mai'', ''1990'']"
    and tf: "map tk_text (tokenize U born_feminine) = [''n'' @ e_acute @ ''e'', ''le'', ''5'', ''mai'', ''1990'']"
    unfolding tokenize_def born_segs
    by (simp_all add: is_letter_def is_digit_def byte_slice_def born_masculine_def born_feminine_def e_acute_def)
  have run: "extend_run U tx ''5'' p (t # ts) = (''5'', p, t # ts)" if "tk_text t = ''mai''" for tx p t ts
    using that f by simp
  have "digit_runs U tx ts = []" if "map tk_text ts = [w, ''le'', ''5'', ''mai'', ''1990'']" "digitsOf U w = []" for tx ts w
  proof -
    from that obtain t1 t2 t3 t4 t5 where "ts = [t1, t2, t3, t4, t5]" "tk_text t1 = w" "tk_text t2 = ''le''"
      "tk_text t3 = ''5''" "tk_text t4 = ''mai''" "tk_text t5 = ''1990''"
      by (auto simp: map_eq_Cons_conv)
    with that(2) f g run show ?thesis by (simp add: Let_def classify_def)
  qed
  from this [OF tm digits_of_ne(1)] this [OF tf digits_of_ne(2)]
  show "detectDigitRuns U born_masculine = []" "detectDigitRuns U born_feminine = []"
    by (simp_all add: detectDigitRuns_def)
qed

lemma fold_case_e: "fold_case r = 0x45 \<Longrightarrow> is_word_rune r"
  by (auto simp: fold_case_def fold_rune_def is_word_rune_def split: if_splits)

lemma masculine_no_match:
  assumes "\<not> word_at (next_rune rest)"
  shows "ends (seq [lit 0x6E, lit 0xE9, ROpt (lit 0x65), RBound]) (p, (0x6E, b) # (0xE9, c) # rest) = []"
proof -
  have e: "fold_case 0x65 = 0x45" by (simp add: fold_case_def fold_rune_def)
  have "ends (lit 0x65) (q, rest) = []" for q
    using assms fold_case_e by (auto simp: lit_def e word_at_def next_rune_def split: list.split)
  moreover have "\<not> word_at (Some 0xE9)" by (simp add: word_at_def is_word_rune_def)
  moreover have "ends (lit x) (q, (x, b) # ss) = [(Some x, ss)]" for q x b ss by (simp add: lit_def)
  ultimately show ?thesis using assms by simp
qed

text \<open>
  A man's date of birth is never recognised. The French context keyword is written to match
  both forms of the participle, but its word boundary is an ASCII one: after the masculine form,
  which ends in an accented letter, no pattern place matches unless a letter or digit follows
  directly. So the sentence with the feminine form is redacted and the same sentence with the
  masculine form goes through unchanged, for every redactor.
\<close>

theorem masculine_birth_date_is_not_redacted:
  "(\<forall>p b c rest. word_at (next_rune rest) \<or>
      ends (seq [lit 0x6E, lit 0xE9, ROpt (lit 0x65), RBound]) (p, (0x6E, b) # (0xE9, c) # rest) = []) \<and>
   Redact U vault born_masculine v = (Inr (born_masculine, []), v) \<and>
   Redact U None born_feminine v = (Inr (''n'' @ e_acute @ ''e le [redacted:dob]'', [span 8 18 KindDOB]), v)"
proof (intro conjI)
  show "\<forall>p b c rest. word_at (next_rune rest) \<or>
      ends (seq [lit 0x6E, lit 0xE9, ROpt (lit 0x65), RBound]) (p, (0x6E, b) # (0xE9, c) # rest) = []"
    by (auto simp del: seq.simps ends.simps intro: masculine_no_match)
  have "Detect U born_masculine = []" "Detect U born_feminine = [span 8 18 KindDOB]"
    by (simp_all add: Detect_def raw_spans_def born_digit_runs born_postal born_dob) (simp add: span_def)
  then show "Redact U vault born_masculine v = (Inr (born_masculine, []), v)"
    "Redact U None born_feminine v = (Inr (''n'' @ e_acute @ ''e le [redacted:dob]'', [span 8 18 KindDOB]), v)"
    by (simp_all add: Redact_def span_def byte_slice_def born_feminine_def e_acute_def Mask_def)
qed

definition card_and_expiry :: string where "card_and_expiry = ''4111 1111 1111 1111 12 26''"

lemma card_segs:
  "segs card_and_expiry = map (\<lambda>c. (byte c, [c])) card_and_expiry"
  by (rule segs_ascii) (simp add: card_and_expiry_def ascii_evals)

lemma card_regex: "detectPostalCodes card_and_expiry = []" "detectDOB card_and_expiry = []"
  unfolding detectPostalCodes_def detectDOB_def FindAllStringIndex_def card_segs
  by (simp_all add: card_and_expiry_def postalRE_def dateRE_def regex_evals)

lemma card_digit_runs: "detectDigitRuns U card_and_expiry = []"
proof -
  have t: "tokenize U card_and_expiry =
     [\<lparr>tk_start = 0, tk_end = 4, tk_text = ''4111''\<rparr>, \<lparr>tk_start = 5, tk_end = 9, tk_text = ''1111''\<rparr>,
      \<lparr>tk_start = 10, tk_end = 14, tk_text = ''1111''\<rparr>, \<lparr>tk_start = 15, tk_end = 19, tk_text = ''1111''\<rparr>,
      \<lparr>tk_start = 20, tk_end = 22, tk_text = ''12''\<rparr>, \<lparr>tk_start = 23, tk_end = 25, tk_text = ''26''\<rparr>]"
    unfolding tokenize_def card_segs
    by (simp add: card_and_expiry_def is_letter_def is_digit_def byte_slice_def)
  have g: "digitsOf U ''4111'' = ''4111''" "digitsOf U ''1111'' = ''1111''" "digitsOf U ''12'' = ''12''" "digitsOf U ''26'' = ''26''"
    by (rule digitsOf_digits; simp add: digits_only_def)+
  have gap: "gapIsSeparator (byte_slice card_and_expiry 4 5)" "gapIsSeparator (byte_slice card_and_expiry 9 10)"
    "gapIsSeparator (byte_slice card_and_expiry 14 15)" "gapIsSeparator (byte_slice card_and_expiry 19 20)"
    "gapIsSeparator (byte_slice card_and_expiry 22 23)"
    by (simp_all add: gapIsSeparator_def byte_slice_def card_and_expiry_def runes_ascii ascii_evals)
  show ?thesis by (simp add: detectDigitRuns_def t g gap Let_def classify_def)
qed

text \<open>
  A card number followed by its expiry date goes through in the clear. The digit run does not
  stop at the sixteenth digit: with the four digits of the expiry it is twenty long, more than any
  card, so nothing is redacted, whereas the sixteen digits alone are masked.
\<close>

theorem card_with_expiry_is_not_redacted:
  "Redact U vault card_and_expiry v = (Inr (card_and_expiry, []), v) \<and>
   Redact U None ''4111111111111111'' v = (Inr (''[redacted:card]'', [span 0 16 KindCard]), v)"
proof
  show "Redact U vault card_and_expiry v = (Inr (card_and_expiry, []), v)"
    by (simp add: Redact_def Detect_def raw_spans_def card_digit_runs card_regex)
  have d: "digits_only ''4111111111111111''" by (simp add: digits_only_def)
  have c: "classify ''4111111111111111'' = Some KindCard" by (simp add: classify_def luhnValid_def Let_def)
  have n: "Redact U None s v = (Inr (Mask KindCard, [span 0 (length s) KindCard]), v)"
    if "digits_only s" "s \<noteq> []" "classify s = Some KindCard" for s
    using digits_redacted [OF that(1,2)] that(3) by simp
  from n [OF d _ c] show "Redact U None ''4111111111111111'' v = (Inr (''[redacted:card]'', [span 0 16 KindCard]), v)"
    by (simp add: Mask_def eval_nat_numeral)
qed

end
