(* ===== verification/Telnyx_Client.thy ===== *)
theory Telnyx_Client
  imports Go_Json
begin

text \<open>
  \<open>internal/telnyx/client.go\<close>: call control over the HTTP API of the carrier. The HTTP client is a function of the
  request: a transport error, or a status with the beginning of the body. A body is its JSON tree.
\<close>

definition DefaultBaseURL :: string where "DefaultBaseURL = ''https://api.telnyx.com/v2''"

record http_request =
  hr_method :: string
  hr_url :: string
  hr_headers :: "(string \<times> string) list"
  hr_body :: json

type_synonym http_client = "http_request \<Rightarrow> (nat \<times> string) res"

record telnyx_client =
  tc_base_url :: string
  tc_api_key :: string

datatype client_option = WithBaseURL string

fun apply_option :: "client_option \<Rightarrow> telnyx_client \<Rightarrow> telnyx_client" where
  "apply_option (WithBaseURL u) c = c\<lparr>tc_base_url := u\<rparr>"

definition NewClient :: "string \<Rightarrow> client_option list \<Rightarrow> telnyx_client" where
  "NewClient api_key opts = fold apply_option opts \<lparr>tc_base_url = DefaultBaseURL, tc_api_key = api_key\<rparr>"

definition action_url :: "telnyx_client \<Rightarrow> string \<Rightarrow> string \<Rightarrow> string" where
  "action_url c call_id name = tc_base_url c @ ''/calls/'' @ call_id @ ''/actions/'' @ name"

definition action_request :: "telnyx_client \<Rightarrow> string \<Rightarrow> string \<Rightarrow> json \<Rightarrow> http_request" where
  "action_request c call_id name body =
     \<lparr>hr_method = ''POST'', hr_url = action_url c call_id name,
      hr_headers = [(''Authorization'', ''Bearer '' @ tc_api_key c), (''Content-Type'', ''application/json'')],
      hr_body = body\<rparr>"

text \<open>The request that was sent and the error that is reported.\<close>

definition action :: "http_client \<Rightarrow> telnyx_client \<Rightarrow> string \<Rightarrow> string \<Rightarrow> json \<Rightarrow> gerr option \<times> http_request" where
  "action http c call_id name body =
     (let req = action_request c call_id name body in
      case http req of
        Inl e \<Rightarrow> (Some (Wrap ''telnyx: %s %s: %w'' [FS name, FS call_id] e), req)
      | Inr (status, msg) \<Rightarrow>
          if 300 \<le> status
          then (Some (Errf ''telnyx: %s %s: status %d: %s'' [FS name, FS call_id, FI (int status), FS (take 1024 msg)]), req)
          else (None, req))"

datatype verb =
    Answer
  | Hangup
  | Transfer string
  | StartRecording
  | Playback string
  | FlushPlayback
  | SendDTMF string

fun verb_name :: "verb \<Rightarrow> string" where
  "verb_name Answer = ''answer''"
| "verb_name Hangup = ''hangup''"
| "verb_name (Transfer to) = ''transfer''"
| "verb_name StartRecording = ''record_start''"
| "verb_name (Playback u) = ''playback_start''"
| "verb_name FlushPlayback = ''playback_stop''"
| "verb_name (SendDTMF d) = ''send_dtmf''"

fun verb_body :: "verb \<Rightarrow> json" where
  "verb_body Answer = JObj []"
| "verb_body Hangup = JObj []"
| "verb_body (Transfer to) = JObj [(''to'', JStr to)]"
| "verb_body StartRecording = JObj [(''format'', JStr ''mp3''), (''channels'', JStr ''dual'')]"
| "verb_body (Playback u) = JObj [(''audio_url'', JStr u)]"
| "verb_body FlushPlayback = JObj [(''stop'', JStr ''all'')]"
| "verb_body (SendDTMF d) = JObj [(''digits'', JStr d)]"

definition command :: "http_client \<Rightarrow> telnyx_client \<Rightarrow> string \<Rightarrow> verb \<Rightarrow> gerr option \<times> http_request" where
  "command http c call_id v = action http c call_id (verb_name v) (verb_body v)"

section \<open>Properties\<close>

lemma slash_free_split:
  assumes "CHR ''/'' \<notin> set a" and "CHR ''/'' \<notin> set b" and "a @ CHR ''/'' # s = b @ CHR ''/'' # t"
  shows "a = b \<and> s = t"
  using assms
proof (induction a arbitrary: b)
  case Nil
  then show ?case by (cases b) auto
next
  case (Cons x a)
  then show ?case by (cases b) auto
qed

text \<open>
  The commands of a client are told apart by what they send: for identifiers without a slash, two
  equal requests are the same command for the same call. A command fails exactly when the
  transport fails or the status is 300 or above.
\<close>

theorem requests_identify_commands:
  assumes "CHR ''/'' \<notin> set i" and "CHR ''/'' \<notin> set j"
    and "snd (command http c i v) = snd (command http' c j w)"
  shows "i = j \<and> v = w"
proof -
  have snd: "snd (command h c k u) = action_request c k (verb_name u) (verb_body u)" for h k u
    by (auto simp: command_def action_def Let_def split: sum.split)
  from assms(3) have u: "i @ ''/actions/'' @ verb_name v = j @ ''/actions/'' @ verb_name w"
    and b: "verb_body v = verb_body w"
    by (auto simp: snd action_request_def action_url_def)
  from slash_free_split [OF assms(1,2), of "''actions/'' @ verb_name v" "''actions/'' @ verb_name w"] u
  have "i = j" "verb_name v = verb_name w" by auto
  with b show ?thesis by (cases v; cases w) auto
qed

theorem requests_identify_commands_witness:
  "snd (command (\<lambda>_. Inr (200, [])) (NewClient ''k'' []) ''a'' (SendDTMF ''1'')) \<noteq>
   snd (command (\<lambda>_. Inr (200, [])) (NewClient ''k'' []) ''a'' (SendDTMF ''2''))"
  using requests_identify_commands [of "''a''" "''a''" "\<lambda>_. Inr (200, [])" "NewClient ''k'' []" "SendDTMF ''1''"
      "\<lambda>_. Inr (200, [])" "SendDTMF ''2''"] by auto

lemma command_fails_iff:
  "fst (command http c i v) = None \<longleftrightarrow>
     (\<exists>status msg. http (action_request c i (verb_name v) (verb_body v)) = Inr (status, msg) \<and> status < 300)"
  by (auto simp: command_def action_def Let_def not_le split: sum.split)

text \<open>
  The identifier goes into the path as it is. One with a slash, which the carrier's webhook (or whoever
  can post one) chooses, turns the answer of a call into the hangup of another.
\<close>

theorem identifier_redirects_the_command:
  "hr_url (snd (command http c (victim @ ''/actions/hangup?'') Answer)) =
     hr_url (snd (command http c victim Hangup)) @ ''?/actions/answer''"
  unfolding command_def action_def Let_def
  by (simp split: sum.split add: action_request_def action_url_def)

end
