(* ===== verification/Carriers.thy ===== *)
theory Carriers
  imports Telnyx_Client Notify
begin

text \<open>
  The carriers behind the notifier: the SMS client of \<open>internal/notify/telnyx\<close>, the e-mail client of
  \<open>internal/notify/ses\<close>, and the in-memory senders and the latency recorder of \<open>internal/notify/fake.go\<close> and
  \<open>metrics.go\<close>. The HTTP client and what \<open>http.NewRequestWithContext\<close> makes of a URL are parameters, the body of a
  request is its JSON tree. What the notifier relies on, that an error means that nothing was accepted and no error
  that exactly this message was, is the locale \<open>sender\<close>.
\<close>

section \<open>The contract of a sender\<close>

locale sender =
  fixes send :: "'m \<Rightarrow> 's \<Rightarrow> gerr option \<times> 's"
    and sent :: "'s \<Rightarrow> 'm list"
  assumes accepted: "send m s = (None, s') \<Longrightarrow> sent s' = sent s @ [m]"
    and refused: "send m s = (Some e, s') \<Longrightarrow> sent s' = sent s"
begin

text \<open>A message that is tried until it goes out is sent once.\<close>

fun retry :: "nat \<Rightarrow> 'm \<Rightarrow> 's \<Rightarrow> bool \<times> 's" where
  "retry 0 m s = (False, s)"
| "retry (Suc k) m s = (case send m s of (None, s') \<Rightarrow> (True, s') | (Some e, s') \<Rightarrow> retry k m s')"

lemma retry_once: "retry k m s = (b, s') \<Longrightarrow> sent s' = sent s @ (if b then [m] else [])"
proof (induction k arbitrary: s)
  case (Suc k)
  obtain r s1 where s1: "send m s = (r, s1)" by fastforce
  show ?case
  proof (cases r)
    case None
    with Suc.prems s1 accepted [of m s s1] show ?thesis by simp
  next
    case (Some e)
    with Suc.IH [of s1] Suc.prems s1 refused [of m s e s1] show ?thesis by simp
  qed
qed auto

end

section \<open>Telnyx SMS\<close>

definition smsBaseURL :: string where "smsBaseURL = ''https://api.telnyx.com''"

record sms_client =
  sc_api_key :: string
  sc_from :: string
  sc_base_url :: string
  sc_httpc :: http_client

type_synonym sms_option = "sms_client \<Rightarrow> sms_client"

definition sms_WithBaseURL :: "string \<Rightarrow> sms_option" where
  "sms_WithBaseURL base c = c\<lparr>sc_base_url := base\<rparr>"

definition sms_WithHTTPClient :: "http_client \<Rightarrow> sms_option" where
  "sms_WithHTTPClient httpc c = c\<lparr>sc_httpc := httpc\<rparr>"

text \<open>\<open>default_http\<close> is the client with the ten second timeout.\<close>

definition sms_New :: "http_client \<Rightarrow> string \<Rightarrow> string \<Rightarrow> sms_option list \<Rightarrow> sms_client" where
  "sms_New default_http api_key from opts =
     fold (\<lambda>opt c. opt c) opts \<lparr>sc_api_key = api_key, sc_from = from, sc_base_url = smsBaseURL, sc_httpc = default_http\<rparr>"

definition message_json :: "sms_client \<Rightarrow> sms \<Rightarrow> json" where
  "message_json c msg = JObj [(''from'', JStr (sc_from c)), (''to'', JStr (sms_to msg)), (''text'', JStr (sms_body msg))]"

definition sms_request :: "sms_client \<Rightarrow> sms \<Rightarrow> http_request" where
  "sms_request c msg =
     \<lparr>hr_method = ''POST'', hr_url = sc_base_url c @ ''/v2/messages'',
      hr_headers = [(''Authorization'', ''Bearer '' @ sc_api_key c), (''Content-Type'', ''application/json'')],
      hr_body = message_json c msg\<rparr>"

definition sms_Send :: "(string \<Rightarrow> gerr option) \<Rightarrow> sms_client \<Rightarrow> sms \<Rightarrow> gerr option" where
  "sms_Send bad_url c msg =
     (case bad_url (sc_base_url c @ ''/v2/messages'') of
        Some e \<Rightarrow> Some (Wrap ''telnyx: build request: %w'' [] e)
      | None \<Rightarrow>
          (case sc_httpc c (sms_request c msg) of
             Inl e \<Rightarrow> Some (Wrap ''telnyx: send SMS: %w'' [] e)
           | Inr (status, detail) \<Rightarrow>
               if status < 200 \<or> 300 \<le> status
               then Some (Errf ''telnyx: send SMS: status %d: %s'' [FI (int status), FS (take 1024 detail)])
               else None))"

section \<open>Amazon SES\<close>

definition DefaultRegion :: string where "DefaultRegion = ''ca-central-1''"

record ses_client =
  se_region :: string
  se_from :: string
  se_access_key :: string
  se_secret_key :: string
  se_base_url :: string
  se_httpc :: http_client

type_synonym ses_option = "ses_client \<Rightarrow> ses_client"

definition ses_WithBaseURL :: "string \<Rightarrow> ses_option" where
  "ses_WithBaseURL base c = c\<lparr>se_base_url := base\<rparr>"

definition ses_WithHTTPClient :: "http_client \<Rightarrow> ses_option" where
  "ses_WithHTTPClient httpc c = c\<lparr>se_httpc := httpc\<rparr>"

definition ses_WithRegion :: "string \<Rightarrow> ses_option" where
  "ses_WithRegion region c = c\<lparr>se_region := region\<rparr>"

definition region_url :: "string \<Rightarrow> string" where
  "region_url region = ''https://email.'' @ region @ ''.amazonaws.com''"

definition ses_New :: "http_client \<Rightarrow> string \<Rightarrow> string \<Rightarrow> string \<Rightarrow> ses_option list \<Rightarrow> ses_client" where
  "ses_New default_http from access_key secret_key opts =
     (let c = fold (\<lambda>opt c. opt c) opts
            \<lparr>se_region = DefaultRegion, se_from = from, se_access_key = access_key, se_secret_key = secret_key,
             se_base_url = [], se_httpc = default_http\<rparr>
      in if se_base_url c = [] then c\<lparr>se_base_url := region_url (se_region c)\<rparr> else c)"

record ses_data =
  da_data :: string

record ses_body_data =
  bd_text :: ses_data

record ses_simple_content =
  si_subject :: ses_data
  si_body :: ses_body_data

record ses_content =
  co_simple :: ses_simple_content

record ses_destination =
  de_to :: "string list"

record send_email_request =
  sr_from :: string
  sr_destination :: ses_destination
  sr_content :: ses_content

definition data_json :: "ses_data \<Rightarrow> json" where
  "data_json d = JObj [(''Data'', JStr (da_data d))]"

definition send_email_json :: "send_email_request \<Rightarrow> json" where
  "send_email_json r =
     JObj [(''FromEmailAddress'', JStr (sr_from r)),
           (''Destination'', JObj [(''ToAddresses'', JArr (map JStr (de_to (sr_destination r))))]),
           (''Content'', JObj [(''Simple'', JObj
              [(''Subject'', data_json (si_subject (co_simple (sr_content r)))),
               (''Body'', JObj [(''Text'', data_json (bd_text (si_body (co_simple (sr_content r)))))])])])]"

definition ses_request :: "ses_client \<Rightarrow> email \<Rightarrow> http_request" where
  "ses_request c msg =
     \<lparr>hr_method = ''POST'', hr_url = se_base_url c @ ''/v2/email/outbound-emails'',
      hr_headers = [(''Content-Type'', ''application/json''),
                    (''Authorization'', ''AWS4-HMAC-SHA256 Credential='' @ se_access_key c)],
      hr_body = send_email_json
        \<lparr>sr_from = se_from c, sr_destination = \<lparr>de_to = [em_to msg]\<rparr>,
         sr_content = \<lparr>co_simple = \<lparr>si_subject = \<lparr>da_data = em_subject msg\<rparr>,
                                      si_body = \<lparr>bd_text = \<lparr>da_data = em_body msg\<rparr>\<rparr>\<rparr>\<rparr>\<rparr>\<rparr>"

definition ses_Send :: "(string \<Rightarrow> gerr option) \<Rightarrow> ses_client \<Rightarrow> email \<Rightarrow> gerr option" where
  "ses_Send bad_url c msg =
     (case bad_url (se_base_url c @ ''/v2/email/outbound-emails'') of
        Some e \<Rightarrow> Some (Wrap ''ses: build request: %w'' [] e)
      | None \<Rightarrow>
          (case se_httpc c (ses_request c msg) of
             Inl e \<Rightarrow> Some (Wrap ''ses: send e-mail: %w'' [] e)
           | Inr (status, detail) \<Rightarrow>
               if status < 200 \<or> 300 \<le> status
               then Some (Errf ''ses: send e-mail: status %d: %s'' [FI (int status), FS (take 1024 detail)])
               else None))"

section \<open>Senders in memory\<close>

record fake_sms =
  fs_err :: "gerr option"
  fs_sent :: "sms list"

definition FakeSMS_Send :: "sms \<Rightarrow> fake_sms \<Rightarrow> gerr option \<times> fake_sms" where
  "FakeSMS_Send msg f = (if fs_err f \<noteq> None then (fs_err f, f) else (None, f\<lparr>fs_sent := fs_sent f @ [msg]\<rparr>))"

definition FakeSMS_Sent :: "fake_sms \<Rightarrow> sms list" where
  "FakeSMS_Sent f = fs_sent f"

record fake_email =
  fm_err :: "gerr option"
  fm_sent :: "email list"

definition FakeEmail_Send :: "email \<Rightarrow> fake_email \<Rightarrow> gerr option \<times> fake_email" where
  "FakeEmail_Send msg f = (if fm_err f \<noteq> None then (fm_err f, f) else (None, f\<lparr>fm_sent := fm_sent f @ [msg]\<rparr>))"

definition FakeEmail_Sent :: "fake_email \<Rightarrow> email list" where
  "FakeEmail_Sent f = fm_sent f"

record latency_recorder =
  lr_samples :: "int list"

definition LatencyRecorder_Observe :: "int \<Rightarrow> latency_recorder \<Rightarrow> latency_recorder" where
  "LatencyRecorder_Observe d r = r\<lparr>lr_samples := lr_samples r @ [d]\<rparr>"

definition LatencyRecorder_Samples :: "latency_recorder \<Rightarrow> int list" where
  "LatencyRecorder_Samples r = lr_samples r"

definition NopMetrics_Observe :: "int \<Rightarrow> unit" where
  "NopMetrics_Observe d = ()"

interpretation fake_sms: sender FakeSMS_Send FakeSMS_Sent
  by unfold_locales (auto simp: FakeSMS_Send_def FakeSMS_Sent_def split: if_splits)

interpretation fake_email: sender FakeEmail_Send FakeEmail_Sent
  by unfold_locales (auto simp: FakeEmail_Send_def FakeEmail_Sent_def split: if_splits)

text \<open>The notifier's own step is such a sender, whatever the carrier is.\<close>

interpretation notifier_sms: sender "\<lambda>msg n. send_sms E msg n" nf_sms for E
  by unfold_locales (auto simp: send_sms_def split: option.splits)

section \<open>Properties\<close>

text \<open>
  The SMS client reports success exactly when the request could be built and the carrier answered it with a status
  of the two hundreds; the request it sends names the sender's number and holds the destination and the text of the
  message, so that different messages are different requests.
\<close>

theorem sms_accepted_iff_2xx:
  "(sms_Send bad_url c msg = None \<longleftrightarrow>
      bad_url (hr_url (sms_request c msg)) = None \<and>
      (\<exists>status detail. sc_httpc c (sms_request c msg) = Inr (status, detail) \<and> status div 100 = 2)) \<and>
   (sms_request c msg = sms_request c msg' \<longleftrightarrow> msg = msg')"
proof
  have two: "(status::nat) div 100 = 2 \<longleftrightarrow> \<not> (status < 200 \<or> 300 \<le> status)" for status by auto
  show "sms_Send bad_url c msg = None \<longleftrightarrow>
      bad_url (hr_url (sms_request c msg)) = None \<and>
      (\<exists>status detail. sc_httpc c (sms_request c msg) = Inr (status, detail) \<and> status div 100 = 2)"
    unfolding two by (auto simp: sms_Send_def sms_request_def split: option.splits sum.splits)
  show "sms_request c msg = sms_request c msg' \<longleftrightarrow> msg = msg'"
    by (cases msg; cases msg') (auto simp: sms_request_def message_json_def)
qed

lemma ses_accepted_iff_2xx:
  "(ses_Send bad_url c msg = None \<longleftrightarrow>
      bad_url (hr_url (ses_request c msg)) = None \<and>
      (\<exists>status detail. se_httpc c (ses_request c msg) = Inr (status, detail) \<and> status div 100 = 2)) \<and>
   (ses_request c msg = ses_request c msg' \<longleftrightarrow> msg = msg')"
proof
  have two: "(status::nat) div 100 = 2 \<longleftrightarrow> \<not> (status < 200 \<or> 300 \<le> status)" for status by auto
  show "ses_Send bad_url c msg = None \<longleftrightarrow>
      bad_url (hr_url (ses_request c msg)) = None \<and>
      (\<exists>status detail. se_httpc c (ses_request c msg) = Inr (status, detail) \<and> status div 100 = 2)"
    unfolding two by (auto simp: ses_Send_def ses_request_def split: option.splits sum.splits)
  show "ses_request c msg = ses_request c msg' \<longleftrightarrow> msg = msg'"
    by (cases msg; cases msg') (auto simp: ses_request_def send_email_json_def data_json_def)
qed

text \<open>
  Where the mail of a tenant goes is decided by the options alone: without an explicit endpoint it is the endpoint of
  the last region that was asked for, and of the Canadian region when none was. Nothing refuses another country.
\<close>

datatype ses_setting = Region string | Endpoint string | Http http_client

fun ses_setting_option :: "ses_setting \<Rightarrow> ses_option" where
  "ses_setting_option (Region r) = ses_WithRegion r"
| "ses_setting_option (Endpoint u) = ses_WithBaseURL u"
| "ses_setting_option (Http h) = ses_WithHTTPClient h"

fun last_region :: "string \<Rightarrow> ses_setting list \<Rightarrow> string" where
  "last_region r [] = r"
| "last_region r (Region r' # os) = last_region r' os"
| "last_region r (_ # os) = last_region r os"

lemma settings_fold:
  "\<forall>u. Endpoint u \<notin> set os \<Longrightarrow>
   se_region (fold (\<lambda>opt c. opt c) (map ses_setting_option os) c) = last_region (se_region c) os \<and>
   se_base_url (fold (\<lambda>opt c. opt c) (map ses_setting_option os) c) = se_base_url c"
proof (induction os arbitrary: c)
  case (Cons x os)
  then show ?case
    by (cases x) (auto simp: ses_WithRegion_def ses_WithHTTPClient_def)
qed simp

theorem mail_goes_to_the_last_region:
  assumes "\<forall>u. Endpoint u \<notin> set os"
  shows "hr_url (ses_request (ses_New http from ak sk (map ses_setting_option os)) msg) =
     ''https://email.'' @ last_region DefaultRegion os @ ''.amazonaws.com/v2/email/outbound-emails''"
  using settings_fold [OF assms]
  by (simp add: ses_New_def ses_request_def region_url_def Let_def)

theorem mail_goes_to_the_last_region_witness:
  "hr_url (ses_request (ses_New (\<lambda>_. Inr (200, [])) ''a@b.c'' ''k'' ''s'' (map ses_setting_option [Region ''us-east-1'']))
      \<lparr>em_to = [], em_subject = [], em_body = []\<rparr>) = ''https://email.us-east-1.amazonaws.com/v2/email/outbound-emails'' \<and>
   hr_url (ses_request (ses_New (\<lambda>_. Inr (200, [])) ''a@b.c'' ''k'' ''s'' (map ses_setting_option []))
      \<lparr>em_to = [], em_subject = [], em_body = []\<rparr>) = ''https://email.ca-central-1.amazonaws.com/v2/email/outbound-emails''"
  using mail_goes_to_the_last_region [of "[Region ''us-east-1'']" "\<lambda>_. Inr (200, [])" "''a@b.c''" "''k''" "''s''"]
    mail_goes_to_the_last_region [of "[]" "\<lambda>_. Inr (200, [])" "''a@b.c''" "''k''" "''s''"]
  by (simp add: DefaultRegion_def)

text \<open>
  The secret key reaches no request: two clients that differ in it alone send the same. The header is the
  placeholder of the source, not a signature.
\<close>

lemma secret_key_is_unused:
  "ses_request (c\<lparr>se_secret_key := k\<rparr>) msg = ses_request c msg"
  by (simp add: ses_request_def)

end
