(* ===== verification/Notifier_Main.thy ===== *)
theory Notifier_Main
  imports Bus Carriers Gateway_Config
begin

text \<open>
  \<open>cmd/notifier/main.go\<close>: the notifier as a process. Its configuration, the choice of the senders, the start of
  \<open>run\<close> and the two goroutines that share the notifier: the subscriber of \<open>internal/event/natsbus.go\<close>, which runs
  \<open>HandleEvent\<close> on each delivery, and the weekly ticker. A run of the process is a list of events: deliveries, ticks,
  moves of the ticker's goroutine, the signal. Every event brings the clock and the answers of the carriers at that
  moment. The environment, the file, the outcomes of the NATS and telemetry calls and the HTTP transport are
  parameters.
\<close>

section \<open>Configuration\<close>

record notifier_config =
  nc_nats_url :: string
  nc_stream :: string
  nc_consumer :: string
  nc_subject_prefix :: string
  nc_telnyx_api_key :: string
  nc_telnyx_from :: string
  nc_ses_from :: string
  nc_aws_access_key :: string
  nc_aws_secret_key :: string
  nc_transcript_base_url :: string
  nc_tenants_file :: string
  nc_weekly_interval :: int

definition notifier_loadConfig :: "string \<Rightarrow> (string \<Rightarrow> int res) \<Rightarrow> (string \<Rightarrow> string) \<Rightarrow> notifier_config res" where
  "notifier_loadConfig default_url parse_duration getenv =
     (let cfg = \<lparr>nc_nats_url = envOr getenv ''NOTIFIER_NATS_URL'' default_url,
          nc_stream = envOr getenv ''NOTIFIER_STREAM'' ''FRONTDESK_EVENTS'',
          nc_consumer = envOr getenv ''NOTIFIER_CONSUMER'' ''notifier'',
          nc_subject_prefix = envOr getenv ''NOTIFIER_SUBJECT_PREFIX'' ''events'',
          nc_telnyx_api_key = getenv ''TELNYX_API_KEY'', nc_telnyx_from = getenv ''TELNYX_FROM'',
          nc_ses_from = getenv ''SES_FROM'', nc_aws_access_key = getenv ''AWS_ACCESS_KEY_ID'',
          nc_aws_secret_key = getenv ''AWS_SECRET_ACCESS_KEY'',
          nc_transcript_base_url = getenv ''NOTIFIER_TRANSCRIPT_BASE_URL'',
          nc_tenants_file = getenv ''NOTIFIER_TENANTS_FILE'', nc_weekly_interval = 0\<rparr>;
          interval = envOr getenv ''NOTIFIER_WEEKLY_CHECK_INTERVAL'' ''1h'' in
      case parse_duration interval of
        Inl e \<Rightarrow> Inl (Wrap ''parse NOTIFIER_WEEKLY_CHECK_INTERVAL %q: %w'' [FS interval] e)
      | Inr d \<Rightarrow> Inr (cfg\<lparr>nc_weekly_interval := d\<rparr>))"

section \<open>Tenants file\<close>

definition tenant_info_fields :: "tenant_info fields" where
  "tenant_info_fields =
     [fld_string ''name'' ti_name (\<lambda>v. ti_name_update (\<lambda>_. v)),
      fld_string ''ownerPhone'' ti_owner_phone (\<lambda>v. ti_owner_phone_update (\<lambda>_. v)),
      fld_string ''ownerEmail'' ti_owner_email (\<lambda>v. ti_owner_email_update (\<lambda>_. v)),
      fld_string ''locale'' ti_locale (\<lambda>v. ti_locale_update (\<lambda>_. v)),
      fld_string ''timezone'' ti_timezone (\<lambda>v. ti_timezone_update (\<lambda>_. v)),
      fld_float ''avgJobValueCad'' ti_avg_job_value (\<lambda>v. ti_avg_job_value_update (\<lambda>_. v))]"

definition tenant_info0 :: tenant_info where
  "tenant_info0 = \<lparr>ti_name = [], ti_owner_phone = [], ti_owner_email = [], ti_locale = [], ti_timezone = [], ti_avg_job_value = 0\<rparr>"

text \<open>The members of the map, each decoded from the zero value.\<close>

fun decode_tenants :: "(string \<times> json) list \<Rightarrow> (string \<times> tenant_info) list res" where
  "decode_tenants [] = Inr []"
| "decode_tenants ((i, v) # ms) =
     (case dec_struct tenant_info_fields v tenant_info0 of
        Inl e \<Rightarrow> Inl e
      | Inr info \<Rightarrow> map_sum id (\<lambda>rest. (i, info) # rest) (decode_tenants ms))"

fun unmarshal_tenants :: "json option \<Rightarrow> (string \<times> tenant_info) list res" where
  "unmarshal_tenants None = Inl json_syntax_error"
| "unmarshal_tenants (Some JNull) = Inr []"
| "unmarshal_tenants (Some (JObj ms)) = decode_tenants ms"
| "unmarshal_tenants (Some _) = Inl json_type_error"

fun put_tenants :: "(string \<times> tenant_info) list \<Rightarrow> directory \<Rightarrow> directory" where
  "put_tenants [] d = d"
| "put_tenants ((i, info) # ts) d = put_tenants ts (dir_Put i info d)"

definition loadTenants :: "(string \<Rightarrow> json option res) \<Rightarrow> string \<Rightarrow> directory res" where
  "loadTenants read_file path =
     (if path = [] then Inr []
      else case read_file path of
        Inl e \<Rightarrow> Inl (Wrap ''read tenants file: %w'' [] e)
      | Inr raw \<Rightarrow>
          (case unmarshal_tenants raw of
             Inl e \<Rightarrow> Inl (Wrap ''parse tenants file %s: %w'' [FS path] e)
           | Inr tenants \<Rightarrow> Inr (put_tenants tenants [])))"

section \<open>Senders\<close>

definition logSMS_Send :: "sms \<Rightarrow> gerr option" where "logSMS_Send msg = None"
definition logEmail_Send :: "email \<Rightarrow> gerr option" where "logEmail_Send msg = None"

record transport =
  tr_http :: http_client
  tr_bad_url :: "string \<Rightarrow> gerr option"

definition newSMSSender :: "transport \<Rightarrow> notifier_config \<Rightarrow> sms \<Rightarrow> gerr option" where
  "newSMSSender tr cfg =
     (if nc_telnyx_api_key cfg \<noteq> [] \<and> nc_telnyx_from cfg \<noteq> []
      then sms_Send (tr_bad_url tr) (sms_New (tr_http tr) (nc_telnyx_api_key cfg) (nc_telnyx_from cfg) [])
      else logSMS_Send)"

definition newEmailSender :: "transport \<Rightarrow> notifier_config \<Rightarrow> email \<Rightarrow> gerr option" where
  "newEmailSender tr cfg =
     (if nc_ses_from cfg \<noteq> [] \<and> nc_aws_access_key cfg \<noteq> []
      then ses_Send (tr_bad_url tr) (ses_New (tr_http tr) (nc_ses_from cfg) (nc_aws_access_key cfg) (nc_aws_secret_key cfg) [])
      else logEmail_Send)"

datatype sla_line = Metric string int | Warning string int

definition sla_observe :: "int \<Rightarrow> sla_line list" where
  "sla_observe d =
     Metric ''sms_owner_latency_seconds'' d #
     (if 60 * 10 ^ 9 < d then [Warning ''SLA breach: owner SMS over 60s'' d] else [])"

section \<open>The two goroutines\<close>

text \<open>
  The ticker waits, sends the report of the next tenant, deletes the counters of the tenant whose mail went out, or
  has returned. The subscriber consumes, or has returned with an error.
\<close>

datatype ticker = Waiting | Sending "string list" "gerr list" | Resetting string "string list" "gerr list" | Gone

datatype subscriber = Consuming | Returned gerr

record proc =
  pr_sub :: subscriber
  pr_seen :: seq_dedup
  pr_notifier :: "string set notifier"
  pr_ticker :: ticker
  pr_stopped :: bool
  pr_replies :: "reply list"
  pr_logged :: "gerr list"

record conditions =
  cd_now :: gotime
  cd_sms :: "sms list \<Rightarrow> sms \<Rightarrow> gerr option"
  cd_email :: "email list \<Rightarrow> email \<Rightarrow> gerr option"

definition env_at :: "string set notify_env \<Rightarrow> conditions \<Rightarrow> string set notify_env" where
  "env_at E c = E\<lparr>ne_dedup := MemoryDedup, ne_now := cd_now c, ne_sms := cd_sms c, ne_email := cd_email c\<rparr>"

datatype proc_event = Message "envelope res" conditions | Tick | Move conditions | Signal | Leave

definition consume_message :: "string set notify_env \<Rightarrow> envelope res \<Rightarrow> proc \<Rightarrow> proc" where
  "consume_message E body p =
     (case on_msg (HandleEvent E) body (pr_seen p) (pr_notifier p) of
        (r, d, n) \<Rightarrow> p\<lparr>pr_seen := d, pr_notifier := n, pr_replies := pr_replies p @ [r]\<rparr>)"

definition start_report :: "string set notify_env \<Rightarrow> proc \<Rightarrow> proc" where
  "start_report E p =
     (case dir_TenantIDs (ne_tenants E) of
        Inl e \<Rightarrow> p\<lparr>pr_logged := pr_logged p @ [Wrap ''list tenants: %w'' [] e]\<rparr>
      | Inr ids \<Rightarrow> p\<lparr>pr_ticker := Sending ids []\<rparr>)"

fun move_ticker :: "string set notify_env \<Rightarrow> ticker \<Rightarrow> proc \<Rightarrow> proc" where
  "move_ticker E (Sending [] errs) p =
     p\<lparr>pr_ticker := Waiting, pr_logged := pr_logged p @ (if errs = [] then [] else [Joined errs])\<rparr>"
| "move_ticker E (Sending (i # ids) errs) p =
     (case report_send E i (pr_notifier p) of
        (Inl e, n) \<Rightarrow> p\<lparr>pr_notifier := n, pr_ticker := Sending ids (errs @ [Wrap ''weekly report tenant %s: %w'' [FS i] e])\<rparr>
      | (Inr True, n) \<Rightarrow> p\<lparr>pr_notifier := n, pr_ticker := Resetting i ids errs\<rparr>
      | (Inr False, n) \<Rightarrow> p\<lparr>pr_notifier := n, pr_ticker := Sending ids errs\<rparr>)"
| "move_ticker E (Resetting i ids errs) p =
     p\<lparr>pr_notifier := report_reset i (pr_notifier p), pr_ticker := Sending ids errs\<rparr>"
| "move_ticker E t p = p"

text \<open>
  One event. Deliveries reach the handler while the subscriber consumes; the signal cancels the context, on which the
  subscriber returns and, when its select finds no work, the ticker too.
\<close>

fun proc_step :: "string set notify_env \<Rightarrow> proc_event \<Rightarrow> proc \<Rightarrow> proc" where
  "proc_step E (Message body c) p =
     (if pr_sub p = Consuming then consume_message (env_at E c) body p else p)"
| "proc_step E Tick p = (if pr_ticker p = Waiting then start_report E p else p)"
| "proc_step E (Move c) p = move_ticker (env_at E c) (pr_ticker p) p"
| "proc_step E Signal p =
     p\<lparr>pr_stopped := True,
       pr_sub := (case pr_sub p of Consuming \<Rightarrow> Returned (Sentinel CtxCanceled) | Returned e \<Rightarrow> Returned e)\<rparr>"
| "proc_step E Leave p = (if pr_stopped p \<and> pr_ticker p = Waiting then p\<lparr>pr_ticker := Gone\<rparr> else p)"

definition proc_run :: "string set notify_env \<Rightarrow> proc_event list \<Rightarrow> proc \<Rightarrow> proc" where
  "proc_run E evs p = fold (proc_step E) evs p"

text \<open>The start of the subscription; \<open>consumed\<close> is what \<open>Consume\<close> answers.\<close>

definition proc0 :: "gerr option \<Rightarrow> string set notifier \<Rightarrow> proc" where
  "proc0 consumed n =
     \<lparr>pr_sub = (case consumed of None \<Rightarrow> Consuming | Some e \<Rightarrow> Returned (Wrap ''consume: %w'' [] e)),
      pr_seen = Map.empty, pr_notifier = n, pr_ticker = Waiting, pr_stopped = False, pr_replies = [], pr_logged = []\<rparr>"

text \<open>What \<open>run\<close> returns, once it does: the ticker is joined first.\<close>

definition run_return :: "proc \<Rightarrow> gerr option option" where
  "run_return p =
     (case (pr_ticker p, pr_sub p) of
        (Gone, Returned e) \<Rightarrow> Some (if is_err CtxCanceled e then None else Some (Wrap ''subscribe: %w'' [] e))
      | _ \<Rightarrow> None)"

section \<open>Start\<close>

record 'd deps =
  dp_sms :: "(sms list \<Rightarrow> sms \<Rightarrow> gerr option) option"
  dp_email :: "(email list \<Rightarrow> email \<Rightarrow> gerr option) option"
  dp_dedup :: "'d deduper option"
  dp_tenants :: "directory option"

text \<open>\<open>notify.New\<close>: the fixed part of the notifier; its buffers start empty.\<close>

definition notify_New :: "'d deps \<Rightarrow> time_lib \<Rightarrow> gotime \<Rightarrow> string \<Rightarrow> 'd notify_env res" where
  "notify_New deps T now transcript_base =
     (case dp_sms deps of
        None \<Rightarrow> Inl (Errf ''notify: Deps.SMS is required'' [])
      | Some send_text \<Rightarrow>
          (case dp_email deps of
             None \<Rightarrow> Inl (Errf ''notify: Deps.Email is required'' [])
           | Some send_mail \<Rightarrow>
               (case dp_dedup deps of
                  None \<Rightarrow> Inl (Errf ''notify: Deps.Dedup is required'' [])
                | Some dd \<Rightarrow>
                    (case dp_tenants deps of
                       None \<Rightarrow> Inl (Errf ''notify: Deps.Tenants is required'' [])
                     | Some dir \<Rightarrow> Inr \<lparr>ne_dedup = dd, ne_sms = send_text, ne_email = send_mail, ne_tenants = dir,
                                       ne_time = T, ne_now = now, ne_transcript_base = transcript_base\<rparr>))))"

definition notifier_init :: "string set notifier" where
  "notifier_init = \<lparr>nf_pending = (\<lambda>_. []), nf_weekly = (\<lambda>_. weekly_stats0), nf_dedup = {}, nf_sms = [], nf_email = [], nf_latency = []\<rparr>"

record infra =
  in_telemetry :: "gerr option"
  in_metrics :: "gerr option"
  in_connect :: "string \<Rightarrow> gerr option"
  in_jetstream :: "gerr option"
  in_stream :: "string \<Rightarrow> string \<Rightarrow> gerr option"
  in_consumer :: "string \<Rightarrow> string \<Rightarrow> gerr option"
  in_consume :: "gerr option"

datatype boot =
    Failed gerr
  | Panicked                                          \<comment> \<open>\<open>NewTicker\<close> on an interval that is not positive\<close>
  | Started string "string set notify_env" proc      \<comment> \<open>the filter subject of the consumer\<close>

definition start_threads :: "notifier_config \<Rightarrow> gerr option \<Rightarrow> string set notify_env \<Rightarrow> boot" where
  "start_threads cfg consumed E =
     (if nc_weekly_interval cfg \<le> 0 then Panicked
      else Started (nc_subject_prefix cfg @ ''.>'') E (proc0 consumed notifier_init))"

definition connect_bus :: "infra \<Rightarrow> notifier_config \<Rightarrow> string set notify_env \<Rightarrow> boot" where
  "connect_bus env cfg E =
     (case in_connect env (nc_nats_url cfg) of
        Some e \<Rightarrow> Failed (Wrap ''connect to NATS %s: %w'' [FS (nc_nats_url cfg)] e)
      | None \<Rightarrow>
          (case in_jetstream env of
             Some e \<Rightarrow> Failed (Wrap ''open JetStream: %w'' [] e)
           | None \<Rightarrow>
               (case in_stream env (nc_stream cfg) (nc_subject_prefix cfg @ ''.>'') of
                  Some e \<Rightarrow> Failed (Wrap ''ensure stream %s: %w'' [FS (nc_stream cfg)] e)
                | None \<Rightarrow>
                    (case in_consumer env (nc_consumer cfg) (nc_subject_prefix cfg @ ''.>'') of
                       Some e \<Rightarrow> Failed (Wrap ''ensure consumer %s: %w'' [FS (nc_consumer cfg)] e)
                     | None \<Rightarrow> start_threads cfg (in_consume env) E))))"

definition run_notifier ::
  "string \<Rightarrow> (string \<Rightarrow> int res) \<Rightarrow> (string \<Rightarrow> json option res) \<Rightarrow> transport \<Rightarrow> time_lib \<Rightarrow> gotime \<Rightarrow> infra \<Rightarrow> (string \<Rightarrow> string) \<Rightarrow> boot" where
  "run_notifier default_url parse_duration read_file tr T now env getenv =
     (case notifier_loadConfig default_url parse_duration getenv of
        Inl e \<Rightarrow> Failed e
      | Inr cfg \<Rightarrow>
          (case loadTenants read_file (nc_tenants_file cfg) of
             Inl e \<Rightarrow> Failed e
           | Inr tenants \<Rightarrow>
               (case in_telemetry env of
                  Some e \<Rightarrow> Failed (Wrap ''telemetry setup: %w'' [] e)
                | None \<Rightarrow>
                    (case in_metrics env of
                       Some e \<Rightarrow> Failed (Wrap ''telemetry metrics: %w'' [] e)
                     | None \<Rightarrow>
                         (case notify_New \<lparr>dp_sms = Some (\<lambda>_. newSMSSender tr cfg), dp_email = Some (\<lambda>_. newEmailSender tr cfg),
                                          dp_dedup = Some MemoryDedup, dp_tenants = Some tenants\<rparr>
                                 T now (nc_transcript_base_url cfg) of
                            Inl e \<Rightarrow> Failed e
                          | Inr E \<Rightarrow> connect_bus env cfg E)))))"

end
