(* ===== verification/Notifier_Props.thy ===== *)
theory Notifier_Props
  imports Notifier_Main
begin

text \<open>
  Properties of the notifier process over whole runs: how many messages can go out, what becomes of a message whose
  handler fails, the ticker's goroutine against \<open>SendWeeklyReports\<close>, the shutdown, and the start.
\<close>

section \<open>Messages are paid with keys\<close>

text \<open>Between two states every message above \<open>a\<close> is accounted for by a key of \<open>K\<close> that was not there before.\<close>

definition covered :: "string set \<Rightarrow> nat \<Rightarrow> string set \<Rightarrow> nat \<Rightarrow> string set \<Rightarrow> bool" where
  "covered K a D b D' \<longleftrightarrow> D \<subseteq> D' \<and> b + card (K \<inter> D) \<le> a + card (K \<inter> D')"

lemma covered_refl [simp]: "covered K a D a D"
  by (simp add: covered_def)

lemma covered_trans [trans]: "covered K a D b D' \<Longrightarrow> covered K b D' c D'' \<Longrightarrow> covered K a D c D''"
  by (auto simp: covered_def)

lemma covered_more: "finite K \<Longrightarrow> D \<subseteq> D' \<Longrightarrow> covered K a D a D'"
  by (auto simp: covered_def intro: card_mono)

lemma covered_insert: "finite K \<Longrightarrow> k \<in> K \<Longrightarrow> k \<notin> D \<Longrightarrow> covered K a D (Suc a) (insert k D)"
  by (auto simp: covered_def Int_insert_right)

lemma covered_bound: "finite K \<Longrightarrow> covered K 0 {} b D \<Longrightarrow> b \<le> card K"
  by (auto simp: covered_def intro: order_trans card_mono)

lemma mem_mark: "ne_dedup E = MemoryDedup \<Longrightarrow> mark E fmt k n = (None, n\<lparr>nf_dedup := insert k (nf_dedup n)\<rparr>)"
  by (simp add: mark_def MemoryDedup_def)

lemma mem_seen [simp]: "dd_Seen MemoryDedup k d = Inr (k \<in> d)"
  by (simp add: MemoryDedup_def)

lemma owner_covered:
  assumes "ne_dedup E = MemoryDedup" "finite K" "i @ dedupOwnerSuffix \<in> K" "sendOwnerSMS E i smy info n = (r, n')"
  shows "covered K (length (nf_sms n)) (nf_dedup n) (length (nf_sms n')) (nf_dedup n') \<and> nf_email n' = nf_email n \<and>
    nf_dedup n' \<subseteq> insert (i @ dedupOwnerSuffix) (nf_dedup n)"
  using assms(4) covered_insert [OF assms(2,3)]
  by (auto simp: sendOwnerSMS_def send_sms_def Let_def assms(1) mem_mark split: if_splits option.splits bool.splits)

lemma client_covered:
  assumes "ne_dedup E = MemoryDedup" "finite K" "i @ dedupClientSuffix \<in> K" "sendClientSMS E i smy info n = (r, n')"
  shows "covered K (length (nf_sms n)) (nf_dedup n) (length (nf_sms n')) (nf_dedup n') \<and> nf_email n' = nf_email n \<and>
    nf_dedup n' \<subseteq> insert (i @ dedupClientSuffix) (nf_dedup n)"
  using assms(4) covered_insert [OF assms(2,3)]
  by (auto simp: sendClientSMS_def send_sms_def Let_def assms(1) mem_mark split: if_splits option.splits bool.splits)

lemma weekly_covered:
  assumes "ne_dedup E = MemoryDedup" "recordWeekly E i smy n = (r, n')"
  shows "nf_sms n' = nf_sms n \<and> nf_dedup n \<subseteq> nf_dedup n' \<and> nf_email n' = nf_email n \<and>
    nf_dedup n' \<subseteq> insert (i @ dedupAggSuffix) (nf_dedup n)"
  using assms(2) by (auto simp: recordWeekly_def Let_def assms(1) mem_mark split: bool.splits)

definition call_keys :: "string \<Rightarrow> string set" where
  "call_keys i = {i @ dedupOwnerSuffix, i @ dedupClientSuffix}"

lemma notify_covered:
  assumes "ne_dedup E = MemoryDedup" "finite K" "call_keys i \<subseteq> K" "notifyCallEnded E ctx i smy n = (r, n')"
  shows "covered K (length (nf_sms n)) (nf_dedup n) (length (nf_sms n')) (nf_dedup n') \<and> nf_email n' = nf_email n \<and>
    nf_dedup n' \<subseteq> nf_dedup n \<union> insert (i @ dedupAggSuffix) (call_keys i)"
proof (cases "dir_Lookup ctx (ne_tenants E)")
  case (Inl e)
  with assms(4) show ?thesis by (auto simp: notifyCallEnded_def)
next
  case (Inr info)
  have k: "i @ dedupOwnerSuffix \<in> K" "i @ dedupClientSuffix \<in> K" using assms(3) by (simp_all add: call_keys_def)
  obtain r1 n1 where 1: "sendOwnerSMS E i smy info n = (r1, n1)" by fastforce
  obtain r2 n2 where 2: "sendClientSMS E i smy info n1 = (r2, n2)" by fastforce
  obtain r3 n3 where 3: "recordWeekly E i smy n2 = (r3, n3)" by fastforce
  note c1 = owner_covered [OF assms(1,2) k(1) 1]
  note c2 = client_covered [OF assms(1,2) k(2) 2]
  note c3 = weekly_covered [OF assms(1) 3]
  consider (a) "r1 \<noteq> None" "n' = n1" | (b) "r1 = None" "r2 \<noteq> None" "n' = n2" | (c) "r1 = None" "r2 = None" "n' = n3"
    using assms(4) 1 2 3 Inr by (auto simp: notifyCallEnded_def split: option.splits)
  then show ?thesis
  proof cases
    case a
    with c1 show ?thesis by (auto simp: call_keys_def)
  next
    case b
    have "covered K (length (nf_sms n)) (nf_dedup n) (length (nf_sms n2)) (nf_dedup n2)"
      using c1 c2 covered_trans by blast
    with b c1 c2 show ?thesis by (auto simp: call_keys_def)
  next
    case c
    have "covered K (length (nf_sms n2)) (nf_dedup n2) (length (nf_sms n3)) (nf_dedup n3)"
      using c3 covered_more [OF assms(2)] by simp
    with c1 c2 covered_trans have "covered K (length (nf_sms n)) (nf_dedup n) (length (nf_sms n3)) (nf_dedup n3)" by blast
    with c c1 c2 c3 show ?thesis by (auto simp: call_keys_def)
  qed
qed

lemma handle_covered:
  assumes "ne_dedup E = MemoryDedup" "finite K" "Type ev = TypeCallEnded \<Longrightarrow> call_keys (EventID ev) \<subseteq> K"
    and "HandleEvent E ev n = (r, n')"
  shows "covered K (length (nf_sms n)) (nf_dedup n) (length (nf_sms n')) (nf_dedup n') \<and> nf_email n' = nf_email n \<and>
    nf_dedup n' \<subseteq> nf_dedup n \<union> (if Type ev = TypeCallEnded then insert (EventID ev @ dedupAggSuffix) (call_keys (EventID ev)) else {})"
proof (cases "Type ev = TypeCallEnded")
  case False
  with assms(4) show ?thesis by (auto simp: HandleEvent_def Let_def)
next
  case True
  let ?m = "n\<lparr>nf_pending := (nf_pending n)(CallID ev := nf_pending n (CallID ev) @ [ev])\<rparr>"
  show ?thesis
  proof (cases "BuildSummary (ne_time E) (nf_pending ?m (CallID ev))")
    case (Inl e)
    with True assms(4) show ?thesis by (auto simp: HandleEvent_def Let_def)
  next
    case (Inr smy)
    obtain r1 n1 where 1: "notifyCallEnded E (WithTenant None (sm_tenant_id smy)) (EventID ev) smy ?m = (r1, n1)" by fastforce
    have "nf_sms n' = nf_sms n1 \<and> nf_dedup n' = nf_dedup n1 \<and> nf_email n' = nf_email n1"
      using assms(4) True Inr 1 by (auto simp: HandleEvent_def Let_def split: option.splits)
    with notify_covered [OF assms(1,2) assms(3) [OF True] 1] True show ?thesis by simp
  qed
qed

lemma report_covered:
  assumes "ne_dedup E = MemoryDedup" "report_send E i n = (r, n')"
  shows "nf_sms n' = nf_sms n \<and>
    (nf_email n' = nf_email n \<and> nf_dedup n' = nf_dedup n \<or>
     (\<exists>info msg. map_of (ne_tenants E) i = Some info \<and> weekly_key E info i \<notin> nf_dedup n \<and>
        nf_email n' = nf_email n @ [msg] \<and> nf_dedup n' = insert (weekly_key E info i) (nf_dedup n)))"
  using assms(2)
  by (auto simp: report_send_def Let_def assms(1) mem_mark dir_Lookup_def WithTenant_def FromContext_def split: sum.splits option.splits bool.splits if_splits)

lemma on_msg_cases:
  assumes "on_msg h body d n = (r, d', n')"
  shows "n' = n \<and> r \<noteq> Nak \<or>
    (\<exists>ev e. body = Inr ev \<and> h ev n = (e, n') \<and> Seq ev \<notin> seen_seqs d (CallID ev) \<and> (r = Nak \<longleftrightarrow> e \<noteq> None))"
proof (cases body)
  case (Inl e)
  with assms show ?thesis by (auto simp: on_msg_def)
next
  case (Inr ev)
  obtain dup d1 where d: "is_duplicate (CallID ev) (Seq ev) d = (dup, d1)" by fastforce
  have "dup \<longleftrightarrow> Seq ev \<in> seen_seqs d (CallID ev)" using duplicate_iff [of "CallID ev" "Seq ev" d] d by simp
  with assms Inr d show ?thesis
    by (cases dup) (auto simp: on_msg_def split: prod.splits option.splits)
qed

section \<open>Bounds\<close>

definition ended_ids :: "proc_event list \<Rightarrow> string set" where
  "ended_ids evs = {EventID ev | ev c. Message (Inr ev) c \<in> set evs \<and> Type ev = TypeCallEnded}"

text \<open>The keys of the weekly mails that the moves of a run can send.\<close>

definition weekly_keys :: "string set notify_env \<Rightarrow> proc_event list \<Rightarrow> string set" where
  "weekly_keys E evs = {weekly_key (env_at E c) info i | c info i. Move c \<in> set evs \<and> map_of (ne_tenants E) i = Some info}"

lemma env_at_dedup [simp]: "ne_dedup (env_at E c) = MemoryDedup" "ne_tenants (env_at E c) = ne_tenants E" "ne_time (env_at E c) = ne_time E"
  by (simp_all add: env_at_def)

abbreviation texts_sent :: "proc \<Rightarrow> nat" where "texts_sent p \<equiv> length (nf_sms (pr_notifier p))"
abbreviation mails_sent :: "proc \<Rightarrow> nat" where "mails_sent p \<equiv> length (nf_email (pr_notifier p))"
abbreviation keys :: "proc \<Rightarrow> string set" where "keys p \<equiv> nf_dedup (pr_notifier p)"

lemma consume_covered:
  assumes "finite K" "finite W" "\<And>ev. body = Inr ev \<Longrightarrow> Type ev = TypeCallEnded \<Longrightarrow> call_keys (EventID ev) \<subseteq> K"
  shows "covered K (texts_sent p) (keys p) (texts_sent (consume_message (env_at E c) body p)) (keys (consume_message (env_at E c) body p)) \<and>
    covered W (mails_sent p) (keys p) (mails_sent (consume_message (env_at E c) body p)) (keys (consume_message (env_at E c) body p))"
proof -
  obtain r d n' where m: "on_msg (HandleEvent (env_at E c)) body (pr_seen p) (pr_notifier p) = (r, d, n')"
    using prod_cases3 by blast
  have "covered K (texts_sent p) (keys p) (length (nf_sms n')) (nf_dedup n') \<and> nf_email n' = nf_email (pr_notifier p)"
    using on_msg_cases [OF m]
  proof (elim disjE exE conjE)
    fix ev e assume h: "body = Inr ev" "HandleEvent (env_at E c) ev (pr_notifier p) = (e, n')"
    from handle_covered [OF env_at_dedup(1) assms(1) assms(3) [OF h(1)] h(2)] show ?thesis by simp
  qed simp
  then show ?thesis using covered_more [OF assms(2)] by (simp add: consume_message_def m covered_def)
qed

lemma move_covered:
  assumes "finite K" "finite W" "\<And>info i. map_of (ne_tenants E) i = Some info \<Longrightarrow> weekly_key (env_at E c) info i \<in> W"
  shows "covered K (texts_sent p) (keys p) (texts_sent (move_ticker (env_at E c) t p)) (keys (move_ticker (env_at E c) t p)) \<and>
    covered W (mails_sent p) (keys p) (mails_sent (move_ticker (env_at E c) t p)) (keys (move_ticker (env_at E c) t p))"
proof (cases "(env_at E c, t, p)" rule: move_ticker.cases)
  case (2 E' i ids errs p')
  obtain r n' where r: "report_send (env_at E c) i (pr_notifier p) = (r, n')" by fastforce
  have "covered K (texts_sent p) (keys p) (length (nf_sms n')) (nf_dedup n') \<and>
      covered W (mails_sent p) (keys p) (length (nf_email n')) (nf_dedup n')"
    using report_covered [OF env_at_dedup(1) r]
  proof (elim conjE disjE exE)
    fix info msg assume "map_of (ne_tenants (env_at E c)) i = Some info" "weekly_key (env_at E c) info i \<notin> keys p"
      and n: "nf_sms n' = nf_sms (pr_notifier p)" "nf_email n' = nf_email (pr_notifier p) @ [msg]"
        "nf_dedup n' = insert (weekly_key (env_at E c) info i) (keys p)"
    then have "covered W (mails_sent p) (keys p) (Suc (mails_sent p)) (nf_dedup n')"
      using covered_insert [OF assms(2)] assms(3) by simp
    moreover have "covered K (texts_sent p) (keys p) (texts_sent p) (nf_dedup n')"
      using covered_more [OF assms(1), of "keys p" "nf_dedup n'"] n by auto
    ultimately show ?thesis using n by simp
  qed simp
  with 2 r show ?thesis by (auto split: sum.splits bool.splits)
qed (auto simp: report_reset_def)

lemma step_covered:
  assumes "finite K" "finite W"
    and "\<And>ev c. x = Message (Inr ev) c \<Longrightarrow> Type ev = TypeCallEnded \<Longrightarrow> call_keys (EventID ev) \<subseteq> K"
    and "\<And>c info i. x = Move c \<Longrightarrow> map_of (ne_tenants E) i = Some info \<Longrightarrow> weekly_key (env_at E c) info i \<in> W"
  shows "covered K (texts_sent p) (keys p) (texts_sent (proc_step E x p)) (keys (proc_step E x p)) \<and>
    covered W (mails_sent p) (keys p) (mails_sent (proc_step E x p)) (keys (proc_step E x p))"
proof (cases x)
  case (Message body c)
  with consume_covered [OF assms(1,2), where body = body and E = E and c = c and p = p] assms(3) show ?thesis by simp
next
  case (Move c)
  with move_covered [OF assms(1,2), where E = E and c = c] assms(4) show ?thesis by simp
qed (auto simp: start_report_def split: sum.split)

lemma run_covered:
  assumes "finite K" "finite W" "\<And>i. i \<in> ended_ids evs \<Longrightarrow> call_keys i \<subseteq> K" "weekly_keys E evs \<subseteq> W"
  shows "covered K (texts_sent p) (keys p) (texts_sent (proc_run E evs p)) (keys (proc_run E evs p)) \<and>
    covered W (mails_sent p) (keys p) (mails_sent (proc_run E evs p)) (keys (proc_run E evs p))"
  using assms(3,4)
proof (induction evs arbitrary: p)
  case (Cons x evs)
  have 1: "covered K (texts_sent p) (keys p) (texts_sent (proc_step E x p)) (keys (proc_step E x p)) \<and>
    covered W (mails_sent p) (keys p) (mails_sent (proc_step E x p)) (keys (proc_step E x p))"
  proof (rule step_covered [OF assms(1,2)])
    fix ev c assume "x = Message (Inr ev) c" "Type ev = TypeCallEnded"
    then have "EventID ev \<in> ended_ids (x # evs)" by (auto simp: ended_ids_def)
    then show "call_keys (EventID ev) \<subseteq> K" by (rule Cons.prems(1))
  next
    fix c info i assume "x = Move c" "map_of (ne_tenants E) i = Some info"
    then have "weekly_key (env_at E c) info i \<in> weekly_keys E (x # evs)" by (auto simp: weekly_keys_def)
    then show "weekly_key (env_at E c) info i \<in> W" using Cons.prems(2) by blast
  qed
  have "\<And>i. i \<in> ended_ids evs \<Longrightarrow> call_keys i \<subseteq> K"
    using Cons.prems(1) by (fastforce simp: ended_ids_def)
  moreover have "weekly_keys E evs \<subseteq> W" using Cons.prems(2) by (fastforce simp: weekly_keys_def)
  ultimately show ?case using Cons.IH [of "proc_step E x p"] 1 covered_trans by (simp add: proc_run_def) blast
qed (simp add: proc_run_def)

lemma finite_ended_ids: "finite (ended_ids evs)"
proof (rule finite_subset)
  show "ended_ids evs \<subseteq> (\<lambda>x. case x of Message (Inr ev) c \<Rightarrow> EventID ev | _ \<Rightarrow> []) ` set evs"
    by (force simp: ended_ids_def image_iff)
qed simp

lemma finite_weekly_keys: "finite (weekly_keys E evs)"
proof (rule finite_subset)
  show "weekly_keys E evs \<subseteq> (\<lambda>(x, i). case x of Move c \<Rightarrow> weekly_key (env_at E c) (the (map_of (ne_tenants E) i)) i | _ \<Rightarrow> []) `
      (set evs \<times> dom (map_of (ne_tenants E)))"
    by (force simp: weekly_keys_def image_iff)
qed (simp add: finite_dom_map_of)


section \<open>A failed notification\<close>

lemma suffixes_differ:
  "i @ dedupOwnerSuffix = j @ dedupOwnerSuffix \<longleftrightarrow> i = j" "i @ dedupOwnerSuffix \<noteq> j @ dedupClientSuffix"
  "i @ dedupOwnerSuffix \<noteq> j @ dedupAggSuffix"
proof -
  have l: "last (k @ dedupOwnerSuffix) = CHR ''r''" "last (k @ dedupClientSuffix) = CHR ''t''"
    "last (k @ dedupAggSuffix) = CHR ''g''" for k
    by (simp_all add: dedupOwnerSuffix_def dedupClientSuffix_def dedupAggSuffix_def)
  show "i @ dedupOwnerSuffix = j @ dedupOwnerSuffix \<longleftrightarrow> i = j" by simp
  show "i @ dedupOwnerSuffix \<noteq> j @ dedupClientSuffix"
  proof
    assume "i @ dedupOwnerSuffix = j @ dedupClientSuffix"
    then have "last (i @ dedupOwnerSuffix) = last (j @ dedupClientSuffix)" by simp
    then show False by (simp add: l)
  qed
  show "i @ dedupOwnerSuffix \<noteq> j @ dedupAggSuffix"
  proof
    assume "i @ dedupOwnerSuffix = j @ dedupAggSuffix"
    then have "last (i @ dedupOwnerSuffix) = last (j @ dedupAggSuffix)" by simp
    then show False by (simp add: l)
  qed
qed

text \<open>The owner was not told of the end of the call, and its sequence number is marked as seen.\<close>

definition untold :: "envelope \<Rightarrow> proc \<Rightarrow> bool" where
  "untold ev p \<longleftrightarrow> Seq ev \<in> seen_seqs (pr_seen p) (CallID ev) \<and> EventID ev @ dedupOwnerSuffix \<notin> keys p"

text \<open>Another delivery of a run: of this event itself, or of an event with another identifier that does not end the call.\<close>

definition other_or_same :: "envelope \<Rightarrow> envelope \<Rightarrow> bool" where
  "other_or_same ev ev' \<longleftrightarrow>
     CallID ev' = CallID ev \<and> Seq ev' = Seq ev \<or>
     EventID ev' \<noteq> EventID ev \<and> (Type ev' = TypeCallEnded \<longrightarrow> CallID ev' \<noteq> CallID ev)"

lemma on_msg_seen:
  assumes "on_msg h body d n = (r, d', n')" "Seq ev \<in> seen_seqs d (CallID ev)"
    and "\<And>ev'. body = Inr ev' \<Longrightarrow> other_or_same ev ev'"
  shows "Seq ev \<in> seen_seqs d' (CallID ev)"
proof (cases body)
  case (Inl e)
  with assms(1,2) show ?thesis by (simp add: on_msg_def)
next
  case (Inr ev')
  obtain dup d1 where d: "is_duplicate (CallID ev') (Seq ev') d = (dup, d1)" by fastforce
  have dup: "dup \<longleftrightarrow> Seq ev' \<in> seen_seqs d (CallID ev')" using duplicate_iff [of "CallID ev'" "Seq ev'" d] d by simp
  have d1: "Seq ev \<in> seen_seqs d1 (CallID ev)" using seen_after [of "CallID ev'" "Seq ev'" d "CallID ev"] d assms(2) by (auto split: if_splits)
  have "d' = d1 \<or> d' = forget (CallID ev') d1 \<and> \<not> dup \<and> Type ev' = TypeCallEnded"
    using assms(1) Inr d by (cases dup) (auto simp: on_msg_def split: prod.splits option.splits if_splits)
  with d1 dup assms(2,3) Inr show ?thesis by (auto simp: other_or_same_def)
qed

lemma consume_untold:
  assumes "untold ev p" "\<And>ev'. body = Inr ev' \<Longrightarrow> other_or_same ev ev'"
  shows "untold ev (consume_message (env_at E c) body p)"
proof -
  obtain r d n' where m: "on_msg (HandleEvent (env_at E c)) body (pr_seen p) (pr_notifier p) = (r, d, n')"
    using prod_cases3 by blast
  have s: "Seq ev \<in> seen_seqs d (CallID ev)"
    using on_msg_seen [OF m] assms by (simp add: untold_def)
  have "EventID ev @ dedupOwnerSuffix \<notin> nf_dedup n'"
    using on_msg_cases [OF m]
  proof (elim disjE exE conjE)
    assume "n' = pr_notifier p"
    with assms(1) show ?thesis by (simp add: untold_def)
  next
    fix ev' e assume b: "body = Inr ev'" and h: "HandleEvent (env_at E c) ev' (pr_notifier p) = (e, n')"
      and q: "Seq ev' \<notin> seen_seqs (pr_seen p) (CallID ev')"
    have "EventID ev' \<noteq> EventID ev" using assms b q by (auto simp: other_or_same_def untold_def)
    with handle_covered [OF env_at_dedup(1) _ _ h, of "call_keys (EventID ev')"] assms(1) show ?thesis
      by (auto simp: untold_def call_keys_def suffixes_differ split: if_splits)
  qed
  with s show ?thesis by (simp add: untold_def consume_message_def m)
qed

lemma weekly_key_end: "weekly_key E info i \<noteq> j @ dedupOwnerSuffix"
proof -
  let ?w = "cv_iso_week (loadLocation (ne_time E) (ti_timezone info) (ne_now E))"
  have "last (weekly_key E info i) = char_of (0x30 + ?w mod 10)"
    by (simp add: weekly_key_def two_digits_def Let_def)
  moreover have "char_of (0x30 + ?w mod 10) \<noteq> CHR ''r''"
  proof -
    have r: "(of_char CHR ''r'' :: nat) = 114" by (simp add: of_char_def)
    have "of_char (char_of (0x30 + ?w mod 10) :: char) = (0x30 + ?w mod 10) mod 256" by (rule of_char_of)
    then have "of_char (char_of (0x30 + ?w mod 10) :: char) \<noteq> (114 :: nat)" by simp
    then show ?thesis using r by metis
  qed
  moreover have "last (j @ dedupOwnerSuffix) = CHR ''r''" by (simp add: dedupOwnerSuffix_def)
  ultimately have "last (weekly_key E info i) \<noteq> last (j @ dedupOwnerSuffix)" by metis
  then show ?thesis by auto
qed

lemma step_untold:
  assumes "untold ev p" "\<And>ev' c. x = Message (Inr ev') c \<Longrightarrow> other_or_same ev ev'"
  shows "untold ev (proc_step E x p)"
proof (cases x)
  case (Message body c)
  with consume_untold [OF assms(1)] assms show ?thesis by simp
next
  case (Move c)
  have "untold ev (move_ticker (env_at E c) t p)" for t
  proof (cases "(env_at E c, t, p)" rule: move_ticker.cases)
    case (2 E' i ids errs p')
    obtain r n' where r: "report_send (env_at E c) i (pr_notifier p) = (r, n')" by fastforce
    with 2 report_covered [OF env_at_dedup(1) r] assms(1) show ?thesis
      by (auto simp: untold_def weekly_key_end [THEN not_sym] split: sum.splits bool.splits)
  qed (use assms(1) in \<open>auto simp: report_reset_def untold_def\<close>)
  with Move show ?thesis by simp
qed (use assms(1) in \<open>auto simp: untold_def start_report_def split: sum.split\<close>)

lemma run_untold:
  "untold ev p \<Longrightarrow> \<forall>x \<in> set evs. \<forall>ev' c. x = Message (Inr ev') c \<longrightarrow> other_or_same ev ev' \<Longrightarrow> untold ev (proc_run E evs p)"
  unfolding proc_run_def by (induction evs arbitrary: p) (auto simp: step_untold)

text \<open>
  A failed owner text is never tried again. Once the handler has refused the end of a call before the owner was
  told, then whatever is delivered afterwards, redeliveries of that event included, the owner is not told of it, and
  every redelivery of it is acknowledged without a message going out.
\<close>

theorem failed_owner_sms_is_never_retried:
  assumes "pr_sub p = Consuming" and "Seq ev \<notin> seen_seqs (pr_seen p) (CallID ev)"
    and "HandleEvent (env_at E c) ev (pr_notifier p) = (Some e, n1)" and "EventID ev @ dedupOwnerSuffix \<notin> nf_dedup n1"
    and "\<forall>x \<in> set evs. \<forall>ev' c. x = Message (Inr ev') c \<longrightarrow> other_or_same ev ev'"
    and "q = proc_run E (Message (Inr ev) c # evs) p"
  shows "EventID ev @ dedupOwnerSuffix \<notin> nf_dedup (pr_notifier q) \<and>
     (pr_sub q = Consuming \<longrightarrow>
        pr_replies (proc_step E (Message (Inr ev) c') q) = pr_replies q @ [Ack] \<and>
        pr_notifier (proc_step E (Message (Inr ev) c') q) = pr_notifier q)"
proof -
  obtain d1 where d1: "on_msg (HandleEvent (env_at E c)) (Inr ev) (pr_seen p) (pr_notifier p) = (Nak, d1, n1)"
    "Seq ev \<in> seen_seqs d1 (CallID ev)"
  proof -
    obtain dup d where d: "is_duplicate (CallID ev) (Seq ev) (pr_seen p) = (dup, d)" by fastforce
    then have "\<not> dup" "Seq ev \<in> seen_seqs d (CallID ev)"
      using duplicate_iff [of "CallID ev" "Seq ev" "pr_seen p"] seen_after [of "CallID ev" "Seq ev" "pr_seen p" "CallID ev"] assms(2)
      by simp_all
    with d that show ?thesis by (simp add: on_msg_def assms(3))
  qed
  have "untold ev (proc_step E (Message (Inr ev) c) p)"
    using assms(1,4) d1 by (simp add: consume_message_def untold_def)
  from run_untold [OF this assms(5)] have u: "untold ev q" by (simp add: assms(6) proc_run_def)
  then obtain d where "is_duplicate (CallID ev) (Seq ev) (pr_seen q) = (True, d)"
    using duplicate_iff [of "CallID ev" "Seq ev" "pr_seen q"] by (cases "is_duplicate (CallID ev) (Seq ev) (pr_seen q)") (simp add: untold_def)
  with u show ?thesis by (simp add: untold_def consume_message_def on_msg_def)
qed

text \<open>The carrier is down when the call ends, and up again for the redelivery.\<close>

definition carrier_down :: conditions where
  "carrier_down = \<lparr>cd_now = 9, cd_sms = (\<lambda>_ _. Some (Sentinel ''carrier down'')), cd_email = (\<lambda>_ _. None)\<rparr>"

definition carrier_up :: conditions where
  "carrier_up = \<lparr>cd_now = 10, cd_sms = (\<lambda>_ _. None), cd_email = (\<lambda>_ _. None)\<rparr>"

lemma demo_fields: "Type ended_event = TypeCallEnded" "CallID ended_event = ''c1''" "EventID ended_event = ''e1''" "Seq ended_event = 1"
  by (simp_all add: ended_event_def ev_demo_def)

lemma demo_lookup: "dir_Lookup (WithTenant None ''t1'') (ne_tenants demo_env) = Inr \<lparr>ti_name = ''Bob'', ti_owner_phone = ''+15145550100'',
      ti_owner_email = ''bob@example.com'', ti_locale = LocaleENCA, ti_timezone = [], ti_avg_job_value = 100\<rparr>"
  by (simp add: dir_Lookup_def WithTenant_def FromContext_def demo_env_def)

lemma demo_refused:
  "\<exists>e n1. HandleEvent (env_at demo_env carrier_down) ended_event notifier_init = (Some e, n1) \<and> nf_dedup n1 = {}"
proof -
  have t: "ne_time demo_env = demo_lib" "ne_sms (env_at demo_env carrier_down) = (\<lambda>_ _. Some (Sentinel ''carrier down''))"
    by (simp_all add: env_at_def carrier_down_def demo_env_def)
  show ?thesis
    by (simp add: HandleEvent_def demo_fields Let_def notifier_init_def t ended_summary notifyCallEnded_def demo_lookup
        sendOwnerSMS_def send_sms_def)
qed

theorem failed_owner_sms_is_never_retried_witness:
  "nf_sms (pr_notifier (proc_run demo_env [Message (Inr ended_event) carrier_down, Message (Inr ended_event) carrier_up] (proc0 None notifier_init))) = [] \<and>
   pr_replies (proc_run demo_env [Message (Inr ended_event) carrier_down, Message (Inr ended_event) carrier_up] (proc0 None notifier_init)) = [Nak, Ack]"
proof -
  obtain e n1 where h: "HandleEvent (env_at demo_env carrier_down) ended_event notifier_init = (Some e, n1)" "nf_dedup n1 = {}"
    using demo_refused by blast
  let ?p = "proc0 None notifier_init"
  let ?q = "proc_run demo_env [Message (Inr ended_event) carrier_down] ?p"
  have p: "pr_sub ?p = Consuming" "Seq ended_event \<notin> seen_seqs (pr_seen ?p) (CallID ended_event)" "pr_notifier ?p = notifier_init"
    by (simp_all add: proc0_def)
  have h': "HandleEvent (env_at demo_env carrier_down) ended_event (pr_notifier ?p) = (Some e, n1)"
    by (simp only: p(3) h(1))
  have n: "EventID ended_event @ dedupOwnerSuffix \<notin> nf_dedup n1" by (simp add: h(2))
  obtain d1 where m: "on_msg (HandleEvent (env_at demo_env carrier_down)) (Inr ended_event) Map.empty notifier_init = (Nak, d1, n1)"
    by (simp add: on_msg_def h is_duplicate_def)
  have q: "pr_sub ?q = Consuming" "pr_replies ?q = [Nak]" "pr_notifier ?q = n1"
    using m by (simp_all add: proc_run_def proc0_def consume_message_def)
  have "nf_sms n1 = []"
    using handle_covered [OF env_at_dedup(1) _ _ h(1), of "call_keys ''e1''"] h(2)
    by (simp add: demo_fields notifier_init_def call_keys_def covered_def)
  moreover have "pr_replies (proc_step demo_env (Message (Inr ended_event) carrier_up) ?q) = pr_replies ?q @ [Ack] \<and>
        pr_notifier (proc_step demo_env (Message (Inr ended_event) carrier_up) ?q) = pr_notifier ?q"
    using failed_owner_sms_is_never_retried [OF p(1,2) h' n, of "[]" ?q] q(1) by simp
  moreover have "proc_run demo_env [Message (Inr ended_event) carrier_down, Message (Inr ended_event) carrier_up] ?p =
      proc_step demo_env (Message (Inr ended_event) carrier_up) ?q"
    by (simp add: proc_run_def)
  ultimately show ?thesis using q by simp
qed

section \<open>The ticker\<close>

definition drive :: "string set notify_env \<Rightarrow> conditions \<Rightarrow> nat \<Rightarrow> proc \<Rightarrow> proc" where
  "drive E c k p = proc_run E (replicate k (Move c)) p"

lemma drive_0 [simp]: "drive E c 0 p = p"
  by (simp add: drive_def proc_run_def)

lemma drive_Suc [simp]: "drive E c (Suc k) p = drive E c k (move_ticker (env_at E c) (pr_ticker p) p)"
  by (simp add: drive_def proc_run_def)

lemma drive_waiting: "pr_ticker p = Waiting \<Longrightarrow> drive E c k p = p"
  by (induction k) simp_all

lemma drive_sending:
  assumes "2 * length ids + 1 \<le> k" "pr_ticker p = Sending ids errs"
    and "weekly_loop (env_at E c) ids (pr_notifier p) = (es, n')"
  shows "drive E c k p = p\<lparr>pr_notifier := n', pr_ticker := Waiting,
     pr_logged := pr_logged p @ (if errs @ es = [] then [] else [Joined (errs @ es)])\<rparr>"
  using assms
proof (induction ids arbitrary: k p errs es n')
  case Nil
  then obtain k' where "k = Suc k'" by (cases k) auto
  with Nil show ?case by (simp add: drive_waiting)
next
  case (Cons i ids)
  then obtain k2 where k: "k = Suc (Suc k2)" "2 * length ids + 1 \<le> k2" using that [of "k - 2"] by simp
  obtain r n1 where r: "report_send (env_at E c) i (pr_notifier p) = (r, n1)" by fastforce
  show ?case
  proof (cases r)
    case (Inl e)
    obtain es1 where w: "weekly_loop (env_at E c) ids n1 = (es1, n')" "es = Wrap ''weekly report tenant %s: %w'' [FS i] e # es1"
      using Cons.prems(3) r Inl by (auto simp: sendWeeklyReport_def split: prod.splits)
    let ?p = "p\<lparr>pr_notifier := n1, pr_ticker := Sending ids (errs @ [Wrap ''weekly report tenant %s: %w'' [FS i] e])\<rparr>"
    have "drive E c k p = drive E c (Suc k2) ?p" using k Cons.prems(2) r Inl by simp
    also have "\<dots> = ?p\<lparr>pr_notifier := n', pr_ticker := Waiting,
        pr_logged := pr_logged ?p @ (if (errs @ [Wrap ''weekly report tenant %s: %w'' [FS i] e]) @ es1 = [] then []
           else [Joined ((errs @ [Wrap ''weekly report tenant %s: %w'' [FS i] e]) @ es1)])\<rparr>"
      by (rule Cons.IH) (use k w in auto)
    finally show ?thesis using w by simp
  next
    case (Inr b)
    let ?n = "if b then report_reset i n1 else n1"
    have w: "weekly_loop (env_at E c) ids ?n = (es, n')"
      using Cons.prems(3) r Inr by (auto simp: sendWeeklyReport_def split: prod.splits)
    let ?p = "p\<lparr>pr_notifier := ?n, pr_ticker := Sending ids errs\<rparr>"
    have "drive E c k p = drive E c (if b then k2 else Suc k2) ?p" using k Cons.prems(2) r Inr by (cases b) simp_all
    also have "\<dots> = ?p\<lparr>pr_notifier := n', pr_ticker := Waiting,
        pr_logged := pr_logged ?p @ (if errs @ es = [] then [] else [Joined (errs @ es)])\<rparr>"
      by (rule Cons.IH) (use k w in auto)
    finally show ?thesis by simp
  qed
qed



section \<open>Shutdown\<close>

fun moves_left :: "ticker \<Rightarrow> nat" where
  "moves_left (Sending ids errs) = 2 * length ids + 1"
| "moves_left (Resetting i ids errs) = 2 * length ids + 2"
| "moves_left _ = 0"

lemma move_left: "moves_left (pr_ticker (move_ticker E (pr_ticker p) p)) \<le> moves_left (pr_ticker p) - 1"
  by (cases "(E, pr_ticker p, p)" rule: move_ticker.cases) (auto split: prod.split sum.split bool.split)

lemma move_keeps: "pr_sub (move_ticker E t p) = pr_sub p" "pr_stopped (move_ticker E t p) = pr_stopped p"
    "pr_replies (move_ticker E t p) = pr_replies p"
  by (cases "(E, t, p)" rule: move_ticker.cases; auto split: prod.split sum.split bool.split)+

lemma consume_keeps: "pr_sub (consume_message E b p) = pr_sub p" "pr_stopped (consume_message E b p) = pr_stopped p"
    "pr_ticker (consume_message E b p) = pr_ticker p"
  by (simp_all add: consume_message_def split: prod.split)

lemma start_keeps: "pr_sub (start_report E p) = pr_sub p" "pr_stopped (start_report E p) = pr_stopped p"
    "pr_replies (start_report E p) = pr_replies p"
  by (simp_all add: start_report_def split: sum.split)

lemmas step_keeps = move_keeps consume_keeps start_keeps

fun is_move :: "proc_event \<Rightarrow> bool" where
  "is_move (Move c) = True"
| "is_move _ = False"

lemma stopped_step:
  assumes "pr_stopped p" "pr_sub p = Returned e" "x \<noteq> Tick"
  shows "pr_stopped (proc_step E x p) \<and> pr_sub (proc_step E x p) = Returned e \<and>
     moves_left (pr_ticker (proc_step E x p)) \<le> moves_left (pr_ticker p) - (if is_move x then 1 else 0)"
  using assms by (cases x) (auto simp: step_keeps move_left [unfolded One_nat_def])

lemma stopped_run:
  assumes "pr_stopped p" "pr_sub p = Returned e" "Tick \<notin> set evs"
  shows "pr_stopped (proc_run E evs p) \<and> pr_sub (proc_run E evs p) = Returned e \<and>
     moves_left (pr_ticker (proc_run E evs p)) \<le> moves_left (pr_ticker p) - length (filter is_move evs)"
  using assms
proof (induction evs arbitrary: p)
  case (Cons x evs)
  have s: "pr_stopped (proc_step E x p) \<and> pr_sub (proc_step E x p) = Returned e \<and>
     moves_left (pr_ticker (proc_step E x p)) \<le> moves_left (pr_ticker p) - (if is_move x then 1 else 0)"
    by (rule stopped_step) (use Cons.prems in auto)
  with Cons.IH [of "proc_step E x p"] Cons.prems show ?case by (auto simp: proc_run_def)
qed (simp add: proc_run_def)

lemma moves_left_0: "moves_left t = 0 \<Longrightarrow> t = Waiting \<or> t = Gone"
  by (cases t) auto

text \<open>
  The shutdown ends. After the signal, once the report under way has made its moves, two for each tenant that is
  left and two more, and the select takes the cancelled context, the ticker is joined and \<open>run\<close> returns, with no
  error when it was the signal that ended the subscription, whatever else is delivered in the meantime.
\<close>

theorem notifier_shutdown_ends:
  assumes "pr_sub p = Consuming" and "Tick \<notin> set evs" and "moves_left (pr_ticker p) \<le> length (filter is_move evs)"
  shows "run_return (proc_run E (Signal # evs @ [Leave]) p) = Some None"
proof -
  let ?p = "proc_step E Signal p"
  have p: "pr_stopped ?p" "pr_sub ?p = Returned (Sentinel CtxCanceled)" "pr_ticker ?p = pr_ticker p"
    using assms(1) by simp_all
  let ?q = "proc_run E evs ?p"
  have q: "pr_stopped ?q" "pr_sub ?q = Returned (Sentinel CtxCanceled)" "moves_left (pr_ticker ?q) = 0"
    using stopped_run [OF p(1,2) assms(2), of E] p(3) assms(3) by auto
  have "proc_run E (Signal # evs @ [Leave]) p = proc_step E Leave ?q" by (simp add: proc_run_def)
  with q moves_left_0 [OF q(3)] show ?thesis by (auto simp: run_return_def)
qed

theorem notifier_shutdown_ends_witness:
  "run_return (proc_run demo_env [Signal, Leave] (proc0 None notifier_init)) = Some None"
  using notifier_shutdown_ends [of "proc0 None notifier_init" "[]" demo_env] by (simp add: proc0_def)

text \<open>
  A subscription that cannot start is not reported: \<open>run\<close> waits for the ticker, which only the signal ends, so a
  notifier whose \<open>Consume\<close> fails stays up without an error, handles nothing and never returns on its own.
\<close>

lemma unstopped_step:
  assumes "pr_sub p = Returned e" "\<not> pr_stopped p" "pr_ticker p \<noteq> Gone" "x \<noteq> Signal"
  shows "pr_sub (proc_step E x p) = Returned e \<and> \<not> pr_stopped (proc_step E x p) \<and> pr_ticker (proc_step E x p) \<noteq> Gone \<and>
     pr_replies (proc_step E x p) = pr_replies p"
proof (cases x)
  case (Move c)
  have "pr_ticker (move_ticker (env_at E c) (pr_ticker p) p) \<noteq> Gone"
    using assms(3) by (cases "(env_at E c, pr_ticker p, p)" rule: move_ticker.cases) (auto split: prod.split sum.split bool.split)
  with Move assms show ?thesis by (simp add: step_keeps)
qed (use assms in \<open>auto simp: step_keeps start_report_def split: sum.split\<close>)

theorem failed_subscription_hangs:
  assumes "Signal \<notin> set evs"
  shows "run_return (proc_run E evs (proc0 (Some e) n)) = None \<and> pr_replies (proc_run E evs (proc0 (Some e) n)) = []"
proof -
  have "pr_sub p = Returned e' \<Longrightarrow> \<not> pr_stopped p \<Longrightarrow> pr_ticker p \<noteq> Gone \<Longrightarrow> Signal \<notin> set evs \<Longrightarrow>
     pr_ticker (proc_run E evs p) \<noteq> Gone \<and> pr_replies (proc_run E evs p) = pr_replies p" for p e' evs
  proof (induction evs arbitrary: p)
    case (Cons x evs)
    have "pr_sub (proc_step E x p) = Returned e' \<and> \<not> pr_stopped (proc_step E x p) \<and> pr_ticker (proc_step E x p) \<noteq> Gone \<and>
       pr_replies (proc_step E x p) = pr_replies p"
      by (rule unstopped_step) (use Cons.prems in auto)
    with Cons.IH [of "proc_step E x p"] Cons.prems show ?case by (simp add: proc_run_def)
  qed (simp add: proc_run_def)
  from this [of "proc0 (Some e) n" _ evs] assms show ?thesis
    by (auto simp: proc0_def run_return_def split: ticker.split)
qed

theorem failed_subscription_hangs_witness:
  "run_return (proc_run demo_env [Tick, Move carrier_up, Leave] (proc0 (Some (Sentinel ''no consumer'')) notifier_init)) = None"
  using failed_subscription_hangs [of "[Tick, Move carrier_up, Leave]" demo_env "Sentinel ''no consumer''" notifier_init] by simp

section \<open>Start\<close>

definition services_up :: "infra \<Rightarrow> bool" where
  "services_up i \<longleftrightarrow> in_telemetry i = None \<and> in_metrics i = None \<and> in_connect i = (\<lambda>_. None) \<and> in_jetstream i = None \<and>
     in_stream i = (\<lambda>_ _. None) \<and> in_consumer i = (\<lambda>_ _. None)"

text \<open>
  With every service up and a readable tenants file, what the start of the notifier does is decided by the check
  interval alone: a positive one starts the two goroutines, and zero or a negative one, which \<open>loadConfig\<close> accepts,
  makes \<open>time.NewTicker\<close> panic.
\<close>

theorem interval_decides_the_start:
  assumes "services_up i" and "notifier_loadConfig url parse getenv = Inr cfg"
    and "loadTenants read_file (nc_tenants_file cfg) = Inr dir"
  shows "if nc_weekly_interval cfg \<le> 0 then run_notifier url parse read_file tr T now i getenv = Panicked
     else \<exists>E. run_notifier url parse read_file tr T now i getenv =
            Started (nc_subject_prefix cfg @ ''.>'') E (proc0 (in_consume i) notifier_init) \<and>
          ne_dedup E = MemoryDedup \<and> ne_tenants E = dir"
  using assms by (auto simp: run_notifier_def services_up_def notify_New_def connect_bus_def start_threads_def)

definition all_up :: infra where
  "all_up = \<lparr>in_telemetry = None, in_metrics = None, in_connect = (\<lambda>_. None), in_jetstream = None,
     in_stream = (\<lambda>_ _. None), in_consumer = (\<lambda>_ _. None), in_consume = None\<rparr>"

definition demo_net :: transport where
  "demo_net = \<lparr>tr_http = (\<lambda>_. Inr (200, [])), tr_bad_url = (\<lambda>_. None)\<rparr>"

theorem interval_decides_the_start_witness:
  "run_notifier [] (\<lambda>s. Inr 0) (\<lambda>_. Inr None) demo_net demo_lib 0 all_up (\<lambda>_. []) = Panicked"
proof -
  obtain cfg where c: "notifier_loadConfig [] (\<lambda>s. Inr 0) (\<lambda>_. []) = Inr cfg" "nc_tenants_file cfg = []" "nc_weekly_interval cfg = 0"
    by (simp add: notifier_loadConfig_def)
  have "services_up all_up" by (simp add: services_up_def all_up_def)
  moreover have "loadTenants (\<lambda>_. Inr None) (nc_tenants_file cfg) = Inr []" by (simp add: loadTenants_def c)
  ultimately show ?thesis using interval_decides_the_start [of all_up "[]" "\<lambda>s. Inr 0" "\<lambda>_. []" cfg "\<lambda>_. Inr None" "[]" demo_net demo_lib 0] c by simp
qed

text \<open>
  The gateway and the notifier do not meet by default: with the notifier's prefix unset and the gateway's unset or as
  the deployment's configuration sets it, no event the gateway publishes is on a subject the notifier's consumer
  takes. \<open>takes\<close> is the subject matching of the server, of which only this is used: a filter that ends in \<open>.>\<close> and
  holds no other wildcard takes the subjects that begin with what stands before the \<open>>\<close>.
\<close>

theorem default_prefixes_do_not_meet:
  assumes "\<forall>p s. CHR ''*'' \<notin> set p \<and> CHR ''>'' \<notin> set p \<and> takes (p @ ''.>'') s \<longrightarrow> (\<exists>rest. s = p @ CHR ''.'' # rest)"
    and "getenv ''NOTIFIER_SUBJECT_PREFIX'' = []" and "getenv ''EVENT_SUBJECT_PREFIX'' = [] \<or> getenv ''EVENT_SUBJECT_PREFIX'' = ''frontdesk.events''"
    and "notifier_loadConfig url parse getenv = Inr ncfg" and "loadConfig parse getenv = Inr gcfg"
  shows "\<not> takes (nc_subject_prefix ncfg @ ''.>'') (js_subject (gc_event_subject_prefix gcfg) ev)"
proof
  assume t: "takes (nc_subject_prefix ncfg @ ''.>'') (js_subject (gc_event_subject_prefix gcfg) ev)"
  have n: "nc_subject_prefix ncfg = ''events''"
    using assms(2,4) by (auto simp: notifier_loadConfig_def envOr_def Let_def split: sum.splits)
  have g: "gc_event_subject_prefix gcfg = ''frontdesk.events''"
    using assms(3,5) by (auto simp: loadConfig_def envOr_def Let_def split: sum.splits if_splits)
  have "\<exists>rest. js_subject (gc_event_subject_prefix gcfg) ev = ''events'' @ CHR ''.'' # rest"
    using assms(1) [rule_format, of "''events''" "js_subject (gc_event_subject_prefix gcfg) ev"] t by (simp add: n)
  then show False by (auto simp: g js_subject_def)
qed

definition takes_prefix :: "string \<Rightarrow> string \<Rightarrow> bool" where
  "takes_prefix f s \<longleftrightarrow> take (length f - 1) s = butlast f \<and> length f \<le> length s"

lemma takes_prefix_dot:
  "takes_prefix (p @ ''.>'') s \<Longrightarrow> \<exists>rest. s = p @ CHR ''.'' # rest"
proof -
  assume "takes_prefix (p @ ''.>'') s"
  then have "take (Suc (length p)) s = p @ ''.''" by (simp add: takes_prefix_def butlast_append)
  then have "s = p @ CHR ''.'' # drop (Suc (length p)) s" by (metis append_take_drop_id append.assoc append_Cons append_Nil)
  then show ?thesis by blast
qed

theorem default_prefixes_do_not_meet_witness:
  "\<exists>ncfg gcfg. notifier_loadConfig [] (\<lambda>s. Inr 1) (\<lambda>_. []) = Inr ncfg \<and> loadConfig (\<lambda>s. Inr 1) (\<lambda>_. []) = Inr gcfg \<and>
     takes_prefix (nc_subject_prefix ncfg @ ''.>'') ''events.t1.c1'' \<and>
     \<not> takes_prefix (nc_subject_prefix ncfg @ ''.>'') (js_subject (gc_event_subject_prefix gcfg) plain_event)"
proof -
  obtain ncfg where n: "notifier_loadConfig [] (\<lambda>s. Inr 1) (\<lambda>_. []) = Inr ncfg" "nc_subject_prefix ncfg = ''events''"
    by (simp add: notifier_loadConfig_def envOr_def)
  obtain gcfg where g: "loadConfig (\<lambda>s. Inr 1) (\<lambda>_. []) = Inr gcfg"
    by (simp add: loadConfig_def envOr_def Let_def)
  have t: "\<forall>p s. CHR ''*'' \<notin> set p \<and> CHR ''>'' \<notin> set p \<and> takes_prefix (p @ ''.>'') s \<longrightarrow> (\<exists>rest. s = p @ CHR ''.'' # rest)"
    using takes_prefix_dot by blast
  have "\<not> takes_prefix (nc_subject_prefix ncfg @ ''.>'') (js_subject (gc_event_subject_prefix gcfg) plain_event)"
    by (rule default_prefixes_do_not_meet [OF t _ _ n(1) g]) simp_all
  moreover have "takes_prefix (nc_subject_prefix ncfg @ ''.>'') ''events.t1.c1''" by (simp add: n takes_prefix_def)
  ultimately show ?thesis using n g by blast
qed

section \<open>Tenants file\<close>

lemma put_tenants_map: "map_of (put_tenants ts d) = map_of d ++ map_of (rev ts)"
proof (induction ts d rule: put_tenants.induct)
  case (2 i info ts d)
  have "map_of (dir_Put i info d) = (map_of d)(i \<mapsto> info)" by (simp add: dir_Put_def update_conv')
  with 2 show ?case by (auto simp: fun_eq_iff map_add_def split: option.split)
qed simp

text \<open>
  The tenants file is the directory: when it loads, a tenant is known exactly when the object has a member of that
  name, and its data are the decoding of the last such member; a file with one member that does not decode loads
  nothing.
\<close>

theorem tenants_file_is_the_directory:
  assumes "path \<noteq> []" and "read_file path = Inr (Some (JObj ms))" and "loadTenants read_file path = Inr dir" and "i \<noteq> []"
  shows "case map_of (rev ms) i of
       None \<Rightarrow> dir_Lookup (WithTenant None i) dir = Inl (Errf ''notify: unknown tenant %s'' [FS i])
     | Some v \<Rightarrow> \<exists>info. dec_struct tenant_info_fields v tenant_info0 = Inr info \<and> dir_Lookup (WithTenant None i) dir = Inr info"
proof -
  obtain ts where t: "decode_tenants ms = Inr ts" "dir = put_tenants ts []"
    using assms(1-3) by (auto simp: loadTenants_def split: sum.splits)
  have m: "map_of dir = map_of (rev ts)" by (simp add: t(2) put_tenants_map)
  have l: "dir_Lookup (WithTenant None i) dir = (case map_of dir i of None \<Rightarrow> Inl (Errf ''notify: unknown tenant %s'' [FS i]) | Some info \<Rightarrow> Inr info)"
    using assms(4) by (simp add: dir_Lookup_def WithTenant_def FromContext_def)
  have "decode_tenants ms = Inr ts \<Longrightarrow> rel_option (\<lambda>v info. dec_struct tenant_info_fields v tenant_info0 = Inr info) (map_of (rev ms) i) (map_of (rev ts) i)"
  proof (induction ms arbitrary: ts rule: decode_tenants.induct)
    case (2 j v ms)
    from "2.prems" obtain info rest where d: "dec_struct tenant_info_fields v tenant_info0 = Inr info"
      "decode_tenants ms = Inr rest" "ts = (j, info) # rest"
      by (cases "decode_tenants ms") (auto split: sum.splits)
    with "2.IH" [OF d(1,2)] show ?case by (auto simp: map_add_def option.rel_sel split: option.splits)
  qed simp
  with t(1) m l show ?thesis by (auto simp: option.rel_sel split: option.splits)
qed

theorem tenants_file_is_the_directory_witness:
  "\<exists>dir. loadTenants (\<lambda>_. Inr (Some (JObj [(''t1'', JObj [(''name'', JStr ''Bob'')])]))) ''tenants.json'' = Inr dir \<and>
     dir_Lookup (WithTenant None ''t2'') dir = Inl (Errf ''notify: unknown tenant %s'' [FS ''t2''])"
proof -
  let ?ms = "[(''t1'', JObj [(''name'', JStr ''Bob'')])]"
  obtain dir where d: "loadTenants (\<lambda>_. Inr (Some (JObj ?ms))) ''tenants.json'' = Inr dir"
    by (simp add: loadTenants_def tenant_info_fields_def fld_defs field_for_def fold_name_def)
  with tenants_file_is_the_directory [of "''tenants.json''" "\<lambda>_. Inr (Some (JObj ?ms))" ?ms dir "''t2''"] show ?thesis by simp
qed

end
