(* ===== verification/Payload_Codec.thy ===== *)
theory Payload_Codec
  imports Bus
begin

text \<open>
  \<open>internal/event\<close> on the wire: the payloads of \<open>payloads.go\<close> that no service decodes yet, and what \<open>json.Marshal\<close> and
  \<open>json.Unmarshal\<close> make of every payload and of the envelope under their field tags (\<open>omitempty\<close> leaves out a zero
  field, but never a struct). An encoded string has its invalid bytes replaced, as \<open>encoding/json\<close> does. Two pieces of
  the standard library are parameters: \<open>short\<close>, the shortest decimal that reads back as a given float, and the RFC 3339
  formatting and parsing of the time stamp.
\<close>

section \<open>The other payloads\<close>

record call_answered =
  ca_answered_by :: string
  ca_answer_delay_ms :: int

record node_entered =
  nen_node_type :: string

record node_exited =
  nex_outcome :: string

record tool_invoked =
  tin_tool :: string
  tin_args :: "json option"

record tool_completed =
  tco_tool :: string
  tco_ok :: bool
  tco_duration_ms :: int
  tco_result :: "json option"

record dtmf_received =
  dt_digits :: string

record transfer_initiated =
  tri_target :: string
  tri_reason :: string

record transfer_answered =
  tra_target :: string
  tra_wait_ms :: int

record recording_started =
  rst_recording_id :: string

definition call_answered_fields :: "call_answered fields" where
  "call_answered_fields =
     [fld_string ''answeredBy'' ca_answered_by (\<lambda>v. ca_answered_by_update (\<lambda>_. v)),
      fld_int ''answerDelayMs'' ca_answer_delay_ms (\<lambda>v. ca_answer_delay_ms_update (\<lambda>_. v))]"

definition node_entered_fields :: "node_entered fields" where
  "node_entered_fields = [fld_string ''nodeType'' nen_node_type (\<lambda>v. nen_node_type_update (\<lambda>_. v))]"

definition node_exited_fields :: "node_exited fields" where
  "node_exited_fields = [fld_string ''outcome'' nex_outcome (\<lambda>v. nex_outcome_update (\<lambda>_. v))]"

definition tool_invoked_fields :: "tool_invoked fields" where
  "tool_invoked_fields =
     [fld_string ''tool'' tin_tool (\<lambda>v. tin_tool_update (\<lambda>_. v)),
      fld_raw ''args'' (\<lambda>v. tin_args_update (\<lambda>_. v))]"

definition tool_completed_fields :: "tool_completed fields" where
  "tool_completed_fields =
     [fld_string ''tool'' tco_tool (\<lambda>v. tco_tool_update (\<lambda>_. v)),
      fld_bool ''ok'' tco_ok (\<lambda>v. tco_ok_update (\<lambda>_. v)),
      fld_int ''durationMs'' tco_duration_ms (\<lambda>v. tco_duration_ms_update (\<lambda>_. v)),
      fld_raw ''result'' (\<lambda>v. tco_result_update (\<lambda>_. v))]"

definition dtmf_received_fields :: "dtmf_received fields" where
  "dtmf_received_fields = [fld_string ''digits'' dt_digits (\<lambda>v. dt_digits_update (\<lambda>_. v))]"

definition transfer_initiated_fields :: "transfer_initiated fields" where
  "transfer_initiated_fields =
     [fld_string ''target'' tri_target (\<lambda>v. tri_target_update (\<lambda>_. v)),
      fld_string ''reason'' tri_reason (\<lambda>v. tri_reason_update (\<lambda>_. v))]"

definition transfer_answered_fields :: "transfer_answered fields" where
  "transfer_answered_fields =
     [fld_string ''target'' tra_target (\<lambda>v. tra_target_update (\<lambda>_. v)),
      fld_int ''waitMs'' tra_wait_ms (\<lambda>v. tra_wait_ms_update (\<lambda>_. v))]"

definition recording_started_fields :: "recording_started fields" where
  "recording_started_fields = [fld_string ''recordingId'' rst_recording_id (\<lambda>v. rst_recording_id_update (\<lambda>_. v))]"

definition call_answered0 :: call_answered where "call_answered0 = \<lparr>ca_answered_by = [], ca_answer_delay_ms = 0\<rparr>"
definition node_entered0 :: node_entered where "node_entered0 = \<lparr>nen_node_type = []\<rparr>"
definition node_exited0 :: node_exited where "node_exited0 = \<lparr>nex_outcome = []\<rparr>"
definition tool_invoked0 :: tool_invoked where "tool_invoked0 = \<lparr>tin_tool = [], tin_args = None\<rparr>"
definition tool_completed0 :: tool_completed where
  "tool_completed0 = \<lparr>tco_tool = [], tco_ok = False, tco_duration_ms = 0, tco_result = None\<rparr>"
definition dtmf_received0 :: dtmf_received where "dtmf_received0 = \<lparr>dt_digits = []\<rparr>"
definition transfer_initiated0 :: transfer_initiated where "transfer_initiated0 = \<lparr>tri_target = [], tri_reason = []\<rparr>"
definition transfer_answered0 :: transfer_answered where "transfer_answered0 = \<lparr>tra_target = [], tra_wait_ms = 0\<rparr>"
definition recording_started0 :: recording_started where "recording_started0 = \<lparr>rst_recording_id = []\<rparr>"

section \<open>Encoding\<close>

definition valid_seg :: "rune \<times> string \<Rightarrow> bool" where
  "valid_seg p \<longleftrightarrow> \<not> (fst p = rune_error \<and> length (snd p) = 1)"

definition valid_utf8 :: "string \<Rightarrow> bool" where
  "valid_utf8 s \<longleftrightarrow> list_all valid_seg (segs s)"

definition json_text :: "string \<Rightarrow> string" where
  "json_text s = concat (map (\<lambda>p. if valid_seg p then snd p else encode_rune rune_error) (segs s))"

definition enc_str :: "string \<Rightarrow> json" where
  "enc_str s = JStr (json_text s)"

definition enc_float :: "(rat \<Rightarrow> rat) \<Rightarrow> rat \<Rightarrow> json" where
  "enc_float short x = (let d = short x in if of_int \<lfloor>d\<rfloor> = d then JInt \<lfloor>d\<rfloor> else JNum d)"

definition mem :: "string \<Rightarrow> json \<Rightarrow> (string \<times> json) list" where
  "mem k v = [(k, v)]"

definition opt_mem :: "bool \<Rightarrow> string \<Rightarrow> json \<Rightarrow> (string \<times> json) list" where
  "opt_mem b k v = (if b then [(k, v)] else [])"

definition enc_raw :: "json option \<Rightarrow> json" where
  "enc_raw r = (case r of None \<Rightarrow> JNull | Some j \<Rightarrow> j)"

definition enc_call_started :: "call_started \<Rightarrow> (string \<times> json) list" where
  "enc_call_started p = mem ''from'' (enc_str (cs_from p)) @ mem ''to'' (enc_str (cs_to p)) @ mem ''mode'' (enc_str (cs_mode p))"

definition enc_call_answered :: "call_answered \<Rightarrow> (string \<times> json) list" where
  "enc_call_answered p = mem ''answeredBy'' (enc_str (ca_answered_by p)) @
     opt_mem (ca_answer_delay_ms p \<noteq> 0) ''answerDelayMs'' (JInt (ca_answer_delay_ms p))"

definition enc_call_ended :: "call_ended \<Rightarrow> (string \<times> json) list" where
  "enc_call_ended p = mem ''reason'' (enc_str (ce_reason p)) @ mem ''durationMs'' (JInt (ce_duration_ms p))"

definition enc_consent_captured :: "consent_captured \<Rightarrow> (string \<times> json) list" where
  "enc_consent_captured p = mem ''granted'' (JBool (cc_granted p)) @ opt_mem (cc_method p \<noteq> []) ''method'' (enc_str (cc_method p))"

definition enc_language_detected :: "(rat \<Rightarrow> rat) \<Rightarrow> language_detected \<Rightarrow> (string \<times> json) list" where
  "enc_language_detected short p = mem ''locale'' (enc_str (ld_locale p)) @
     opt_mem (ld_confidence p \<noteq> 0) ''confidence'' (enc_float short (ld_confidence p))"

definition enc_language_switched :: "language_switched \<Rightarrow> (string \<times> json) list" where
  "enc_language_switched p = mem ''from'' (enc_str (ls_from p)) @ mem ''to'' (enc_str (ls_to p))"

definition enc_node_entered :: "node_entered \<Rightarrow> (string \<times> json) list" where
  "enc_node_entered p = opt_mem (nen_node_type p \<noteq> []) ''nodeType'' (enc_str (nen_node_type p))"

definition enc_node_exited :: "node_exited \<Rightarrow> (string \<times> json) list" where
  "enc_node_exited p = opt_mem (nex_outcome p \<noteq> []) ''outcome'' (enc_str (nex_outcome p))"

definition enc_stt_final :: "(rat \<Rightarrow> rat) \<Rightarrow> stt_final \<Rightarrow> (string \<times> json) list" where
  "enc_stt_final short p = mem ''text'' (enc_str (sf_text p)) @ mem ''locale'' (enc_str (sf_locale p)) @
     opt_mem (sf_confidence p \<noteq> 0) ''confidence'' (enc_float short (sf_confidence p)) @
     opt_mem (sf_audio_ms p \<noteq> 0) ''audioMs'' (JInt (sf_audio_ms p)) @
     opt_mem (sf_vad_end_to_final_ms p \<noteq> 0) ''vadEndToFinalMs'' (JInt (sf_vad_end_to_final_ms p))"

definition enc_turn_latency :: "turn_latency \<Rightarrow> (string \<times> json) list" where
  "enc_turn_latency p =
     opt_mem (tl_vad_end_to_stt_final_ms p \<noteq> 0) ''vadEndToSttFinalMs'' (JInt (tl_vad_end_to_stt_final_ms p)) @
     opt_mem (tl_stt_final_to_llm_first_token_ms p \<noteq> 0) ''sttFinalToLlmFirstTokenMs'' (JInt (tl_stt_final_to_llm_first_token_ms p)) @
     opt_mem (tl_llm_first_token_to_tts_first_chunk_ms p \<noteq> 0) ''llmFirstTokenToTtsFirstChunkMs''
       (JInt (tl_llm_first_token_to_tts_first_chunk_ms p)) @
     opt_mem (tl_perceived_ms p \<noteq> 0) ''perceivedMs'' (JInt (tl_perceived_ms p))"

definition enc_agent_turn_completed :: "agent_turn_completed \<Rightarrow> (string \<times> json) list" where
  "enc_agent_turn_completed p = mem ''text'' (enc_str (at_text p)) @
     opt_mem (at_interrupted p) ''interrupted'' (JBool (at_interrupted p)) @
     opt_mem (at_llm_tokens_in p \<noteq> 0) ''llmTokensIn'' (JInt (at_llm_tokens_in p)) @
     opt_mem (at_llm_tokens_out p \<noteq> 0) ''llmTokensOut'' (JInt (at_llm_tokens_out p)) @
     opt_mem (at_tts_chars p \<noteq> 0) ''ttsChars'' (JInt (at_tts_chars p)) @
     mem ''latency'' (JObj (enc_turn_latency (at_latency p)))"

definition enc_tool_invoked :: "tool_invoked \<Rightarrow> (string \<times> json) list" where
  "enc_tool_invoked p = mem ''tool'' (enc_str (tin_tool p)) @ opt_mem (tin_args p \<noteq> None) ''args'' (enc_raw (tin_args p))"

definition enc_tool_completed :: "tool_completed \<Rightarrow> (string \<times> json) list" where
  "enc_tool_completed p = mem ''tool'' (enc_str (tco_tool p)) @ mem ''ok'' (JBool (tco_ok p)) @
     opt_mem (tco_duration_ms p \<noteq> 0) ''durationMs'' (JInt (tco_duration_ms p)) @
     opt_mem (tco_result p \<noteq> None) ''result'' (enc_raw (tco_result p))"

definition enc_var_assigned :: "var_assigned \<Rightarrow> (string \<times> json) list" where
  "enc_var_assigned p = mem ''name'' (enc_str (va_name p)) @ mem ''value'' (enc_raw (va_value p))"

definition enc_dtmf_received :: "dtmf_received \<Rightarrow> (string \<times> json) list" where
  "enc_dtmf_received p = mem ''digits'' (enc_str (dt_digits p))"

definition enc_transfer_initiated :: "transfer_initiated \<Rightarrow> (string \<times> json) list" where
  "enc_transfer_initiated p = mem ''target'' (enc_str (tri_target p)) @ mem ''reason'' (enc_str (tri_reason p))"

definition enc_transfer_answered :: "transfer_answered \<Rightarrow> (string \<times> json) list" where
  "enc_transfer_answered p = mem ''target'' (enc_str (tra_target p)) @ opt_mem (tra_wait_ms p \<noteq> 0) ''waitMs'' (JInt (tra_wait_ms p))"

definition enc_recording_started :: "recording_started \<Rightarrow> (string \<times> json) list" where
  "enc_recording_started p = mem ''recordingId'' (enc_str (rst_recording_id p))"

definition enc_error_raised :: "error_raised \<Rightarrow> (string \<times> json) list" where
  "enc_error_raised p = mem ''code'' (enc_str (er_code p)) @ mem ''message'' (enc_str (er_message p)) @
     opt_mem (er_stage p \<noteq> []) ''stage'' (enc_str (er_stage p))"

text \<open>The payload argument of \<open>New\<close>.\<close>

datatype payload =
    PCallStarted call_started
  | PCallAnswered call_answered
  | PCallEnded call_ended
  | PConsentCaptured consent_captured
  | PLanguageDetected language_detected
  | PLanguageSwitched language_switched
  | PNodeEntered node_entered
  | PNodeExited node_exited
  | PSTTFinal stt_final
  | PAgentTurnCompleted agent_turn_completed
  | PToolInvoked tool_invoked
  | PToolCompleted tool_completed
  | PVarAssigned var_assigned
  | PDTMFReceived dtmf_received
  | PTransferInitiated transfer_initiated
  | PTransferAnswered transfer_answered
  | PRecordingStarted recording_started
  | PErrorRaised error_raised

fun marshal_payload :: "(rat \<Rightarrow> rat) \<Rightarrow> payload \<Rightarrow> json" where
  "marshal_payload short (PCallStarted p) = JObj (enc_call_started p)"
| "marshal_payload short (PCallAnswered p) = JObj (enc_call_answered p)"
| "marshal_payload short (PCallEnded p) = JObj (enc_call_ended p)"
| "marshal_payload short (PConsentCaptured p) = JObj (enc_consent_captured p)"
| "marshal_payload short (PLanguageDetected p) = JObj (enc_language_detected short p)"
| "marshal_payload short (PLanguageSwitched p) = JObj (enc_language_switched p)"
| "marshal_payload short (PNodeEntered p) = JObj (enc_node_entered p)"
| "marshal_payload short (PNodeExited p) = JObj (enc_node_exited p)"
| "marshal_payload short (PSTTFinal p) = JObj (enc_stt_final short p)"
| "marshal_payload short (PAgentTurnCompleted p) = JObj (enc_agent_turn_completed p)"
| "marshal_payload short (PToolInvoked p) = JObj (enc_tool_invoked p)"
| "marshal_payload short (PToolCompleted p) = JObj (enc_tool_completed p)"
| "marshal_payload short (PVarAssigned p) = JObj (enc_var_assigned p)"
| "marshal_payload short (PDTMFReceived p) = JObj (enc_dtmf_received p)"
| "marshal_payload short (PTransferInitiated p) = JObj (enc_transfer_initiated p)"
| "marshal_payload short (PTransferAnswered p) = JObj (enc_transfer_answered p)"
| "marshal_payload short (PRecordingStarted p) = JObj (enc_recording_started p)"
| "marshal_payload short (PErrorRaised p) = JObj (enc_error_raised p)"

section \<open>The envelope\<close>

definition catalog :: "event_type list" where
  "catalog = [TypeCallStarted, TypeCallAnswered, TypeCallEnded, TypeConsentCaptured, TypeLanguageDetected,
     TypeLanguageSwitched, TypeNodeEntered, TypeNodeExited, TypeSTTFinal, TypeAgentTurnCompleted, TypeToolInvoked,
     TypeToolCompleted, TypeVarAssigned, TypeDTMFReceived, TypeTransferInitiated, TypeTransferAnswered,
     TypeRecordingStarted, TypeErrorRaised]"

definition type_of_name :: "string \<Rightarrow> event_type" where
  "type_of_name s = (case find (\<lambda>t. type_name t = s) catalog of Some t \<Rightarrow> t | None \<Rightarrow> TypeOther s)"

definition kinds :: "redaction_kind list" where
  "kinds = [KindCard, KindSIN, KindPostalCode, KindDOB]"

definition kind_of_name :: "string \<Rightarrow> redaction_kind" where
  "kind_of_name s = (case find (\<lambda>k. kind_name k = s) kinds of Some k \<Rightarrow> k | None \<Rightarrow> KindOther s)"

definition redaction0 :: redaction where
  "redaction0 = \<lparr>rd_start = 0, rd_end = 0, rd_kind = KindOther [], rd_vault = []\<rparr>"

definition redaction_fields :: "redaction fields" where
  "redaction_fields =
     [fld_int ''start'' rd_start (\<lambda>v. rd_start_update (\<lambda>_. v)),
      fld_int ''end'' rd_end (\<lambda>v. rd_end_update (\<lambda>_. v)),
      fld_string ''kind'' (\<lambda>r. kind_name (rd_kind r)) (\<lambda>v. rd_kind_update (\<lambda>_. kind_of_name v)),
      fld_string ''vault'' rd_vault (\<lambda>v. rd_vault_update (\<lambda>_. v))]"

definition enc_redaction :: "redaction \<Rightarrow> json" where
  "enc_redaction r = JObj (mem ''start'' (JInt (rd_start r)) @ mem ''end'' (JInt (rd_end r)) @
     mem ''kind'' (enc_str (kind_name (rd_kind r))) @ mem ''vault'' (enc_str (rd_vault r)))"

fun dec_elems :: "'q fields \<Rightarrow> 'q \<Rightarrow> json list \<Rightarrow> 'q list res" where
  "dec_elems fs z [] = Inr []"
| "dec_elems fs z (j # js) =
     (case dec_struct fs j z of Inl e \<Rightarrow> Inl e | Inr q \<Rightarrow> map_sum id (\<lambda>qs. q # qs) (dec_elems fs z js))"

fun dec_slice :: "'q fields \<Rightarrow> 'q \<Rightarrow> json \<Rightarrow> 'q list res" where
  "dec_slice fs z (JArr js) = dec_elems fs z js"
| "dec_slice fs z JNull = Inr []"
| "dec_slice fs z _ = Inl json_type_error"

fun dec_uint64 :: "json \<Rightarrow> 64 word \<Rightarrow> 64 word res" where
  "dec_uint64 (JInt n) old = (if 0 \<le> n \<and> n < 2 ^ 64 then Inr (word_of_int n) else Inl json_type_error)"
| "dec_uint64 JNull old = Inr old"
| "dec_uint64 _ old = Inl json_type_error"

fun dec_time :: "(string \<Rightarrow> gotime res) \<Rightarrow> json \<Rightarrow> gotime \<Rightarrow> gotime res" where
  "dec_time parse (JStr s) old = parse s"
| "dec_time parse JNull old = Inr old"
| "dec_time parse _ old = Inl json_type_error"

definition envelope_fields :: "(string \<Rightarrow> gotime res) \<Rightarrow> envelope fields" where
  "envelope_fields parse =
     [fld_string ''eventId'' EventID (\<lambda>v. EventID_update (\<lambda>_. v)),
      fld_string ''callId'' CallID (\<lambda>v. CallID_update (\<lambda>_. v)),
      (''seq'', \<lambda>j ev. map_sum id (\<lambda>v. ev\<lparr>Seq := v\<rparr>) (dec_uint64 j (Seq ev))),
      (''ts'', \<lambda>j ev. map_sum id (\<lambda>v. ev\<lparr>TS := v\<rparr>) (dec_time parse j (TS ev))),
      fld_string ''tenantId'' TenantID (\<lambda>v. TenantID_update (\<lambda>_. v)),
      fld_string ''flowId'' FlowID (\<lambda>v. FlowID_update (\<lambda>_. v)),
      fld_int ''flowVersion'' FlowVersion (\<lambda>v. FlowVersion_update (\<lambda>_. v)),
      fld_string ''type'' (\<lambda>ev. type_name (Type ev)) (\<lambda>v. Type_update (\<lambda>_. type_of_name v)),
      fld_string ''nodeId'' NodeID (\<lambda>v. NodeID_update (\<lambda>_. v)),
      fld_raw ''payload'' (\<lambda>v. Payload_update (\<lambda>_. v)),
      (''redactions'', \<lambda>j ev. map_sum id (\<lambda>v. ev\<lparr>Redactions := v\<rparr>) (dec_slice redaction_fields redaction0 j))]"

definition envelope0 :: envelope where
  "envelope0 = \<lparr>EventID = [], CallID = [], Seq = 0, TS = 0, TenantID = [], FlowID = [], FlowVersion = 0,
     Type = TypeOther [], NodeID = [], Payload = None, Redactions = []\<rparr>"

text \<open>\<open>format\<close> fails on a year that RFC 3339 cannot write.\<close>

definition marshal_envelope :: "(gotime \<Rightarrow> string res) \<Rightarrow> envelope \<Rightarrow> json res" where
  "marshal_envelope format ev =
     (case format (TS ev) of
        Inl e \<Rightarrow> Inl e
      | Inr ts \<Rightarrow> Inr (JObj
          (mem ''eventId'' (enc_str (EventID ev)) @ mem ''callId'' (enc_str (CallID ev)) @ mem ''seq'' (JInt (uint (Seq ev))) @
           mem ''ts'' (JStr ts) @ mem ''tenantId'' (enc_str (TenantID ev)) @ mem ''flowId'' (enc_str (FlowID ev)) @
           mem ''flowVersion'' (JInt (FlowVersion ev)) @ mem ''type'' (enc_str (type_name (Type ev))) @
           opt_mem (NodeID ev \<noteq> []) ''nodeId'' (enc_str (NodeID ev)) @ mem ''payload'' (enc_raw (Payload ev)) @
           opt_mem (Redactions ev \<noteq> []) ''redactions'' (JArr (map enc_redaction (Redactions ev))))))"

definition unmarshal_envelope :: "(string \<Rightarrow> gotime res) \<Rightarrow> json option \<Rightarrow> envelope res" where
  "unmarshal_envelope parse raw = unmarshal (envelope_fields parse) raw envelope0"

text \<open>The subscriber's callback on the data of a message.\<close>

definition on_data :: "(string \<Rightarrow> gotime res) \<Rightarrow> 'w handler \<Rightarrow> json option \<Rightarrow> seq_dedup \<Rightarrow> 'w \<Rightarrow> reply \<times> seq_dedup \<times> 'w" where
  "on_data parse h raw d w = on_msg h (unmarshal_envelope parse raw) d w"

end
