(* ===== verification/Codec_Props.thy ===== *)
theory Codec_Props
  imports Payload_Codec
begin

text \<open>
  The wire format reads back: every well-formed payload and envelope decodes to itself, so what the subscriber hands to
  its handler is the event that was published.
\<close>

section \<open>Members\<close>

lemma json_text_valid [simp]: "valid_utf8 s \<Longrightarrow> json_text s = s"
proof -
  assume "valid_utf8 s"
  then have "map (\<lambda>p. if valid_seg p then snd p else encode_rune rune_error) (segs s) = map snd (segs s)"
    by (simp add: valid_utf8_def list_all_iff)
  then have "json_text s = unsegs (segs s)" by (simp only: json_text_def unsegs_def)
  then show ?thesis by simp
qed

lemma valid_utf8_ascii: "ascii s \<Longrightarrow> valid_utf8 s"
  by (auto simp: valid_utf8_def segs_ascii list_all_iff valid_seg_def rune_error_def ascii_def)

lemma valid_utf8_Nil [simp]: "valid_utf8 []"
  by (simp add: valid_utf8_def)

lemma fold_name_ascii: "ascii s \<Longrightarrow> fold_name s = map (\<lambda>c. fold_rune (of_char c)) s"
  by (simp add: fold_name_def runes_ascii)

text \<open>Field lookup by name, one comparison at a time.\<close>

lemma field_for_Cons: "field_for ((n, d) # fs) k = (if fold_name n = fold_name k then Some d else field_for fs k)"
  by (simp add: field_for_def)

lemma field_for_Nil: "field_for [] k = None"
  by (simp add: field_for_def)

lemmas field_eval = field_for_Cons field_for_Nil fold_name_ascii ascii_Cons ascii_Nil fold_rune_def fld_defs

lemma mem_Cons: "mem k v @ ms = (k, v) # ms"
  by (simp add: mem_def)

lemma mem_last: "mem k v = [(k, v)]"
  by (simp add: mem_def)

text \<open>A member that is left out is as good as one that is \<open>null\<close>.\<close>

lemma opt_mem_null:
  "(\<forall>d. field_for fs k = Some d \<longrightarrow> d JNull p = Inr p) \<Longrightarrow>
   dec_members fs (opt_mem b k v @ ms) p = dec_members fs ((k, if b then v else JNull) # ms) p"
  by (auto simp: opt_mem_def split: option.splits)

lemma opt_mem_last:
  "(\<forall>d. field_for fs k = Some d \<longrightarrow> d JNull p = Inr p) \<Longrightarrow>
   dec_members fs (opt_mem b k v) p = dec_members fs [(k, if b then v else JNull)] p"
  using opt_mem_null [of fs k p b v "[]"] by simp

lemma dec_string_opt: "valid_utf8 s \<Longrightarrow> dec_string (if s \<noteq> [] then enc_str s else JNull) [] = Inr s"
  by (simp add: enc_str_def)

lemma dec_string_enc: "valid_utf8 s \<Longrightarrow> dec_string (enc_str s) old = Inr s"
  by (simp add: enc_str_def)

lemma dec_int_opt: "int64 n \<Longrightarrow> dec_int64 (if n \<noteq> 0 then JInt n else JNull) 0 = Inr n"
  by simp

lemma dec_bool_opt: "dec_bool (if b then JBool b else JNull) False = Inr b"
  by simp

text \<open>A number is a \<open>float64\<close>, and \<open>short\<close> writes it so that it reads back.\<close>

definition is_float :: "rat \<Rightarrow> bool" where
  "is_float x \<longleftrightarrow> float_fits x \<and> rnd64 x = x"

definition shortest :: "(rat \<Rightarrow> rat) \<Rightarrow> bool" where
  "shortest short \<longleftrightarrow> (\<forall>x. is_float x \<longrightarrow> float_fits (short x) \<and> rnd64 (short x) = x)"

lemma dec_float_enc: "shortest short \<Longrightarrow> is_float x \<Longrightarrow> dec_float (enc_float short x) old = Inr x"
  by (auto simp: shortest_def enc_float_def Let_def)

lemma dec_float_opt: "shortest short \<Longrightarrow> is_float x \<Longrightarrow> dec_float (if x \<noteq> 0 then enc_float short x else JNull) 0 = Inr x"
  by (simp add: dec_float_enc)

lemmas member_evals = mem_Cons mem_last opt_mem_null opt_mem_last dec_string_opt dec_string_enc dec_int_opt dec_bool_opt
  dec_float_enc dec_float_opt unmarshal_def field_eval

lemma call_started_back:
  "valid_utf8 (cs_from p) \<Longrightarrow> valid_utf8 (cs_to p) \<Longrightarrow> valid_utf8 (cs_mode p) \<Longrightarrow>
   unmarshal call_started_fields (Some (JObj (enc_call_started p))) call_started0 = Inr p"
  by (cases p) (simp add: enc_call_started_def call_started_fields_def call_started0_def member_evals)

lemma call_answered_back:
  "valid_utf8 (ca_answered_by p) \<Longrightarrow> int64 (ca_answer_delay_ms p) \<Longrightarrow>
   unmarshal call_answered_fields (Some (JObj (enc_call_answered p))) call_answered0 = Inr p"
  by (cases p) (simp add: enc_call_answered_def call_answered_fields_def call_answered0_def member_evals)

lemma stt_final_back:
  "shortest short \<Longrightarrow> valid_utf8 (sf_text p) \<Longrightarrow> valid_utf8 (sf_locale p) \<Longrightarrow> is_float (sf_confidence p) \<Longrightarrow>
   int64 (sf_audio_ms p) \<Longrightarrow> int64 (sf_vad_end_to_final_ms p) \<Longrightarrow>
   unmarshal stt_final_fields (Some (JObj (enc_stt_final short p))) stt_final0 = Inr p"
  by (cases p) (simp add: enc_stt_final_def stt_final_fields_def stt_final0_def member_evals)

lemma call_ended_back:
  "valid_utf8 (ce_reason p) \<Longrightarrow> int64 (ce_duration_ms p) \<Longrightarrow>
   unmarshal call_ended_fields (Some (JObj (enc_call_ended p))) call_ended0 = Inr p"
  by (cases p) (simp add: enc_call_ended_def call_ended_fields_def call_ended0_def member_evals)

lemma consent_captured_back:
  "valid_utf8 (cc_method p) \<Longrightarrow>
   unmarshal consent_captured_fields (Some (JObj (enc_consent_captured p))) consent_captured0 = Inr p"
  by (cases p) (simp add: enc_consent_captured_def consent_captured_fields_def consent_captured0_def member_evals)

lemma language_detected_back:
  "shortest short \<Longrightarrow> valid_utf8 (ld_locale p) \<Longrightarrow> is_float (ld_confidence p) \<Longrightarrow>
   unmarshal language_detected_fields (Some (JObj (enc_language_detected short p))) language_detected0 = Inr p"
  by (cases p) (simp add: enc_language_detected_def language_detected_fields_def language_detected0_def member_evals)

lemma language_switched_back:
  "valid_utf8 (ls_from p) \<Longrightarrow> valid_utf8 (ls_to p) \<Longrightarrow>
   unmarshal language_switched_fields (Some (JObj (enc_language_switched p))) language_switched0 = Inr p"
  by (cases p) (simp add: enc_language_switched_def language_switched_fields_def language_switched0_def member_evals)

lemma node_entered_back:
  "valid_utf8 (nen_node_type p) \<Longrightarrow>
   unmarshal node_entered_fields (Some (JObj (enc_node_entered p))) node_entered0 = Inr p"
  by (cases p) (simp add: enc_node_entered_def node_entered_fields_def node_entered0_def member_evals)

lemma node_exited_back:
  "valid_utf8 (nex_outcome p) \<Longrightarrow>
   unmarshal node_exited_fields (Some (JObj (enc_node_exited p))) node_exited0 = Inr p"
  by (cases p) (simp add: enc_node_exited_def node_exited_fields_def node_exited0_def member_evals)

lemma tool_invoked_back:
  "valid_utf8 (tin_tool p) \<Longrightarrow>
   unmarshal tool_invoked_fields (Some (JObj (enc_tool_invoked p))) tool_invoked0 = Inr p"
  by (cases p; cases "tin_args p") (simp_all add: enc_tool_invoked_def tool_invoked_fields_def tool_invoked0_def enc_raw_def opt_mem_def member_evals)

lemma tool_completed_back:
  "valid_utf8 (tco_tool p) \<Longrightarrow> int64 (tco_duration_ms p) \<Longrightarrow>
   unmarshal tool_completed_fields (Some (JObj (enc_tool_completed p))) tool_completed0 = Inr p"
  by (cases p; cases "tco_result p") (simp_all add: enc_tool_completed_def tool_completed_fields_def tool_completed0_def enc_raw_def opt_mem_def member_evals)

lemma var_assigned_back:
  "valid_utf8 (va_name p) \<Longrightarrow> va_value p \<noteq> None \<Longrightarrow>
   unmarshal var_assigned_fields (Some (JObj (enc_var_assigned p))) var_assigned0 = Inr p"
  by (cases p) (auto simp: enc_var_assigned_def var_assigned_fields_def var_assigned0_def enc_raw_def member_evals)

lemma dtmf_received_back:
  "valid_utf8 (dt_digits p) \<Longrightarrow>
   unmarshal dtmf_received_fields (Some (JObj (enc_dtmf_received p))) dtmf_received0 = Inr p"
  by (cases p) (simp add: enc_dtmf_received_def dtmf_received_fields_def dtmf_received0_def member_evals)

lemma transfer_initiated_back:
  "valid_utf8 (tri_target p) \<Longrightarrow> valid_utf8 (tri_reason p) \<Longrightarrow>
   unmarshal transfer_initiated_fields (Some (JObj (enc_transfer_initiated p))) transfer_initiated0 = Inr p"
  by (cases p) (simp add: enc_transfer_initiated_def transfer_initiated_fields_def transfer_initiated0_def member_evals)

lemma transfer_answered_back:
  "valid_utf8 (tra_target p) \<Longrightarrow> int64 (tra_wait_ms p) \<Longrightarrow>
   unmarshal transfer_answered_fields (Some (JObj (enc_transfer_answered p))) transfer_answered0 = Inr p"
  by (cases p) (simp add: enc_transfer_answered_def transfer_answered_fields_def transfer_answered0_def member_evals)

lemma recording_started_back:
  "valid_utf8 (rst_recording_id p) \<Longrightarrow>
   unmarshal recording_started_fields (Some (JObj (enc_recording_started p))) recording_started0 = Inr p"
  by (cases p) (simp add: enc_recording_started_def recording_started_fields_def recording_started0_def member_evals)

lemma error_raised_back:
  "valid_utf8 (er_code p) \<Longrightarrow> valid_utf8 (er_message p) \<Longrightarrow> valid_utf8 (er_stage p) \<Longrightarrow>
   unmarshal error_raised_fields (Some (JObj (enc_error_raised p))) error_raised0 = Inr p"
  by (cases p) (simp add: enc_error_raised_def error_raised_fields_def error_raised0_def member_evals)

lemma turn_latency_back:
  "int64 (tl_vad_end_to_stt_final_ms p) \<Longrightarrow> int64 (tl_stt_final_to_llm_first_token_ms p) \<Longrightarrow>
   int64 (tl_llm_first_token_to_tts_first_chunk_ms p) \<Longrightarrow> int64 (tl_perceived_ms p) \<Longrightarrow>
   dec_members turn_latency_fields (enc_turn_latency p) turn_latency0 = Inr p"
  by (cases p) (simp add: enc_turn_latency_def turn_latency_fields_def turn_latency0_def member_evals)

definition latency_ok :: "turn_latency \<Rightarrow> bool" where
  "latency_ok p \<longleftrightarrow> int64 (tl_vad_end_to_stt_final_ms p) \<and> int64 (tl_stt_final_to_llm_first_token_ms p) \<and>
     int64 (tl_llm_first_token_to_tts_first_chunk_ms p) \<and> int64 (tl_perceived_ms p)"

lemma agent_turn_completed_back:
  "valid_utf8 (at_text p) \<Longrightarrow> int64 (at_llm_tokens_in p) \<Longrightarrow> int64 (at_llm_tokens_out p) \<Longrightarrow> int64 (at_tts_chars p) \<Longrightarrow>
   latency_ok (at_latency p) \<Longrightarrow>
   unmarshal agent_turn_completed_fields (Some (JObj (enc_agent_turn_completed p))) agent_turn_completed0 = Inr p"
  by (cases p) (simp add: enc_agent_turn_completed_def agent_turn_completed_fields_def agent_turn_completed0_def
      latency_ok_def turn_latency_back member_evals)

section \<open>Payloads\<close>

text \<open>What a producer can put into a payload: valid text, 64-bit integers, \<open>float64\<close> numbers, a value that is set.\<close>

fun payload_ok :: "payload \<Rightarrow> bool" where
  "payload_ok (PCallStarted p) = (valid_utf8 (cs_from p) \<and> valid_utf8 (cs_to p) \<and> valid_utf8 (cs_mode p))"
| "payload_ok (PCallAnswered p) = (valid_utf8 (ca_answered_by p) \<and> int64 (ca_answer_delay_ms p))"
| "payload_ok (PCallEnded p) = (valid_utf8 (ce_reason p) \<and> int64 (ce_duration_ms p))"
| "payload_ok (PConsentCaptured p) = valid_utf8 (cc_method p)"
| "payload_ok (PLanguageDetected p) = (valid_utf8 (ld_locale p) \<and> is_float (ld_confidence p))"
| "payload_ok (PLanguageSwitched p) = (valid_utf8 (ls_from p) \<and> valid_utf8 (ls_to p))"
| "payload_ok (PNodeEntered p) = valid_utf8 (nen_node_type p)"
| "payload_ok (PNodeExited p) = valid_utf8 (nex_outcome p)"
| "payload_ok (PSTTFinal p) = (valid_utf8 (sf_text p) \<and> valid_utf8 (sf_locale p) \<and> is_float (sf_confidence p) \<and>
     int64 (sf_audio_ms p) \<and> int64 (sf_vad_end_to_final_ms p))"
| "payload_ok (PAgentTurnCompleted p) = (valid_utf8 (at_text p) \<and> int64 (at_llm_tokens_in p) \<and> int64 (at_llm_tokens_out p) \<and>
     int64 (at_tts_chars p) \<and> latency_ok (at_latency p))"
| "payload_ok (PToolInvoked p) = valid_utf8 (tin_tool p)"
| "payload_ok (PToolCompleted p) = (valid_utf8 (tco_tool p) \<and> int64 (tco_duration_ms p))"
| "payload_ok (PVarAssigned p) = (valid_utf8 (va_name p) \<and> va_value p \<noteq> None)"
| "payload_ok (PDTMFReceived p) = valid_utf8 (dt_digits p)"
| "payload_ok (PTransferInitiated p) = (valid_utf8 (tri_target p) \<and> valid_utf8 (tri_reason p))"
| "payload_ok (PTransferAnswered p) = (valid_utf8 (tra_target p) \<and> int64 (tra_wait_ms p))"
| "payload_ok (PRecordingStarted p) = valid_utf8 (rst_recording_id p)"
| "payload_ok (PErrorRaised p) = (valid_utf8 (er_code p) \<and> valid_utf8 (er_message p) \<and> valid_utf8 (er_stage p))"

text \<open>A raw message decodes, as the payload type of \<open>p\<close>, to \<open>p\<close> itself.\<close>

fun decodes_to :: "json option \<Rightarrow> payload \<Rightarrow> bool" where
  "decodes_to raw (PCallStarted p) \<longleftrightarrow> unmarshal call_started_fields raw call_started0 = Inr p"
| "decodes_to raw (PCallAnswered p) \<longleftrightarrow> unmarshal call_answered_fields raw call_answered0 = Inr p"
| "decodes_to raw (PCallEnded p) \<longleftrightarrow> unmarshal call_ended_fields raw call_ended0 = Inr p"
| "decodes_to raw (PConsentCaptured p) \<longleftrightarrow> unmarshal consent_captured_fields raw consent_captured0 = Inr p"
| "decodes_to raw (PLanguageDetected p) \<longleftrightarrow> unmarshal language_detected_fields raw language_detected0 = Inr p"
| "decodes_to raw (PLanguageSwitched p) \<longleftrightarrow> unmarshal language_switched_fields raw language_switched0 = Inr p"
| "decodes_to raw (PNodeEntered p) \<longleftrightarrow> unmarshal node_entered_fields raw node_entered0 = Inr p"
| "decodes_to raw (PNodeExited p) \<longleftrightarrow> unmarshal node_exited_fields raw node_exited0 = Inr p"
| "decodes_to raw (PSTTFinal p) \<longleftrightarrow> unmarshal stt_final_fields raw stt_final0 = Inr p"
| "decodes_to raw (PAgentTurnCompleted p) \<longleftrightarrow> unmarshal agent_turn_completed_fields raw agent_turn_completed0 = Inr p"
| "decodes_to raw (PToolInvoked p) \<longleftrightarrow> unmarshal tool_invoked_fields raw tool_invoked0 = Inr p"
| "decodes_to raw (PToolCompleted p) \<longleftrightarrow> unmarshal tool_completed_fields raw tool_completed0 = Inr p"
| "decodes_to raw (PVarAssigned p) \<longleftrightarrow> unmarshal var_assigned_fields raw var_assigned0 = Inr p"
| "decodes_to raw (PDTMFReceived p) \<longleftrightarrow> unmarshal dtmf_received_fields raw dtmf_received0 = Inr p"
| "decodes_to raw (PTransferInitiated p) \<longleftrightarrow> unmarshal transfer_initiated_fields raw transfer_initiated0 = Inr p"
| "decodes_to raw (PTransferAnswered p) \<longleftrightarrow> unmarshal transfer_answered_fields raw transfer_answered0 = Inr p"
| "decodes_to raw (PRecordingStarted p) \<longleftrightarrow> unmarshal recording_started_fields raw recording_started0 = Inr p"
| "decodes_to raw (PErrorRaised p) \<longleftrightarrow> unmarshal error_raised_fields raw error_raised0 = Inr p"

lemmas payload_back = call_started_back call_answered_back call_ended_back consent_captured_back language_detected_back
  language_switched_back node_entered_back node_exited_back stt_final_back agent_turn_completed_back tool_invoked_back
  tool_completed_back var_assigned_back dtmf_received_back transfer_initiated_back transfer_answered_back
  recording_started_back error_raised_back

lemma payload_decodes: "shortest short \<Longrightarrow> payload_ok p \<Longrightarrow> decodes_to (Some (marshal_payload short p)) p"
  by (cases p) (simp_all add: payload_back)

section \<open>Envelopes\<close>

definition type_ok :: "event_type \<Rightarrow> bool" where
  "type_ok t \<longleftrightarrow> type_of_name (type_name t) = t \<and> valid_utf8 (type_name t)"

definition kind_ok :: "redaction_kind \<Rightarrow> bool" where
  "kind_ok k \<longleftrightarrow> kind_of_name (kind_name k) = k \<and> valid_utf8 (kind_name k)"

lemma catalog_names: "map type_of_name (map type_name catalog) = catalog"
  by (simp add: catalog_def type_of_name_def)

lemma ascii_code: "ascii s \<longleftrightarrow> list_all (\<lambda>c. \<not> digit7 c) s"
proof -
  have "byte c < 0x80 \<longleftrightarrow> \<not> digit7 c" for c
    by (cases c) (auto simp: of_char_def horner_sum_simps)
  then show ?thesis by (simp add: ascii_def)
qed

lemma catalog_ascii: "list_all ascii (map type_name catalog)"
  by (simp add: catalog_def ascii_code)

lemma catalog_ok:
  assumes "t \<in> set catalog"
  shows "type_ok t"
proof -
  have "type_of_name (type_name t) = t" using catalog_names assms by (metis (no_types, lifting) comp_apply list.map_comp map_eq_conv list.map_ident)
  moreover have "ascii (type_name t)" using catalog_ascii assms by (simp add: list_all_iff)
  ultimately show ?thesis by (simp add: type_ok_def valid_utf8_ascii)
qed

lemma kind_names: "map kind_of_name (map kind_name kinds) = kinds"
  by (simp add: kinds_def kind_of_name_def)

lemma kinds_ascii: "list_all ascii (map kind_name kinds)"
  by (simp add: kinds_def ascii_code)

lemma kinds_ok:
  assumes "k \<in> set kinds"
  shows "kind_ok k"
proof -
  have "kind_of_name (kind_name k) = k" using kind_names assms by (metis (no_types, lifting) comp_apply list.map_comp map_eq_conv list.map_ident)
  moreover have "ascii (kind_name k)" using kinds_ascii assms by (simp add: list_all_iff)
  ultimately show ?thesis by (simp add: kind_ok_def valid_utf8_ascii)
qed

definition redaction_ok :: "redaction \<Rightarrow> bool" where
  "redaction_ok r \<longleftrightarrow> int64 (rd_start r) \<and> int64 (rd_end r) \<and> kind_ok (rd_kind r) \<and> valid_utf8 (rd_vault r)"

definition envelope_ok :: "envelope \<Rightarrow> bool" where
  "envelope_ok ev \<longleftrightarrow> valid_utf8 (EventID ev) \<and> valid_utf8 (CallID ev) \<and> valid_utf8 (TenantID ev) \<and> valid_utf8 (FlowID ev) \<and>
     int64 (FlowVersion ev) \<and> type_ok (Type ev) \<and> valid_utf8 (NodeID ev) \<and> Payload ev \<noteq> None \<and>
     list_all redaction_ok (Redactions ev)"

lemma redaction_back: "redaction_ok r \<Longrightarrow> dec_struct redaction_fields (enc_redaction r) redaction0 = Inr r"
  by (cases r) (simp add: redaction_ok_def kind_ok_def enc_redaction_def redaction_fields_def redaction0_def member_evals)

lemma redactions_back: "list_all redaction_ok rs \<Longrightarrow> dec_elems redaction_fields redaction0 (map enc_redaction rs) = Inr rs"
  by (induction rs) (simp_all add: redaction_back)

lemma redactions_opt:
  "list_all redaction_ok rs \<Longrightarrow>
   dec_slice redaction_fields redaction0 (if rs \<noteq> [] then JArr (map enc_redaction rs) else JNull) = Inr rs"
  by (simp add: redactions_back)

lemma seq_back: "dec_uint64 (JInt (uint q)) old = Inr q"
  using uint_lt2p [of q] by simp

lemma envelope_back:
  assumes "envelope_ok ev" "format (TS ev) = Inr ts" "parse ts = Inr (TS ev)"
  shows "\<exists>j. marshal_envelope format ev = Inr j \<and> unmarshal_envelope parse (Some j) = Inr ev"
proof -
  obtain i c q t n f v ty nd pl rs where ev: "ev = \<lparr>EventID = i, CallID = c, Seq = q, TS = t, TenantID = n, FlowID = f,
      FlowVersion = v, Type = ty, NodeID = nd, Payload = pl, Redactions = rs\<rparr>" by (cases ev)
  then obtain j where j: "pl = Some j" using assms(1) by (auto simp: envelope_ok_def)
  show ?thesis
    using assms uint_lt2p [of q]
    by (simp add: ev j envelope_ok_def type_ok_def marshal_envelope_def unmarshal_envelope_def envelope_fields_def
        envelope0_def enc_raw_def redactions_opt seq_back member_evals)
qed

text \<open>The payload decides the type a producer gives the event.\<close>

fun payload_type :: "payload \<Rightarrow> event_type" where
  "payload_type (PCallStarted p) = TypeCallStarted"
| "payload_type (PCallAnswered p) = TypeCallAnswered"
| "payload_type (PCallEnded p) = TypeCallEnded"
| "payload_type (PConsentCaptured p) = TypeConsentCaptured"
| "payload_type (PLanguageDetected p) = TypeLanguageDetected"
| "payload_type (PLanguageSwitched p) = TypeLanguageSwitched"
| "payload_type (PNodeEntered p) = TypeNodeEntered"
| "payload_type (PNodeExited p) = TypeNodeExited"
| "payload_type (PSTTFinal p) = TypeSTTFinal"
| "payload_type (PAgentTurnCompleted p) = TypeAgentTurnCompleted"
| "payload_type (PToolInvoked p) = TypeToolInvoked"
| "payload_type (PToolCompleted p) = TypeToolCompleted"
| "payload_type (PVarAssigned p) = TypeVarAssigned"
| "payload_type (PDTMFReceived p) = TypeDTMFReceived"
| "payload_type (PTransferInitiated p) = TypeTransferInitiated"
| "payload_type (PTransferAnswered p) = TypeTransferAnswered"
| "payload_type (PRecordingStarted p) = TypeRecordingStarted"
| "payload_type (PErrorRaised p) = TypeErrorRaised"

lemma payload_type_ok: "type_ok (payload_type p)"
  by (rule catalog_ok) (cases p; simp add: catalog_def)

text \<open>
  C18: an event survives the wire. A well-formed payload that \<open>New\<close> wraps, that \<open>json.Marshal\<close> writes and that the
  subscriber reads reaches the handler as the very event that was built, and its payload decodes as the typed
  payload of the producer.
\<close>

theorem event_survives_the_wire:
  assumes "shortest short" and "payload_ok p"
    and "New i c q t n f v (payload_type p) nd (Inr (marshal_payload short p)) rs = Inr ev"
    and "list_all valid_utf8 [i, c, n, f, nd]" and "int64 v" and "list_all redaction_ok rs"
    and "format t = Inr ts" and "parse ts = Inr t"
  shows "\<exists>j. marshal_envelope format ev = Inr j \<and> on_data parse h (Some j) d w = on_msg h (Inr ev) d w \<and>
     decodes_to (Payload ev) p"
proof -
  have ev: "ev = \<lparr>EventID = i, CallID = c, Seq = q, TS = t, TenantID = n, FlowID = f, FlowVersion = v, Type = payload_type p,
      NodeID = nd, Payload = Some (marshal_payload short p), Redactions = rs\<rparr>"
    using assms(3) by (simp add: New_def)
  have "envelope_ok ev" using assms(4-6) payload_type_ok [of p] by (simp add: ev envelope_ok_def)
  moreover have "format (TS ev) = Inr ts" "parse ts = Inr (TS ev)" using assms(7,8) by (simp_all add: ev)
  ultimately obtain j where "marshal_envelope format ev = Inr j" "unmarshal_envelope parse (Some j) = Inr ev"
    using envelope_back by blast
  moreover have "decodes_to (Payload ev) p" using payload_decodes [OF assms(1,2)] by (simp add: ev)
  ultimately show ?thesis by (auto simp: on_data_def)
qed

theorem event_survives_the_wire_witness:
  "\<exists>ev j. New ''e1'' ''c1'' 3 7 ''t1'' [] 1 TypeDTMFReceived [] (Inr (marshal_payload id (PDTMFReceived \<lparr>dt_digits = ''42''\<rparr>))) [] = Inr ev \<and>
     marshal_envelope (\<lambda>t. Inr ''2026-08-13T15:04:05Z'') ev = Inr j \<and>
     unmarshal dtmf_received_fields (Payload ev) dtmf_received0 = Inr \<lparr>dt_digits = ''42''\<rparr>"
proof -
  let ?p = "PDTMFReceived \<lparr>dt_digits = ''42''\<rparr>"
  have s: "shortest id" by (simp add: shortest_def is_float_def)
  have v: "valid_utf8 ''42''" "list_all valid_utf8 [''e1'', ''c1'', ''t1'', [], []]"
    by (simp_all add: valid_utf8_ascii ascii_code)
  have p: "payload_ok ?p" by (simp add: v)
  obtain ev where e: "New ''e1'' ''c1'' 3 7 ''t1'' [] 1 (payload_type ?p) [] (Inr (marshal_payload id ?p)) [] = Inr ev"
    by (simp add: New_def)
  have "\<exists>j. marshal_envelope (\<lambda>t. Inr ''2026-08-13T15:04:05Z'') ev = Inr j \<and>
      on_data (\<lambda>s. Inr 7) (\<lambda>ev w. (None, w)) (Some j) Map.empty () = on_msg (\<lambda>ev w. (None, w)) (Inr ev) Map.empty () \<and>
      decodes_to (Payload ev) ?p"
    by (rule event_survives_the_wire [OF s p e v(2)]) (simp_all add: int64_def)
  with e show ?thesis by auto
qed

text \<open>
  A variable assigned without a value does not come back as it was: the nil raw message is written as \<open>null\<close>, so the
  reader sees the JSON value \<open>null\<close> where the writer had none.
\<close>

lemma unset_value_comes_back_null:
  "valid_utf8 n \<Longrightarrow> unmarshal var_assigned_fields (Some (JObj (enc_var_assigned \<lparr>va_name = n, va_value = None\<rparr>))) var_assigned0 =
     Inr \<lparr>va_name = n, va_value = Some JNull\<rparr>"
  by (simp add: enc_var_assigned_def var_assigned_fields_def var_assigned0_def enc_raw_def member_evals)

end
