(* ===== verification/Bus_Bill.thy ===== *)
theory Bus_Bill
  imports Codec_Props Billing
begin

text \<open>
  The events of a tenant written to the wire, delivered by the server in any order and more than once, read by the
  subscriber and billed.
\<close>

text \<open>
  A consumer: each event is written, carried and given to the subscriber's callback. The second argument of
  \<open>consume\<close> is what the callback and the handler have kept so far.
\<close>

fun consume :: "(gotime \<Rightarrow> string res) \<Rightarrow> (string \<Rightarrow> gotime res) \<Rightarrow> 'w handler \<Rightarrow> envelope list \<Rightarrow> seq_dedup \<times> 'w \<Rightarrow> seq_dedup \<times> 'w" where
  "consume format parse h [] dw = dw"
| "consume format parse h (ev # evs) (d, w) =
     consume format parse h evs
       (case marshal_envelope format ev of Inl e \<Rightarrow> (d, w) | Inr j \<Rightarrow> snd (on_data parse h (Some j) d w))"

text \<open>The handlers that keep every event they are given and never fail.\<close>

definition recorder :: "('w \<Rightarrow> envelope list) \<Rightarrow> 'w handler \<Rightarrow> bool" where
  "recorder recorded h \<longleftrightarrow> (\<forall>ev w. fst (h ev w) = None \<and> recorded (snd (h ev w)) = recorded w @ [ev])"

text \<open>The events that the wire gives back as they were, with the text form of times that is in use.\<close>

definition carried :: "(gotime \<Rightarrow> string res) \<Rightarrow> (string \<Rightarrow> gotime res) \<Rightarrow> envelope \<Rightarrow> bool" where
  "carried format parse ev \<longleftrightarrow> envelope_ok ev \<and> (\<exists>ts. format (TS ev) = Inr ts \<and> parse ts = Inr (TS ev))"

lemma consume_step:
  assumes "recorder recorded h" "carried format parse ev"
    and "\<forall>c q. q \<in> seen_seqs d c \<longrightarrow> (c, q) \<in> ev_key ` set (recorded w)"
    and "inj_on ev_key P" "set (recorded w) \<subseteq> P" "ev \<in> P"
  shows "\<exists>j r d' w'. marshal_envelope format ev = Inr j \<and> on_data parse h (Some j) d w = (r, d', w') \<and>
     set (recorded w') = insert ev (set (recorded w)) \<and>
     (\<forall>c q. q \<in> seen_seqs d' c \<longrightarrow> (c, q) \<in> ev_key ` set (recorded w'))"
proof -
  from assms(2) obtain ts where o: "envelope_ok ev" "format (TS ev) = Inr ts" "parse ts = Inr (TS ev)"
    by (auto simp: carried_def)
  from envelope_back [where format = format and parse = parse, OF o] obtain j where
    j: "marshal_envelope format ev = Inr j" "unmarshal_envelope parse (Some j) = Inr ev" by blast
  obtain dup d1 where d: "is_duplicate (CallID ev) (Seq ev) d = (dup, d1)" by fastforce
  obtain w1 where h: "h ev w = (None, w1)" "recorded w1 = recorded w @ [ev]"
    using assms(1) unfolding recorder_def by (metis prod.collapse)
  have sn: "seen_seqs d1 c = (if c = CallID ev then insert (Seq ev) (seen_seqs d (CallID ev)) else seen_seqs d c)" for c
    using seen_after [of "CallID ev" "Seq ev" d c] d by simp
  show ?thesis
  proof (cases dup)
    case True
    then have "Seq ev \<in> seen_seqs d (CallID ev)" using duplicate_iff [of "CallID ev" "Seq ev" d] d by simp
    then have k: "ev_key ev \<in> ev_key ` set (recorded w)" using assms(3) by simp
    then obtain e where e: "ev_key ev = ev_key e" "e \<in> set (recorded w)" by (rule imageE)
    then have "ev = e" using inj_onD [OF assms(4) e(1) assms(6)] assms(5) by blast
    with e have ev: "ev \<in> set (recorded w)" by simp
    have "on_data parse h (Some j) d w = (Ack, d1, w)" by (simp add: on_data_def j(2) on_msg_def d True)
    moreover have "\<forall>c q. q \<in> seen_seqs d1 c \<longrightarrow> (c, q) \<in> ev_key ` set (recorded w)"
      using assms(3) k by (simp add: sn)
    ultimately show ?thesis
      using j(1) insert_absorb [OF ev] by (intro exI [of _ j] exI [of _ Ack] exI [of _ d1] exI [of _ w]) simp
  next
    case False
    define d2 where "d2 = (if Type ev = TypeCallEnded then forget (CallID ev) d1 else d1)"
    have "on_data parse h (Some j) d w = (Ack, d2, w1)" by (simp add: on_data_def j(2) on_msg_def d False h(1) d2_def)
    moreover have "\<forall>c q. q \<in> seen_seqs d2 c \<longrightarrow> (c, q) \<in> ev_key ` set (recorded w1)"
      using assms(3) by (auto simp: d2_def sn h(2) split: if_splits)
    ultimately show ?thesis
      using j(1) h(2) by (intro exI [of _ j] exI [of _ Ack] exI [of _ d2] exI [of _ w1]) simp
  qed
qed

lemma consume_records:
  assumes "recorder recorded h" "inj_on ev_key P"
  shows "\<forall>ev \<in> set evs. carried format parse ev \<and> ev \<in> P \<Longrightarrow> set (recorded w) \<subseteq> P \<Longrightarrow>
     \<forall>c q. q \<in> seen_seqs d c \<longrightarrow> (c, q) \<in> ev_key ` set (recorded w) \<Longrightarrow>
     set (recorded (snd (consume format parse h evs (d, w)))) = set (recorded w) \<union> set evs"
proof (induction evs arbitrary: d w)
  case (Cons ev evs)
  from Cons.prems have e: "carried format parse ev" "ev \<in> P" by auto
  from consume_step [OF assms(1) e(1) Cons.prems(3) assms(2) Cons.prems(2) e(2)] obtain j r d' w' where
    s: "marshal_envelope format ev = Inr j" "on_data parse h (Some j) d w = (r, d', w')"
      "set (recorded w') = insert ev (set (recorded w))"
      "\<forall>c q. q \<in> seen_seqs d' c \<longrightarrow> (c, q) \<in> ev_key ` set (recorded w')" by blast
  have "set (recorded w') \<subseteq> P" using s(3) e(2) Cons.prems(2) by simp
  from Cons.IH [OF _ this s(4)] Cons.prems(1) show ?case by (simp add: s(1-3))
qed simp



end
