(* ===== verification/Snapshot_Codec.thy ===== *)
theory Snapshot_Codec
  imports Payload_Codec Domain "HOL-Library.List_Lexorder" "HOL-Library.Char_ord"
begin

text \<open>
  The snapshot of a call as JSON (the field tags of \<open>fold.go\<close>), as \<open>PutCall\<close> writes it into the \<open>jsonb\<close> column and
  \<open>scanCall\<close> reads it back (\<open>internal/store/pgstore.go\<close>). The text form of times and the shortest form of a number
  are arguments, as in \<open>Payload_Codec\<close>.
\<close>

section \<open>Writing\<close>

text \<open>A time under \<open>omitzero\<close>; the writer of times is not asked for a zero one.\<close>

definition enc_time :: "(gotime \<Rightarrow> string res) \<Rightarrow> gotime \<Rightarrow> json res" where
  "enc_time format t = (if is_zero t then Inr JNull else map_sum id JStr (format t))"

definition enc_entry :: "string \<Rightarrow> transcript_entry \<Rightarrow> json" where
  "enc_entry ts t = JObj (mem ''seq'' (JInt (uint (te_seq t))) @ mem ''ts'' (JStr ts) @
     mem ''speaker'' (enc_str (speaker_name (te_speaker t))) @ mem ''text'' (enc_str (te_text t)) @
     opt_mem (te_redactions t \<noteq> []) ''redactions'' (JArr (map enc_redaction (te_redactions t))) @
     opt_mem (te_interrupted t) ''interrupted'' (JBool (te_interrupted t)))"

fun enc_transcript :: "(gotime \<Rightarrow> string res) \<Rightarrow> transcript_entry list \<Rightarrow> json list res" where
  "enc_transcript format [] = Inr []"
| "enc_transcript format (t # ts) =
     (case format (te_ts t) of
        Inl e \<Rightarrow> Inl e
      | Inr s \<Rightarrow> map_sum id (\<lambda>js. enc_entry s t # js) (enc_transcript format ts))"

definition enc_budget :: "budget \<Rightarrow> json" where
  "enc_budget b = JObj (mem ''stage'' (enc_str (bg_stage b)) @ mem ''errorCount'' (JInt (bg_error_count b)))"

definition enc_usage :: "(rat \<Rightarrow> rat) \<Rightarrow> usage \<Rightarrow> json" where
  "enc_usage short u = JObj (mem ''callMinutes'' (JInt (CallMinutes u)) @ mem ''sttSeconds'' (enc_float short (STTSeconds u)) @
     mem ''llmTokensIn'' (JInt (LLMTokensIn u)) @ mem ''llmTokensOut'' (JInt (LLMTokensOut u)) @ mem ''ttsChars'' (JInt (TTSChars u)))"

text \<open>A map is written in the order of its keys; the orders of characters and of lists are those of bytes and strings.\<close>

definition enc_vars :: "(string \<rightharpoonup> json option) \<Rightarrow> json" where
  "enc_vars m = JObj (map (\<lambda>k. (json_text k, enc_raw (Option.bind (m k) id))) (sorted_list_of_set (dom m)))"

definition marshal_snapshot :: "(gotime \<Rightarrow> string res) \<Rightarrow> (rat \<Rightarrow> rat) \<Rightarrow> call_snapshot \<Rightarrow> json res" where
  "marshal_snapshot format short s =
     (case enc_time format (sn_started_at s) of Inl e \<Rightarrow> Inl e | Inr started \<Rightarrow>
     (case enc_time format (sn_ended_at s) of Inl e \<Rightarrow> Inl e | Inr ended \<Rightarrow>
     (case enc_transcript format (sn_transcript s) of Inl e \<Rightarrow> Inl e | Inr entries \<Rightarrow>
       Inr (JObj
         (mem ''callId'' (enc_str (sn_call_id s)) @ mem ''tenantId'' (enc_str (sn_tenant_id s)) @
          mem ''flowId'' (enc_str (sn_flow_id s)) @ mem ''flowVersion'' (JInt (sn_flow_version s)) @
          mem ''status'' (enc_str (status_name (sn_status s))) @
          opt_mem (\<not> is_zero (sn_started_at s)) ''startedAt'' started @
          opt_mem (\<not> is_zero (sn_ended_at s)) ''endedAt'' ended @
          opt_mem (sn_end_reason s \<noteq> []) ''endReason'' (enc_str (sn_end_reason s)) @
          mem ''consentCaptured'' (JBool (sn_consent_captured s)) @ mem ''consentGranted'' (JBool (sn_consent_granted s)) @
          mem ''recording'' (JBool (sn_recording s)) @
          opt_mem (sn_locale s \<noteq> []) ''locale'' (enc_str (sn_locale s)) @
          opt_mem (sn_locale_history s \<noteq> []) ''localeHistory'' (JArr (map enc_str (sn_locale_history s))) @
          opt_mem (sn_cursor s \<noteq> []) ''cursor'' (enc_str (sn_cursor s)) @
          opt_mem (sn_path s \<noteq> []) ''path'' (JArr (map enc_str (sn_path s))) @
          opt_mem (sn_vars s \<noteq> Map.empty) ''vars'' (enc_vars (sn_vars s)) @
          opt_mem (sn_transcript s \<noteq> []) ''transcript'' (JArr entries) @
          opt_mem (sn_turn_latencies s \<noteq> []) ''turnLatencies'' (JArr (map (\<lambda>l. JObj (enc_turn_latency l)) (sn_turn_latencies s))) @
          mem ''budget'' (enc_budget (sn_budget s)) @ mem ''usage'' (enc_usage short (sn_usage s)) @
          mem ''lastSeq'' (JInt (uint (sn_last_seq s))))))))"

section \<open>Reading\<close>

definition statuses :: "call_status list" where
  "statuses = [StatusUnknown, StatusStarted, StatusAnswered, StatusTransferring, StatusTransferred, StatusEnded]"

definition status_of_name :: "string \<Rightarrow> call_status" where
  "status_of_name s = (case find (\<lambda>t. status_name t = s) statuses of Some t \<Rightarrow> t | None \<Rightarrow> StatusOther s)"

definition speaker_of_name :: "string \<Rightarrow> speaker" where
  "speaker_of_name s = (case find (\<lambda>t. speaker_name t = s) [SpeakerCaller, SpeakerAgent] of Some t \<Rightarrow> t | None \<Rightarrow> SpeakerOther s)"

fun dec_strings :: "json list \<Rightarrow> string list res" where
  "dec_strings [] = Inr []"
| "dec_strings (j # js) = (case dec_string j [] of Inl e \<Rightarrow> Inl e | Inr s \<Rightarrow> map_sum id (\<lambda>ss. s # ss) (dec_strings js))"

fun dec_string_slice :: "json \<Rightarrow> string list res" where
  "dec_string_slice (JArr js) = dec_strings js"
| "dec_string_slice JNull = Inr []"
| "dec_string_slice _ = Inl json_type_error"

text \<open>A map keeps what it had; \<open>null\<close> makes it nil. A raw message keeps every value, \<open>null\<close> too.\<close>

fun dec_raw_map :: "json \<Rightarrow> (string \<rightharpoonup> json option) \<Rightarrow> (string \<rightharpoonup> json option) res" where
  "dec_raw_map (JObj ms) m = Inr (foldl (\<lambda>m (k, v). m(k \<mapsto> Some v)) m ms)"
| "dec_raw_map JNull m = Inr Map.empty"
| "dec_raw_map _ m = Inl json_type_error"

definition transcript_entry0 :: transcript_entry where
  "transcript_entry0 = \<lparr>te_seq = 0, te_ts = 0, te_speaker = SpeakerOther [], te_text = [], te_redactions = [], te_interrupted = False\<rparr>"

definition entry_fields :: "(string \<Rightarrow> gotime res) \<Rightarrow> transcript_entry fields" where
  "entry_fields parse =
     [(''seq'', \<lambda>j t. map_sum id (\<lambda>v. t\<lparr>te_seq := v\<rparr>) (dec_uint64 j (te_seq t))),
      (''ts'', \<lambda>j t. map_sum id (\<lambda>v. t\<lparr>te_ts := v\<rparr>) (dec_time parse j (te_ts t))),
      fld_string ''speaker'' (\<lambda>t. speaker_name (te_speaker t)) (\<lambda>v. te_speaker_update (\<lambda>_. speaker_of_name v)),
      fld_string ''text'' te_text (\<lambda>v. te_text_update (\<lambda>_. v)),
      (''redactions'', \<lambda>j t. map_sum id (\<lambda>v. t\<lparr>te_redactions := v\<rparr>) (dec_slice redaction_fields redaction0 j)),
      fld_bool ''interrupted'' te_interrupted (\<lambda>v. te_interrupted_update (\<lambda>_. v))]"

definition budget_fields :: "budget fields" where
  "budget_fields =
     [fld_string ''stage'' bg_stage (\<lambda>v. bg_stage_update (\<lambda>_. v)),
      fld_int ''errorCount'' bg_error_count (\<lambda>v. bg_error_count_update (\<lambda>_. v))]"

definition usage_fields :: "usage fields" where
  "usage_fields =
     [fld_int ''callMinutes'' CallMinutes (\<lambda>v. CallMinutes_update (\<lambda>_. v)),
      fld_float ''sttSeconds'' STTSeconds (\<lambda>v. STTSeconds_update (\<lambda>_. v)),
      fld_int ''llmTokensIn'' LLMTokensIn (\<lambda>v. LLMTokensIn_update (\<lambda>_. v)),
      fld_int ''llmTokensOut'' LLMTokensOut (\<lambda>v. LLMTokensOut_update (\<lambda>_. v)),
      fld_int ''ttsChars'' TTSChars (\<lambda>v. TTSChars_update (\<lambda>_. v))]"

definition snapshot_fields :: "(string \<Rightarrow> gotime res) \<Rightarrow> call_snapshot fields" where
  "snapshot_fields parse =
     [fld_string ''callId'' sn_call_id (\<lambda>v. sn_call_id_update (\<lambda>_. v)),
      fld_string ''tenantId'' sn_tenant_id (\<lambda>v. sn_tenant_id_update (\<lambda>_. v)),
      fld_string ''flowId'' sn_flow_id (\<lambda>v. sn_flow_id_update (\<lambda>_. v)),
      fld_int ''flowVersion'' sn_flow_version (\<lambda>v. sn_flow_version_update (\<lambda>_. v)),
      fld_string ''status'' (\<lambda>s. status_name (sn_status s)) (\<lambda>v. sn_status_update (\<lambda>_. status_of_name v)),
      (''startedAt'', \<lambda>j s. map_sum id (\<lambda>v. s\<lparr>sn_started_at := v\<rparr>) (dec_time parse j (sn_started_at s))),
      (''endedAt'', \<lambda>j s. map_sum id (\<lambda>v. s\<lparr>sn_ended_at := v\<rparr>) (dec_time parse j (sn_ended_at s))),
      fld_string ''endReason'' sn_end_reason (\<lambda>v. sn_end_reason_update (\<lambda>_. v)),
      fld_bool ''consentCaptured'' sn_consent_captured (\<lambda>v. sn_consent_captured_update (\<lambda>_. v)),
      fld_bool ''consentGranted'' sn_consent_granted (\<lambda>v. sn_consent_granted_update (\<lambda>_. v)),
      fld_bool ''recording'' sn_recording (\<lambda>v. sn_recording_update (\<lambda>_. v)),
      fld_string ''locale'' sn_locale (\<lambda>v. sn_locale_update (\<lambda>_. v)),
      (''localeHistory'', \<lambda>j s. map_sum id (\<lambda>v. s\<lparr>sn_locale_history := v\<rparr>) (dec_string_slice j)),
      fld_string ''cursor'' sn_cursor (\<lambda>v. sn_cursor_update (\<lambda>_. v)),
      (''path'', \<lambda>j s. map_sum id (\<lambda>v. s\<lparr>sn_path := v\<rparr>) (dec_string_slice j)),
      (''vars'', \<lambda>j s. map_sum id (\<lambda>v. s\<lparr>sn_vars := v\<rparr>) (dec_raw_map j (sn_vars s))),
      (''transcript'', \<lambda>j s. map_sum id (\<lambda>v. s\<lparr>sn_transcript := v\<rparr>) (dec_slice (entry_fields parse) transcript_entry0 j)),
      (''turnLatencies'', \<lambda>j s. map_sum id (\<lambda>v. s\<lparr>sn_turn_latencies := v\<rparr>) (dec_slice turn_latency_fields turn_latency0 j)),
      fld_struct ''budget'' budget_fields sn_budget (\<lambda>v. sn_budget_update (\<lambda>_. v)),
      fld_struct ''usage'' usage_fields sn_usage (\<lambda>v. sn_usage_update (\<lambda>_. v)),
      (''lastSeq'', \<lambda>j s. map_sum id (\<lambda>v. s\<lparr>sn_last_seq := v\<rparr>) (dec_uint64 j (sn_last_seq s)))]"

text \<open>The zero value of the struct, which is not the start of a fold: the stage is empty.\<close>

definition zero_snapshot :: call_snapshot where
  "zero_snapshot = snapshot0\<lparr>sn_budget := \<lparr>bg_stage = [], bg_error_count = 0\<rparr>\<rparr>"

definition unmarshal_snapshot :: "(string \<Rightarrow> gotime res) \<Rightarrow> json option \<Rightarrow> call_snapshot res" where
  "unmarshal_snapshot parse raw = unmarshal (snapshot_fields parse) raw zero_snapshot"

section \<open>Rows of the table of calls\<close>

text \<open>The values \<open>PutCall\<close> gives to the statement; without a call identifier it does not come to that.\<close>

definition call_row :: "(gotime \<Rightarrow> string res) \<Rightarrow> (rat \<Rightarrow> rat) \<Rightarrow> call \<Rightarrow> (json \<times> string) res" where
  "call_row format short c =
     (if call_ID c = [] then Inl (Errf ''put call: missing call id'' [])
      else (case marshal_snapshot format short (ca_snapshot c) of
              Inl e \<Rightarrow> Inl (Wrap ''put call: marshal snapshot: %w'' [] e)
            | Inr j \<Rightarrow> Inr (j, ca_recording_url c)))"

text \<open>\<open>scanCall\<close>, given what \<open>row.Scan\<close> answers.\<close>

definition scanCall :: "(string \<Rightarrow> gotime res) \<Rightarrow> (json \<times> string) res \<Rightarrow> call res" where
  "scanCall parse scanned =
     (case scanned of
        Inl e \<Rightarrow> Inl e
      | Inr (snapshot, url) \<Rightarrow>
          (case unmarshal_snapshot parse (Some snapshot) of
             Inl e \<Rightarrow> Inl (Wrap ''unmarshal snapshot: %w'' [] e)
           | Inr s \<Rightarrow> Inr \<lparr>ca_snapshot = s, ca_recording_url = url\<rparr>))"

end
