(* ===== verification/Go_Float.thy ===== *)
theory Go_Float
  imports Go_Json
begin

text \<open>
  What the model of \<open>float64\<close> guarantees: rounding is idempotent, keeps a bound that is a power of two, and swallows what
  is far below the last place.
\<close>

lemma pow2_powi: "pow2 k = 2 powi k"
  by (simp add: pow2_def power_int_def power_one_over inverse_eq_divide)

lemma pow2_add: "pow2 (a + b) = pow2 a * pow2 b"
  by (simp add: pow2_powi power_int_add)

lemma pow2_pos [simp]: "0 < pow2 k"
  by (simp add: pow2_def)

lemma pow2_simps [simp]: "\<bar>pow2 k\<bar> = pow2 k" "\<not> pow2 k \<le> 0" "0 \<le> pow2 k" "pow2 k \<noteq> 0"
  using pow2_pos [of k] by (simp_all add: less_imp_le del: pow2_pos)

lemma pow2_nat: "0 \<le> k \<Longrightarrow> pow2 k = 2 ^ nat k"
  by (simp add: pow2_def)

lemma pow2_less_iff [simp]: "pow2 a < pow2 b \<longleftrightarrow> a < b"
proof (cases a b rule: linorder_cases)
  case less
  then show ?thesis using power_int_strict_increasing [of a b "2 :: rat"] by (simp add: pow2_powi)
next
  case greater
  then show ?thesis using power_int_strict_increasing [of b a "2 :: rat"] by (simp add: pow2_powi)
qed simp

lemma pow2_le_iff [simp]: "pow2 a \<le> pow2 b \<longleftrightarrow> a \<le> b"
  using pow2_less_iff [of b a] by (simp add: linorder_not_less [symmetric] del: pow2_less_iff)

lemma pow2_minus: "pow2 (- a) = 1 / pow2 a"
  using pow2_add [of a "- a"] by (simp add: eq_divide_eq mult.commute) (simp add: pow2_def)

section \<open>Exponents\<close>

lemma bitlen_pow2:
  assumes "0 < n"
  shows "pow2 (bitlen n - 1) \<le> of_int n" and "of_int n < pow2 (bitlen n)"
proof -
  have b: "1 \<le> bitlen n" "2 ^ nat (bitlen n - 1) \<le> n" "n < 2 ^ nat (bitlen n)"
    using bitlen_bounds [OF assms] bitlen_nonneg [of n] bitlen_le_iff_power [of n 0] assms by auto
  from b(1,2) show "pow2 (bitlen n - 1) \<le> of_int n" unfolding pow2_def by (simp flip: of_int_power)
  from b(1,3) show "of_int n < pow2 (bitlen n)" unfolding pow2_def by (simp flip: of_int_power)
qed

lemma ilog2_ratio:
  assumes "0 < n" "0 < d"
  shows "pow2 (ilog2_ratio n d) \<le> of_int n / of_int d \<and> of_int n / of_int d < pow2 (ilog2_ratio n d + 1)"
proof -
  define k where "k = bitlen n - bitlen d"
  let ?q = "of_int n / of_int d :: rat"
  have d: "(0 :: rat) < of_int d" using assms by simp
  have "of_int n < pow2 (bitlen n)" "pow2 (bitlen d - 1) \<le> of_int d" using bitlen_pow2 assms by blast+
  moreover have "pow2 (bitlen n) = pow2 (k + 1) * pow2 (bitlen d - 1)" by (simp add: k_def flip: pow2_add)
  ultimately have "of_int n < pow2 (k + 1) * of_int d"
    by (metis less_le_trans mult_left_mono less_imp_le pow2_pos)
  then have up: "?q < pow2 (k + 1)" using d by (simp add: divide_less_eq)
  have "pow2 (bitlen n - 1) \<le> of_int n" "of_int d < pow2 (bitlen d)" using bitlen_pow2 assms by blast+
  moreover have "pow2 (bitlen n - 1) = pow2 (k - 1) * pow2 (bitlen d)" by (simp add: k_def flip: pow2_add)
  ultimately have "pow2 (k - 1) * of_int d \<le> of_int n"
    by (metis order_trans mult_left_mono less_imp_le pow2_pos)
  then have low: "pow2 (k - 1) \<le> ?q" using d by (simp add: le_divide_eq)
  have t: "(if 0 \<le> k then n < 2 ^ nat k * d else n * 2 ^ nat (- k) < d) \<longleftrightarrow> ?q < pow2 k"
  proof (cases "0 \<le> k")
    case True
    have "?q < pow2 k \<longleftrightarrow> (of_int n :: rat) < of_int (2 ^ nat k * d)"
      using d True by (simp add: pow2_def divide_less_eq)
    with True show ?thesis by (simp only: of_int_less_iff) simp
  next
    case False
    have "?q < pow2 k \<longleftrightarrow> (of_int (n * 2 ^ nat (- k)) :: rat) < of_int d"
      using d False by (simp add: pow2_def divide_less_eq field_simps)
    with False show ?thesis by (simp only: of_int_less_iff) simp
  qed
  then show ?thesis using up low by (auto simp: ilog2_ratio_def k_def [symmetric] Let_def not_less)
qed

definition expo :: "rat \<Rightarrow> int" where
  "expo x = (case quotient_of \<bar>x\<bar> of (n, d) \<Rightarrow> ilog2_ratio n d)"

lemma expo_bounds:
  assumes "x \<noteq> 0"
  shows "pow2 (expo x) \<le> \<bar>x\<bar> \<and> \<bar>x\<bar> < pow2 (expo x + 1)"
proof -
  obtain n d where q: "quotient_of \<bar>x\<bar> = (n, d)" by fastforce
  have d: "0 < d" using quotient_of_denom_pos [OF q] .
  have x: "\<bar>x\<bar> = of_int n / of_int d" using quotient_of_div [OF q] .
  have "0 < n" using assms d x by (metis abs_eq_0 abs_ge_zero divide_eq_0_iff le_less of_int_0_less_iff zero_less_divide_iff not_less_iff_gr_or_eq)
  moreover have "expo x = ilog2_ratio n d" by (simp add: expo_def q)
  ultimately show ?thesis using ilog2_ratio [of n d] d by (simp add: x)
qed

lemma expo_eq:
  assumes "pow2 e \<le> \<bar>x\<bar>" "\<bar>x\<bar> < pow2 (e + 1)"
  shows "expo x = e"
proof -
  have "x \<noteq> 0" using assms(1) pow2_pos [of e] by auto
  from expo_bounds [OF this] assms have "pow2 (expo x) < pow2 (e + 1)" "pow2 e < pow2 (expo x + 1)" by linarith+
  then show ?thesis by simp
qed

lemma rnd64_expo: "x \<noteq> 0 \<Longrightarrow> rnd64 x = sgn x * (of_int (round_even (\<bar>x\<bar> * pow2 (52 - expo x))) / pow2 (52 - expo x))"
  by (simp add: rnd64_def expo_def Let_def split: prod.split)

section \<open>Rounding\<close>

lemma round_even_int [simp]: "round_even (of_int m) = m"
  by (simp add: round_even_def)

lemma round_even_near: "of_int m \<le> q \<Longrightarrow> q < of_int m + 1 / 2 \<Longrightarrow> round_even q = m"
proof -
  assume a: "of_int m \<le> q" "q < of_int m + 1 / 2"
  then have "\<lfloor>q\<rfloor> = m" by linarith
  with a show ?thesis by (simp add: round_even_def Let_def)
qed

lemma round_even_between: "of_int a \<le> q \<Longrightarrow> q \<le> of_int b \<Longrightarrow> a \<le> round_even q \<and> round_even q \<le> b"
proof -
  assume a: "of_int a \<le> q" "q \<le> of_int b"
  have f: "a \<le> \<lfloor>q\<rfloor>" "\<lfloor>q\<rfloor> \<le> b" using a by linarith+
  have "q = of_int \<lfloor>q\<rfloor>" if "\<lfloor>q\<rfloor> = b" using a that by linarith
  then have "\<lfloor>q\<rfloor> = b \<Longrightarrow> round_even q = b" by (metis round_even_int)
  then show ?thesis using f by (cases "\<lfloor>q\<rfloor> = b") (auto simp: round_even_def Let_def)
qed

text \<open>The significand of a rounded number lies between two powers of two.\<close>

lemma significand:
  assumes "x \<noteq> 0"
  shows "2 ^ 52 \<le> round_even (\<bar>x\<bar> * pow2 (52 - expo x)) \<and> round_even (\<bar>x\<bar> * pow2 (52 - expo x)) \<le> 2 ^ 53"
proof (rule round_even_between)
  have s: "pow2 (expo x) * pow2 (52 - expo x) = 2 ^ 52" "pow2 (expo x + 1) * pow2 (52 - expo x) = 2 ^ 53"
    by (simp_all add: pow2_nat flip: pow2_add)
  from expo_bounds [OF assms] have "pow2 (expo x) * pow2 (52 - expo x) \<le> \<bar>x\<bar> * pow2 (52 - expo x)"
    "\<bar>x\<bar> * pow2 (52 - expo x) \<le> pow2 (expo x + 1) * pow2 (52 - expo x)"
    by (simp_all add: mult_right_mono)
  then show "of_int (2 ^ 52) \<le> \<bar>x\<bar> * pow2 (52 - expo x)" "\<bar>x\<bar> * pow2 (52 - expo x) \<le> of_int (2 ^ 53)"
    by (simp_all add: s)
qed

lemma rnd64_exact:
  assumes "pow2 e \<le> \<bar>x\<bar>" "\<bar>x\<bar> < pow2 (e + 1)" "\<bar>x\<bar> * pow2 (52 - e) = of_int m"
  shows "rnd64 x = x"
proof -
  have "x \<noteq> 0" using assms(1) pow2_pos [of e] by auto
  then have "rnd64 x = sgn x * (of_int m / pow2 (52 - e))"
    by (simp add: rnd64_expo expo_eq [OF assms(1,2)] assms(3))
  also have "of_int m / pow2 (52 - e) = \<bar>x\<bar>" using pow2_pos [of "52 - e"] by (simp flip: assms(3))
  finally show ?thesis by (simp add: sgn_mult_abs)
qed

lemma rnd64_idem [simp]: "rnd64 (rnd64 x) = rnd64 x"
proof (cases "x = 0")
  case False
  define e where "e = expo x"
  define m where "m = round_even (\<bar>x\<bar> * pow2 (52 - e))"
  have m: "2 ^ 52 \<le> m" "m \<le> 2 ^ 53" using significand [OF False] by (simp_all add: m_def e_def)
  have y: "\<bar>rnd64 x\<bar> = of_int m * pow2 (e - 52)"
  proof -
    have "of_int m / pow2 (52 - e) = of_int m * pow2 (e - 52)"
      using pow2_minus [of "52 - e"] by simp
    then show ?thesis using False m(1) by (simp add: rnd64_expo e_def [symmetric] m_def [symmetric] abs_mult abs_sgn_eq)
  qed
  have c: "pow2 (e - 52) * pow2 (52 - e) = 1" "pow2 (e - 52) * pow2 52 = pow2 e" "pow2 (e - 52) * pow2 53 = pow2 (e + 1)"
    by (simp_all add: add.commute flip: pow2_add) (simp add: pow2_def)
  have lm: "pow2 52 \<le> of_int m" "(of_int m :: rat) \<le> pow2 53"
    using m by (simp_all add: pow2_nat)
  have low: "pow2 e \<le> \<bar>rnd64 x\<bar>"
    unfolding y c(2) [symmetric] using lm(1) by (simp add: mult.commute)
  show ?thesis
  proof (cases "m = 2 ^ 53")
    case True
    have "\<bar>rnd64 x\<bar> = pow2 (e + 1)" unfolding y True c(3) [symmetric] by (simp add: pow2_nat)
    then show ?thesis by (intro rnd64_exact [of "e + 1" _ "2 ^ 52"]) (simp_all add: pow2_nat flip: pow2_add)
  next
    case False
    with m(2) have "m < 2 ^ 53" by simp
    then have "(of_int m :: rat) < pow2 53" by (simp add: pow2_nat)
    then have "\<bar>rnd64 x\<bar> < pow2 (e + 1)" unfolding y c(3) [symmetric] by (simp add: mult.commute)
    moreover have "\<bar>rnd64 x\<bar> * pow2 (52 - e) = of_int m" unfolding y using c(1) by simp
    ultimately show ?thesis using low by (intro rnd64_exact [of e])
  qed
qed simp

lemma rnd64_cap:
  assumes "\<bar>x\<bar> \<le> pow2 k + pow2 (k - 54)"
  shows "\<bar>rnd64 x\<bar> \<le> pow2 k"
proof (cases "x = 0")
  case False
  define e where "e = expo x"
  define m where "m = round_even (\<bar>x\<bar> * pow2 (52 - e))"
  have m: "2 ^ 52 \<le> m" "m \<le> 2 ^ 53" using significand [OF False] by (simp_all add: m_def e_def)
  have y: "\<bar>rnd64 x\<bar> = of_int m / pow2 (52 - e)"
    using False m(1) by (simp add: rnd64_expo e_def [symmetric] m_def [symmetric] abs_mult abs_sgn_eq)
  have b: "pow2 e \<le> \<bar>x\<bar>" "\<bar>x\<bar> < pow2 (e + 1)" using expo_bounds [OF False] by (simp_all add: e_def)
  have "pow2 (k - 54) < pow2 k" "pow2 k * pow2 1 = pow2 k + pow2 k" by (simp_all add: pow2_def [of 1])
  then have "pow2 e < pow2 k * pow2 1" using b(1) assms by linarith
  then have "pow2 e < pow2 (k + 1)" by (simp only: pow2_add)
  then have "e \<le> k" by simp
  show ?thesis
  proof (cases "e = k")
    case True
    have s: "pow2 k * pow2 (52 - k) = 2 ^ 52" "pow2 (k - 54) * pow2 (52 - k) = 1 / 4"
      by (simp_all add: pow2_nat flip: pow2_add) (simp add: pow2_def)
    have "\<bar>x\<bar> * pow2 (52 - k) \<le> (pow2 k + pow2 (k - 54)) * pow2 (52 - k)" using assms by (simp add: mult_right_mono)
    moreover have "pow2 k * pow2 (52 - k) \<le> \<bar>x\<bar> * pow2 (52 - k)" using b(1) True by (simp add: mult_right_mono)
    ultimately have "of_int (2 ^ 52) \<le> \<bar>x\<bar> * pow2 (52 - k)" "\<bar>x\<bar> * pow2 (52 - k) < of_int (2 ^ 52) + 1 / 2"
      by (simp_all add: s distrib_right)
    from round_even_near [OF this] have "m = 2 ^ 52" by (simp add: m_def True)
    then have "\<bar>rnd64 x\<bar> * pow2 (52 - k) = pow2 k * pow2 (52 - k)" by (simp add: y True s)
    then show ?thesis by simp
  next
    case False
    then have "pow2 (e + 1) \<le> pow2 k" using \<open>e \<le> k\<close> by simp
    moreover have "\<bar>rnd64 x\<bar> \<le> pow2 (e + 1)"
    proof -
      have "pow2 (e + 1) * pow2 (52 - e) = 2 ^ 53" by (simp add: pow2_nat flip: pow2_add)
      moreover have "(of_int m :: rat) \<le> 2 ^ 53" using m(2) by (metis of_int_le_iff of_int_numeral of_int_power)
      ultimately show ?thesis unfolding y by (simp add: divide_le_eq)
    qed
    ultimately show ?thesis by (rule order_trans [rotated])
  qed
qed simp

end
