(* ===== verification/Snapshot_Props.thy ===== *)
theory Snapshot_Props
  imports Snapshot_Codec Go_Float Codec_Props Bus
begin

text \<open>
  The stored snapshot reads back, and what the fold makes of the events the services write is always such a snapshot.
\<close>

section \<open>Parts\<close>

definition time_back :: "(gotime \<Rightarrow> string res) \<Rightarrow> (string \<Rightarrow> gotime res) \<Rightarrow> gotime \<Rightarrow> bool" where
  "time_back format parse t \<longleftrightarrow> (\<exists>s. format t = Inr s \<and> parse s = Inr t)"

definition speakers :: "speaker list" where
  "speakers = [SpeakerCaller, SpeakerAgent]"

lemma status_back: "t \<in> set statuses \<Longrightarrow> status_of_name (status_name t) = t \<and> valid_utf8 (status_name t)"
proof -
  have "\<forall>t \<in> set statuses. status_of_name (status_name t) = t" by (simp add: statuses_def status_of_name_def)
  moreover have "\<forall>t \<in> set statuses. ascii (status_name t)" by (simp add: statuses_def ascii_code)
  ultimately show "t \<in> set statuses \<Longrightarrow> ?thesis" by (simp add: valid_utf8_ascii)
qed

lemma speaker_back: "t \<in> set speakers \<Longrightarrow> speaker_of_name (speaker_name t) = t \<and> valid_utf8 (speaker_name t)"
proof -
  have "\<forall>t \<in> set speakers. speaker_of_name (speaker_name t) = t" by (simp add: speakers_def speaker_of_name_def)
  moreover have "\<forall>t \<in> set speakers. ascii (speaker_name t)" by (simp add: speakers_def ascii_code)
  ultimately show "t \<in> set speakers \<Longrightarrow> ?thesis" by (simp add: valid_utf8_ascii)
qed

lemma strings_back: "list_all valid_utf8 ss \<Longrightarrow> dec_strings (map enc_str ss) = Inr ss"
  by (induction ss) (simp_all add: dec_string_enc)

lemma string_slice_opt:
  "list_all valid_utf8 ss \<Longrightarrow> dec_string_slice (if ss \<noteq> [] then JArr (map enc_str ss) else JNull) = Inr ss"
  by (simp add: strings_back)

definition entry_ok :: "(gotime \<Rightarrow> string res) \<Rightarrow> (string \<Rightarrow> gotime res) \<Rightarrow> transcript_entry \<Rightarrow> bool" where
  "entry_ok format parse t \<longleftrightarrow> time_back format parse (te_ts t) \<and> te_speaker t \<in> set speakers \<and> valid_utf8 (te_text t) \<and>
     list_all redaction_ok (te_redactions t)"

lemma entry_back:
  assumes "te_speaker t \<in> set speakers" "valid_utf8 (te_text t)" "list_all redaction_ok (te_redactions t)" "parse ts = Inr (te_ts t)"
  shows "dec_struct (entry_fields parse) (enc_entry ts t) transcript_entry0 = Inr t"
  using assms speaker_back [OF assms(1)] seq_back [of "te_seq t"]
  by (cases t) (simp add: enc_entry_def entry_fields_def transcript_entry0_def redactions_opt member_evals)

lemma transcript_back:
  "list_all (entry_ok format parse) ts \<Longrightarrow>
   \<exists>js. enc_transcript format ts = Inr js \<and> dec_elems (entry_fields parse) transcript_entry0 js = Inr ts"
proof (induction ts)
  case (Cons t ts)
  then obtain s js where "format (te_ts t) = Inr s" "parse s = Inr (te_ts t)" "enc_transcript format ts = Inr js"
    "dec_elems (entry_fields parse) transcript_entry0 js = Inr ts"
    by (auto simp: entry_ok_def time_back_def)
  with Cons.prems show ?case by (simp add: entry_back entry_ok_def)
qed simp

lemma latencies_back:
  "list_all latency_ok ls \<Longrightarrow>
   dec_elems turn_latency_fields turn_latency0 (map (\<lambda>l. JObj (enc_turn_latency l)) ls) = Inr ls"
  by (induction ls) (simp_all add: turn_latency_back latency_ok_def)

definition vars_ok :: "(string \<rightharpoonup> json option) \<Rightarrow> bool" where
  "vars_ok m \<longleftrightarrow> finite (dom m) \<and> (\<forall>k \<in> dom m. valid_utf8 k) \<and> (\<forall>k. m k \<noteq> Some None)"

lemma foldl_vars:
  "foldl (\<lambda>m (k, v). m(k \<mapsto> Some v)) m0 (map (\<lambda>k. (k, f k)) ks) = (\<lambda>k. if k \<in> set ks then Some (Some (f k)) else m0 k)"
  by (induction ks arbitrary: m0) auto

lemma vars_back:
  assumes "vars_ok m"
  shows "dec_raw_map (enc_vars m) Map.empty = Inr m"
proof -
  define ks where "ks = sorted_list_of_set (dom m)"
  have ks: "set ks = dom m" using assms by (simp add: ks_def vars_ok_def)
  have e: "map (\<lambda>k. (json_text k, enc_raw (Option.bind (m k) id))) ks = map (\<lambda>k. (k, enc_raw (Option.bind (m k) id))) ks"
    using assms ks by (simp add: vars_ok_def)
  have "(\<lambda>k. if k \<in> set ks then Some (Some (enc_raw (Option.bind (m k) id))) else None) = m"
  proof
    fix k
    show "(if k \<in> set ks then Some (Some (enc_raw (Option.bind (m k) id))) else None) = m k"
      using assms unfolding ks vars_ok_def by (cases "m k"; cases "the (m k)") (auto simp: enc_raw_def)
  qed
  then show ?thesis by (simp only: enc_vars_def ks_def [symmetric] e dec_raw_map.simps foldl_vars)
qed

definition usage_ok :: "usage \<Rightarrow> bool" where
  "usage_ok u \<longleftrightarrow> int64 (CallMinutes u) \<and> is_float (STTSeconds u) \<and> int64 (LLMTokensIn u) \<and> int64 (LLMTokensOut u) \<and>
     int64 (TTSChars u)"

lemma usage_back:
  "shortest short \<Longrightarrow> usage_ok u \<Longrightarrow> dec_struct usage_fields (enc_usage short u) usage0 = Inr u"
  by (cases u) (simp add: usage_ok_def enc_usage_def usage_fields_def usage0_def member_evals)

lemma budget_back:
  "valid_utf8 (bg_stage b) \<Longrightarrow> int64 (bg_error_count b) \<Longrightarrow>
   dec_struct budget_fields (enc_budget b) \<lparr>bg_stage = [], bg_error_count = 0\<rparr> = Inr b"
  by (cases b) (simp add: enc_budget_def budget_fields_def member_evals)

section \<open>Snapshots\<close>

definition snapshot_ok :: "(gotime \<Rightarrow> string res) \<Rightarrow> (string \<Rightarrow> gotime res) \<Rightarrow> call_snapshot \<Rightarrow> bool" where
  "snapshot_ok format parse s \<longleftrightarrow>
     list_all valid_utf8 ([sn_call_id s, sn_tenant_id s, sn_flow_id s, sn_end_reason s, sn_locale s, sn_cursor s, bg_stage (sn_budget s)] @
       sn_locale_history s @ sn_path s) \<and>
     int64 (sn_flow_version s) \<and> sn_status s \<in> set statuses \<and>
     (\<forall>t \<in> {sn_started_at s, sn_ended_at s}. is_zero t \<or> time_back format parse t) \<and>
     vars_ok (sn_vars s) \<and> list_all (entry_ok format parse) (sn_transcript s) \<and> list_all latency_ok (sn_turn_latencies s) \<and>
     int64 (bg_error_count (sn_budget s)) \<and> usage_ok (sn_usage s)"

lemma time_there:
  assumes "is_zero t \<or> time_back format parse t"
  shows "\<exists>j. enc_time format t = Inr j \<and> dec_time parse (if \<not> is_zero t then j else JNull) 0 = Inr t"
  using assms by (auto simp: enc_time_def time_back_def is_zero_def)

lemma snapshot_field:
  "field_for (snapshot_fields parse) ''callId'' = Some (\<lambda>j s. map_sum id (\<lambda>v. s\<lparr>sn_call_id := v\<rparr>) (dec_string j (sn_call_id s)))"
  "field_for (snapshot_fields parse) ''tenantId'' = Some (\<lambda>j s. map_sum id (\<lambda>v. s\<lparr>sn_tenant_id := v\<rparr>) (dec_string j (sn_tenant_id s)))"
  "field_for (snapshot_fields parse) ''flowId'' = Some (\<lambda>j s. map_sum id (\<lambda>v. s\<lparr>sn_flow_id := v\<rparr>) (dec_string j (sn_flow_id s)))"
  "field_for (snapshot_fields parse) ''flowVersion'' = Some (\<lambda>j s. map_sum id (\<lambda>v. s\<lparr>sn_flow_version := v\<rparr>) (dec_int64 j (sn_flow_version s)))"
  "field_for (snapshot_fields parse) ''status'' = Some (\<lambda>j s. map_sum id (\<lambda>v. s\<lparr>sn_status := status_of_name v\<rparr>) (dec_string j (status_name (sn_status s))))"
  "field_for (snapshot_fields parse) ''startedAt'' = Some (\<lambda>j s. map_sum id (\<lambda>v. s\<lparr>sn_started_at := v\<rparr>) (dec_time parse j (sn_started_at s)))"
  "field_for (snapshot_fields parse) ''endedAt'' = Some (\<lambda>j s. map_sum id (\<lambda>v. s\<lparr>sn_ended_at := v\<rparr>) (dec_time parse j (sn_ended_at s)))"
  "field_for (snapshot_fields parse) ''endReason'' = Some (\<lambda>j s. map_sum id (\<lambda>v. s\<lparr>sn_end_reason := v\<rparr>) (dec_string j (sn_end_reason s)))"
  "field_for (snapshot_fields parse) ''consentCaptured'' = Some (\<lambda>j s. map_sum id (\<lambda>v. s\<lparr>sn_consent_captured := v\<rparr>) (dec_bool j (sn_consent_captured s)))"
  "field_for (snapshot_fields parse) ''consentGranted'' = Some (\<lambda>j s. map_sum id (\<lambda>v. s\<lparr>sn_consent_granted := v\<rparr>) (dec_bool j (sn_consent_granted s)))"
  "field_for (snapshot_fields parse) ''recording'' = Some (\<lambda>j s. map_sum id (\<lambda>v. s\<lparr>sn_recording := v\<rparr>) (dec_bool j (sn_recording s)))"
  "field_for (snapshot_fields parse) ''locale'' = Some (\<lambda>j s. map_sum id (\<lambda>v. s\<lparr>sn_locale := v\<rparr>) (dec_string j (sn_locale s)))"
  "field_for (snapshot_fields parse) ''localeHistory'' = Some (\<lambda>j s. map_sum id (\<lambda>v. s\<lparr>sn_locale_history := v\<rparr>) (dec_string_slice j))"
  "field_for (snapshot_fields parse) ''cursor'' = Some (\<lambda>j s. map_sum id (\<lambda>v. s\<lparr>sn_cursor := v\<rparr>) (dec_string j (sn_cursor s)))"
  "field_for (snapshot_fields parse) ''path'' = Some (\<lambda>j s. map_sum id (\<lambda>v. s\<lparr>sn_path := v\<rparr>) (dec_string_slice j))"
  "field_for (snapshot_fields parse) ''vars'' = Some (\<lambda>j s. map_sum id (\<lambda>v. s\<lparr>sn_vars := v\<rparr>) (dec_raw_map j (sn_vars s)))"
  "field_for (snapshot_fields parse) ''transcript'' = Some (\<lambda>j s. map_sum id (\<lambda>v. s\<lparr>sn_transcript := v\<rparr>) (dec_slice (entry_fields parse) transcript_entry0 j))"
  "field_for (snapshot_fields parse) ''turnLatencies'' = Some (\<lambda>j s. map_sum id (\<lambda>v. s\<lparr>sn_turn_latencies := v\<rparr>) (dec_slice turn_latency_fields turn_latency0 j))"
  "field_for (snapshot_fields parse) ''budget'' = Some (\<lambda>j s. map_sum id (\<lambda>v. s\<lparr>sn_budget := v\<rparr>) (dec_struct budget_fields j (sn_budget s)))"
  "field_for (snapshot_fields parse) ''usage'' = Some (\<lambda>j s. map_sum id (\<lambda>v. s\<lparr>sn_usage := v\<rparr>) (dec_struct usage_fields j (sn_usage s)))"
  "field_for (snapshot_fields parse) ''lastSeq'' = Some (\<lambda>j s. map_sum id (\<lambda>v. s\<lparr>sn_last_seq := v\<rparr>) (dec_uint64 j (sn_last_seq s)))"
  unfolding snapshot_fields_def by (simp_all add: field_eval)

lemma is_zero_0: "is_zero t \<longleftrightarrow> t = 0"
  by (simp add: is_zero_def)

lemma vars_opt: "vars_ok m \<Longrightarrow> dec_raw_map (if m \<noteq> Map.empty then enc_vars m else JNull) Map.empty = Inr m"
  by (simp add: vars_back)

lemmas snapshot_evals = mem_Cons mem_last opt_mem_null opt_mem_last dec_string_opt dec_string_enc unmarshal_def snapshot_field

lemma snapshot_back:
  assumes "shortest short" "snapshot_ok format parse s"
  shows "\<exists>j. marshal_snapshot format short s = Inr j \<and> unmarshal_snapshot parse (Some j) = Inr s"
proof -
  obtain ci ti fi fv st sa en er cc cg rc lo lh cu pa va tr la bu us ls where s: "s = \<lparr>sn_call_id = ci, sn_tenant_id = ti, sn_flow_id = fi,
      sn_flow_version = fv, sn_status = st, sn_started_at = sa, sn_ended_at = en, sn_end_reason = er, sn_consent_captured = cc,
      sn_consent_granted = cg, sn_recording = rc, sn_locale = lo, sn_locale_history = lh, sn_cursor = cu, sn_path = pa, sn_vars = va,
      sn_transcript = tr, sn_turn_latencies = la, sn_budget = bu, sn_usage = us, sn_last_seq = ls\<rparr>" by (cases s)
  note ok = assms(2) [unfolded s snapshot_ok_def, simplified]
  obtain js je where t: "enc_time format sa = Inr js" "dec_time parse (if \<not> is_zero sa then js else JNull) 0 = Inr sa"
    "enc_time format en = Inr je" "dec_time parse (if \<not> is_zero en then je else JNull) 0 = Inr en"
    using ok time_there [of sa format parse] time_there [of en format parse] by blast
  obtain es where e: "enc_transcript format tr = Inr es" "dec_elems (entry_fields parse) transcript_entry0 es = Inr tr"
    using ok transcript_back [of format parse tr] by blast
  have tr: "dec_slice (entry_fields parse) transcript_entry0 (if tr \<noteq> [] then JArr es else JNull) = Inr tr" using e(2) by auto
  have la: "dec_slice turn_latency_fields turn_latency0 (if la \<noteq> [] then JArr (map (\<lambda>l. JObj (enc_turn_latency l)) la) else JNull) = Inr la"
    using ok latencies_back [of la] by auto
  have st: "dec_string (enc_str (status_name st)) (status_name StatusUnknown) = Inr (status_name st)" "status_of_name (status_name st) = st"
    using ok status_back [of st] by (simp_all add: dec_string_enc del: status_name.simps)
  have va: "dec_raw_map (if va \<noteq> Map.empty then enc_vars va else JNull) Map.empty = Inr va" using ok vars_opt [of va] by blast
  have bu: "dec_struct budget_fields (enc_budget bu) \<lparr>bg_stage = [], bg_error_count = 0\<rparr> = Inr bu" using ok budget_back [of bu] by blast
  have us: "dec_struct usage_fields (enc_usage short us) usage0 = Inr us" using ok usage_back [OF assms(1), of us] by blast
  have lh: "dec_string_slice (if lh \<noteq> [] then JArr (map enc_str lh) else JNull) = Inr lh"
    and pa: "dec_string_slice (if pa \<noteq> [] then JArr (map enc_str pa) else JNull) = Inr pa"
    using ok string_slice_opt [of lh] string_slice_opt [of pa] by blast+
  have fv: "dec_int64 (JInt fv) 0 = Inr fv" using ok by simp
  note parts = t(2,4) tr la st va bu us lh pa fv seq_back
  show ?thesis
    using ok
    by (simp del: dec_uint64.simps dec_time.simps dec_slice.simps dec_string_slice.simps dec_raw_map.simps dec_int64.simps status_name.simps
        add: s marshal_snapshot_def unmarshal_snapshot_def zero_snapshot_def snapshot0_def t(1,3) e(1) parts snapshot_evals
          dec_time.simps(2) dec_slice.simps(2) dec_string_slice.simps(2) dec_raw_map.simps(2))
qed

section \<open>Snapshots of calls\<close>

text \<open>An event as a service makes it: its payload is of the type it names, and the wire keeps all of it.\<close>

definition produced :: "(gotime \<Rightarrow> string res) \<Rightarrow> (string \<Rightarrow> gotime res) \<Rightarrow> (rat \<Rightarrow> rat) \<Rightarrow> envelope \<Rightarrow> bool" where
  "produced format parse short ev \<longleftrightarrow> envelope_ok ev \<and> time_back format parse (TS ev) \<and>
     (\<exists>p. payload_ok p \<and> Type ev = payload_type p \<and> Payload ev = Some (marshal_payload short p))"

text \<open>The seconds stay far from the end of the range: an addition is swallowed before they could leave it.\<close>

definition seconds_ok :: "rat \<Rightarrow> bool" where
  "seconds_ok x \<longleftrightarrow> \<bar>x\<bar> \<le> pow2 120 \<and> rnd64 x = x"

lemma seconds_float: "seconds_ok x \<Longrightarrow> is_float x"
proof -
  assume x: "seconds_ok x"
  have "(2 :: rat) ^ 120 < 2 ^ 1024 - 2 ^ 970" by simp
  with x show "is_float x" by (simp add: seconds_ok_def is_float_def float_fits_def pow2_nat)
qed

lemma seconds_add:
  assumes "seconds_ok x" "int64 ms"
  shows "seconds_ok (fadd x (fdiv (f_of_int ms) 1000))"
proof -
  have "\<bar>of_int ms :: rat\<bar> \<le> 2 ^ 63"
  proof -
    have "\<bar>ms\<bar> \<le> 2 ^ 63" using assms(2) by (simp add: int64_def abs_le_iff)
    then have "(of_int \<bar>ms\<bar> :: rat) \<le> of_int (2 ^ 63)" by (simp only: of_int_le_iff)
    then show ?thesis by simp
  qed
  then have "\<bar>of_int ms :: rat\<bar> \<le> pow2 63 + pow2 (63 - 54)"
    using pow2_simps(3) [of "63 - 54"] by (simp add: pow2_nat)
  from rnd64_cap [OF this] have "\<bar>f_of_int ms / 1000\<bar> \<le> pow2 63 + pow2 (63 - 54)"
    using pow2_simps(3) [of "63 - 54"] by (simp add: f_of_int_def abs_divide divide_le_eq pow2_nat)
  from rnd64_cap [OF this] have "\<bar>fdiv (f_of_int ms) 1000\<bar> \<le> pow2 (120 - 54)"
    by (simp add: fdiv_def pow2_nat)
  moreover have "\<bar>x\<bar> \<le> pow2 120" using assms(1) by (simp add: seconds_ok_def)
  ultimately have "\<bar>x + fdiv (f_of_int ms) 1000\<bar> \<le> pow2 120 + pow2 (120 - 54)"
    by (rule order_trans [OF abs_triangle_ineq add_mono, rotated])
  from rnd64_cap [OF this] show ?thesis by (simp add: fadd_def seconds_ok_def)
qed

lemma int64_arith [simp]: "int64 (add64 a b)" "int64 (div64 a b)" "int64 (ceil_minutes d)"
  by (simp_all add: add64_def div64_def ceil_minutes_def) (simp add: int64_def)

definition foldable :: "(gotime \<Rightarrow> string res) \<Rightarrow> (string \<Rightarrow> gotime res) \<Rightarrow> call_snapshot \<Rightarrow> bool" where
  "foldable format parse s \<longleftrightarrow> snapshot_ok format parse s \<and> seconds_ok (STTSeconds (sn_usage s))"

lemma foldable_start: "foldable format parse snapshot0"
  by (simp add: foldable_def snapshot_ok_def snapshot0_def usage0_def usage_ok_def is_float_def float_fits_def vars_ok_def
      seconds_ok_def statuses_def is_zero_def int64_def valid_utf8_ascii ascii_code)

lemma foldable_seq [simp]: "foldable format parse (s\<lparr>sn_last_seq := q\<rparr>) = foldable format parse s"
  by (simp add: foldable_def snapshot_ok_def)

lemma foldable_identity: "foldable format parse s \<Longrightarrow> envelope_ok ev \<Longrightarrow> foldable format parse (set_identity ev s)"
  by (simp add: foldable_def snapshot_ok_def set_identity_def envelope_ok_def)

lemma vars_ok_upd: "vars_ok m \<Longrightarrow> valid_utf8 k \<Longrightarrow> v \<noteq> None \<Longrightarrow> vars_ok (m(k \<mapsto> v))"
  by (auto simp: vars_ok_def)

lemma fold_produced:
  assumes "shortest short" "produced format parse short ev" "foldable format parse s0"
  shows "\<exists>t. apply_event ev s0 = Inr t \<and> foldable format parse t"
proof -
  define s where "s = set_identity ev s0"
  from assms(2) obtain p where p: "payload_ok p" "Type ev = payload_type p" "decodes_to (Payload ev) p" and ev: "envelope_ok ev"
    "time_back format parse (TS ev)"
    using payload_decodes [OF assms(1)] by (auto simp: produced_def)
  have s: "foldable format parse s" using foldable_identity [OF assms(3) ev(1)] by (simp add: s_def)
  note defs = foldable_def snapshot_ok_def usage_ok_def statuses_def
  note step = apply_event_def s_def [symmetric] unmarshal_payload_def Let_def
  have redactions: "list_all redaction_ok (Redactions ev)" and node: "valid_utf8 (NodeID ev)" using ev(1) by (simp_all add: envelope_ok_def)
  show ?thesis
  proof (cases p)
    case (PSTTFinal q)
    with p have q: "valid_utf8 (sf_text q)" "int64 (sf_audio_ms q)" by simp_all
    with PSTTFinal p s ev redactions seconds_add [of "STTSeconds (sn_usage s)" "sf_audio_ms q"] seconds_float
    show ?thesis by (simp add: step defs entry_ok_def speakers_def)
  next
    case (PVarAssigned q)
    with p s show ?thesis by (simp add: step defs vars_ok_upd)
  next
    case (PAgentTurnCompleted q)
    with p s ev redactions show ?thesis by (simp add: step defs entry_ok_def speakers_def add_turn_usage_def)
  qed (use p s ev node in \<open>auto simp: step defs\<close>)
qed

lemma apply_all_produced:
  assumes "shortest short"
  shows "\<forall>ev \<in> set evs. produced format parse short ev \<Longrightarrow> foldable format parse s \<Longrightarrow>
     \<exists>t. apply_all evs s = Inr t \<and> foldable format parse t"
proof (induction evs arbitrary: s)
  case (Cons ev evs)
  from Cons.prems have "produced format parse short ev" by simp
  from fold_produced [OF assms this Cons.prems(2)] obtain t where t: "apply_event ev s = Inr t" "foldable format parse t" by blast
  with Cons.IH [of "t\<lparr>sn_last_seq := Seq ev\<rparr>"] Cons.prems(1) show ?case by simp
qed simp

lemma apply_all_id: "apply_all evs s = Inr t \<Longrightarrow> \<forall>ev \<in> set evs. CallID ev \<noteq> [] \<Longrightarrow> evs \<noteq> [] \<or> sn_call_id s \<noteq> [] \<Longrightarrow> sn_call_id t \<noteq> []"
proof (induction evs arbitrary: s)
  case (Cons ev evs)
  then obtain s1 where s1: "apply_event ev s = Inr s1" "apply_all evs (s1\<lparr>sn_last_seq := Seq ev\<rparr>) = Inr t" by (auto split: sum.splits)
  have "sn_call_id s1 \<noteq> []" using apply_event_identity [OF s1(1)] Cons.prems(2) by (simp add: set_identity_def split: if_splits)
  with Cons.IH [OF s1(2)] Cons.prems(2) show ?case by simp
qed simp

text \<open>
  C24: a call survives its way into the database and back. Whatever events the services made for it, in whatever order
  and however often they are delivered, the fold makes a call of them; the row \<open>PutCall\<close> writes for that call exists,
  and \<open>scanCall\<close> reads the same call from it: status, transcript with its redactions, variables, latencies, usage to
  the last bit of its seconds, and counters. (The column is taken to give back the JSON it was given; what \<open>jsonb\<close> does
  to the order of the keys inside a variable's own object is not looked at.)
\<close>

theorem folded_call_survives_the_database:
  assumes "shortest short" and "evs \<noteq> []" and "\<forall>ev \<in> set evs. produced format parse short ev \<and> CallID ev \<noteq> []"
  shows "\<exists>c row. CallFromEvents evs url = Inr c \<and> call_row format short c = Inr row \<and> scanCall parse (Inr row) = Inr c"
proof -
  obtain e es where k: "kept evs = e # es" "set (kept evs) \<subseteq> set evs" using kept_nonempty [OF assms(2)] by blast
  have "\<forall>ev \<in> set (kept evs). produced format parse short ev" using k(2) assms(3) by blast
  from apply_all_produced [OF assms(1) this foldable_start] obtain s where s: "Fold evs = Inr s" "foldable format parse s"
    using Fold_kept [of evs] by auto
  have "sn_call_id s \<noteq> []" using apply_all_id [of "kept evs" snapshot0 s] s(1) k assms(3) by (auto simp: Fold_kept)
  moreover obtain j where "marshal_snapshot format short s = Inr j" "unmarshal_snapshot parse (Some j) = Inr s"
    using snapshot_back [OF assms(1), of format parse s] s(2) by (auto simp: foldable_def)
  ultimately show ?thesis by (simp add: CallFromEvents_def s(1) call_row_def scanCall_def call_ID_def)
qed

definition ended_event :: envelope where
  "ended_event = plain_event\<lparr>Payload := Some (marshal_payload id (PCallEnded \<lparr>ce_reason = ''completed'', ce_duration_ms = 61000\<rparr>))\<rparr>"

theorem folded_call_survives_the_database_witness:
  "\<exists>c row. CallFromEvents [ended_event] ''https://r/1'' = Inr c \<and> call_row (\<lambda>t. Inr ''now'') id c = Inr row \<and>
     scanCall (\<lambda>s. Inr 0) (Inr row) = Inr c"
proof (rule folded_call_survives_the_database)
  show "shortest id" by (simp add: shortest_def is_float_def)
  have "type_ok TypeCallEnded" by (rule catalog_ok) (simp add: catalog_def)
  moreover have "payload_ok (PCallEnded \<lparr>ce_reason = ''completed'', ce_duration_ms = 61000\<rparr>)"
    by (simp add: valid_utf8_ascii ascii_code int64_def)
  ultimately have "produced (\<lambda>t. Inr ''now'') (\<lambda>s. Inr 0) id ended_event"
    unfolding produced_def
    by (intro conjI exI [of _ "PCallEnded \<lparr>ce_reason = ''completed'', ce_duration_ms = 61000\<rparr>"])
      (simp_all add: ended_event_def plain_event_def envelope_ok_def time_back_def valid_utf8_ascii ascii_code int64_def)
  then show "\<forall>ev \<in> set [ended_event]. produced (\<lambda>t. Inr ''now'') (\<lambda>s. Inr 0) id ev \<and> CallID ev \<noteq> []"
    by (simp add: ended_event_def plain_event_def)
qed simp

end
