(* ===== verification/Obs_Setup.thy ===== *)
theory Obs_Setup
  imports Domain
begin

text \<open>
  \<open>internal/obs/obs.go\<close> and \<open>otel.go\<close>: the logger that stamps the tenant of the context on every line, and the setup
  and shutdown of the telemetry providers. A JSON handler of \<open>log/slog\<close> is its level, its attributes and its open
  groups; a line is what it writes. The OpenTelemetry SDK is a parameter: what its constructors and its shutdowns
  answer; what the setup does to it is the list of calls it makes.
\<close>

section \<open>Levels and lines\<close>

datatype log_level = LevelDebug | LevelInfo | LevelWarn | LevelError

fun level_value :: "log_level \<Rightarrow> int" where
  "level_value LevelDebug = - 4"
| "level_value LevelInfo = 0"
| "level_value LevelWarn = 4"
| "level_value LevelError = 8"

definition LevelFromEnv :: "unicode \<Rightarrow> (string \<Rightarrow> string) \<Rightarrow> log_level" where
  "LevelFromEnv U getenv =
     (let v = to_lower U (getenv ''LOG_LEVEL'') in
      if v = ''debug'' then LevelDebug
      else if v = ''warn'' \<or> v = ''warning'' then LevelWarn
      else if v = ''error'' then LevelError
      else LevelInfo)"

text \<open>An attribute in a line: the groups it stands in, its key and its value.\<close>

type_synonym attr = "string \<times> string"
type_synonym line_attr = "string list \<times> string \<times> string"

record log_line =
  ll_level :: log_level
  ll_msg :: string
  ll_attrs :: "line_attr list"

record json_handler =
  jh_level :: log_level
  jh_attrs :: "line_attr list"
  jh_groups :: "string list"

definition json_Enabled :: "json_handler \<Rightarrow> log_level \<Rightarrow> bool" where
  "json_Enabled h l \<longleftrightarrow> level_value (jh_level h) \<le> level_value l"

definition json_WithAttrs :: "attr list \<Rightarrow> json_handler \<Rightarrow> json_handler" where
  "json_WithAttrs as h = h\<lparr>jh_attrs := jh_attrs h @ map (\<lambda>a. (jh_groups h, a)) as\<rparr>"

definition json_WithGroup :: "string \<Rightarrow> json_handler \<Rightarrow> json_handler" where
  "json_WithGroup g h = (if g = [] then h else h\<lparr>jh_groups := jh_groups h @ [g]\<rparr>)"

definition json_Handle :: "json_handler \<Rightarrow> log_level \<Rightarrow> string \<Rightarrow> attr list \<Rightarrow> log_line" where
  "json_Handle h l msg as = \<lparr>ll_level = l, ll_msg = msg, ll_attrs = jh_attrs h @ map (\<lambda>a. (jh_groups h, a)) as\<rparr>"

section \<open>The tenant handler\<close>

record tenant_handler =
  th_inner :: json_handler

definition th_Enabled :: "go_context \<Rightarrow> log_level \<Rightarrow> tenant_handler \<Rightarrow> bool" where
  "th_Enabled ctx l h = json_Enabled (th_inner h) l"

definition th_Handle :: "go_context \<Rightarrow> log_level \<Rightarrow> string \<Rightarrow> attr list \<Rightarrow> tenant_handler \<Rightarrow> log_line" where
  "th_Handle ctx l msg as h =
     json_Handle (th_inner h) l msg (case FromContext ctx of Inr i \<Rightarrow> as @ [(''tenant'', i)] | Inl e \<Rightarrow> as)"

definition th_WithAttrs :: "attr list \<Rightarrow> tenant_handler \<Rightarrow> tenant_handler" where
  "th_WithAttrs as h = \<lparr>th_inner = json_WithAttrs as (th_inner h)\<rparr>"

definition th_WithGroup :: "string \<Rightarrow> tenant_handler \<Rightarrow> tenant_handler" where
  "th_WithGroup g h = \<lparr>th_inner = json_WithGroup g (th_inner h)\<rparr>"

record logger_config =
  lc_level :: log_level
  lc_service :: string
  lc_version :: string

type_synonym logger_option = "logger_config \<Rightarrow> logger_config"

definition WithLogLevel :: "log_level \<Rightarrow> logger_option" where
  "WithLogLevel l c = c\<lparr>lc_level := l\<rparr>"

definition WithLogService :: "string \<Rightarrow> string \<Rightarrow> logger_option" where
  "WithLogService name version c = c\<lparr>lc_service := name, lc_version := version\<rparr>"

definition NewLogger :: "unicode \<Rightarrow> (string \<Rightarrow> string) \<Rightarrow> logger_option list \<Rightarrow> tenant_handler" where
  "NewLogger U getenv opts =
     (let cfg = fold (\<lambda>opt c. opt c) opts \<lparr>lc_level = LevelFromEnv U getenv, lc_service = [], lc_version = []\<rparr>;
          h = \<lparr>th_inner = \<lparr>jh_level = lc_level cfg, jh_attrs = [], jh_groups = []\<rparr>\<rparr> in
      if lc_service cfg = [] then h
      else th_WithAttrs
             ((''service'', lc_service cfg) # (if lc_version cfg = [] then [] else [(''version'', lc_version cfg)])) h)"

text \<open>What a program does with a logger: derive another, or log under a context.\<close>

datatype log_op = With "attr list" | Group string | Log go_context log_level string "attr list"

fun log_run :: "log_op list \<Rightarrow> tenant_handler \<Rightarrow> log_line list" where
  "log_run [] h = []"
| "log_run (With as # ops) h = log_run ops (th_WithAttrs as h)"
| "log_run (Group g # ops) h = log_run ops (th_WithGroup g h)"
| "log_run (Log ctx l msg as # ops) h =
     (if th_Enabled ctx l h then [th_Handle ctx l msg as h] else []) @ log_run ops h"

text \<open>The logs of a run that are written, in order.\<close>

fun logged :: "log_op list \<Rightarrow> log_level \<Rightarrow> (go_context \<times> log_level \<times> string \<times> attr list) list" where
  "logged [] m = []"
| "logged (Log ctx l msg as # ops) m = (if level_value m \<le> level_value l then [(ctx, l, msg, as)] else []) @ logged ops m"
| "logged (With as # ops) m = logged ops m"
| "logged (Group g # ops) m = logged ops m"

definition line_of :: "go_context \<times> log_level \<times> string \<times> attr list \<Rightarrow> log_line \<Rightarrow> bool" where
  "line_of e w \<longleftrightarrow> (case e of (ctx, l, msg, as) \<Rightarrow>
     ll_level w = l \<and> ll_msg w = msg \<and>
     (\<exists>fixed gs. ll_attrs w = fixed @ map (\<lambda>a. (gs, a)) (as @ (case FromContext ctx of Inr i \<Rightarrow> [(''tenant'', i)] | Inl e \<Rightarrow> []))))"

text \<open>
  Whatever loggers a service derives, the lines it writes are those of its calls at or above the level, in order,
  and each ends with the tenant its context carries, or with no tenant when it carries none.
\<close>

theorem lines_carry_their_tenant:
  "list_all2 line_of (logged ops (jh_level (th_inner h))) (log_run ops h)"
proof (induction ops h rule: log_run.induct)
  case (4 ctx l msg as ops h)
  have "line_of (ctx, l, msg, as) (th_Handle ctx l msg as h)"
    by (auto simp: line_of_def th_Handle_def json_Handle_def split: sum.split)
  with 4 show ?case by (simp add: th_Enabled_def json_Enabled_def)
qed (simp_all add: th_WithAttrs_def th_WithGroup_def json_WithAttrs_def json_WithGroup_def split: if_splits)

section \<open>Telemetry\<close>

datatype otel_call =
    BuildTracer
  | BuildMeter
  | StopTracer
  | StopMeter
  | FlushTracer
  | FlushMeter
  | GlobalTracer
  | GlobalMeter

record setup_config =
  sg_name :: string
  sg_version :: string
  sg_endpoint :: string
  sg_insecure :: bool
  sg_exporter :: bool          \<comment> \<open>a span exporter was injected\<close>
  sg_reader :: bool            \<comment> \<open>a metric reader was injected\<close>
  sg_global :: bool

datatype setup_option =
    WithServiceName string
  | WithServiceVersion string
  | WithOTLPEndpoint string
  | WithInsecure
  | WithTraceExporter
  | WithMetricReader
  | WithoutGlobal

fun setup_apply :: "setup_option \<Rightarrow> setup_config \<Rightarrow> setup_config" where
  "setup_apply (WithServiceName n) c = c\<lparr>sg_name := n\<rparr>"
| "setup_apply (WithServiceVersion v) c = c\<lparr>sg_version := v\<rparr>"
| "setup_apply (WithOTLPEndpoint e) c = c\<lparr>sg_endpoint := e\<rparr>"
| "setup_apply WithInsecure c = c\<lparr>sg_insecure := True\<rparr>"
| "setup_apply WithTraceExporter c = c\<lparr>sg_exporter := True\<rparr>"
| "setup_apply WithMetricReader c = c\<lparr>sg_reader := True\<rparr>"
| "setup_apply WithoutGlobal c = c\<lparr>sg_global := False\<rparr>"

record otel_sdk =
  os_resource :: "string \<Rightarrow> string \<Rightarrow> gerr option"
  os_trace :: "string \<Rightarrow> bool \<Rightarrow> gerr option"
  os_metric :: "string \<Rightarrow> bool \<Rightarrow> gerr option"

record telemetry =
  te_tp :: bool
  te_mp :: bool

definition newTraceExporter :: "otel_sdk \<Rightarrow> setup_config \<Rightarrow> gerr option" where
  "newTraceExporter sdk cfg = map_option (Wrap ''obs: otlp trace exporter: %w'' []) (os_trace sdk (sg_endpoint cfg) (sg_insecure cfg))"

definition newMetricExporter :: "otel_sdk \<Rightarrow> setup_config \<Rightarrow> gerr option" where
  "newMetricExporter sdk cfg = map_option (Wrap ''obs: otlp metric exporter: %w'' []) (os_metric sdk (sg_endpoint cfg) (sg_insecure cfg))"

definition setup_config_of :: "(string \<Rightarrow> string) \<Rightarrow> setup_option list \<Rightarrow> setup_config" where
  "setup_config_of getenv opts =
     (let cfg = fold setup_apply opts
            \<lparr>sg_name = [], sg_version = [], sg_endpoint = getenv ''OTEL_EXPORTER_OTLP_ENDPOINT'', sg_insecure = False,
             sg_exporter = False, sg_reader = False, sg_global = True\<rparr>
      in if sg_version cfg = [] then cfg\<lparr>sg_version := getenv ''SERVICE_VERSION''\<rparr> else cfg)"

definition Setup :: "otel_sdk \<Rightarrow> (string \<Rightarrow> string) \<Rightarrow> setup_option list \<Rightarrow> telemetry res \<times> otel_call list" where
  "Setup sdk getenv opts =
     (let cfg = setup_config_of getenv opts in
      if sg_endpoint cfg = [] \<and> \<not> sg_exporter cfg \<and> \<not> sg_reader cfg then (Inr \<lparr>te_tp = False, te_mp = False\<rparr>, [])
      else case os_resource sdk (sg_name cfg) (sg_version cfg) of
        Some e \<Rightarrow> (Inl (Wrap ''obs: build resource: %w'' [] e), [])
      | None \<Rightarrow>
          (case (if sg_exporter cfg then None else newTraceExporter sdk cfg) of
             Some e \<Rightarrow> (Inl e, [])
           | None \<Rightarrow>
               (case (if sg_reader cfg then None else newMetricExporter sdk cfg) of
                  Some e \<Rightarrow> (Inl e, [BuildTracer, StopTracer])
                | None \<Rightarrow> (Inr \<lparr>te_tp = True, te_mp = True\<rparr>,
                           [BuildTracer, BuildMeter] @ (if sg_global cfg then [GlobalTracer, GlobalMeter] else [])))))"

text \<open>A nil telemetry is \<open>None\<close>.\<close>

definition te_Enabled :: "telemetry option \<Rightarrow> bool" where
  "te_Enabled t = (case t of None \<Rightarrow> False | Some t \<Rightarrow> te_tp t \<or> te_mp t)"

text \<open>A tracer or a meter by name, of the process's provider or one that does nothing.\<close>

datatype scope = NoopScope string | ProviderScope string

definition te_Tracer :: "string \<Rightarrow> telemetry option \<Rightarrow> scope" where
  "te_Tracer name t = (case t of None \<Rightarrow> NoopScope name | Some t \<Rightarrow> if te_tp t then ProviderScope name else NoopScope name)"

definition te_Meter :: "string \<Rightarrow> telemetry option \<Rightarrow> scope" where
  "te_Meter name t = (case t of None \<Rightarrow> NoopScope name | Some t \<Rightarrow> if te_mp t then ProviderScope name else NoopScope name)"

definition both_providers :: "otel_call \<Rightarrow> otel_call \<Rightarrow> (otel_call \<Rightarrow> gerr option) \<Rightarrow> telemetry option \<Rightarrow> gerr option \<times> otel_call list" where
  "both_providers ct cm answer t =
     (case t of
        None \<Rightarrow> (None, [])
      | Some t \<Rightarrow>
          let errs = (if te_tp t then (case answer ct of None \<Rightarrow> [] | Some e \<Rightarrow> [Wrap ''trace provider: %w'' [] e]) else []) @
                     (if te_mp t then (case answer cm of None \<Rightarrow> [] | Some e \<Rightarrow> [Wrap ''meter provider: %w'' [] e]) else [])
          in (if errs = [] then None else Some (Joined errs), (if te_tp t then [ct] else []) @ (if te_mp t then [cm] else [])))"

definition te_ForceFlush :: "(otel_call \<Rightarrow> gerr option) \<Rightarrow> telemetry option \<Rightarrow> gerr option \<times> otel_call list" where
  "te_ForceFlush = both_providers FlushTracer FlushMeter"

definition te_Shutdown :: "(otel_call \<Rightarrow> gerr option) \<Rightarrow> telemetry option \<Rightarrow> gerr option \<times> otel_call list" where
  "te_Shutdown = both_providers StopTracer StopMeter"

text \<open>The providers that are still running after some calls.\<close>

definition running :: "otel_call list \<Rightarrow> otel_call \<Rightarrow> otel_call \<Rightarrow> bool" where
  "running cs build stop \<longleftrightarrow> count (mset cs) stop < count (mset cs) build"

text \<open>
  The telemetry of a process is all or nothing. A setup that fails has stopped what it built and published no
  global provider; one that succeeds is enabled exactly when an endpoint, an exporter or a reader is given, and
  then runs both providers, which serve every tracer and meter (a disabled one hands out meters that do nothing); and after its shutdown nothing runs, even when stopping the first one fails.
\<close>

theorem telemetry_is_all_or_nothing:
  "case Setup sdk getenv opts of
     (Inl e, cs) \<Rightarrow> \<not> running cs BuildTracer StopTracer \<and> \<not> running cs BuildMeter StopMeter \<and>
        set cs \<inter> {GlobalTracer, GlobalMeter} = {}
   | (Inr t, cs) \<Rightarrow>
       (te_Enabled (Some t) \<longleftrightarrow> \<not> (sg_endpoint (setup_config_of getenv opts) = [] \<and> \<not> sg_exporter (setup_config_of getenv opts) \<and>
          \<not> sg_reader (setup_config_of getenv opts))) \<and>
       te_Tracer name (Some t) = (if te_Enabled (Some t) then ProviderScope name else NoopScope name) \<and>
       te_Meter name (Some t) = (if te_Enabled (Some t) then ProviderScope name else NoopScope name) \<and>
       (running cs BuildTracer StopTracer \<longleftrightarrow> te_Enabled (Some t)) \<and> (running cs BuildMeter StopMeter \<longleftrightarrow> te_Enabled (Some t)) \<and>
       \<not> running (cs @ snd (te_Shutdown answer (Some t))) BuildTracer StopTracer \<and>
       \<not> running (cs @ snd (te_Shutdown answer (Some t))) BuildMeter StopMeter \<and>
       (fst (te_Shutdown answer (Some t)) = None \<longleftrightarrow>
          (if te_Enabled (Some t) then answer StopTracer = None \<and> answer StopMeter = None else True))"
  by (auto simp: Setup_def te_Enabled_def te_Tracer_def te_Meter_def running_def te_Shutdown_def both_providers_def Let_def split: option.split if_splits)

end
