(* ===== verification/Gateway_Main.thy ===== *)
theory Gateway_Main
  imports Gateway Bus Obs_Setup
begin

text \<open>
  \<open>cmd/telephony-gw/main.go\<close>: \<open>run\<close> as a process around the gateway of \<open>Gateway\<close>: the choice of the bus and of the media
  backend, the HTTP server with the requests it has accepted, the probes, and the shutdown: readiness off, the server
  closed, the calls drained until they are done or the budget has expired. NATS, ARI and the telemetry SDK enter as
  what they answer.
\<close>

section \<open>Start\<close>

datatype gw_publisher = MemoryPublisher | JetStreamPublisher string

record gw_services =
  gs_sdk :: otel_sdk
  gs_metrics :: "gerr option"
  gs_connect :: "string \<Rightarrow> gerr option"
  gs_jetstream :: "gerr option"
  gs_asterisk :: "asterisk_config \<Rightarrow> string \<Rightarrow> gerr option"

text \<open>The publisher, with the connection that the caller closes.\<close>

definition newPublisher :: "gw_services \<Rightarrow> gw_config \<Rightarrow> gw_publisher res" where
  "newPublisher sv cfg =
     (if gc_nats_url cfg = [] then Inr MemoryPublisher
      else case gs_connect sv (gc_nats_url cfg) of
        Some e \<Rightarrow> Inl (Wrap ''connect nats: %w'' [] e)
      | None \<Rightarrow>
          (case gs_jetstream sv of
             Some e \<Rightarrow> Inl (Wrap ''jetstream: %w'' [] e)
           | None \<Rightarrow> Inr (JetStreamPublisher (gc_event_subject_prefix cfg))))"

datatype gw_phase = Serving | Closing | Draining | Cancelling | Exited "gerr option"

record gw_proc =
  gp_gateway :: gateway
  gp_phase :: gw_phase
  gp_ready :: bool
  gp_inflight :: "json option list"
  gp_expired :: bool
  gp_drained :: "bool option"
  gp_codes :: "nat list"

definition gw_proc0 :: gw_proc where
  "gw_proc0 = \<lparr>gp_gateway = newGateway, gp_phase = Serving, gp_ready = True, gp_inflight = [], gp_expired = False,
     gp_drained = None, gp_codes = []\<rparr>"

definition gw_start :: "gw_services \<Rightarrow> (string \<Rightarrow> string) \<Rightarrow> gw_config \<Rightarrow> (gw_publisher \<times> gw_proc) res" where
  "gw_start sv getenv cfg =
     (case fst (Setup (gs_sdk sv) getenv [WithServiceName ''telephony-gw'', WithInsecure]) of
        Inl e \<Rightarrow> Inl (Wrap ''telemetry setup: %w'' [] e)
      | Inr tel \<Rightarrow>
          (case gs_metrics sv of
             Some e \<Rightarrow> Inl (Wrap ''telemetry metrics: %w'' [] e)
           | None \<Rightarrow>
               (case newPublisher sv cfg of
                  Inl e \<Rightarrow> Inl e
                | Inr pub \<Rightarrow>
                    (case (if gc_media_backend cfg = backendAsterisk then gs_asterisk sv (gc_asterisk cfg) (gc_media_listen_addr cfg) else None) of
                       Some e \<Rightarrow> Inl (Wrap ''asterisk backend: %w'' [] e)
                     | None \<Rightarrow> Inr (pub, gw_proc0)))))"

section \<open>Serving and shutting down\<close>

text \<open>The probes and the media route.\<close>

definition gw_get :: "string \<Rightarrow> gw_proc \<Rightarrow> nat" where
  "gw_get path p =
     (if path = ''/healthz'' then 200
      else if path = ''/readyz'' then (if gp_ready p then 200 else 503)
      else if has_prefix path ''/telnyx/media/'' \<and> drop 14 path \<noteq> [] \<and> CHR ''/'' \<notin> set (drop 14 path) then 501
      else 404)"

datatype gp_event =
    Accept "json option"            \<comment> \<open>the server takes a webhook\<close>
  | Serve nat                       \<comment> \<open>its handler runs\<close>
  | Session nat gw_outcome          \<comment> \<open>a call's goroutine takes a step\<close>
  | Terminate                       \<comment> \<open>the signal\<close>
  | Expire                          \<comment> \<open>the drain budget\<close>
  | ServerClosed                    \<comment> \<open>\<open>srv.Shutdown\<close> returns\<close>
  | AllDone                         \<comment> \<open>the wait group is at zero\<close>
  | GiveUp                          \<comment> \<open>the timeout branch of \<open>drain\<close>\<close>
  | ServerFails gerr
  | MediaFails gerr

fun exited :: "gw_phase \<Rightarrow> bool" where
  "exited (Exited e) = True"
| "exited _ = False"

fun gp_do :: "gw_config \<Rightarrow> gp_event \<Rightarrow> gw_proc \<Rightarrow> gw_proc option" where
  "gp_do cfg (Accept body) p = (if gp_phase p = Serving then Some (p\<lparr>gp_inflight := gp_inflight p @ [body]\<rparr>) else None)"
| "gp_do cfg (Serve k) p =
     (if k < length (gp_inflight p) \<and> \<not> exited (gp_phase p)
      then (case handleWebhook cfg (gp_inflight p ! k) (gp_gateway p) of
              (code, g) \<Rightarrow> Some (p\<lparr>gp_gateway := g, gp_codes := gp_codes p @ [code],
                                 gp_inflight := take k (gp_inflight p) @ drop (Suc k) (gp_inflight p)\<rparr>))
      else None)"
| "gp_do cfg (Session s oc) p =
     (if exited (gp_phase p) then None
      else map_option (\<lambda>g. p\<lparr>gp_gateway := g\<rparr>) (session_step cfg oc s (gp_gateway p)))"
| "gp_do cfg Terminate p = (if gp_phase p = Serving then Some (p\<lparr>gp_phase := Closing, gp_ready := False\<rparr>) else None)"
| "gp_do cfg Expire p = (if gp_phase p \<in> {Closing, Draining, Cancelling} then Some (p\<lparr>gp_expired := True\<rparr>) else None)"
| "gp_do cfg ServerClosed p =
     (if gp_phase p = Closing \<and> (gp_inflight p = [] \<or> gp_expired p) then Some (p\<lparr>gp_phase := Draining\<rparr>) else None)"
| "gp_do cfg AllDone p =
     (if gp_phase p \<in> {Draining, Cancelling} \<and> drained (gp_gateway p)
      then Some (p\<lparr>gp_phase := Exited (Some (Sentinel CtxCanceled)), gp_drained := Some (gp_phase p = Draining)\<rparr>)
      else None)"
| "gp_do cfg GiveUp p =
     (if gp_phase p = Draining \<and> gp_expired p
      then Some (p\<lparr>gp_phase := Cancelling, gp_gateway := cancel_stragglers (gp_gateway p)\<rparr>) else None)"
| "gp_do cfg (ServerFails e) p = (if gp_phase p = Serving then Some (p\<lparr>gp_phase := Exited (Some e)\<rparr>) else None)"
| "gp_do cfg (MediaFails e) p =
     (if gp_phase p = Serving \<and> gc_media_backend cfg = backendAsterisk
      then Some (p\<lparr>gp_phase := Exited (Some (Wrap ''external media server: %w'' [] e))\<rparr>) else None)"

fun gp_run :: "gw_config \<Rightarrow> gp_event list \<Rightarrow> gw_proc \<Rightarrow> gw_proc option" where
  "gp_run cfg [] p = Some p"
| "gp_run cfg (x # xs) p = (case gp_do cfg x p of None \<Rightarrow> None | Some q \<Rightarrow> gp_run cfg xs q)"

text \<open>The exit code of \<open>main\<close>, which lets a cancelled context pass.\<close>

definition gw_exit_code :: "gw_proc \<Rightarrow> nat option" where
  "gw_exit_code p =
     (case gp_phase p of
        Exited None \<Rightarrow> Some 0
      | Exited (Some e) \<Rightarrow> Some (if is_err CtxCanceled e then 0 else 1)
      | _ \<Rightarrow> None)"

section \<open>Properties\<close>

text \<open>Every event of the process is at most one move of the gateway inside it.\<close>

lemma gp_do_gateway:
  assumes "gp_do cfg x p = Some q"
  shows "gp_gateway q = gp_gateway p \<or> gw_step cfg (gp_gateway p) (gp_gateway q)"
proof (cases x)
  case (Serve k)
  then have "gw_do cfg (GwWebhook (gp_inflight p ! k)) (gp_gateway p) = Some (gp_gateway q)"
    using assms by (auto split: if_splits prod.splits)
  then show ?thesis unfolding gw_step_def by blast
next
  case (Session s oc)
  then have "gw_do cfg (GwStep s oc) (gp_gateway p) = Some (gp_gateway q)" using assms by (auto split: if_splits)
  then show ?thesis unfolding gw_step_def by blast
next
  case GiveUp
  then have "gw_do cfg GwDrainTimeout (gp_gateway p) = Some (gp_gateway q)" using assms by (auto split: if_splits)
  then show ?thesis unfolding gw_step_def by blast
qed (use assms in \<open>auto split: if_splits\<close>)

lemma gp_run_gateway:
  "gp_run cfg xs p = Some q \<Longrightarrow> run_of (gw_step cfg) g (gp_gateway p) \<Longrightarrow> run_of (gw_step cfg) g (gp_gateway q)"
proof (induction xs arbitrary: p)
  case (Cons x xs)
  then obtain p1 where p1: "gp_do cfg x p = Some p1" "gp_run cfg xs p1 = Some q" by (auto split: option.splits)
  have "run_of (gw_step cfg) g (gp_gateway p1)"
    using gp_do_gateway [OF p1(1)] Cons.prems(2) by (metis run_step)
  with Cons.IH p1(2) show ?case by blast
qed simp

definition exit_inv :: "gw_proc \<Rightarrow> bool" where
  "exit_inv p \<longleftrightarrow>
     (case gp_drained p of None \<Rightarrow> True | Some b \<Rightarrow> exited (gp_phase p) \<and> drained (gp_gateway p) \<and> (b \<or> gp_expired p)) \<and>
     (gp_phase p = Cancelling \<longrightarrow> gp_expired p)"

lemma exit_inv_working:
  "exit_inv p \<Longrightarrow> \<not> exited (gp_phase p) \<Longrightarrow> gp_drained p = None \<and> (gp_phase p = Cancelling \<longrightarrow> gp_expired p)"
  by (auto simp: exit_inv_def split: option.splits)

lemma exit_inv_quiet: "gp_drained q = None \<Longrightarrow> (gp_phase q = Cancelling \<longrightarrow> gp_expired q) \<Longrightarrow> exit_inv q"
  by (simp add: exit_inv_def)

lemma gp_do_working: "gp_do cfg x p = Some q \<Longrightarrow> \<not> exited (gp_phase p)"
  by (cases x; cases "gp_phase p") (simp_all split: if_splits)

lemma gp_do_exit_inv:
  assumes "gp_do cfg x p = Some q" "exit_inv p"
  shows "exit_inv q"
proof -
  have w: "gp_drained p = None" "gp_phase p = Cancelling \<longrightarrow> gp_expired p"
    using exit_inv_working [OF assms(2) gp_do_working [OF assms(1)]] by simp_all
  show ?thesis
  proof (cases x)
    case (Serve k)
    obtain code g where "handleWebhook cfg (gp_inflight p ! k) (gp_gateway p) = (code, g)" by fastforce
    with assms(1) Serve w show ?thesis by (intro exit_inv_quiet) (auto split: if_splits)
  next
    case (Session s oc)
    with assms(1) w show ?thesis by (intro exit_inv_quiet) (auto split: if_splits)
  next
    case AllDone
    with assms(1) w show ?thesis by (auto simp: exit_inv_def split: if_splits)
  qed (use assms(1) w in \<open>auto intro!: exit_inv_quiet split: if_splits\<close>)
qed

interpretation gwp: step_system "\<lambda>p. p = gw_proc0" "\<lambda>p q. \<exists>x. gp_do cfg x p = Some q" exit_inv for cfg
  by unfold_locales (simp add: exit_inv_def gw_proc0_def, use gp_do_exit_inv in blast)

lemma gp_run_of: "gp_run cfg xs p = Some q \<Longrightarrow> run_of (\<lambda>p q. \<exists>x. gp_do cfg x p = Some q) r p \<Longrightarrow> run_of (\<lambda>p q. \<exists>x. gp_do cfg x p = Some q) r q"
proof (induction xs arbitrary: p)
  case (Cons x xs)
  then obtain p1 where p1: "gp_do cfg x p = Some p1" "gp_run cfg xs p1 = Some q" by (auto split: option.splits)
  have "run_of (\<lambda>p q. \<exists>x. gp_do cfg x p = Some q) r p1" by (rule run_step [OF Cons.prems(2)]) (use p1 in blast)
  with Cons.IH p1(2) show ?case by blast
qed simp

lemma gp_run_cmds: "gp_run cfg xs gw_proc0 = Some p \<Longrightarrow> list_all (cmd_ok cfg (gp_gateway p)) (gw_log (gp_gateway p))"
proof -
  assume "gp_run cfg xs gw_proc0 = Some p"
  then have "run_of (gw_step cfg) newGateway (gp_gateway p)" by (rule gp_run_gateway) (simp add: gw_proc0_def run_refl)
  from gws.inv_reachable [OF refl this] show ?thesis by (simp add: gw_inv_def list_all_iff)
qed


definition quiet_shutdown :: "gp_event list" where
  "quiet_shutdown = [Terminate, ServerClosed, AllDone]"


section \<open>The drain of live calls\<close>

text \<open>A process that drains with a call up: its goroutine holds the line, nothing has cancelled it, no request is left.\<close>

definition stuck_drain :: "nat \<Rightarrow> gw_proc \<Rightarrow> bool" where
  "stuck_drain s p \<longleftrightarrow> gp_phase p = Draining \<and> gp_inflight p = [] \<and> holds_phase s (gp_gateway p) \<and> s < gw_next (gp_gateway p) \<and>
     s \<notin> gw_cancelled (gp_gateway p)"

text \<open>Once the budget has expired, the calls are given up, or the process has exited without draining them.\<close>

definition given_up :: "gw_proc \<Rightarrow> bool" where
  "given_up p \<longleftrightarrow> gp_phase p = Cancelling \<and> gp_inflight p = [] \<or> exited (gp_phase p) \<and> gp_drained p = Some False"

lemma holds_not_drained: "holds_phase s g \<Longrightarrow> s < gw_next g \<Longrightarrow> \<not> drained g"
  by (auto simp: holds_phase_def drained_def)

lemma held_session_step:
  assumes "session_step cfg oc r g = Some g'" "gw_inv cfg g" "holds_phase s g" "s \<notin> gw_cancelled g"
  shows "holds_phase s g' \<and> gw_next g' = gw_next g \<and> s \<notin> gw_cancelled g'"
proof -
  obtain c ph where e: "gw_calls g r = Some c" "gw_calls g' = (gw_calls g)(r \<mapsto> c\<lparr>gl_phase := ph\<rparr>)" "gw_next g' = gw_next g"
    "gw_cancelled g' = gw_cancelled g"
    using session_step_log [OF assms(1,2)] by auto
  have "r \<noteq> s" using assms(1,3,4) by (auto simp: holds_phase_def session_step_def)
  with e assms(3,4) show ?thesis by (auto simp: holds_phase_def)
qed

lemma stuck_step:
  assumes "gp_do cfg x p = Some q" "stuck_drain s p" "gw_inv cfg (gp_gateway p)" "exit_inv p"
  shows "stuck_drain s q \<and> (x \<noteq> Expire \<longrightarrow> gp_expired q = gp_expired p) \<or> given_up q \<and> gp_expired p"
proof (cases x)
  case (Session r oc)
  then obtain g where g: "session_step cfg oc r (gp_gateway p) = Some g" "q = p\<lparr>gp_gateway := g\<rparr>"
    using assms(1) by (auto split: if_splits)
  have "holds_phase s (gp_gateway p)" "s \<notin> gw_cancelled (gp_gateway p)" using assms(2) by (simp_all add: stuck_drain_def)
  from held_session_step [OF g(1) assms(3) this] assms(2) Session g(2) show ?thesis by (simp add: stuck_drain_def)
next
  case AllDone
  with assms(1,2) holds_not_drained show ?thesis by (auto simp: stuck_drain_def)
qed (use assms(1,2) in \<open>auto simp: stuck_drain_def given_up_def split: if_splits\<close>)

lemma given_up_step:
  assumes "gp_do cfg x p = Some q" "given_up p"
  shows "given_up q"
proof -
  have "gp_phase p = Cancelling" "gp_inflight p = []"
    using assms gp_do_working [OF assms(1)] by (auto simp: given_up_def)
  with assms(1) show ?thesis by (cases x) (auto simp: given_up_def split: if_splits)
qed

lemma stuck_run:
  "gp_run cfg xs p = Some q \<Longrightarrow> stuck_drain s p \<and> \<not> (gp_expired p \<and> Expire \<notin> E) \<or> given_up p \<Longrightarrow>
   gw_inv cfg (gp_gateway p) \<Longrightarrow> exit_inv p \<Longrightarrow> set xs \<subseteq> E \<Longrightarrow>
   stuck_drain s q \<or> given_up q \<and> (given_up p \<or> Expire \<in> E)"
proof (induction xs arbitrary: p)
  case (Cons x xs)
  then obtain p1 where p1: "gp_do cfg x p = Some p1" "gp_run cfg xs p1 = Some q" by (auto split: option.splits)
  have i: "gw_inv cfg (gp_gateway p1)" "exit_inv p1"
    using gp_do_gateway [OF p1(1)] gw_step_inv Cons.prems(3) gp_do_exit_inv [OF p1(1)] Cons.prems(4) by auto
  show ?case
  proof (cases "given_up p")
    case True
    with given_up_step [OF p1(1)] Cons.IH [OF p1(2) _ i] Cons.prems(5) show ?thesis by auto
  next
    case False
    then have st: "stuck_drain s p" "\<not> (gp_expired p \<and> Expire \<notin> E)" using Cons.prems(2) by auto
    from stuck_step [OF p1(1) st(1) Cons.prems(3,4)] show ?thesis
    proof
      assume a: "stuck_drain s p1 \<and> (x \<noteq> Expire \<longrightarrow> gp_expired p1 = gp_expired p)"
      then have "\<not> (gp_expired p1 \<and> Expire \<notin> E)" using st(2) Cons.prems(5) by auto
      with a Cons.IH [OF p1(2) _ i] Cons.prems(5) show ?thesis
        using False by (cases "given_up p1") (auto simp: given_up_def stuck_drain_def)
    next
      assume a: "given_up p1 \<and> gp_expired p"
      then have "Expire \<in> E" using st(2) by simp
      with a Cons.IH [OF p1(2) _ i] Cons.prems(5) show ?thesis by auto
    qed
  qed
qed auto

text \<open>
  C19: a call that is up when the drain begins is never drained. Only a hangup webhook ends a call, and the server
  that would take it was closed before: from then on, whatever happens, the process does not exit before the budget
  has expired, and when it exits it reports that calls were cancelled.
\<close>

theorem live_calls_are_never_drained:
  assumes "gp_run cfg ys gw_proc0 = Some p" and "stuck_drain s p" and "\<not> gp_expired p"
    and "gp_run cfg xs p = Some q" and "exited (gp_phase q)"
  shows "Expire \<in> set xs \<and> gp_drained q = Some False"
proof -
  have "run_of (gw_step cfg) newGateway (gp_gateway p)"
    by (rule gp_run_gateway [OF assms(1)]) (simp add: gw_proc0_def run_refl)
  then have i: "gw_inv cfg (gp_gateway p)" "exit_inv p"
    using gws.inv_reachable [OF refl] gwp.inv_reachable [OF refl gp_run_of [OF assms(1) run_refl]] by blast+
  have n: "\<not> given_up p" using assms(2) by (auto simp: stuck_drain_def given_up_def)
  from stuck_run [OF assms(4) _ i order_refl] assms(2,3) n
  have "stuck_drain s q \<or> given_up q \<and> Expire \<in> set xs" by blast
  with assms(5) show ?thesis by (auto simp: stuck_drain_def given_up_def)
qed

text \<open>One call is up when the signal comes; its hangup can no longer be taken.\<close>

definition live_call :: "gp_event list" where
  "live_call = [Accept (initiated ''c1'' ''+1438'' ''+15145550100''), Serve 0, Session 0 answered_ok, Session 0 answered_ok,
     Terminate, ServerClosed]"

theorem live_calls_are_never_drained_witness:
  "\<exists>p q. gp_run demo_gateway_config live_call gw_proc0 = Some p \<and> gp_do demo_gateway_config (Accept (hung_up ''c1'')) p = None \<and>
     gp_run demo_gateway_config [Expire, GiveUp, Session 0 answered_ok, AllDone] p = Some q \<and> gp_drained q = Some False"
proof -
  have t: "gc_tenant_by_did demo_gateway_config ''+15145550100'' = Some ''acme''" by (simp add: demo_gateway_config_def)
  obtain p where p: "gp_run demo_gateway_config live_call gw_proc0 = Some p" "stuck_drain 0 p" "\<not> gp_expired p"
    and q: "\<exists>q. gp_run demo_gateway_config [Expire, GiveUp, Session 0 answered_ok, AllDone] p = Some q \<and> exited (gp_phase q)"
    by (simp add: live_call_def gw_proc0_def handle_initiated t gw_eval stuck_drain_def holds_phase_def newGateway_def
        cancel_stragglers_def finish_call_def reg_remove_def drained_def)
  then obtain q where q: "gp_run demo_gateway_config [Expire, GiveUp, Session 0 answered_ok, AllDone] p = Some q" "exited (gp_phase q)" by blast
  have "gp_do demo_gateway_config (Accept (hung_up ''c1'')) p = None" using p(2) by (simp add: stuck_drain_def)
  with live_calls_are_never_drained [OF p q] p(1) q(1) show ?thesis by blast
qed

end
