(* ===== verification/Core_Main.thy ===== *)
theory Core_Main
  imports Obs_Setup
begin

text \<open>
  \<open>cmd/core-api/main.go\<close>: the choice of the store and the life of the server of the core API. The database pool, the
  telemetry SDK and the outcomes of serving and of the shutdown are parameters.
\<close>

definition ErrServerClosed :: string where "ErrServerClosed = ''http: Server closed''"

datatype store_kind = Postgres string | InMemory

definition core_start :: "otel_sdk \<Rightarrow> (string \<Rightarrow> gerr option) \<Rightarrow> (string \<Rightarrow> string) \<Rightarrow> (string \<times> store_kind) res" where
  "core_start sdk new_pool getenv =
     (case fst (Setup sdk getenv [WithServiceName ''core-api'', WithInsecure]) of
        Inl e \<Rightarrow> Inl (Wrap ''telemetry setup: %w'' [] e)
      | Inr tel \<Rightarrow>
          let addr = (if getenv ''CORE_API_ADDR'' = [] then '':8080'' else getenv ''CORE_API_ADDR'') in
          if getenv ''DATABASE_URL'' \<noteq> [] then
            (case new_pool (getenv ''DATABASE_URL'') of
               Some e \<Rightarrow> Inl (Wrap ''connect postgres: %w'' [] e)
             | None \<Rightarrow> Inr (addr, Postgres (getenv ''DATABASE_URL'')))
          else Inr (addr, InMemory))"

text \<open>
  How the server's life ends: \<open>ListenAndServe\<close> fails before the signal, or the signal comes and \<open>Shutdown\<close> and
  \<open>ListenAndServe\<close> answer. \<open>ListenAndServe\<close> always returns an error.
\<close>

datatype core_end = ServeFails gerr | Signalled "gerr option" gerr

fun core_finish :: "core_end \<Rightarrow> gerr option" where
  "core_finish (ServeFails e) = Some (Wrap ''serve: %w'' [] e)"
| "core_finish (Signalled (Some e) r) = Some (Wrap ''shutdown: %w'' [] e)"
| "core_finish (Signalled None r) = (if is_err ErrServerClosed r then None else Some (Wrap ''serve: %w'' [] r))"

definition core_exit_code :: "(string \<times> store_kind) res \<Rightarrow> core_end \<Rightarrow> nat" where
  "core_exit_code start life =
     (case start of Inl e \<Rightarrow> 1 | Inr _ \<Rightarrow> (case core_finish life of Some e \<Rightarrow> 1 | None \<Rightarrow> 0))"

text \<open>
  The API exits cleanly exactly when it started, the signal came, the requests under way were done within the grace and
  the server ended because it was closed; its data are volatile exactly when no database is configured.
\<close>

theorem core_api_exits_cleanly_iff:
  "(core_exit_code start life = 0 \<longleftrightarrow>
      (\<exists>r v. start = Inr v \<and> life = Signalled None r \<and> is_err ErrServerClosed r)) \<and>
   (case core_start sdk new_pool getenv of Inl e \<Rightarrow> True | Inr (addr, kind) \<Rightarrow> addr \<noteq> [] \<and> (kind = InMemory \<longleftrightarrow> getenv ''DATABASE_URL'' = []))"
proof
  show "core_exit_code start life = 0 \<longleftrightarrow> (\<exists>r v. start = Inr v \<and> life = Signalled None r \<and> is_err ErrServerClosed r)"
    by (cases life rule: core_finish.cases) (auto simp: core_exit_code_def split: sum.split)
  show "case core_start sdk new_pool getenv of Inl e \<Rightarrow> True | Inr (addr, kind) \<Rightarrow> addr \<noteq> [] \<and> (kind = InMemory \<longleftrightarrow> getenv ''DATABASE_URL'' = [])"
    by (auto simp: core_start_def Let_def split: sum.split option.split)
qed

end
