(* ===== verification/Ari_Client.thy ===== *)
theory Ari_Client
  imports Call_Control Gateway_Config Carriers
begin

text \<open>
  \<open>internal/asterisk/ariclient.go\<close>, the backend of \<open>asterisk.go\<close> and the in-memory ARI of \<open>fake.go\<close>. The ARI library is a
  function of the calls that were made on it before and of the call; what the client makes of a command is that call
  and the wrapping of its error. The client gives \<open>Call_Control\<close> its Asterisk, so what is shown there of commands holds
  of the calls on the wire.
\<close>

section \<open>The client\<close>

record ari_key =
  ak_kind :: string
  ak_id :: string

definition ChannelKey :: string where "ChannelKey = ''channel''"
definition PlaybackKey :: string where "PlaybackKey = ''playback''"
definition ApplicationKey :: string where "ApplicationKey = ''application''"

definition NewKey :: "string \<Rightarrow> string \<Rightarrow> ari_key" where
  "NewKey kind i = \<lparr>ak_kind = kind, ak_id = i\<rparr>"

definition channelKey :: "string \<Rightarrow> ari_key" where
  "channelKey i = NewKey ChannelKey i"

text \<open>The calls on the library.\<close>

datatype ari_op =
    OpAnswer ari_key
  | OpHangup ari_key string
  | OpContinue ari_key string string nat
  | OpPlay ari_key string string
  | OpStop ari_key
  | OpSendDTMF ari_key string
  | OpRecord ari_key string string string                      \<comment> \<open>format and what to do with an existing file\<close>
  | OpExternalMedia string string string string string string  \<comment> \<open>channel, application, host, format, encapsulation, transport\<close>
  | OpData ari_key
  | OpClose

type_synonym ari_library = "ari_op list \<Rightarrow> ari_op \<Rightarrow> gerr option"

record ari_client =
  cl_app :: string

definition lib_call :: "ari_library \<Rightarrow> ari_op \<Rightarrow> (gerr \<Rightarrow> gerr) \<Rightarrow> ari_op list \<Rightarrow> gerr option \<times> ari_op list" where
  "lib_call L op wrap l = (map_option wrap (L l op), l @ [op])"

definition cl_Answer :: "ari_library \<Rightarrow> ari_client \<Rightarrow> string \<Rightarrow> ari_op list \<Rightarrow> gerr option \<times> ari_op list" where
  "cl_Answer L c ch = lib_call L (OpAnswer (channelKey ch)) (Wrap ''asterisk: answer %s: %w'' [FS ch])"

definition cl_Hangup :: "ari_library \<Rightarrow> ari_client \<Rightarrow> string \<Rightarrow> ari_op list \<Rightarrow> gerr option \<times> ari_op list" where
  "cl_Hangup L c ch = lib_call L (OpHangup (channelKey ch) ''normal'') (Wrap ''asterisk: hangup %s: %w'' [FS ch])"

definition cl_ContinueTo :: "ari_library \<Rightarrow> ari_client \<Rightarrow> string \<Rightarrow> string \<Rightarrow> string \<Rightarrow> nat \<Rightarrow> ari_op list \<Rightarrow> gerr option \<times> ari_op list" where
  "cl_ContinueTo L c ch ctx ext prio =
     lib_call L (OpContinue (channelKey ch) ctx ext prio) (Wrap ''asterisk: continue %s to %s,%s: %w'' [FS ch, FS ctx, FS ext])"

definition cl_Play :: "ari_library \<Rightarrow> ari_client \<Rightarrow> string \<Rightarrow> string \<Rightarrow> string \<Rightarrow> ari_op list \<Rightarrow> gerr option \<times> ari_op list" where
  "cl_Play L c ch pb uri = lib_call L (OpPlay (channelKey ch) pb uri) (Wrap ''asterisk: play %s on %s: %w'' [FS uri, FS ch])"

definition cl_StopPlayback :: "ari_library \<Rightarrow> ari_client \<Rightarrow> string \<Rightarrow> ari_op list \<Rightarrow> gerr option \<times> ari_op list" where
  "cl_StopPlayback L c pb = lib_call L (OpStop (NewKey PlaybackKey pb)) (Wrap ''asterisk: stop playback %s: %w'' [FS pb])"

definition cl_SendDTMF :: "ari_library \<Rightarrow> ari_client \<Rightarrow> string \<Rightarrow> string \<Rightarrow> ari_op list \<Rightarrow> gerr option \<times> ari_op list" where
  "cl_SendDTMF L c ch digits = lib_call L (OpSendDTMF (channelKey ch) digits) (Wrap ''asterisk: send dtmf on %s: %w'' [FS ch])"

definition cl_Record :: "ari_library \<Rightarrow> ari_client \<Rightarrow> string \<Rightarrow> string \<Rightarrow> ari_op list \<Rightarrow> gerr option \<times> ari_op list" where
  "cl_Record L c ch name = lib_call L (OpRecord (channelKey ch) name ''wav'' ''overwrite'') (Wrap ''asterisk: record %s: %w'' [FS ch])"

definition cl_ExternalMedia :: "ari_library \<Rightarrow> ari_client \<Rightarrow> string \<Rightarrow> string \<Rightarrow> string \<Rightarrow> ari_op list \<Rightarrow> gerr option \<times> ari_op list" where
  "cl_ExternalMedia L c ch host format =
     lib_call L (OpExternalMedia ch (cl_app c) host format ''rtp'' ''udp'')
       (Wrap ''asterisk: external media %s -> %s: %w'' [FS ch, FS host])"

text \<open>\<open>channels\<close> is the list in the data of the application.\<close>

definition cl_LiveChannels :: "ari_library \<Rightarrow> string list \<Rightarrow> ari_client \<Rightarrow> ari_op list \<Rightarrow> string list res \<times> ari_op list" where
  "cl_LiveChannels L channels c l =
     (let op = OpData (NewKey ApplicationKey (cl_app c)) in
      (case L l op of
         Some e \<Rightarrow> Inl (Wrap ''asterisk: list channels of app %s: %w'' [FS (cl_app c)] e)
       | None \<Rightarrow> Inr channels, l @ [op]))"

definition cl_Close :: "ari_client \<Rightarrow> ari_op list \<Rightarrow> gerr option \<times> ari_op list" where
  "cl_Close c l = (None, l @ [OpClose])"

fun cl_exec :: "ari_library \<Rightarrow> ari_client \<Rightarrow> ari_cmd \<Rightarrow> ari_op list \<Rightarrow> gerr option \<times> ari_op list" where
  "cl_exec L c (AriAnswer ch) l = cl_Answer L c ch l"
| "cl_exec L c (AriHangup ch) l = cl_Hangup L c ch l"
| "cl_exec L c (AriContinueTo ch ctx ext prio) l = cl_ContinueTo L c ch ctx ext prio l"
| "cl_exec L c (AriPlay ch pb uri) l = cl_Play L c ch pb uri l"
| "cl_exec L c (AriStopPlayback pb) l = cl_StopPlayback L c pb l"
| "cl_exec L c (AriSendDTMF ch digits) l = cl_SendDTMF L c ch digits l"
| "cl_exec L c (AriRecord ch name) l = cl_Record L c ch name l"

fun op_of :: "ari_cmd \<Rightarrow> ari_op" where
  "op_of (AriAnswer ch) = OpAnswer (channelKey ch)"
| "op_of (AriHangup ch) = OpHangup (channelKey ch) ''normal''"
| "op_of (AriContinueTo ch ctx ext prio) = OpContinue (channelKey ch) ctx ext prio"
| "op_of (AriPlay ch pb uri) = OpPlay (channelKey ch) pb uri"
| "op_of (AriStopPlayback pb) = OpStop (NewKey PlaybackKey pb)"
| "op_of (AriSendDTMF ch digits) = OpSendDTMF (channelKey ch) digits"
| "op_of (AriRecord ch name) = OpRecord (channelKey ch) name ''wav'' ''overwrite''"

lemmas cl_defs = cl_Answer_def cl_Hangup_def cl_ContinueTo_def cl_Play_def cl_StopPlayback_def cl_SendDTMF_def cl_Record_def
  lib_call_def

lemma cl_exec_log: "snd (cl_exec L c cmd l) = l @ [op_of cmd]"
  by (cases cmd) (simp_all add: cl_defs)

lemma cl_exec_fails: "fst (cl_exec L c cmd l) = None \<longleftrightarrow> L l (op_of cmd) = None"
  by (cases cmd) (simp_all add: cl_defs)

lemma cl_exec_error: "fst (cl_exec L c cmd l) = Some e \<Longrightarrow> \<exists>e'. L l (op_of cmd) = Some e' \<and> (\<forall>t. is_err t e = is_err t e')"
  by (cases cmd) (auto simp: cl_defs)

text \<open>The Asterisk of the call control, when the client is its ARI.\<close>

definition client_ari :: "ari_library \<Rightarrow> ari_client \<Rightarrow> ari" where
  "client_ari L c sofar cmd = fst (cl_exec L c cmd (map op_of sofar))"

section \<open>Properties of the client\<close>


section \<open>The backend\<close>

text \<open>What the connection and the socket are asked to do.\<close>

datatype be_call = DialARI | CloseARI | ListenUDP string | CloseMedia

record be_world =
  bw_dial :: "string \<Rightarrow> string \<Rightarrow> gerr option"
  bw_listen :: "string \<Rightarrow> gerr option"
  bw_close_media :: "gerr option"
  bw_close_ari :: "gerr option"

record asterisk_backend =
  ab_control :: call_control
  ab_client :: ari_client

definition Dial :: "be_world \<Rightarrow> asterisk_config \<Rightarrow> ari_client res \<times> be_call list" where
  "Dial w cfg =
     (case asterisk_validate cfg of
        Some e \<Rightarrow> (Inl e, [])
      | None \<Rightarrow>
          (case bw_dial w (ac_url cfg) (ac_application cfg) of
             Some e \<Rightarrow> (Inl (Wrap ''asterisk: connect %s app %s: %w'' [FS (ac_url cfg), FS (ac_application cfg)] e), [])
           | None \<Rightarrow> (Inr \<lparr>cl_app = ac_application cfg\<rparr>, [DialARI])))"

definition NewBackendWith :: "be_world \<Rightarrow> ari_client \<Rightarrow> asterisk_config \<Rightarrow> string \<Rightarrow> asterisk_backend res \<times> be_call list" where
  "NewBackendWith w client cfg addr =
     (case bw_listen w addr of
        Some e \<Rightarrow> (Inl (Wrap ''asterisk: external media server: %w'' [] e), [])
      | None \<Rightarrow> (Inr \<lparr>ab_control = NewCallControl (ac_transfer_context cfg), ab_client = client\<rparr>, [ListenUDP addr]))"

definition backend_New :: "be_world \<Rightarrow> asterisk_config \<Rightarrow> string \<Rightarrow> asterisk_backend res \<times> be_call list" where
  "backend_New w cfg addr =
     (case asterisk_validate cfg of
        Some e \<Rightarrow> (Inl e, [])
      | None \<Rightarrow>
          (case Dial w cfg of
             (Inl e, cs) \<Rightarrow> (Inl (Wrap ''asterisk: dial ARI: %w'' [] e), cs)
           | (Inr client, cs) \<Rightarrow> (case NewBackendWith w client cfg addr of (r, cs') \<Rightarrow> (r, cs @ cs'))))"

definition backend_Close :: "be_world \<Rightarrow> asterisk_backend \<Rightarrow> gerr option \<times> be_call list" where
  "backend_Close w b =
     (let err = bw_close_media w; cerr = bw_close_ari w in (if err = None then cerr else err, [CloseMedia, CloseARI]))"

text \<open>
  A backend that was built is released whole, whichever of the two closes fails, with the first error; but one whose
  media socket cannot be bound leaves its ARI connection open, which nothing closes any more.
\<close>

theorem backend_is_released:
  "case backend_New w cfg addr of
     (Inr b, cs) \<Rightarrow> cs = [DialARI, ListenUDP addr] \<and> snd (backend_Close w b) = [CloseMedia, CloseARI] \<and>
       (fst (backend_Close w b) = None \<longleftrightarrow> bw_close_media w = None \<and> bw_close_ari w = None)
   | (Inl e, cs) \<Rightarrow>
       cs = (if asterisk_validate cfg = None \<and> bw_dial w (ac_url cfg) (ac_application cfg) = None then [DialARI] else [])"
  by (auto simp: backend_New_def Dial_def NewBackendWith_def backend_Close_def Let_def split: option.split)

theorem failed_backend_leaks_its_connection:
  assumes "asterisk_validate cfg = None" and "bw_dial w (ac_url cfg) (ac_application cfg) = None" and "bw_listen w addr = Some e"
  shows "\<exists>e'. backend_New w cfg addr = (Inl e', [DialARI])"
  using assms by (simp add: backend_New_def Dial_def NewBackendWith_def)

theorem failed_backend_leaks_its_connection_witness:
  "CloseARI \<notin> set (snd (backend_New \<lparr>bw_dial = (\<lambda>_ _. None), bw_listen = (\<lambda>_. Some (Sentinel ''address in use'')),
       bw_close_media = None, bw_close_ari = None\<rparr> (no_asterisk\<lparr>ac_url := ''http://asterisk:8088/ari'', ac_application := ''frontdesk-v1''\<rparr>) '':4000''))"
proof -
  let ?w = "\<lparr>bw_dial = (\<lambda>_ _. None), bw_listen = (\<lambda>_. Some (Sentinel ''address in use'')), bw_close_media = None, bw_close_ari = None\<rparr>"
  let ?c = "no_asterisk\<lparr>ac_url := ''http://asterisk:8088/ari'', ac_application := ''frontdesk-v1''\<rparr>"
  have "asterisk_validate ?c = None" by (simp add: asterisk_validate_def)
  from failed_backend_leaks_its_connection [OF this, of ?w "'':4000''" "Sentinel ''address in use''"] show ?thesis by auto
qed

section \<open>FakeARI\<close>

record fake_ari =
  fa_err :: "gerr option"
  fa_live :: "string list"
  fa_answered :: "string list"
  fa_hungup :: "string list"
  fa_continues :: "(string \<times> string \<times> string \<times> nat) list"
  fa_plays :: "(string \<times> string \<times> string) list"
  fa_stops :: "string list"
  fa_dtmf :: "(string \<times> string) list"
  fa_recordings :: "string list"
  fa_media :: "(string \<times> string \<times> string) list"
  fa_closed :: bool

definition fa_guard :: "(fake_ari \<Rightarrow> fake_ari) \<Rightarrow> fake_ari \<Rightarrow> gerr option \<times> fake_ari" where
  "fa_guard f s = (if fa_err s \<noteq> None then (fa_err s, s) else (None, f s))"

definition fa_Answer :: "string \<Rightarrow> fake_ari \<Rightarrow> gerr option \<times> fake_ari" where
  "fa_Answer ch = fa_guard (\<lambda>s. s\<lparr>fa_answered := fa_answered s @ [ch]\<rparr>)"

definition fa_Hangup :: "string \<Rightarrow> fake_ari \<Rightarrow> gerr option \<times> fake_ari" where
  "fa_Hangup ch = fa_guard (\<lambda>s. s\<lparr>fa_hungup := fa_hungup s @ [ch]\<rparr>)"

definition fa_ContinueTo :: "string \<Rightarrow> string \<Rightarrow> string \<Rightarrow> nat \<Rightarrow> fake_ari \<Rightarrow> gerr option \<times> fake_ari" where
  "fa_ContinueTo ch ctx ext prio = fa_guard (\<lambda>s. s\<lparr>fa_continues := fa_continues s @ [(ch, ctx, ext, prio)]\<rparr>)"

definition fa_Play :: "string \<Rightarrow> string \<Rightarrow> string \<Rightarrow> fake_ari \<Rightarrow> gerr option \<times> fake_ari" where
  "fa_Play ch pb uri = fa_guard (\<lambda>s. s\<lparr>fa_plays := fa_plays s @ [(ch, pb, uri)]\<rparr>)"

definition fa_StopPlayback :: "string \<Rightarrow> fake_ari \<Rightarrow> gerr option \<times> fake_ari" where
  "fa_StopPlayback pb = fa_guard (\<lambda>s. s\<lparr>fa_stops := fa_stops s @ [pb]\<rparr>)"

definition fa_SendDTMF :: "string \<Rightarrow> string \<Rightarrow> fake_ari \<Rightarrow> gerr option \<times> fake_ari" where
  "fa_SendDTMF ch digits = fa_guard (\<lambda>s. s\<lparr>fa_dtmf := fa_dtmf s @ [(ch, digits)]\<rparr>)"

definition fa_Record :: "string \<Rightarrow> string \<Rightarrow> fake_ari \<Rightarrow> gerr option \<times> fake_ari" where
  "fa_Record ch name = fa_guard (\<lambda>s. s\<lparr>fa_recordings := fa_recordings s @ [ch]\<rparr>)"

definition fa_ExternalMedia :: "string \<Rightarrow> string \<Rightarrow> string \<Rightarrow> fake_ari \<Rightarrow> gerr option \<times> fake_ari" where
  "fa_ExternalMedia ch host format = fa_guard (\<lambda>s. s\<lparr>fa_media := fa_media s @ [(ch, host, format)]\<rparr>)"

definition fa_LiveChannels :: "fake_ari \<Rightarrow> string list res" where
  "fa_LiveChannels s = (case fa_err s of Some e \<Rightarrow> Inl e | None \<Rightarrow> Inr (fa_live s))"

definition fa_Close :: "fake_ari \<Rightarrow> gerr option \<times> fake_ari" where
  "fa_Close s = (None, s\<lparr>fa_closed := True\<rparr>)"

definition fa_Answered :: "fake_ari \<Rightarrow> string list" where "fa_Answered s = fa_answered s"
definition fa_Hungup :: "fake_ari \<Rightarrow> string list" where "fa_Hungup s = fa_hungup s"
definition fa_Continues :: "fake_ari \<Rightarrow> (string \<times> string \<times> string \<times> nat) list" where "fa_Continues s = fa_continues s"
definition fa_Plays :: "fake_ari \<Rightarrow> (string \<times> string \<times> string) list" where "fa_Plays s = fa_plays s"
definition fa_Stops :: "fake_ari \<Rightarrow> string list" where "fa_Stops s = fa_stops s"
definition fa_Recordings :: "fake_ari \<Rightarrow> string list" where "fa_Recordings s = fa_recordings s"
definition fa_ExternalMediaCalls :: "fake_ari \<Rightarrow> (string \<times> string \<times> string) list" where "fa_ExternalMediaCalls s = fa_media s"

fun fa_exec :: "ari_cmd \<Rightarrow> fake_ari \<Rightarrow> gerr option \<times> fake_ari" where
  "fa_exec (AriAnswer ch) s = fa_Answer ch s"
| "fa_exec (AriHangup ch) s = fa_Hangup ch s"
| "fa_exec (AriContinueTo ch ctx ext prio) s = fa_ContinueTo ch ctx ext prio s"
| "fa_exec (AriPlay ch pb uri) s = fa_Play ch pb uri s"
| "fa_exec (AriStopPlayback pb) s = fa_StopPlayback pb s"
| "fa_exec (AriSendDTMF ch digits) s = fa_SendDTMF ch digits s"
| "fa_exec (AriRecord ch name) s = fa_Record ch name s"

text \<open>What a listener on the wire would have recorded of a call on the library.\<close>

fun overhear :: "ari_op \<Rightarrow> fake_ari \<Rightarrow> fake_ari" where
  "overhear (OpAnswer k) s = s\<lparr>fa_answered := fa_answered s @ [ak_id k]\<rparr>"
| "overhear (OpHangup k r) s = s\<lparr>fa_hungup := fa_hungup s @ [ak_id k]\<rparr>"
| "overhear (OpContinue k ctx ext prio) s = s\<lparr>fa_continues := fa_continues s @ [(ak_id k, ctx, ext, prio)]\<rparr>"
| "overhear (OpPlay k pb uri) s = s\<lparr>fa_plays := fa_plays s @ [(ak_id k, pb, uri)]\<rparr>"
| "overhear (OpStop k) s = s\<lparr>fa_stops := fa_stops s @ [ak_id k]\<rparr>"
| "overhear (OpSendDTMF k digits) s = s\<lparr>fa_dtmf := fa_dtmf s @ [(ak_id k, digits)]\<rparr>"
| "overhear (OpRecord k n f ex) s = s\<lparr>fa_recordings := fa_recordings s @ [ak_id k]\<rparr>"
| "overhear (OpExternalMedia ch app host format enc tr) s = s\<lparr>fa_media := fa_media s @ [(ch, host, format)]\<rparr>"
| "overhear (OpData k) s = s"
| "overhear OpClose s = s\<lparr>fa_closed := True\<rparr>"

fun cl_program :: "ari_library \<Rightarrow> ari_client \<Rightarrow> ari_cmd list \<Rightarrow> ari_op list \<Rightarrow> gerr option list \<times> ari_op list" where
  "cl_program L c [] l = ([], l)"
| "cl_program L c (x # xs) l = (case cl_exec L c x l of (e, l) \<Rightarrow> (case cl_program L c xs l of (es, l) \<Rightarrow> (e # es, l)))"

fun fa_program :: "ari_cmd list \<Rightarrow> fake_ari \<Rightarrow> gerr option list \<times> fake_ari" where
  "fa_program [] s = ([], s)"
| "fa_program (x # xs) s = (case fa_exec x s of (e, s) \<Rightarrow> (case fa_program xs s of (es, s) \<Rightarrow> (e # es, s)))"

lemmas fa_defs = fa_guard_def fa_Answer_def fa_Hangup_def fa_ContinueTo_def fa_Play_def fa_StopPlayback_def fa_SendDTMF_def fa_Record_def

lemma fa_exec_overhears: "fa_err s = None \<Longrightarrow> fa_exec x s = (None, overhear (op_of x) s)"
  by (cases x) (simp_all add: fa_defs channelKey_def NewKey_def)

lemma overhear_err [simp]: "fa_err (overhear x s) = fa_err s"
  by (cases x) simp_all

lemma fa_exec_refused: "fa_err s = Some e \<Longrightarrow> fa_exec x s = (Some e, s)"
  by (cases x) (simp_all add: fa_defs)

lemma cl_exec_healthy: "(\<forall>l op. L l op = None) \<Longrightarrow> cl_exec L c x l = (None, l @ [op_of x])"
  using cl_exec_log [of L c x l] cl_exec_fails [of L c x l] by (cases "cl_exec L c x l") simp

text \<open>
  The in-memory ARI stands in for the real one: over a library that accepts everything, any program of commands gets
  the same answers from both, and what the fake has recorded is what a listener on the library would have; a fake
  that is told to fail records nothing.
\<close>

lemma fake_ari_mirrors_the_wire:
  assumes "\<forall>l op. L l op = None" and "fa_err s = None" and "cl_program L c xs l = (es, l')"
  shows "\<exists>k. l' = l @ k \<and> fa_program xs s = (es, fold overhear k s)"
  using assms(2,3)
proof (induction xs arbitrary: s l es)
  case (Cons x xs)
  obtain es1 where p: "cl_program L c xs (l @ [op_of x]) = (es1, l')" "es = None # es1"
    using Cons.prems(2) by (auto simp: cl_exec_healthy [OF assms(1)] split: prod.splits)
  have e: "fa_err (overhear (op_of x) s) = None" using Cons.prems(1) by simp
  from Cons.IH [OF e p(1)] obtain k where "l' = (l @ [op_of x]) @ k" "fa_program xs (overhear (op_of x) s) = (es1, fold overhear k (overhear (op_of x) s))"
    by blast
  then show ?case by (intro exI [of _ "op_of x # k"]) (simp add: fa_exec_overhears [OF Cons.prems(1)] p(2))
qed simp

lemma failing_fake_records_nothing: "fa_err s = Some e \<Longrightarrow> fa_program xs s = (map (\<lambda>_. Some e) xs, s)"
  by (induction xs) (simp_all add: fa_exec_refused)

end
