(* ===== verification/Telnyx_Fakes.thy ===== *)
theory Telnyx_Fakes
  imports Telnyx_Client Carriers Media
begin

text \<open>
  \<open>internal/telnyx/fake.go\<close>: the in-memory call control and media stream of the tests and of local runs. The call control
  is compared with the HTTP client of \<open>Telnyx_Client\<close> on whole programs of commands; the stream's inbound channel is its
  queue, its capacity and whether it was closed, and a send on it may block or panic as a Go channel does.
\<close>

section \<open>Call control\<close>

record fake_call_control =
  fc_err :: "gerr option"
  fc_answered :: "string list"
  fc_hungup :: "string list"
  fc_transfers :: "(string \<times> string) list"
  fc_recordings :: "string list"
  fc_playbacks :: "(string \<times> string) list"
  fc_flushes :: "string list"
  fc_dtmf :: "(string \<times> string) list"

definition fc_guard :: "(fake_call_control \<Rightarrow> fake_call_control) \<Rightarrow> fake_call_control \<Rightarrow> gerr option \<times> fake_call_control" where
  "fc_guard f s = (if fc_err s \<noteq> None then (fc_err s, s) else (None, f s))"

definition fc_Answer :: "string \<Rightarrow> fake_call_control \<Rightarrow> gerr option \<times> fake_call_control" where
  "fc_Answer i = fc_guard (\<lambda>s. s\<lparr>fc_answered := fc_answered s @ [i]\<rparr>)"

definition fc_Hangup :: "string \<Rightarrow> fake_call_control \<Rightarrow> gerr option \<times> fake_call_control" where
  "fc_Hangup i = fc_guard (\<lambda>s. s\<lparr>fc_hungup := fc_hungup s @ [i]\<rparr>)"

definition fc_Transfer :: "string \<Rightarrow> string \<Rightarrow> fake_call_control \<Rightarrow> gerr option \<times> fake_call_control" where
  "fc_Transfer i dst = fc_guard (\<lambda>s. s\<lparr>fc_transfers := fc_transfers s @ [(i, dst)]\<rparr>)"

definition fc_StartRecording :: "string \<Rightarrow> fake_call_control \<Rightarrow> gerr option \<times> fake_call_control" where
  "fc_StartRecording i = fc_guard (\<lambda>s. s\<lparr>fc_recordings := fc_recordings s @ [i]\<rparr>)"

definition fc_Playback :: "string \<Rightarrow> string \<Rightarrow> fake_call_control \<Rightarrow> gerr option \<times> fake_call_control" where
  "fc_Playback i url = fc_guard (\<lambda>s. s\<lparr>fc_playbacks := fc_playbacks s @ [(i, url)]\<rparr>)"

definition fc_FlushPlayback :: "string \<Rightarrow> fake_call_control \<Rightarrow> gerr option \<times> fake_call_control" where
  "fc_FlushPlayback i = fc_guard (\<lambda>s. s\<lparr>fc_flushes := fc_flushes s @ [i]\<rparr>)"

definition fc_SendDTMF :: "string \<Rightarrow> string \<Rightarrow> fake_call_control \<Rightarrow> gerr option \<times> fake_call_control" where
  "fc_SendDTMF i digits = fc_guard (\<lambda>s. s\<lparr>fc_dtmf := fc_dtmf s @ [(i, digits)]\<rparr>)"

definition fc_Answered :: "fake_call_control \<Rightarrow> string list" where "fc_Answered s = fc_answered s"
definition fc_Hungup :: "fake_call_control \<Rightarrow> string list" where "fc_Hungup s = fc_hungup s"
definition fc_Transfers :: "fake_call_control \<Rightarrow> (string \<times> string) list" where "fc_Transfers s = fc_transfers s"
definition fc_Flushes :: "fake_call_control \<Rightarrow> string list" where "fc_Flushes s = fc_flushes s"

fun fc_exec :: "string \<times> verb \<Rightarrow> fake_call_control \<Rightarrow> gerr option \<times> fake_call_control" where
  "fc_exec (i, Answer) s = fc_Answer i s"
| "fc_exec (i, Hangup) s = fc_Hangup i s"
| "fc_exec (i, Transfer dst) s = fc_Transfer i dst s"
| "fc_exec (i, StartRecording) s = fc_StartRecording i s"
| "fc_exec (i, Playback url) s = fc_Playback i url s"
| "fc_exec (i, FlushPlayback) s = fc_FlushPlayback i s"
| "fc_exec (i, SendDTMF digits) s = fc_SendDTMF i digits s"

lemmas fc_defs = fc_guard_def fc_Answer_def fc_Hangup_def fc_Transfer_def fc_StartRecording_def fc_Playback_def
  fc_FlushPlayback_def fc_SendDTMF_def

text \<open>Its records in one list, by kind of command.\<close>

definition fc_recorded :: "fake_call_control \<Rightarrow> (string \<times> verb) list" where
  "fc_recorded s = map (\<lambda>i. (i, Answer)) (fc_answered s) @ map (\<lambda>i. (i, Hangup)) (fc_hungup s) @
     map (\<lambda>(i, d). (i, Transfer d)) (fc_transfers s) @ map (\<lambda>i. (i, StartRecording)) (fc_recordings s) @
     map (\<lambda>(i, u). (i, Playback u)) (fc_playbacks s) @ map (\<lambda>i. (i, FlushPlayback)) (fc_flushes s) @
     map (\<lambda>(i, d). (i, SendDTMF d)) (fc_dtmf s)"

fun fc_program :: "(string \<times> verb) list \<Rightarrow> fake_call_control \<Rightarrow> gerr option list \<times> fake_call_control" where
  "fc_program [] s = ([], s)"
| "fc_program (x # xs) s = (case fc_exec x s of (e, s) \<Rightarrow> (case fc_program xs s of (es, s) \<Rightarrow> (e # es, s)))"

lemma fc_exec_records:
  "fc_err s = None \<Longrightarrow> \<exists>s'. fc_exec x s = (None, s') \<and> fc_err s' = None \<and> mset (fc_recorded s') = add_mset x (mset (fc_recorded s))"
  by (cases "(x, s)" rule: fc_exec.cases) (simp_all add: fc_defs fc_recorded_def)

lemma fc_exec_refused: "fc_err s = Some e \<Longrightarrow> fc_exec x s = (Some e, s)"
  by (cases "(x, s)" rule: fc_exec.cases) (simp_all add: fc_defs)

text \<open>
  The fake answers as a carrier that accepts everything answers the HTTP client, and records each command once; told to
  fail, it fails them all and records none.
\<close>

lemma fake_call_control_mirrors_client:
  assumes "\<forall>req. \<exists>status msg. http req = Inr (status, msg) \<and> status < 300" and "fc_err s = None"
  shows "fst (fc_program xs s) = map (\<lambda>(i, v). fst (command http c i v)) xs \<and>
     mset (fc_recorded (snd (fc_program xs s))) = mset (fc_recorded s) + mset xs"
  using assms(2)
proof (induction xs arbitrary: s)
  case (Cons x xs)
  obtain i v where x: "x = (i, v)" by fastforce
  obtain s' where s': "fc_exec x s = (None, s')" "fc_err s' = None" "mset (fc_recorded s') = add_mset x (mset (fc_recorded s))"
    using fc_exec_records [OF Cons.prems] by blast
  have "fst (command http c i v) = None" using assms(1) by (auto simp: command_fails_iff)
  with Cons.IH [OF s'(2)] s' x show ?case by (auto split: prod.splits)
qed simp

lemma failing_call_control_records_nothing: "fc_err s = Some e \<Longrightarrow> fc_program xs s = (map (\<lambda>_. Some e) xs, s)"
  by (induction xs) (simp_all add: fc_exec_refused)

section \<open>Media stream\<close>

record fake_write =
  fw_pcm :: "8 word list"
  fw_duration_ms :: int

record 'f fake_stream =
  fst_in :: "'f list"
  fst_cap :: nat
  fst_in_closed :: bool
  fst_writes :: "fake_write list"
  fst_flushes :: nat
  fst_closed :: bool

definition NewFakeMediaStream :: "nat \<Rightarrow> 'f fake_stream" where
  "NewFakeMediaStream buf =
     \<lparr>fst_in = [], fst_cap = buf, fst_in_closed = False, fst_writes = [], fst_flushes = 0, fst_closed = False\<rparr>"

datatype 'a chan = Blocks | Panics | Goes 'a

definition PushFrame :: "'f \<Rightarrow> 'f fake_stream \<Rightarrow> 'f fake_stream chan" where
  "PushFrame fr s =
     (if fst_in_closed s then Panics
      else if length (fst_in s) < fst_cap s then Goes (s\<lparr>fst_in := fst_in s @ [fr]\<rparr>) else Blocks)"

definition EndInbound :: "'f fake_stream \<Rightarrow> 'f fake_stream chan" where
  "EndInbound s = (if fst_in_closed s then Panics else Goes (s\<lparr>fst_in_closed := True\<rparr>))"

text \<open>A receive on \<open>Frames()\<close>: a frame, or \<open>None\<close> when the stream has ended.\<close>

definition recv_frame :: "'f fake_stream \<Rightarrow> ('f option \<times> 'f fake_stream) chan" where
  "recv_frame s = (case fst_in s of
       fr # rest \<Rightarrow> Goes (Some fr, s\<lparr>fst_in := rest\<rparr>)
     | [] \<Rightarrow> if fst_in_closed s then Goes (None, s) else Blocks)"

definition stream_Write :: "8 word list \<Rightarrow> int \<Rightarrow> 'f fake_stream \<Rightarrow> gerr option \<times> 'f fake_stream" where
  "stream_Write pcm duration s =
     (if fst_closed s then (Some (Errf ''telnyx: write on closed fake stream'' []), s)
      else (None, s\<lparr>fst_writes := fst_writes s @ [\<lparr>fw_pcm = pcm, fw_duration_ms = duration\<rparr>]\<rparr>))"

definition stream_Flush :: "'f fake_stream \<Rightarrow> gerr option \<times> 'f fake_stream" where
  "stream_Flush s = (None, s\<lparr>fst_flushes := fst_flushes s + 1\<rparr>)"

definition stream_Close :: "'f fake_stream \<Rightarrow> gerr option \<times> 'f fake_stream" where
  "stream_Close s = (None, s\<lparr>fst_closed := True\<rparr>)"

definition stream_Writes :: "'f fake_stream \<Rightarrow> fake_write list" where "stream_Writes s = fst_writes s"
definition stream_FlushCount :: "'f fake_stream \<Rightarrow> nat" where "stream_FlushCount s = fst_flushes s"

interpretation stream_writes: sender "\<lambda>w s. stream_Write (fw_pcm w) (fw_duration_ms w) s" stream_Writes
  by unfold_locales (auto simp: stream_Write_def stream_Writes_def split: if_splits)

text \<open>The test's side pushes and ends, the machine's side receives.\<close>

datatype 'f stream_op = Push 'f | End | Recv

fun stream_run :: "'f stream_op list \<Rightarrow> 'f fake_stream \<Rightarrow> ('f option list \<times> 'f fake_stream) chan" where
  "stream_run [] s = Goes ([], s)"
| "stream_run (Push fr # ops) s = (case PushFrame fr s of Goes s \<Rightarrow> stream_run ops s | Blocks \<Rightarrow> Blocks | Panics \<Rightarrow> Panics)"
| "stream_run (End # ops) s = (case EndInbound s of Goes s \<Rightarrow> stream_run ops s | Blocks \<Rightarrow> Blocks | Panics \<Rightarrow> Panics)"
| "stream_run (Recv # ops) s =
     (case recv_frame s of
        Goes (fr, s) \<Rightarrow> (case stream_run ops s of Goes (frs, s) \<Rightarrow> Goes (fr # frs, s) | Blocks \<Rightarrow> Blocks | Panics \<Rightarrow> Panics)
      | Blocks \<Rightarrow> Blocks | Panics \<Rightarrow> Panics)"

fun pushed :: "'f stream_op list \<Rightarrow> 'f list" where
  "pushed [] = []"
| "pushed (Push fr # ops) = fr # pushed ops"
| "pushed (_ # ops) = pushed ops"

text \<open>Frames come out in the order they went in, none lost and none twice, and the end only after the last of them.\<close>

lemma stream_is_fifo:
  "stream_run ops s = Goes (frs, s') \<Longrightarrow>
   \<exists>k. frs = map Some (take k (fst_in s @ pushed ops)) @ replicate (length frs - k) None \<and> k \<le> length frs \<and>
     k \<le> length (fst_in s @ pushed ops) \<and> fst_in s' = drop k (fst_in s @ pushed ops)"
proof (induction ops s arbitrary: frs rule: stream_run.induct)
  case (1 s)
  then show ?case by (intro exI [of _ 0]) simp
next
  case (2 fr ops s)
  then obtain s1 where s1: "PushFrame fr s = Goes s1" "stream_run ops s1 = Goes (frs, s')" by (auto split: chan.splits)
  have "fst_in s1 @ pushed ops = fst_in s @ pushed (Push fr # ops)"
    using s1(1) by (auto simp: PushFrame_def split: if_splits)
  with 2(1) [OF s1] show ?case by simp
next
  case (3 ops s)
  then obtain s1 where s1: "EndInbound s = Goes s1" "stream_run ops s1 = Goes (frs, s')" by (auto split: chan.splits)
  have "fst_in s1 = fst_in s" using s1(1) by (auto simp: EndInbound_def split: if_splits)
  with 3(1) [OF s1] show ?case by simp
next
  case (4 ops s)
  then obtain fr s1 rest where r: "recv_frame s = Goes (fr, s1)" "stream_run ops s1 = Goes (rest, s')" "frs = fr # rest"
    by (auto split: chan.splits prod.splits)
  from 4(1) [OF r(1) refl r(2)] obtain k where
    k: "rest = map Some (take k (fst_in s1 @ pushed ops)) @ replicate (length rest - k) None" "k \<le> length rest"
      "k \<le> length (fst_in s1 @ pushed ops)" "fst_in s' = drop k (fst_in s1 @ pushed ops)" by auto
  show ?case
  proof (cases "fst_in s")
    case (Cons x xs)
    with r have "fr = Some x" "fst_in s1 = xs" by (auto simp: recv_frame_def)
    with k r(3) Cons show ?thesis by (intro exI [of _ "Suc k"]) auto
  next
    case Nil
    then have e: "fr = None" "s1 = s" "fst_in_closed s" using r by (auto simp: recv_frame_def split: if_splits)
    have "pushed ops = []" if "fst_in_closed u" "stream_run ops u = Goes (q, v)" for ops u q v
      using that
    proof (induction ops u arbitrary: q rule: stream_run.induct)
      case (4 ops u)
      then show ?case by (auto simp: recv_frame_def split: chan.splits prod.splits list.splits if_splits)
    qed (auto simp: PushFrame_def EndInbound_def)
    with e r(2) have "pushed ops = []" by blast
    with k e Nil r(3) show ?thesis by (intro exI [of _ 0]) auto
  qed
qed

end
